(* ===== verification/Prelude.thy ===== *)
theory Prelude
  imports Complex_Main "HOL-Library.Monad_Syntax"
begin

text \<open>
  Shared ground of the development: the theorem collections the component theories extend,
  the result type that stands for "returns or raises", and the generic facts on lists,
  options and association lists that more than one component uses.

  A Python call that may raise is a value of type \<open>('e, 'a) result\<close>: \<open>Inl e\<close> for the
  exception, \<open>Inr v\<close> for the returned value. A Python \<^verbatim>\<open>dict\<close> is an association
  list in insertion order (\<open>dict_get\<close>, \<open>dict_set\<close>), because iteration order is
  observable in several places of the code.
\<close>

named_theorems dec_laws "order laws of the rounded decimal operations"
named_theorems dec_signs "sign laws of the rounded decimal operations"
named_theorems lifecycle_defs "definitions of the transfer lifecycle steps"

subsection \<open>Results\<close>

type_synonym ('e, 'a) result = "'e + 'a"

definition res_bind :: "('e, 'a) result \<Rightarrow> ('a \<Rightarrow> ('e, 'b) result) \<Rightarrow> ('e, 'b) result" where
  "res_bind r f = (case r of Inl e \<Rightarrow> Inl e | Inr v \<Rightarrow> f v)"

lemma res_bind_simps [simp]:
  "res_bind (Inl e) f = Inl e"
  "res_bind (Inr v) f = f v"
  by (simp_all add: res_bind_def)

lemma res_bind_Inr_iff:
  "res_bind r f = Inr w \<longleftrightarrow> (\<exists>v. r = Inr v \<and> f v = Inr w)"
  by (cases r) auto

definition is_ok :: "('e, 'a) result \<Rightarrow> bool" where
  "is_ok r = (case r of Inl _ \<Rightarrow> False | Inr _ \<Rightarrow> True)"

lemma is_ok_simps [simp]: "\<not> is_ok (Inl e)" "is_ok (Inr v)"
  by (simp_all add: is_ok_def)

subsection \<open>Dictionaries in insertion order\<close>

type_synonym ('k, 'v) dict = "('k \<times> 'v) list"

fun dict_get :: "('k, 'v) dict \<Rightarrow> 'k \<Rightarrow> 'v option" where
  "dict_get [] k = None"
| "dict_get ((k', v) # d) k = (if k' = k then Some v else dict_get d k)"

fun dict_set :: "('k, 'v) dict \<Rightarrow> 'k \<Rightarrow> 'v \<Rightarrow> ('k, 'v) dict" where
  "dict_set [] k v = [(k, v)]"
| "dict_set ((k', v') # d) k v = (if k' = k then (k, v) # d else (k', v') # dict_set d k v)"

definition dict_keys :: "('k, 'v) dict \<Rightarrow> 'k list" where
  "dict_keys d = map fst d"

definition dict_ok :: "('k, 'v) dict \<Rightarrow> bool" where
  "dict_ok d \<longleftrightarrow> distinct (map fst d)"

lemma dict_get_set [simp]:
  "dict_get (dict_set d k v) k' = (if k' = k then Some v else dict_get d k')"
  by (induction d k v rule: dict_set.induct) auto

lemma dict_set_mem: "(k, v) \<in> set (dict_set d k' v') \<Longrightarrow> (k = k' \<and> v = v') \<or> (k, v) \<in> set d"
  by (induction d k' v' rule: dict_set.induct) (auto split: if_splits)

lemma set_keys_dict_set [simp]: "set (map fst (dict_set d k v)) = insert k (set (map fst d))"
  by (induction d k v rule: dict_set.induct) auto

lemma dict_ok_set [simp]: "dict_ok d \<Longrightarrow> dict_ok (dict_set d k v)"
  unfolding dict_ok_def
proof (induction d k v rule: dict_set.induct)
  case (2 k' v' d k v)
  then show ?case using set_keys_dict_set [of d k v] by auto
qed simp

lemma dict_get_None_iff: "dict_get d k = None \<longleftrightarrow> k \<notin> fst ` set d"
  by (induction d k rule: dict_get.induct) auto

lemma dict_get_Some_in: "dict_get d k = Some v \<Longrightarrow> (k, v) \<in> set d"
  by (induction d k rule: dict_get.induct) (auto split: if_splits)

lemma dict_get_in_iff: "dict_ok d \<Longrightarrow> dict_get d k = Some v \<longleftrightarrow> (k, v) \<in> set d"
  unfolding dict_ok_def
  by (induction d k rule: dict_get.induct) (force split: if_splits)+

lemma dict_get_map_of: "dict_get d = map_of d"
proof
  fix k show "dict_get d k = map_of d k" by (induction d) auto
qed

text \<open>\<^verbatim>\<open>d.pop(k, None)\<close>, the value apart.\<close>

definition dict_pop :: "('k, 'v) dict \<Rightarrow> 'k \<Rightarrow> ('k, 'v) dict" where
  "dict_pop d k = filter (\<lambda>(k', _). k' \<noteq> k) d"

lemma dict_get_pop [simp]: "dict_get (dict_pop d k) k' = (if k' = k then None else dict_get d k')"
  unfolding dict_pop_def by (induction d) auto

lemma dict_ok_pop [simp]: "dict_ok d \<Longrightarrow> dict_ok (dict_pop d k)"
  unfolding dict_pop_def dict_ok_def by (induction d) auto

lemma dict_pop_absent: "k \<notin> fst ` set d \<Longrightarrow> dict_pop d k = d"
  unfolding dict_pop_def by (induction d) auto

definition dict_count :: "('v \<Rightarrow> bool) \<Rightarrow> ('k, 'v) dict \<Rightarrow> int" where
  "dict_count P d = int (length (filter (P \<circ> snd) d))"

lemma dict_count_Nil [simp]: "dict_count P [] = 0"
  by (simp add: dict_count_def)

lemma dict_count_nonneg [simp]: "0 \<le> dict_count P d"
  by (simp add: dict_count_def)

lemma dict_count_set:
  "dict_count P (dict_set d k v) =
     dict_count P d + of_bool (P v) - (case dict_get d k of Some w \<Rightarrow> of_bool (P w) | None \<Rightarrow> 0)"
  unfolding dict_count_def by (induction d k v rule: dict_set.induct) auto

lemma dict_count_pop:
  "dict_ok d \<Longrightarrow> dict_count P (dict_pop d k) = dict_count P d - (case dict_get d k of Some w \<Rightarrow> of_bool (P w) | None \<Rightarrow> 0)"
proof (induction d)
  case (Cons x d)
  show ?case
  proof (cases "fst x = k")
    case True
    then have "dict_pop (x # d) k = d" "dict_get (x # d) k = Some (snd x)"
      using Cons.prems dict_pop_absent [of k d] by (cases x, auto simp: dict_pop_def dict_ok_def)+
    then show ?thesis by (simp add: dict_count_def)
  next
    case False
    then show ?thesis using Cons by (cases x) (auto simp: dict_pop_def dict_count_def dict_ok_def)
  qed
qed (simp add: dict_pop_def)

subsection \<open>Options and lists\<close>

definition opt_or :: "'a option \<Rightarrow> 'a \<Rightarrow> 'a" where
  "opt_or x d = (case x of None \<Rightarrow> d | Some v \<Rightarrow> v)"

lemma opt_or_simps [simp]: "opt_or None d = d" "opt_or (Some v) d = v"
  by (simp_all add: opt_or_def)

lemma find_Some_in: "List.find P xs = Some x \<Longrightarrow> x \<in> set xs \<and> P x"
  by (auto simp: find_Some_iff in_set_conv_nth)

lemma find_None_all: "List.find P xs = None \<longleftrightarrow> (\<forall>x \<in> set xs. \<not> P x)"
  by (auto simp: find_None_iff)

lemma sorted_wrt_ends:
  assumes "sorted_wrt R ls" "\<And>y. R y y" "x \<in> set ls"
  shows "R (hd ls) x \<and> R x (last ls)"
  using assms(1,3)
proof (induction ls)
  case (Cons l ls)
  then show ?case using assms(2) by (cases "ls = []") auto
qed simp

end
