(* ===== verification/Py_Decimal.thy ===== *)
theory Py_Decimal
  imports Prelude
begin

text \<open>
  Python's \<^verbatim>\<open>decimal.Decimal\<close> under the default context, as far as the bot uses it.

  A finite Decimal is a rational number; its sign, coefficient and exponent matter only for
  printing. Arithmetic is computed exactly and then rounded to 28 significant digits, half
  to even (\<open>fix28\<close>); \<^verbatim>\<open>quantize\<close> rounds to a fixed number of decimal places. The
  theory proves the laws every later proof uses: rounding is monotone, odd, keeps signs and
  is the identity on numbers with at most 28 significant digits. The traps for overflow,
  underflow and for a quantize whose result needs more than 28 digits (magnitudes of
  \<open>10 ^ 20\<close> and more at eight places) are outside the model.
\<close>

type_synonym decimal = rat

subsection \<open>Rounding to an integer, half to even\<close>

definition round_half_even :: "rat \<Rightarrow> int" where
  "round_half_even x =
     (let f = \<lfloor>x\<rfloor>; d = x - of_int f in
      if d < 1 / 2 then f
      else if d > 1 / 2 then f + 1
      else if even f then f else f + 1)"

lemma round_half_even_of_int [simp]: "round_half_even (of_int n) = n"
  by (simp add: round_half_even_def)

lemma round_half_even_bounds:
  "of_int (round_half_even x) - 1 / 2 \<le> x" "x \<le> of_int (round_half_even x) + 1 / 2"
proof -
  have f: "of_int \<lfloor>x\<rfloor> \<le> x" "x < of_int \<lfloor>x\<rfloor> + 1" by linarith+
  have c: "(of_int (round_half_even x) = (of_int \<lfloor>x\<rfloor> :: rat) \<and> x - of_int \<lfloor>x\<rfloor> \<le> 1 / 2) \<or>
      (of_int (round_half_even x) = (of_int \<lfloor>x\<rfloor> + 1 :: rat) \<and> 1 / 2 \<le> x - of_int \<lfloor>x\<rfloor>)"
    unfolding round_half_even_def Let_def by auto
  show "of_int (round_half_even x) - 1 / 2 \<le> x"
    using c f by linarith
  show "x \<le> of_int (round_half_even x) + 1 / 2"
    using c f by linarith
qed

lemma round_half_even_floor:
  "\<lfloor>x\<rfloor> \<le> round_half_even x" "round_half_even x \<le> \<lfloor>x\<rfloor> + 1"
  by (auto simp: round_half_even_def Let_def)

lemma round_half_even_mono: "x \<le> y \<Longrightarrow> round_half_even x \<le> round_half_even y"
proof (cases "\<lfloor>x\<rfloor> = \<lfloor>y\<rfloor>")
  case True
  assume "x \<le> y"
  with True show ?thesis by (auto simp: round_half_even_def Let_def)
next
  case False
  assume "x \<le> y"
  then have "\<lfloor>x\<rfloor> \<le> \<lfloor>y\<rfloor>" by (rule floor_mono)
  with False have "\<lfloor>x\<rfloor> + 1 \<le> \<lfloor>y\<rfloor>" by simp
  then show ?thesis using round_half_even_floor [of x] round_half_even_floor [of y] by linarith
qed

lemma round_half_even_ge: "of_int n \<le> x \<Longrightarrow> n \<le> round_half_even x"
  using round_half_even_mono [of "of_int n" x] by simp

lemma round_half_even_le: "x \<le> of_int n \<Longrightarrow> round_half_even x \<le> n"
  using round_half_even_mono [of x "of_int n"] by simp

lemma round_half_even_minus: "round_half_even (- x) = - round_half_even x"
proof (cases "x = of_int \<lfloor>x\<rfloor>")
  case True
  then obtain n where "x = of_int n" by blast
  then show ?thesis using round_half_even_of_int [of "- n"] by simp
next
  case False
  have fl: "of_int \<lfloor>x\<rfloor> \<le> x" "x < of_int \<lfloor>x\<rfloor> + 1" by linarith+
  have "\<lfloor>- x\<rfloor> = - \<lfloor>x\<rfloor> - 1"
    using fl False by (simp add: floor_eq_iff) linarith
  then show ?thesis
    by (auto simp: round_half_even_def Let_def)
qed

lemma round_half_even_nonneg: "0 \<le> x \<Longrightarrow> 0 \<le> round_half_even x"
  using round_half_even_ge [of 0 x] by simp

subsection \<open>Decimal exponent of a number\<close>

fun ilog10 :: "nat \<Rightarrow> nat" where
  "ilog10 n = (if n < 10 then 0 else Suc (ilog10 (n div 10)))"

declare ilog10.simps [simp del]

lemma ilog10_bounds: "0 < n \<Longrightarrow> 10 ^ ilog10 n \<le> n \<and> n < 10 ^ Suc (ilog10 n)"
proof (induction n rule: ilog10.induct)
  case (1 n)
  show ?case
  proof (cases "n < 10")
    case True
    with "1.prems" show ?thesis by (subst (1 2) ilog10.simps) auto
  next
    case False
    then have "0 < n div 10" by auto
    with "1.IH" False have ih: "10 ^ ilog10 (n div 10) \<le> n div 10"
      "n div 10 < 10 ^ Suc (ilog10 (n div 10))" by auto
    have e: "ilog10 n = Suc (ilog10 (n div 10))"
      using False by (subst ilog10.simps) simp
    from ih(1) have "10 * 10 ^ ilog10 (n div 10) \<le> n" by linarith
    moreover from ih(2) have "n < 10 * 10 ^ Suc (ilog10 (n div 10))"
      by (metis div_less_iff_less_mult mult.commute zero_less_numeral)
    ultimately show ?thesis by (simp add: e)
  qed
qed

definition adjusted :: "rat \<Rightarrow> int" where
  "adjusted x =
     (let p = quotient_of \<bar>x\<bar>;
          d = int (ilog10 (nat (fst p))) - int (ilog10 (nat (snd p)))
      in if \<bar>x\<bar> < 10 powi d then d - 1 else d)"

lemma powi10_pos [simp]: "0 < (10::rat) powi n"
  by (rule zero_less_power_int) simp

lemma powi10_le_iff [simp]: "(10::rat) powi a \<le> 10 powi b \<longleftrightarrow> a \<le> b"
  by (metis power_int_increasing power_int_strict_increasing not_le numeral_le_one_iff
      one_less_numeral_iff order_less_imp_le semiring_norm(69) semiring_norm(76))

lemma powi10_less_iff [simp]: "(10::rat) powi a < 10 powi b \<longleftrightarrow> a < b"
  by (simp add: not_le [symmetric])

lemma adjusted_bounds:
  assumes "x \<noteq> 0"
  shows "10 powi adjusted x \<le> \<bar>x\<bar>" "\<bar>x\<bar> < 10 powi (adjusted x + 1)"
proof -
  obtain p q where pq: "quotient_of \<bar>x\<bar> = (p, q)" by (cases "quotient_of \<bar>x\<bar>")
  have q: "0 < q" using pq by (rule quotient_of_denom_pos)
  have x: "\<bar>x\<bar> = of_int p / of_int q" using pq by (rule quotient_of_div)
  then have p: "0 < p" using assms q
    by (metis zero_less_abs_iff zero_less_divide_iff of_int_0_less_iff not_less_iff_gr_or_eq)
  define a b where "a = ilog10 (nat p)" and "b = ilog10 (nat q)"
  have pa: "10 ^ a \<le> (of_int p :: rat)" "(of_int p :: rat) < 10 ^ Suc a"
  proof -
    have "int (10 ^ a) \<le> p" "p < int (10 ^ Suc a)"
      using ilog10_bounds [of "nat p"] p by (auto simp: a_def nat_less_iff le_nat_iff)
    then show "10 ^ a \<le> (of_int p :: rat)" "(of_int p :: rat) < 10 ^ Suc a"
      by (metis of_int_le_iff of_int_less_iff of_int_of_nat_eq of_nat_numeral of_nat_power)+
  qed
  have qb: "10 ^ b \<le> (of_int q :: rat)" "(of_int q :: rat) < 10 ^ Suc b"
  proof -
    have "int (10 ^ b) \<le> q" "q < int (10 ^ Suc b)"
      using ilog10_bounds [of "nat q"] q by (auto simp: b_def nat_less_iff le_nat_iff)
    then show "10 ^ b \<le> (of_int q :: rat)" "(of_int q :: rat) < 10 ^ Suc b"
      by (metis of_int_le_iff of_int_less_iff of_int_of_nat_eq of_nat_numeral of_nat_power)+
  qed
  define d where "d = int a - int b"
  have d1: "(10::rat) powi (d + 1) = 10 ^ Suc a / 10 ^ b"
    by (simp add: d_def power_int_add power_int_diff)
  have d0: "(10::rat) powi (d - 1) = 10 ^ a / 10 ^ Suc b"
    by (simp add: d_def power_int_diff)
  have up: "\<bar>x\<bar> < 10 powi (d + 1)"
    unfolding x d1 using pa qb q
    by (intro frac_less) (auto simp: p less_imp_le)
  have lo: "10 powi (d - 1) \<le> \<bar>x\<bar>"
    unfolding x d0 using pa qb q
    by (intro frac_le) (auto simp: p less_imp_le)
  have adj: "adjusted x = (if \<bar>x\<bar> < 10 powi d then d - 1 else d)"
    by (simp add: adjusted_def Let_def pq a_def b_def d_def)
  show "10 powi adjusted x \<le> \<bar>x\<bar>" using lo by (auto simp: adj)
  show "\<bar>x\<bar> < 10 powi (adjusted x + 1)" using up by (auto simp: adj)
qed

lemma adjusted_unique:
  assumes "10 powi e \<le> \<bar>x\<bar>" "\<bar>x\<bar> < 10 powi (e + 1)"
  shows "adjusted x = e"
proof -
  have "0 < \<bar>x\<bar>" using assms(1) powi10_pos [of e] by linarith
  then have "x \<noteq> 0" by simp
  note b = adjusted_bounds [OF this]
  have "adjusted x < e + 1"
    using b(1) assms(2) by (metis order_le_less_trans powi10_less_iff)
  moreover have "e < adjusted x + 1"
    using b(2) assms(1) by (metis order_le_less_trans powi10_less_iff)
  ultimately show ?thesis by simp
qed

lemma adjusted_minus [simp]: "adjusted (- x) = adjusted x"
  by (simp add: adjusted_def)

lemma adjusted_mono: "0 < x \<Longrightarrow> x \<le> y \<Longrightarrow> adjusted x \<le> adjusted y"
proof -
  assume "0 < x" "x \<le> y"
  then have "10 powi adjusted x < (10::rat) powi (adjusted y + 1)"
    using adjusted_bounds(1) [of x] adjusted_bounds(2) [of y] by linarith
  then show ?thesis by simp
qed

subsection \<open>Rounding to 28 significant digits\<close>

definition fix28 :: "rat \<Rightarrow> decimal" where
  "fix28 x =
     (if x = 0 then 0
      else let s = 10 powi (27 - adjusted x) in of_int (round_half_even (x * s)) / s)"

lemma fix28_0 [simp]: "fix28 0 = 0"
  by (simp add: fix28_def)

lemma fix28_minus: "fix28 (- x) = - fix28 x"
  by (simp add: fix28_def Let_def round_half_even_minus)

lemma scaled_bounds:
  assumes "0 < x"
  shows "10 ^ 27 \<le> x * 10 powi (27 - adjusted x)" "x * 10 powi (27 - adjusted x) < 10 ^ 28"
proof -
  let ?s = "10 powi (27 - adjusted x) :: rat"
  have b: "10 powi adjusted x \<le> x" "x < 10 powi (adjusted x + 1)"
    using adjusted_bounds [of x] assms by auto
  have "10 powi adjusted x * ?s \<le> x * ?s" "x * ?s < 10 powi (adjusted x + 1) * ?s"
    using b by simp_all
  moreover have "10 powi adjusted x * ?s = 10 ^ 27" "10 powi (adjusted x + 1) * ?s = 10 ^ 28"
    by (simp_all flip: power_int_add)
  ultimately show "10 ^ 27 \<le> x * ?s" "x * ?s < 10 ^ 28" by simp_all
qed

lemma fix28_bracket:
  assumes "0 < x"
  shows "10 powi adjusted x \<le> fix28 x" "fix28 x \<le> 10 powi (adjusted x + 1)"
proof -
  let ?s = "10 powi (27 - adjusted x) :: rat"
  note b = scaled_bounds [OF assms]
  have f: "fix28 x = of_int (round_half_even (x * ?s)) / ?s"
    using assms by (simp add: fix28_def Let_def)
  have "10 ^ 27 \<le> round_half_even (x * ?s)"
    using b(1) by (intro round_half_even_ge) simp
  then have "(10::rat) ^ 27 \<le> of_int (round_half_even (x * ?s))"
    by (metis of_int_le_iff of_int_numeral of_int_power)
  then have "10 ^ 27 / ?s \<le> fix28 x" unfolding f by (intro divide_right_mono) auto
  moreover have "(10::rat) ^ 27 / ?s = 10 powi adjusted x"
    by (simp add: power_int_diff)
  ultimately show "10 powi adjusted x \<le> fix28 x" by simp
  have "round_half_even (x * ?s) \<le> 10 ^ 28"
    using b(2) by (intro round_half_even_le) simp
  then have "of_int (round_half_even (x * ?s)) \<le> (10::rat) ^ 28"
    by (metis of_int_le_iff of_int_numeral of_int_power)
  then have "fix28 x \<le> 10 ^ 28 / ?s" unfolding f by (intro divide_right_mono) auto
  moreover have "(10::rat) ^ 28 / ?s = 10 powi (adjusted x + 1)"
    by (simp add: power_int_diff power_int_add)
  ultimately show "fix28 x \<le> 10 powi (adjusted x + 1)" by simp
qed

lemma fix28_pos: "0 < x \<Longrightarrow> 0 < fix28 x"
  using fix28_bracket(1) [of x] powi10_pos [of "adjusted x"] by linarith

lemma fix28_mono_pos:
  assumes "0 < x" "x \<le> y"
  shows "fix28 x \<le> fix28 y"
proof (cases "adjusted x = adjusted y")
  case True
  then show ?thesis
    using assms by (auto simp: fix28_def Let_def intro!: divide_right_mono round_half_even_mono)
next
  case False
  then have "adjusted x + 1 \<le> adjusted y" using adjusted_mono [OF assms] by simp
  then have "(10::rat) powi (adjusted x + 1) \<le> 10 powi adjusted y" by simp
  then show ?thesis
    using fix28_bracket(2) [of x] fix28_bracket(1) [of y] assms by linarith
qed

lemma fix28_mono: "x \<le> y \<Longrightarrow> fix28 x \<le> fix28 y"
proof -
  assume le: "x \<le> y"
  consider "0 < x" | "x \<le> 0" "0 \<le> y" | "y < 0" using le by linarith
  then show ?thesis
  proof cases
    case 1
    then show ?thesis using le by (rule fix28_mono_pos)
  next
    case 2
    have "fix28 x \<le> 0" using 2 fix28_pos [of "- x"] by (cases "x = 0") (auto simp: fix28_minus)
    moreover have "0 \<le> fix28 y" using 2 fix28_pos [of y] by (cases "y = 0") auto
    ultimately show ?thesis by simp
  next
    case 3
    then show ?thesis using le fix28_mono_pos [of "- y" "- x"] by (simp add: fix28_minus)
  qed
qed

lemma fix28_exact:
  assumes "x = of_int c * 10 powi e" "\<bar>c\<bar> < 10 ^ 28"
  shows "fix28 x = x"
proof (cases "x = 0")
  case False
  have c: "\<bar>of_int c\<bar> < (10::rat) ^ 28"
    using assms(2) by (metis of_int_abs of_int_less_iff of_int_numeral of_int_power)
  have "\<bar>x\<bar> < 10 ^ 28 * 10 powi e"
    using c by (simp add: assms(1) abs_mult)
  also have "\<dots> = 10 powi (28 + e)" by (simp add: power_int_add)
  finally have "adjusted x < 28 + e"
    using adjusted_bounds(1) [OF False] by (metis order_le_less_trans powi10_less_iff)
  then have "0 \<le> 27 - adjusted x + e" by simp
  then obtain n where n: "27 - adjusted x + e = int n" by (rule nonneg_int_cases)
  have "x * 10 powi (27 - adjusted x) = of_int c * 10 powi (27 - adjusted x + e)"
    by (simp add: assms(1) power_int_add)
  also have "\<dots> = of_int (c * 10 ^ n)" by (simp add: n)
  finally have "round_half_even (x * 10 powi (27 - adjusted x)) = c * 10 ^ n"
    and "x * 10 powi (27 - adjusted x) = of_int (c * 10 ^ n)"
    by (simp_all only: round_half_even_of_int)
  then show ?thesis using False by (simp add: fix28_def Let_def field_simps)
qed simp

subsection \<open>The contract of a rounding context\<close>

text \<open>
  What the arithmetic of the bot relies on: rounding is monotone and odd, never rounds a
  positive number to zero, and is idempotent. Everything the later theories use of the
  decimal operations is derived from these laws.
\<close>

locale decimal_rounding =
  fixes rnd :: "rat \<Rightarrow> rat"
  assumes rnd_mono: "x \<le> y \<Longrightarrow> rnd x \<le> rnd y"
    and rnd_minus: "rnd (- x) = - rnd x"
    and rnd_pos: "0 < x \<Longrightarrow> 0 < rnd x"
    and rnd_idem: "rnd (rnd x) = rnd x"
begin

lemma rnd_zero: "rnd 0 = 0"
  using rnd_minus [of 0] by simp

lemma rnd_pos_iff: "0 < rnd x \<longleftrightarrow> 0 < x"
  using rnd_pos [of x] rnd_mono [of x 0] rnd_zero by (cases "0 < x") auto

lemma rnd_neg_iff: "rnd x < 0 \<longleftrightarrow> x < 0"
  using rnd_pos_iff [of "- x"] by (simp add: rnd_minus)

lemma rnd_nonneg_iff: "0 \<le> rnd x \<longleftrightarrow> 0 \<le> x"
  using rnd_neg_iff [of x] by linarith

lemma rnd_nonpos_iff: "rnd x \<le> 0 \<longleftrightarrow> x \<le> 0"
  using rnd_pos_iff [of x] by linarith

lemma rnd_zero_iff: "rnd x = 0 \<longleftrightarrow> x = 0"
  using rnd_nonneg_iff [of x] rnd_nonpos_iff [of x] by auto

lemma rnd_ge_exact: "rnd y = y \<Longrightarrow> y \<le> x \<Longrightarrow> y \<le> rnd x"
  using rnd_mono [of y x] by simp

lemma rnd_le_exact: "rnd y = y \<Longrightarrow> x \<le> y \<Longrightarrow> rnd x \<le> y"
  using rnd_mono [of x y] by simp

lemma rnd_abs: "rnd \<bar>x\<bar> = \<bar>rnd x\<bar>"
  using rnd_nonneg_iff [of x] rnd_minus [of x] by (cases "0 \<le> x") auto

end

lemma fix28_fix28: "fix28 (fix28 x) = fix28 x"
proof (cases "x = 0")
  case False
  have pos: "fix28 (fix28 y) = fix28 y" if "0 < y" for y
  proof -
    let ?s = "10 powi (27 - adjusted y) :: rat"
    let ?c = "round_half_even (y * ?s)"
    have f: "fix28 y = of_int ?c * 10 powi (adjusted y - 27)"
      using that by (simp add: fix28_def Let_def power_int_diff)
    have "0 \<le> ?c" "?c \<le> 10 ^ 28"
      using scaled_bounds [OF that] that
      by (auto intro!: round_half_even_nonneg round_half_even_le)
    then consider "\<bar>?c\<bar> < 10 ^ 28" | "?c = 10 ^ 28" by linarith
    then show ?thesis
    proof cases
      case 1
      with f show ?thesis by (rule fix28_exact)
    next
      case 2
      then have "fix28 y = of_int 1 * 10 powi (adjusted y + 1)"
        by (simp add: f power_int_diff power_int_add)
      then show ?thesis by (rule fix28_exact) simp
    qed
  qed
  show ?thesis
    using False pos [of x] pos [of "- x"] by (cases "0 < x") (auto simp: fix28_minus)
qed simp

interpretation ctx: decimal_rounding fix28
  by unfold_locales (auto simp: fix28_mono fix28_minus fix28_pos fix28_fix28)

lemmas fix28_signs [simp] =
  ctx.rnd_pos_iff ctx.rnd_neg_iff ctx.rnd_nonneg_iff ctx.rnd_nonpos_iff ctx.rnd_zero_iff

subsection \<open>Decimal arithmetic\<close>

definition dadd :: "decimal \<Rightarrow> decimal \<Rightarrow> decimal" where
  "dadd x y = fix28 (x + y)"

definition dsub :: "decimal \<Rightarrow> decimal \<Rightarrow> decimal" where
  "dsub x y = fix28 (x - y)"

definition dmul :: "decimal \<Rightarrow> decimal \<Rightarrow> decimal" where
  "dmul x y = fix28 (x * y)"

text \<open>The divisor is non-zero at every use; Python raises otherwise.\<close>

definition ddiv :: "decimal \<Rightarrow> decimal \<Rightarrow> decimal" where
  "ddiv x y = fix28 (x / y)"

definition dneg :: "decimal \<Rightarrow> decimal" where
  "dneg x = fix28 (- x)"

definition dabs :: "decimal \<Rightarrow> decimal" where
  "dabs x = fix28 \<bar>x\<bar>"

text \<open>\<^verbatim>\<open>sum(values, DEC0)\<close>: a left fold from zero.\<close>

definition dsum :: "decimal list \<Rightarrow> decimal" where
  "dsum xs = foldl dadd 0 xs"

text \<open>
  \<^verbatim>\<open>quantize\<close> to \<open>k\<close> decimal places, half to even; \<open>quantize_down\<close> is the
  \<^verbatim>\<open>ROUND_DOWN\<close> variant (towards zero); \<open>to_integral_floor\<close> is
  \<^verbatim>\<open>to_integral_value(rounding="ROUND_FLOOR")\<close>.
\<close>

definition quantize :: "nat \<Rightarrow> decimal \<Rightarrow> decimal" where
  "quantize k x = of_int (round_half_even (x * 10 ^ k)) / 10 ^ k"

definition quantize_down :: "nat \<Rightarrow> decimal \<Rightarrow> decimal" where
  "quantize_down k x =
     of_int (if 0 \<le> x then \<lfloor>x * 10 ^ k\<rfloor> else \<lceil>x * 10 ^ k\<rceil>) / 10 ^ k"

definition to_integral_floor :: "decimal \<Rightarrow> decimal" where
  "to_integral_floor x = of_int \<lfloor>x\<rfloor>"

lemma dadd_signs [dec_signs]:
  "0 \<le> x \<Longrightarrow> 0 \<le> y \<Longrightarrow> 0 \<le> dadd x y"
  "0 < x \<Longrightarrow> 0 \<le> y \<Longrightarrow> 0 < dadd x y"
  "0 \<le> x \<Longrightarrow> 0 < y \<Longrightarrow> 0 < dadd x y"
  by (auto simp: dadd_def)

lemma dsub_sign_iffs [simp]:
  "dsub x y \<le> 0 \<longleftrightarrow> x \<le> y" "0 < dsub x y \<longleftrightarrow> y < x"
  "0 \<le> dsub x y \<longleftrightarrow> y \<le> x" "dsub x y < 0 \<longleftrightarrow> x < y" "dsub x y = 0 \<longleftrightarrow> x = y"
  by (auto simp: dsub_def)

lemma dmul_signs [dec_signs]:
  "0 \<le> x \<Longrightarrow> 0 \<le> y \<Longrightarrow> 0 \<le> dmul x y"
  "0 < x \<Longrightarrow> 0 < y \<Longrightarrow> 0 < dmul x y"
  by (auto simp: dmul_def)

lemma ddiv_signs [dec_signs]:
  "0 \<le> x \<Longrightarrow> 0 \<le> y \<Longrightarrow> 0 \<le> ddiv x y"
  "0 < x \<Longrightarrow> 0 < y \<Longrightarrow> 0 < ddiv x y"
  by (auto simp: ddiv_def)

lemma dadd_mono [dec_laws]: "x \<le> x' \<Longrightarrow> y \<le> y' \<Longrightarrow> dadd x y \<le> dadd x' y'"
  unfolding dadd_def by (rule ctx.rnd_mono) simp

lemma dsub_mono [dec_laws]: "x \<le> x' \<Longrightarrow> y' \<le> y \<Longrightarrow> dsub x y \<le> dsub x' y'"
  unfolding dsub_def by (rule ctx.rnd_mono) simp

lemma dmul_mono [dec_laws]: "0 \<le> x \<Longrightarrow> x \<le> x' \<Longrightarrow> 0 \<le> y \<Longrightarrow> y \<le> y' \<Longrightarrow> dmul x y \<le> dmul x' y'"
  unfolding dmul_def by (rule ctx.rnd_mono) (rule mult_mono, auto)

lemma ddiv_mono [dec_laws]: "x \<le> x' \<Longrightarrow> 0 < y \<Longrightarrow> ddiv x y \<le> ddiv x' y"
  unfolding ddiv_def by (rule ctx.rnd_mono) (simp add: divide_right_mono)

lemma dadd_zero [simp]: "dadd 0 x = fix28 x" "dadd x 0 = fix28 x"
  by (simp_all add: dadd_def)

lemma dmul_zero [simp]: "dmul 0 x = 0" "dmul x 0 = 0"
  by (simp_all add: dmul_def)

lemma fix28_ops [simp]:
  "fix28 (dadd x y) = dadd x y" "fix28 (dsub x y) = dsub x y"
  "fix28 (dmul x y) = dmul x y" "fix28 (ddiv x y) = ddiv x y"
  by (simp_all add: dadd_def dsub_def dmul_def ddiv_def ctx.rnd_idem)

subsection \<open>Quantisation\<close>

lemma quantize_mono [dec_laws]: "x \<le> y \<Longrightarrow> quantize k x \<le> quantize k y"
  unfolding quantize_def
  by (intro divide_right_mono) (auto intro!: round_half_even_mono mult_right_mono)

lemma quantize_0 [simp]: "quantize k 0 = 0"
  using round_half_even_of_int [of 0] by (simp add: quantize_def)

lemma quantize_nonneg [dec_signs]: "0 \<le> x \<Longrightarrow> 0 \<le> quantize k x"
  using quantize_mono [of 0 x k] by simp

lemma quantize_error: "\<bar>quantize k x - x\<bar> \<le> 1 / (2 * 10 ^ k)"
proof -
  have "\<bar>of_int (round_half_even (x * 10 ^ k)) - x * 10 ^ k\<bar> \<le> 1 / 2"
    using round_half_even_bounds [of "x * 10 ^ k"] by linarith
  then have "\<bar>of_int (round_half_even (x * 10 ^ k)) - x * 10 ^ k\<bar> / 10 ^ k \<le> (1 / 2) / 10 ^ k"
    by (intro divide_right_mono) auto
  moreover have "quantize k x - x = (of_int (round_half_even (x * 10 ^ k)) - x * 10 ^ k) / 10 ^ k"
    by (simp add: quantize_def field_simps)
  ultimately show ?thesis by (simp add: abs_divide)
qed

lemma quantize_down_le: "0 \<le> x \<Longrightarrow> quantize_down k x \<le> x"
  by (simp add: quantize_down_def divide_le_eq)

lemma quantize_down_nonneg [dec_signs]: "0 \<le> x \<Longrightarrow> 0 \<le> quantize_down k x"
  by (simp add: quantize_down_def)

lemma quantize_down_close: "0 \<le> x \<Longrightarrow> x - quantize_down k x < 1 / 10 ^ k"
proof -
  assume "0 \<le> x"
  have "x * 10 ^ k < of_int \<lfloor>x * 10 ^ k\<rfloor> + 1" by linarith
  then have "x < (of_int \<lfloor>x * 10 ^ k\<rfloor> + 1) / 10 ^ k" by (simp add: less_divide_eq)
  then show ?thesis using \<open>0 \<le> x\<close> by (simp add: quantize_down_def add_divide_distrib)
qed

subsection \<open>Numbers on a decimal grid are computed exactly\<close>

definition on_grid :: "nat \<Rightarrow> rat \<Rightarrow> bool" where
  "on_grid k x \<longleftrightarrow> of_int \<lfloor>x * 10 ^ k\<rfloor> = x * 10 ^ k"

lemma on_grid_iff: "on_grid k x \<longleftrightarrow> (\<exists>c. x = of_int c / 10 ^ k)"
proof
  assume "on_grid k x"
  then obtain c where "x * 10 ^ k = of_int c" unfolding on_grid_def by metis
  then have "x = of_int c / 10 ^ k" by (simp add: eq_divide_eq)
  then show "\<exists>c. x = of_int c / 10 ^ k" by blast
next
  assume "\<exists>c. x = of_int c / 10 ^ k"
  then show "on_grid k x" by (auto simp: on_grid_def)
qed

lemma on_gridI: "x = of_int c / 10 ^ k \<Longrightarrow> on_grid k x"
  by (auto simp: on_grid_iff)

lemma on_grid_0 [simp]: "on_grid k 0"
  by (simp add: on_grid_def)

lemma on_grid_add [intro]: "on_grid k x \<Longrightarrow> on_grid k y \<Longrightarrow> on_grid k (x + y)"
  unfolding on_grid_iff by (metis add_divide_distrib of_int_add)

lemma on_grid_diff [intro]: "on_grid k x \<Longrightarrow> on_grid k y \<Longrightarrow> on_grid k (x - y)"
  unfolding on_grid_iff by (metis diff_divide_distrib of_int_diff)

lemma on_grid_mult: "on_grid j x \<Longrightarrow> on_grid k y \<Longrightarrow> on_grid (j + k) (x * y)"
  unfolding on_grid_iff by (metis of_int_mult power_add times_divide_times_eq)

lemma on_grid_min [intro]: "on_grid k x \<Longrightarrow> on_grid k y \<Longrightarrow> on_grid k (min x y)"
  by (simp add: min_def)

lemma on_grid_quantize [simp, intro]: "on_grid k (quantize k x)"
  by (rule on_gridI) (simp add: quantize_def)

lemma on_grid_quantize_down [simp, intro]: "on_grid k (quantize_down k x)"
  by (rule on_gridI) (simp add: quantize_down_def)

lemma quantize_grid: "on_grid k x \<Longrightarrow> quantize k x = x"
  by (auto simp: on_grid_iff quantize_def)

lemma quantize_idem [simp]: "quantize k (quantize k x) = quantize k x"
  by (simp add: quantize_grid)

lemma fix28_grid:
  assumes "on_grid k x" "\<bar>x\<bar> * 10 ^ k < 10 ^ 28"
  shows "fix28 x = x"
proof -
  obtain c where c: "x = of_int c / 10 ^ k" using assms(1) by (auto simp: on_grid_iff)
  have "x = of_int c * 10 powi (- int k)" by (simp add: c power_int_minus field_simps)
  moreover have "of_int \<bar>c\<bar> < (of_int (10 ^ 28) :: rat)"
    using assms(2) by (simp add: c abs_divide)
  then have "\<bar>c\<bar> < 10 ^ 28" by (simp only: of_int_less_iff)
  ultimately show ?thesis by (rule fix28_exact)
qed

lemma quantize_below_grid: "on_grid k y \<Longrightarrow> x \<le> y \<Longrightarrow> quantize k x \<le> y"
  using quantize_mono [of x y k] by (simp add: quantize_grid)

lemma quantize_above_grid: "on_grid k y \<Longrightarrow> y \<le> x \<Longrightarrow> y \<le> quantize k x"
  using quantize_mono [of y x k] by (simp add: quantize_grid)

lemma fix28_grid8: "on_grid 8 x \<Longrightarrow> \<bar>x\<bar> < 10 ^ 20 \<Longrightarrow> fix28 x = x"
  by (rule fix28_grid [of 8]) auto

lemma fix28_grid16: "on_grid 16 x \<Longrightarrow> \<bar>x\<bar> < 10 ^ 12 \<Longrightarrow> fix28 x = x"
  by (rule fix28_grid [of 16]) auto

lemma on_grid_le: "on_grid j x \<Longrightarrow> j \<le> k \<Longrightarrow> on_grid k x"
proof -
  assume "on_grid j x" "j \<le> k"
  then obtain c where c: "x = of_int c / 10 ^ j" by (auto simp: on_grid_iff)
  have "x = of_int (c * 10 ^ (k - j)) / 10 ^ k"
    using \<open>j \<le> k\<close> by (simp add: c field_simps flip: power_add)
  then show ?thesis by (rule on_gridI)
qed

text \<open>The relative error of one rounding, and its consequence for quotients on the grid.\<close>

lemma fix28_error: "\<bar>fix28 x - x\<bar> \<le> \<bar>x\<bar> / (2 * 10 ^ 27)"
proof (cases "x = 0")
  case False
  let ?s = "10 powi (27 - adjusted x) :: rat"
  have s: "0 < ?s" by simp
  have e: "fix28 x - x = (of_int (round_half_even (x * ?s)) - x * ?s) / ?s"
    using False s by (simp add: fix28_def Let_def diff_divide_distrib)
  have "\<bar>of_int (round_half_even (x * ?s)) - x * ?s\<bar> \<le> 1 / 2"
    using round_half_even_bounds [of "x * ?s"] by linarith
  then have "\<bar>fix28 x - x\<bar> \<le> (1 / 2) / ?s"
    unfolding e abs_divide using s by (simp only: abs_of_pos) (intro divide_right_mono, auto)
  also have "(1 / 2) / ?s = 10 powi adjusted x / (2 * 10 ^ 27)"
    by (simp add: power_int_diff)
  also have "\<dots> \<le> \<bar>x\<bar> / (2 * 10 ^ 27)"
    using adjusted_bounds(1) [OF False] by (intro divide_right_mono) auto
  finally show ?thesis .
qed simp

lemma floor_ddiv_grid:
  assumes "on_grid 8 x" "0 \<le> x" "x < 10 ^ 18" "on_grid 8 y" "0 < y"
  shows "\<lfloor>ddiv x y\<rfloor> = \<lfloor>x / y\<rfloor>"
proof -
  obtain a b where a: "x = of_int a / 10 ^ 8" and b: "y = of_int b / 10 ^ 8"
    using assms by (auto simp: on_grid_iff)
  have b0: "0 < b" and a0: "0 \<le> a" using assms by (auto simp: a b zero_less_divide_iff zero_le_divide_iff)
  have q: "x / y = of_int a / of_int b" by (simp add: a b)
  let ?n = "\<lfloor>x / y\<rfloor>"
  have n: "?n = a div b" unfolding q by (rule floor_divide_of_int_eq)
  have n0: "0 \<le> ?n" using a0 b0 by (simp add: n pos_imp_zdiv_nonneg_iff)
  have "of_int a < (of_int (10 ^ 26) :: rat)" using assms(3) by (simp add: a)
  then have am: "a < 10 ^ 26" by (simp only: of_int_less_iff)
  have "?n \<le> a"
    using a0 b0 zdiv_mono2 [of a 1 b] by (simp add: n)
  moreover have "(10::int) ^ 26 < 10 ^ 28" by simp
  ultimately have "\<bar>?n\<bar> < 10 ^ 28" using n0 am by linarith
  then have ex: "fix28 (of_int ?n) = of_int ?n"
    using fix28_exact [of "of_int ?n" ?n 0] by simp
  have lo: "of_int ?n \<le> ddiv x y"
    unfolding ddiv_def using ex by (rule ctx.rnd_ge_exact) simp
  have "a < (a div b + 1) * b" using b0 by (metis add.commute distrib_right mult_1
        div_mult_mod_eq add_strict_left_mono pos_mod_bound mult.commute)
  then have "a + 1 \<le> (?n + 1) * b" by (simp add: n)
  then have "of_int (a + 1) \<le> (of_int ((?n + 1) * b) :: rat)" by (simp only: of_int_le_iff)
  then have up: "x / y + 1 / of_int b \<le> of_int ?n + 1"
    using b0 by (simp add: q field_simps)
  have "\<bar>ddiv x y - x / y\<bar> \<le> \<bar>x / y\<bar> / (2 * 10 ^ 27)" unfolding ddiv_def by (rule fix28_error)
  also have "\<dots> = (of_int a / (2 * 10 ^ 27)) / of_int b" using a0 b0 by (simp add: q)
  also have "\<dots> < 1 / of_int b"
  proof (rule divide_strict_right_mono)
    have "of_int a < (of_int (10 ^ 26) :: rat)" using am by (simp only: of_int_less_iff)
    then show "of_int a / (2 * 10 ^ 27) < (1 :: rat)" by simp
  qed (use b0 in simp)
  finally have "ddiv x y < of_int ?n + 1" using up by linarith
  with lo show ?thesis by (simp add: floor_eq_iff)
qed

subsection \<open>Evaluation on concrete numbers\<close>

text \<open>
  Numbers with at most 16 decimal places below \<open>10 ^ 12\<close> are computed exactly; the
  bundle \<open>dec_eval\<close> lets the simplifier evaluate the operations on them.
\<close>

lemma floor_numeral_divide [simp]:
  "\<lfloor>numeral a / numeral b :: rat\<rfloor> = numeral a div numeral b"
  using floor_divide_of_int_eq [of "numeral a" "numeral b", where ?'a = rat] by simp

lemma floor_one_divide [simp]: "\<lfloor>1 / numeral b :: rat\<rfloor> = 1 div numeral b"
  using floor_divide_of_int_eq [of 1 "numeral b", where ?'a = rat] by simp

lemmas dec_eval =
  dadd_def dsub_def dmul_def ddiv_def dneg_def dabs_def dsum_def
  fix28_grid [of 16] on_grid_def quantize_def quantize_down_def round_half_even_def
  to_integral_floor_def Let_def

end
