(* ===== verification/Py_Strings.thy ===== *)
theory Py_Strings
  imports Prelude
begin

text \<open>
  The string methods the bot uses on identifiers: \<^verbatim>\<open>upper\<close>, \<^verbatim>\<open>lower\<close>,
  \<^verbatim>\<open>strip\<close> and \<^verbatim>\<open>partition\<close> with a one-character separator. Identifiers
  (venue ids, asset codes, network codes) are ASCII, and the case mappings are those of
  ASCII letters.
\<close>

definition upper_char :: "char \<Rightarrow> char" where
  "upper_char c = (let n = of_char c :: nat in
     if 97 \<le> n \<and> n \<le> 122 then char_of (n - 32) else c)"

definition lower_char :: "char \<Rightarrow> char" where
  "lower_char c = (let n = of_char c :: nat in
     if 65 \<le> n \<and> n \<le> 90 then char_of (n + 32) else c)"

definition py_upper :: "string \<Rightarrow> string" where
  "py_upper s = map upper_char s"

definition py_lower :: "string \<Rightarrow> string" where
  "py_lower s = map lower_char s"

definition is_space :: "char \<Rightarrow> bool" where
  "is_space c = (let n = of_char c :: nat in n = 32 \<or> (9 \<le> n \<and> n \<le> 13) \<or> (28 \<le> n \<and> n \<le> 31))"

definition py_strip :: "string \<Rightarrow> string" where
  "py_strip s = rev (dropWhile is_space (rev (dropWhile is_space s)))"

text \<open>\<^verbatim>\<open>text.partition(sep)\<close>: the part before the first separator, whether it was
  found, and the part after it.\<close>

fun py_partition :: "char \<Rightarrow> string \<Rightarrow> string \<times> bool \<times> string" where
  "py_partition sep [] = ([], False, [])"
| "py_partition sep (c # s) =
     (if c = sep then ([], True, s)
      else (case py_partition sep s of (a, found, b) \<Rightarrow> (c # a, found, b)))"

text \<open>\<^verbatim>\<open>needle in s\<close>.\<close>

fun py_contains :: "string \<Rightarrow> string \<Rightarrow> bool" where
  "py_contains needle [] = (needle = [])"
| "py_contains needle (c # s) = (take (length needle) (c # s) = needle \<or> py_contains needle s)"

lemma upper_char_idem [simp]: "upper_char (upper_char c) = upper_char c"
  by (auto simp: upper_char_def Let_def)

lemma lower_char_idem [simp]: "lower_char (lower_char c) = lower_char c"
  by (auto simp: lower_char_def Let_def)

lemma py_upper_idem [simp]: "py_upper (py_upper s) = py_upper s"
  by (simp add: py_upper_def)

lemma py_lower_idem [simp]: "py_lower (py_lower s) = py_lower s"
  by (simp add: py_lower_def)

lemma py_upper_Nil [simp]: "py_upper s = [] \<longleftrightarrow> s = []" "py_upper [] = []"
  by (simp_all add: py_upper_def)

lemma py_upper_append [simp]: "py_upper (s @ t) = py_upper s @ py_upper t"
  by (simp add: py_upper_def)

lemma py_strip_Nil [simp]: "py_strip [] = []"
  by (simp add: py_strip_def)

text \<open>A string that neither starts nor ends with white space is its own strip.\<close>

definition trimmed :: "string \<Rightarrow> bool" where
  "trimmed s \<longleftrightarrow> (s = [] \<or> (\<not> is_space (hd s) \<and> \<not> is_space (last s)))"

lemma py_strip_trimmed: "trimmed s \<Longrightarrow> py_strip s = s"
proof (cases "s = []")
  case False
  assume "trimmed s"
  with False have h: "\<not> is_space (hd s)" and l: "\<not> is_space (last s)"
    by (auto simp: trimmed_def)
  have "dropWhile is_space s = s" using h False by (cases s) auto
  moreover have "dropWhile is_space (rev s) = rev s"
    using l False by (cases "rev s") (auto simp: last_rev hd_rev [symmetric] rev_eq_Cons_iff)
  ultimately show ?thesis by (simp add: py_strip_def)
qed simp

lemma py_partition_absent: "sep \<notin> set s \<Longrightarrow> py_partition sep s = (s, False, [])"
  by (induction s) auto

lemma py_partition_split: "sep \<notin> set a \<Longrightarrow> py_partition sep (a @ sep # b) = (a, True, b)"
  by (induction a) auto

lemma is_space_upper [simp]: "is_space (upper_char c) = is_space c"
  by (auto simp: is_space_def upper_char_def Let_def)

lemma py_strip_upper: "py_strip (py_upper s) = py_upper (py_strip s)"
proof -
  have "is_space \<circ> upper_char = is_space" by (simp add: fun_eq_iff)
  then show ?thesis by (simp add: py_strip_def py_upper_def dropWhile_map rev_map)
qed

lemma dropWhile_end_hd: "xs \<noteq> [] \<Longrightarrow> \<not> P (hd xs) \<Longrightarrow> ys = rev (dropWhile P (rev xs)) \<Longrightarrow> ys \<noteq> [] \<and> hd ys = hd xs"
proof -
  assume a: "xs \<noteq> []" "\<not> P (hd xs)" "ys = rev (dropWhile P (rev xs))"
  obtain x zs where x: "xs = x # zs" using a(1) by (cases xs) auto
  have "dropWhile P (rev zs @ [x]) = dropWhile P (rev zs) @ [x]"
    using a(2) x by (induction "rev zs" rule: rev_induct) (auto simp: dropWhile_append dropWhile_append3)
  then show ?thesis using a(3) x by simp
qed

lemma trimmed_strip: "trimmed (py_strip s)"
proof -
  let ?d = "dropWhile is_space s"
  show ?thesis
  proof (cases "?d = []")
    case True
    then have "py_strip s = []" unfolding py_strip_def True by simp
    then show ?thesis by (simp add: trimmed_def)
  next
    case False
    have h: "\<not> is_space (hd ?d)" using False hd_dropWhile by blast
    note p = dropWhile_end_hd [of ?d is_space, OF False h refl]
    have "\<not> is_space (last (py_strip s))"
      using p hd_dropWhile [of is_space "rev ?d"] by (simp add: py_strip_def last_rev)
    then show ?thesis using p h by (simp add: trimmed_def py_strip_def)
  qed
qed

lemma py_strip_idem [simp]: "py_strip (py_strip s) = py_strip s"
  by (rule py_strip_trimmed [OF trimmed_strip])

end
