(* ===== verification/Domain_Models.thy ===== *)
theory Domain_Models
  imports Py_Decimal Py_Strings
begin

text \<open>
  The domain models of \<^verbatim>\<open>app/models\<close>: enumerations, symbols, orders, order books,
  balances, risk verdicts, transfer plans and records. A frozen pydantic model is a record;
  its properties are functions of it; a validator that may reject is a constructor that
  returns a result. Times are microseconds since an epoch (\<open>int\<close>), and the wall clock
  is an argument wherever the code calls \<^verbatim>\<open>utc_now()\<close>. The text of an error message
  is represented by its constant leading part.
\<close>

subsection \<open>Exceptions\<close>

datatype exn =
    ExecutionDisabledError string
  | NetworkMismatchError string
  | ValidationError string
  | ValueError string
  | TimeoutError
  | ConfigurationError string
  | CapabilityNotSupportedError string
  | VenueAuthError string
  | RateLimitError string "rat option"
  | OtherError string

subsection \<open>Enumerations\<close>

datatype TradingMode = PAPER | DEMO | LIVE

datatype MarketType = SPOT

datatype OrderSide = BUY | SELL

fun opposite :: "OrderSide \<Rightarrow> OrderSide" where
  "opposite BUY = SELL"
| "opposite SELL = BUY"

datatype OrderType = MARKET | LIMIT

datatype TimeInForce = GTC | IOC | FOK

datatype OrderStatus =
    PENDING | OPEN | PARTIALLY_FILLED | FILLED | CANCELED | REJECTED | EXPIRED
  | TIMEOUT | UNKNOWN | MANUAL_REVIEW

definition terminal_order_statuses :: "OrderStatus list" where
  "terminal_order_statuses = [FILLED, CANCELED, REJECTED, EXPIRED, TIMEOUT, MANUAL_REVIEW]"

definition confirmed_fill_statuses :: "OrderStatus list" where
  "confirmed_fill_statuses = [FILLED, CANCELED, EXPIRED, REJECTED]"

definition unconfirmed_outcome_statuses :: "OrderStatus list" where
  "unconfirmed_outcome_statuses =
     [PENDING, OPEN, PARTIALLY_FILLED, TIMEOUT, UNKNOWN, MANUAL_REVIEW]"

definition status_is_terminal :: "OrderStatus \<Rightarrow> bool" where
  "status_is_terminal s \<longleftrightarrow> s \<in> set terminal_order_statuses"

datatype TradeStatus = EXECUTING | T_COMPLETED | T_FAILED | T_MANUAL_REVIEW

datatype TransferState =
    CREATED | BUY_SUBMITTED | BUY_FILLED | WITHDRAW_SUBMITTED | WITHDRAW_PENDING
  | TRANSFER_IN_PROGRESS | DEPOSIT_DETECTED | SELL_SUBMITTED | COMPLETED | FAILED
  | STATE_MANUAL_REVIEW

definition terminal_transfer_states :: "TransferState list" where
  "terminal_transfer_states = [COMPLETED, FAILED, STATE_MANUAL_REVIEW]"

definition state_is_terminal :: "TransferState \<Rightarrow> bool" where
  "state_is_terminal s \<longleftrightarrow> s \<in> set terminal_transfer_states"

definition state_is_open :: "TransferState \<Rightarrow> bool" where
  "state_is_open s \<longleftrightarrow> \<not> state_is_terminal s"

datatype ArbitrageStrategy = TRIANGLE | TRANSFER | KRONOS

datatype RiskLevel = LOW | MEDIUM | HIGH | CRITICAL

datatype HealthStatus = HEALTHY | DEGRADED | UNHEALTHY | H_UNKNOWN

fun health_severity :: "HealthStatus \<Rightarrow> nat" where
  "health_severity HEALTHY = 0"
| "health_severity H_UNKNOWN = 1"
| "health_severity DEGRADED = 2"
| "health_severity UNHEALTHY = 3"

text \<open>Python's \<^verbatim>\<open>max(items, key=f)\<close>: the first element with the largest key.\<close>

fun max_by :: "('a \<Rightarrow> 'b::linorder) \<Rightarrow> 'a \<Rightarrow> 'a list \<Rightarrow> 'a" where
  "max_by f m [] = m"
| "max_by f m (x # xs) = max_by f (if f m < f x then x else m) xs"

definition health_worst :: "HealthStatus list \<Rightarrow> HealthStatus" where
  "health_worst items = (case items of [] \<Rightarrow> H_UNKNOWN | x # xs \<Rightarrow> max_by health_severity x xs)"

lemmas status_defs =
  status_is_terminal_def terminal_order_statuses_def confirmed_fill_statuses_def
  unconfirmed_outcome_statuses_def

lemmas state_defs = state_is_terminal_def state_is_open_def terminal_transfer_states_def

lemma max_by_in: "max_by f m xs \<in> set (m # xs)"
  by (induction f m xs rule: max_by.induct) auto

lemma max_by_ge: "x \<in> set (m # xs) \<Longrightarrow> f x \<le> f (max_by f m xs)"
proof (induction f m xs arbitrary: x rule: max_by.induct)
  case (2 f m y xs)
  have m: "f m \<le> f (if f m < f y then y else m)" and y: "f y \<le> f (if f m < f y then y else m)"
    by auto
  have top: "f (if f m < f y then y else m) \<le> f (max_by f m (y # xs))"
    using "2.IH" [of "if f m < f y then y else m"] by simp
  show ?case
  proof (cases "x \<in> set xs")
    case True
    then show ?thesis using "2.IH" [of x] by simp
  next
    case False
    with "2.prems" have "x = m \<or> x = y" by auto
    then show ?thesis using m y top order_trans by blast
  qed
qed simp

subsection \<open>Symbols\<close>

record Symbol =
  base :: string
  quote :: string
  settle :: "string option"

definition normalise :: "string \<Rightarrow> string option" where
  "normalise value = (let text = py_upper (py_strip value) in
     if text = [] then None else Some text)"

definition mk_symbol :: "string \<Rightarrow> string \<Rightarrow> string option \<Rightarrow> (exn, Symbol) result" where
  "mk_symbol b q s =
     (case (normalise b, normalise q) of
        (Some b', Some q') \<Rightarrow>
          Inr \<lparr>base = b', quote = q', settle = Option.bind s normalise\<rparr>
      | _ \<Rightarrow> Inl (ValidationError ''base and quote currencies are required''))"

definition symbol_parse :: "string \<Rightarrow> (exn, Symbol) result" where
  "symbol_parse raw =
     (let text = py_upper (py_strip raw) in
      if CHR ''/'' \<notin> set text then Inl (ValidationError ''invalid symbol'')
      else case py_partition (CHR '':'') text of (pair, _, stl) \<Rightarrow>
        (case py_partition (CHR ''/'') pair of (b, _, q) \<Rightarrow>
           if b = [] \<or> q = [] then Inl (ValidationError ''invalid symbol'')
           else mk_symbol b q (if stl = [] then None else Some stl)))"

definition symbol_name :: "Symbol \<Rightarrow> string" where
  "symbol_name s = base s @ ''/'' @ quote s @
     (case settle s of None \<Rightarrow> [] | Some t \<Rightarrow> if t = [] then [] else '':'' @ t)"

definition symbol_is_derivative :: "Symbol \<Rightarrow> bool" where
  "symbol_is_derivative s \<longleftrightarrow> settle s \<noteq> None"

definition symbol_spot :: "Symbol \<Rightarrow> Symbol" where
  "symbol_spot s = (if settle s = None then s else s\<lparr>settle := None\<rparr>)"

text \<open>A currency code as venues use them: upper case, trimmed, without separators.\<close>

definition code_ok :: "string \<Rightarrow> bool" where
  "code_ok c \<longleftrightarrow> c \<noteq> [] \<and> trimmed c \<and> py_upper c = c \<and> CHR ''/'' \<notin> set c \<and> CHR '':'' \<notin> set c"

definition symbol_ok :: "Symbol \<Rightarrow> bool" where
  "symbol_ok s \<longleftrightarrow> code_ok (base s) \<and> code_ok (quote s) \<and>
     (case settle s of None \<Rightarrow> True | Some t \<Rightarrow> code_ok t)"

lemma normalise_code: "code_ok c \<Longrightarrow> normalise c = Some c"
  by (simp add: normalise_def code_ok_def py_strip_trimmed)

lemma trimmed_name: "symbol_ok s \<Longrightarrow> trimmed (symbol_name s)"
  by (auto simp: symbol_ok_def symbol_name_def code_ok_def trimmed_def hd_append
      split: option.splits)

lemma upper_name: "symbol_ok s \<Longrightarrow> py_upper (symbol_name s) = symbol_name s"
  by (auto simp: symbol_ok_def symbol_name_def code_ok_def py_upper_def upper_char_def
      split: option.splits)

subsection \<open>Truth values of optional strings and numbers\<close>

text \<open>\<^verbatim>\<open>a or b\<close> where a missing or empty string, or a missing or zero number, is false.\<close>

definition truthy_str :: "string option \<Rightarrow> bool" where
  "truthy_str a \<longleftrightarrow> a \<noteq> None \<and> a \<noteq> Some []"

definition str_or :: "string option \<Rightarrow> string option \<Rightarrow> string option" where
  "str_or a b = (if truthy_str a then a else b)"

definition dec_or :: "decimal option \<Rightarrow> decimal option \<Rightarrow> decimal option" where
  "dec_or a b = (if a = None \<or> a = Some 0 then b else a)"

lemma truthy_str_simps [simp]:
  "\<not> truthy_str None" "truthy_str (Some s) \<longleftrightarrow> s \<noteq> []"
  by (auto simp: truthy_str_def)

end
