(* ===== verification/Order_Models.thy ===== *)
theory Order_Models
  imports Domain_Models
begin

text \<open>
  Orders, order books, execution estimates, balances and market metadata
  (\<^verbatim>\<open>app/models/order.py\<close>, \<^verbatim>\<open>market_data.py\<close>, \<^verbatim>\<open>balance.py\<close>,
  \<^verbatim>\<open>market.py\<close>). The theory shows that every order status is classified into
  exactly one of "filled for certain", "not filled for certain" and "unconfirmed" by the
  properties the executors branch on, and that a constructed book is sorted on both sides.
\<close>

subsection \<open>Orders\<close>

record OrderRequest =
  req_exchange_id :: string
  req_symbol :: Symbol
  req_side :: OrderSide
  req_order_type :: OrderType
  req_amount :: decimal
  req_price :: "decimal option"
  req_client_order_id :: string

definition request_notional :: "OrderRequest \<Rightarrow> decimal option" where
  "request_notional r = map_option (\<lambda>p. dmul p (req_amount r)) (req_price r)"

record Fill =
  fill_price :: decimal
  fill_amount :: decimal
  fill_fee :: decimal

definition fill_notional :: "Fill \<Rightarrow> decimal" where
  "fill_notional f = dmul (fill_price f) (fill_amount f)"

record Order =
  ord_exchange_id :: string
  exchange_order_id :: "string option"
  client_order_id :: "string option"
  ord_symbol :: Symbol
  ord_side :: OrderSide
  ord_order_type :: OrderType
  ord_status :: OrderStatus
  ord_amount :: decimal
  filled_amount :: decimal
  ord_price :: "decimal option"
  average_price :: "decimal option"
  fee_paid :: decimal
  fee_currency :: "string option"
  fills :: "Fill list"
  ord_error :: "string option"
  ord_updated_at :: int

definition remaining_amount :: "Order \<Rightarrow> decimal" where
  "remaining_amount o1 = max 0 (dsub (ord_amount o1) (filled_amount o1))"

definition order_fill_ratio :: "Order \<Rightarrow> decimal" where
  "order_fill_ratio o1 =
     (if ord_amount o1 \<le> 0 then 0 else ddiv (filled_amount o1) (ord_amount o1))"

definition order_is_open :: "Order \<Rightarrow> bool" where
  "order_is_open o1 \<longleftrightarrow> \<not> status_is_terminal (ord_status o1)"

definition is_confirmed_fill :: "Order \<Rightarrow> bool" where
  "is_confirmed_fill o1 \<longleftrightarrow>
     filled_amount o1 > 0 \<and> ord_status o1 \<in> set confirmed_fill_statuses"

definition outcome_unconfirmed :: "Order \<Rightarrow> bool" where
  "outcome_unconfirmed o1 \<longleftrightarrow> ord_status o1 \<in> set unconfirmed_outcome_statuses"

definition confirmed_not_filled :: "Order \<Rightarrow> bool" where
  "confirmed_not_filled o1 \<longleftrightarrow>
     filled_amount o1 \<le> 0 \<and> status_is_terminal (ord_status o1) \<and> \<not> outcome_unconfirmed o1"

definition is_partially_filled :: "Order \<Rightarrow> bool" where
  "is_partially_filled o1 \<longleftrightarrow> 0 < filled_amount o1 \<and> filled_amount o1 < ord_amount o1"

definition filled_notional :: "Order \<Rightarrow> decimal" where
  "filled_notional o1 =
     (case average_price o1 of
        Some p \<Rightarrow> dmul p (filled_amount o1)
      | None \<Rightarrow> dsum (map fill_notional (fills o1)))"

definition order_with_status :: "Order \<Rightarrow> int \<Rightarrow> OrderStatus \<Rightarrow> string option \<Rightarrow> Order" where
  "order_with_status o1 now st err =
     o1\<lparr>ord_status := st, ord_error := str_or err (ord_error o1), ord_updated_at := now\<rparr>"

text \<open>An order as \<^verbatim>\<open>Order(...)\<close> builds it when only the identifying fields are given.\<close>

definition new_order ::
  "string \<Rightarrow> Symbol \<Rightarrow> OrderSide \<Rightarrow> OrderStatus \<Rightarrow> decimal \<Rightarrow> int \<Rightarrow> Order" where
  "new_order venue symb sd st amt now =
     \<lparr>ord_exchange_id = venue, exchange_order_id = None, client_order_id = None,
      ord_symbol = symb, ord_side = sd, ord_order_type = LIMIT, ord_status = st,
      ord_amount = amt, filled_amount = 0, ord_price = None, average_price = None,
      fee_paid = 0, fee_currency = None, fills = [], ord_error = None, ord_updated_at = now\<rparr>"

lemmas outcome_defs =
  is_confirmed_fill_def outcome_unconfirmed_def confirmed_not_filled_def status_defs

text \<open>The three outcome classes are exclusive and cover every order.\<close>

lemma outcome_cases:
  "is_confirmed_fill o1 \<or> outcome_unconfirmed o1 \<or> confirmed_not_filled o1"
  by (cases "ord_status o1") (auto simp: outcome_defs)

lemma confirmed_fill_not_unconfirmed: "is_confirmed_fill o1 \<Longrightarrow> \<not> outcome_unconfirmed o1"
  by (cases "ord_status o1") (auto simp: outcome_defs)

lemma confirmed_fill_not_unfilled: "is_confirmed_fill o1 \<Longrightarrow> \<not> confirmed_not_filled o1"
  by (auto simp: is_confirmed_fill_def confirmed_not_filled_def)

lemma unconfirmed_not_unfilled: "outcome_unconfirmed o1 \<Longrightarrow> \<not> confirmed_not_filled o1"
  by (auto simp: confirmed_not_filled_def)

subsection \<open>Order books\<close>

record OrderBookLevel =
  price :: decimal
  amount :: decimal

definition level_notional :: "OrderBookLevel \<Rightarrow> decimal" where
  "level_notional l = dmul (price l) (amount l)"

record OrderBook =
  book_exchange_id :: string
  book_symbol :: Symbol
  book_timestamp :: int
  bids :: "OrderBookLevel list"
  asks :: "OrderBookLevel list"

definition sort_bids :: "OrderBookLevel list \<Rightarrow> OrderBookLevel list" where
  "sort_bids levels = sort_key (\<lambda>l. - price l) levels"

definition sort_asks :: "OrderBookLevel list \<Rightarrow> OrderBookLevel list" where
  "sort_asks levels = sort_key price levels"

definition mk_order_book ::
  "string \<Rightarrow> Symbol \<Rightarrow> int \<Rightarrow> OrderBookLevel list \<Rightarrow> OrderBookLevel list \<Rightarrow> OrderBook" where
  "mk_order_book venue symb ts bs as =
     \<lparr>book_exchange_id = venue, book_symbol = symb, book_timestamp = ts,
      bids = sort_bids bs, asks = sort_asks as\<rparr>"

definition best_bid :: "OrderBook \<Rightarrow> decimal option" where
  "best_bid b = (case bids b of [] \<Rightarrow> None | l # _ \<Rightarrow> Some (price l))"

definition best_ask :: "OrderBook \<Rightarrow> decimal option" where
  "best_ask b = (case asks b of [] \<Rightarrow> None | l # _ \<Rightarrow> Some (price l))"

definition book_mid :: "OrderBook \<Rightarrow> decimal option" where
  "book_mid b =
     (case (best_bid b, best_ask b) of
        (Some x, Some y) \<Rightarrow> Some (ddiv (dadd x y) 2)
      | _ \<Rightarrow> None)"

definition is_crossed :: "OrderBook \<Rightarrow> bool" where
  "is_crossed b =
     (case (best_bid b, best_ask b) of (Some x, Some y) \<Rightarrow> x \<ge> y | _ \<Rightarrow> False)"

definition book_depth :: "OrderBook \<Rightarrow> nat" where
  "book_depth b = max (length (bids b)) (length (asks b))"

text \<open>The levels a taker order of the given side would consume.\<close>

definition book_side :: "OrderBook \<Rightarrow> OrderSide \<Rightarrow> OrderBookLevel list" where
  "book_side b sd = (if sd = BUY then asks b else bids b)"

definition levels_ok :: "OrderBookLevel list \<Rightarrow> bool" where
  "levels_ok ls \<longleftrightarrow> (\<forall>l \<in> set ls. 0 < price l \<and> 0 < amount l)"

definition book_ok :: "OrderBook \<Rightarrow> bool" where
  "book_ok b \<longleftrightarrow> levels_ok (bids b) \<and> levels_ok (asks b) \<and>
     sorted_wrt (\<lambda>l m. price m \<le> price l) (bids b) \<and>
     sorted_wrt (\<lambda>l m. price l \<le> price m) (asks b)"

lemma sorted_sort_asks: "sorted_wrt (\<lambda>l m. price l \<le> price m) (sort_asks ls)"
  using sorted_sort_key [of price ls] by (simp add: sort_asks_def sorted_map)

lemma sorted_sort_bids: "sorted_wrt (\<lambda>l m. price m \<le> price l) (sort_bids ls)"
  using sorted_sort_key [of "\<lambda>l. - price l" ls] by (simp add: sort_bids_def sorted_map)

lemma levels_ok_sort [simp]:
  "levels_ok (sort_asks ls) = levels_ok ls" "levels_ok (sort_bids ls) = levels_ok ls"
  by (simp_all add: levels_ok_def sort_asks_def sort_bids_def)

lemma mk_order_book_ok: "levels_ok bs \<Longrightarrow> levels_ok as \<Longrightarrow> book_ok (mk_order_book v s t bs as)"
  by (simp add: book_ok_def mk_order_book_def sorted_sort_asks sorted_sort_bids)

lemma levels_ok_Cons [simp]:
  "levels_ok (l # ls) \<longleftrightarrow> 0 < price l \<and> 0 < amount l \<and> levels_ok ls"
  by (auto simp: levels_ok_def)

lemma levels_ok_Nil [simp]: "levels_ok []"
  by (simp add: levels_ok_def)

lemma book_ok_side: "book_ok b \<Longrightarrow> levels_ok (book_side b sd)"
  by (simp add: book_ok_def book_side_def)

subsection \<open>Execution estimates\<close>

record ExecutionEstimate =
  est_side :: OrderSide
  requested_amount :: decimal
  est_filled_amount :: decimal
  est_quote_amount :: decimal
  est_average_price :: decimal
  est_reference_price :: decimal
  est_slippage_bps :: decimal
  levels_consumed :: nat
  est_is_complete :: bool
  requested_quote :: "decimal option"

definition check_estimate :: "ExecutionEstimate \<Rightarrow> (exn, ExecutionEstimate) result" where
  "check_estimate e =
     (if est_filled_amount e < 0 \<or> est_quote_amount e < 0
      then Inl (ValidationError ''execution estimate cannot be negative'') else Inr e)"

definition estimate_fill_ratio :: "ExecutionEstimate \<Rightarrow> decimal" where
  "estimate_fill_ratio e =
     (case requested_quote e of
        Some rq \<Rightarrow> if rq \<le> 0 then 0 else ddiv (est_quote_amount e) rq
      | None \<Rightarrow>
          if requested_amount e \<le> 0 then 0
          else ddiv (est_filled_amount e) (requested_amount e))"

subsection \<open>Balances\<close>

record Balance =
  bal_exchange_id :: string
  bal_asset :: string
  bal_free :: decimal
  bal_used :: decimal

record BalanceSnapshot =
  snap_exchange_id :: string
  balances :: "Balance list"

definition balance_total :: "Balance \<Rightarrow> decimal" where
  "balance_total b = dadd (bal_free b) (bal_used b)"

definition balance_is_empty :: "Balance \<Rightarrow> bool" where
  "balance_is_empty b \<longleftrightarrow> balance_total b \<le> 0"

definition balance_get :: "BalanceSnapshot \<Rightarrow> string \<Rightarrow> Balance option" where
  "balance_get s asset =
     (let needle = py_upper (py_strip asset) in
      List.find (\<lambda>b. bal_asset b = needle) (balances s))"

definition free_of :: "BalanceSnapshot \<Rightarrow> string \<Rightarrow> decimal" where
  "free_of s asset = (case balance_get s asset of None \<Rightarrow> 0 | Some b \<Rightarrow> bal_free b)"

definition non_empty :: "BalanceSnapshot \<Rightarrow> Balance list" where
  "non_empty s = filter (\<lambda>b. \<not> balance_is_empty b) (balances s)"

subsection \<open>Market metadata\<close>

record MarketFees =
  maker_bps :: decimal
  taker_bps :: decimal

record MarketLimits =
  lim_min_amount :: "decimal option"
  lim_min_cost :: "decimal option"

record MarketPrecision =
  prec_price :: "int option"
  prec_amount :: "int option"
  prec_price_tick :: "decimal option"
  prec_amount_step :: "decimal option"

record Market =
  mkt_exchange_id :: string
  mkt_symbol :: Symbol
  mkt_native_symbol :: string
  mkt_active :: bool
  mkt_fees :: MarketFees
  mkt_limits :: MarketLimits
  mkt_precision :: MarketPrecision

definition resolved_price_tick :: "MarketPrecision \<Rightarrow> decimal option" where
  "resolved_price_tick p =
     (case prec_price_tick p of
        Some t \<Rightarrow> Some t
      | None \<Rightarrow> map_option (\<lambda>n. 10 powi (- n)) (prec_price p))"

definition resolved_amount_step :: "MarketPrecision \<Rightarrow> decimal option" where
  "resolved_amount_step p =
     (case prec_amount_step p of
        Some t \<Rightarrow> Some t
      | None \<Rightarrow> map_option (\<lambda>n. 10 powi (- n)) (prec_amount p))"

definition satisfies_min_notional :: "MarketLimits \<Rightarrow> decimal \<Rightarrow> bool" where
  "satisfies_min_notional l notional \<longleftrightarrow> notional \<ge> opt_or (lim_min_cost l) 0"

end
