(* ===== verification/Transfer_Models.thy ===== *)
theory Transfer_Models
  imports Order_Models
begin

text \<open>
  The transfer models of \<^verbatim>\<open>app/models/transfer.py\<close>: networks, venue transactions,
  the economics of a plan, and the persisted lifecycle record. Orders are persisted as
  JSON; \<open>order_json\<close> is either the serialisation of an order (which parses back to it)
  or a document that does not validate, of which only the average price can be read.
\<close>

record DepositAddress =
  address :: string
  memo :: "string option"
  addr_network :: "string option"

record WithdrawalNetwork =
  network :: string
  network_code :: "string option"
  withdraw_enabled :: bool
  deposit_enabled :: bool
  withdrawal_fee :: decimal
  withdrawal_min :: decimal
  deposit_min :: decimal

datatype tx_direction = Deposit | Withdrawal

record TransferTx =
  tx_direction :: tx_direction
  tx_asset :: string
  tx_amount :: decimal
  tx_status :: string
  tx_txid :: "string option"
  tx_address :: "string option"

definition tx_is_confirmed :: "TransferTx \<Rightarrow> bool" where
  "tx_is_confirmed t \<longleftrightarrow>
     py_lower (tx_status t) \<in> set [''confirmed'', ''success'', ''ok'', ''complete'']"

subsection \<open>Plans\<close>

record TransferPlan =
  plan_source :: string
  plan_dest :: string
  plan_asset :: string
  plan_network :: string
  plan_amount :: decimal
  plan_buy_price :: decimal
  plan_sell_price :: decimal
  plan_buy_fee_bps :: decimal
  plan_sell_fee_bps :: decimal
  plan_withdrawal_fee :: decimal
  plan_network_cost_quote :: decimal
  plan_slippage_bps :: decimal
  plan_data_age_ms :: "rat option"
    \<comment> \<open>milliseconds; \<open>None\<close> is the float infinity\<close>

definition buy_cost_quote :: "TransferPlan \<Rightarrow> decimal" where
  "buy_cost_quote p = dmul (plan_buy_price p) (plan_amount p)"

definition sell_proceeds :: "TransferPlan \<Rightarrow> decimal" where
  "sell_proceeds p = dmul (plan_sell_price p) (plan_amount p)"

definition trading_fees_quote :: "TransferPlan \<Rightarrow> decimal" where
  "trading_fees_quote p =
     (let buy_fee = ddiv (dmul (buy_cost_quote p) (plan_buy_fee_bps p)) 10000;
          sell_fee = ddiv (dmul (sell_proceeds p) (plan_sell_fee_bps p)) 10000
      in dadd buy_fee sell_fee)"

definition withdrawal_cost_quote :: "TransferPlan \<Rightarrow> decimal" where
  "withdrawal_cost_quote p =
     dadd (dmul (plan_withdrawal_fee p) (plan_sell_price p)) (plan_network_cost_quote p)"

definition total_fees_quote :: "TransferPlan \<Rightarrow> decimal" where
  "total_fees_quote p = dadd (trading_fees_quote p) (withdrawal_cost_quote p)"

definition gross_profit_quote :: "TransferPlan \<Rightarrow> decimal" where
  "gross_profit_quote p = dsub (sell_proceeds p) (buy_cost_quote p)"

definition net_profit_quote :: "TransferPlan \<Rightarrow> decimal" where
  "net_profit_quote p = dsub (gross_profit_quote p) (total_fees_quote p)"

definition net_profit_bps :: "TransferPlan \<Rightarrow> decimal" where
  "net_profit_bps p =
     (if buy_cost_quote p \<le> 0 then 0
      else dmul (ddiv (net_profit_quote p) (buy_cost_quote p)) 10000)"

definition spread_bps :: "TransferPlan \<Rightarrow> decimal" where
  "spread_bps p =
     (if plan_buy_price p \<le> 0 then 0
      else dmul (ddiv (dsub (plan_sell_price p) (plan_buy_price p)) (plan_buy_price p)) 10000)"

lemmas plan_economics =
  buy_cost_quote_def sell_proceeds_def trading_fees_quote_def withdrawal_cost_quote_def
  total_fees_quote_def gross_profit_quote_def net_profit_quote_def net_profit_bps_def

lemma dmul_nonneg_pos_iff: "0 < y \<Longrightarrow> 0 < dmul x y \<longleftrightarrow> 0 < x"
  by (simp add: dmul_def zero_less_mult_iff)

lemma ddiv_pos_iff: "0 < y \<Longrightarrow> 0 < ddiv x y \<longleftrightarrow> 0 < x"
  by (simp add: ddiv_def zero_less_divide_iff)

text \<open>A plan with a positive net margin sells above its buy price and its fees are covered.\<close>

lemma net_bps_pos_iff:
  assumes "0 < buy_cost_quote p"
  shows "0 < net_profit_bps p \<longleftrightarrow> total_fees_quote p < gross_profit_quote p"
  using assms by (simp add: net_profit_bps_def dmul_nonneg_pos_iff ddiv_pos_iff net_profit_quote_def)

lemma total_fees_nonneg:
  assumes "0 \<le> plan_amount p" "0 \<le> plan_buy_price p" "0 \<le> plan_sell_price p"
    "0 \<le> plan_buy_fee_bps p" "0 \<le> plan_sell_fee_bps p" "0 \<le> plan_withdrawal_fee p"
    "0 \<le> plan_network_cost_quote p"
  shows "0 \<le> total_fees_quote p"
  using assms unfolding total_fees_quote_def trading_fees_quote_def withdrawal_cost_quote_def
    buy_cost_quote_def sell_proceeds_def Let_def
  by (intro dec_signs) auto

lemma gross_pos_prices:
  assumes "0 < gross_profit_quote p" "0 < plan_amount p"
  shows "plan_buy_price p < plan_sell_price p"
proof (rule ccontr)
  assume "\<not> plan_buy_price p < plan_sell_price p"
  then have "plan_sell_price p * plan_amount p \<le> plan_buy_price p * plan_amount p"
    using assms(2) by simp
  then have "sell_proceeds p \<le> buy_cost_quote p"
    unfolding sell_proceeds_def buy_cost_quote_def dmul_def by (rule ctx.rnd_mono)
  then show False using assms(1) by (simp add: gross_profit_quote_def)
qed

text \<open>A concrete plan and its economics.\<close>

definition sample_plan :: TransferPlan where
  "sample_plan =
     \<lparr>plan_source = ''okx'', plan_dest = ''bybit'', plan_asset = ''SOL'', plan_network = ''SOL'',
      plan_amount = 2, plan_buy_price = 100, plan_sell_price = 102, plan_buy_fee_bps = 10,
      plan_sell_fee_bps = 10, plan_withdrawal_fee = 1 / 100, plan_network_cost_quote = 0,
      plan_slippage_bps = 5, plan_data_age_ms = Some 300\<rparr>"

lemma sample_plan_numbers:
  "buy_cost_quote sample_plan = 200" "sell_proceeds sample_plan = 204"
  "gross_profit_quote sample_plan = 4" "trading_fees_quote sample_plan = 404 / 1000"
  "withdrawal_cost_quote sample_plan = 102 / 100" "total_fees_quote sample_plan = 1424 / 1000"
  "net_profit_quote sample_plan = 2576 / 1000" "net_profit_bps sample_plan = 1288 / 10"
proof -
  show c: "buy_cost_quote sample_plan = 200" and s: "sell_proceeds sample_plan = 204"
    by (simp_all add: buy_cost_quote_def sell_proceeds_def sample_plan_def dec_eval)
  show g: "gross_profit_quote sample_plan = 4"
    unfolding gross_profit_quote_def c s by (simp add: dec_eval)
  have a: "dmul 200 10 = 2000" "dmul 204 10 = 2040" by (simp_all add: dec_eval)
  have b: "ddiv 2000 10000 = 2 / 10" "ddiv 2040 10000 = 204 / 1000" by (simp_all add: dec_eval)
  have d: "dadd (2 / 10) (204 / 1000) = 404 / 1000" by (simp add: dec_eval)
  have p: "plan_buy_fee_bps sample_plan = 10" "plan_sell_fee_bps sample_plan = 10"
    "plan_withdrawal_fee sample_plan = 1 / 100" "plan_sell_price sample_plan = 102"
    "plan_network_cost_quote sample_plan = 0"
    by (simp_all add: sample_plan_def)
  show t: "trading_fees_quote sample_plan = 404 / 1000"
    unfolding trading_fees_quote_def c s Let_def p a b d by (rule refl)
  have e: "dmul (1 / 100) 102 = 102 / 100" "dadd (102 / 100) 0 = 102 / 100"
    by (simp_all add: dec_eval)
  show w: "withdrawal_cost_quote sample_plan = 102 / 100"
    unfolding withdrawal_cost_quote_def p e by (rule refl)
  show f: "total_fees_quote sample_plan = 1424 / 1000"
    unfolding total_fees_quote_def t w by (simp add: dec_eval)
  show n: "net_profit_quote sample_plan = 2576 / 1000"
    unfolding net_profit_quote_def g f by (simp add: dec_eval)
  have h: "ddiv (2576 / 1000) 200 = 1288 / 100000" "dmul (1288 / 100000) 10000 = 1288 / 10"
    by (simp_all add: dec_eval)
  show "net_profit_bps sample_plan = 1288 / 10"
    unfolding net_profit_bps_def c n h by simp
qed

subsection \<open>Persisted orders\<close>

datatype order_json = JOrder Order | JBroken "decimal option"

definition order_to_json :: "Order \<Rightarrow> order_json" where
  "order_to_json ord1 = JOrder ord1"

fun order_from_json :: "order_json option \<Rightarrow> Order option" where
  "order_from_json None = None"
| "order_from_json (Some (JOrder ord1)) = Some ord1"
| "order_from_json (Some (JBroken _)) = None"

fun json_average_price :: "order_json option \<Rightarrow> decimal option" where
  "json_average_price None = None"
| "json_average_price (Some (JOrder ord1)) = average_price ord1"
| "json_average_price (Some (JBroken p)) = p"

lemma order_json_roundtrip [simp]: "order_from_json (Some (order_to_json ord1)) = Some ord1"
  by (simp add: order_to_json_def)

subsection \<open>Lifecycle records\<close>

record TransferRecord =
  tr_id :: string
  source_exchange :: string
  dest_exchange :: string
  tr_asset :: string
  tr_network :: string
  tr_amount :: decimal
  state :: TransferState
  plan :: TransferPlan
  buy_order :: "order_json option"
  buy_filled_amount :: decimal
  withdrawal_id :: "string option"
  withdrawal_txid :: "string option"
  withdrawal_amount :: decimal
  deposit_address :: "string option"
  deposit_txid :: "string option"
  deposit_amount :: decimal
  sell_order :: "order_json option"
  sell_filled_amount :: decimal
  sell_proceeds_quote :: decimal
  fees_quote :: decimal
  realized_profit_quote :: decimal
  tr_error :: "string option"
  tr_mode :: TradingMode
  created_at :: int
  updated_at :: int

definition new_record :: "string \<Rightarrow> TransferPlan \<Rightarrow> TradingMode \<Rightarrow> int \<Rightarrow> TransferRecord" where
  "new_record rid p m now =
     \<lparr>tr_id = rid, source_exchange = plan_source p, dest_exchange = plan_dest p,
      tr_asset = plan_asset p, tr_network = plan_network p, tr_amount = plan_amount p,
      state = CREATED, plan = p, buy_order = None, buy_filled_amount = 0,
      withdrawal_id = None, withdrawal_txid = None, withdrawal_amount = 0,
      deposit_address = None, deposit_txid = None, deposit_amount = 0,
      sell_order = None, sell_filled_amount = 0, sell_proceeds_quote = 0,
      fees_quote = 0, realized_profit_quote = 0, tr_error = None, tr_mode = m,
      created_at = now, updated_at = now\<rparr>"

definition with_state ::
  "TransferRecord \<Rightarrow> int \<Rightarrow> TransferState \<Rightarrow> string option \<Rightarrow> TransferRecord" where
  "with_state r now st err =
     r\<lparr>state := st, updated_at := now,
       tr_error := (case err of None \<Rightarrow> tr_error r | Some e \<Rightarrow> Some e)\<rparr>"

definition record_is_terminal :: "TransferRecord \<Rightarrow> bool" where
  "record_is_terminal r \<longleftrightarrow> state_is_terminal (state r)"

lemma with_state_simps [simp]:
  "state (with_state r now st err) = st"
  "updated_at (with_state r now st err) = now"
  "tr_id (with_state r now st err) = tr_id r"
  "plan (with_state r now st err) = plan r"
  "buy_order (with_state r now st err) = buy_order r"
  "buy_filled_amount (with_state r now st err) = buy_filled_amount r"
  "withdrawal_id (with_state r now st err) = withdrawal_id r"
  "withdrawal_txid (with_state r now st err) = withdrawal_txid r"
  "withdrawal_amount (with_state r now st err) = withdrawal_amount r"
  "deposit_address (with_state r now st err) = deposit_address r"
  "deposit_txid (with_state r now st err) = deposit_txid r"
  "deposit_amount (with_state r now st err) = deposit_amount r"
  "sell_order (with_state r now st err) = sell_order r"
  "sell_filled_amount (with_state r now st err) = sell_filled_amount r"
  "sell_proceeds_quote (with_state r now st err) = sell_proceeds_quote r"
  "fees_quote (with_state r now st err) = fees_quote r"
  "realized_profit_quote (with_state r now st err) = realized_profit_quote r"
  "created_at (with_state r now st err) = created_at r"
  "tr_mode (with_state r now st err) = tr_mode r"
  by (simp_all add: with_state_def)

end
