(* ===== verification/Transfer_Store.thy ===== *)
theory Transfer_Store
  imports Transfer_Models
begin

text \<open>
  Persistence of transfer records (\<^verbatim>\<open>TransferRepository\<close> of
  \<^verbatim>\<open>app/storage/repositories.py\<close>). The table is a dictionary from ids to records;
  each operation is one committed transaction. The serialisation of a record into a row and
  back is taken to be faithful.

  The locale \<open>record_store\<close> states what the orchestrator relies on, and is interpreted on
  the repository; inside it, the cap on open transfers is proved from the laws alone.
\<close>

type_synonym repo = "(string, TransferRecord) dict"

definition save :: "repo \<Rightarrow> TransferRecord \<Rightarrow> repo" where
  "save repo r = dict_set repo (tr_id r) r"

definition get_record :: "repo \<Rightarrow> string \<Rightarrow> TransferRecord option" where
  "get_record repo tid = dict_get repo tid"

definition open_rows :: "repo \<Rightarrow> TransferRecord list" where
  "open_rows repo = filter (\<lambda>r. state_is_open (state r)) (map snd repo)"

definition list_open :: "repo \<Rightarrow> TransferRecord list" where
  "list_open repo = sort_key created_at (open_rows repo)"

definition count_open :: "repo \<Rightarrow> int" where
  "count_open repo = int (length (open_rows repo))"

definition list_recent :: "repo \<Rightarrow> nat \<Rightarrow> TransferRecord list" where
  "list_recent repo limit = take limit (sort_key (\<lambda>r. - created_at r) (map snd repo))"

definition list_by_state :: "repo \<Rightarrow> TransferState \<Rightarrow> TransferRecord list" where
  "list_by_state repo st = sort_key created_at (filter (\<lambda>r. state r = st) (map snd repo))"

text \<open>Count and insert in one transaction; the new table and whether the slot was claimed.\<close>

definition try_claim_new_open_slot ::
  "repo \<Rightarrow> TransferRecord \<Rightarrow> int \<Rightarrow> (exn, bool \<times> repo) result" where
  "try_claim_new_open_slot repo r max_open =
     (if max_open < 0 then Inl (ValueError ''max_open must be >= 0'')
      else if count_open repo \<ge> max_open then Inr (False, repo)
      else Inr (True, dict_set repo (tr_id r) r))"

text \<open>Every record is stored under its own id, once.\<close>

definition repo_ok :: "repo \<Rightarrow> bool" where
  "repo_ok repo \<longleftrightarrow> dict_ok repo \<and> (\<forall>(k, r) \<in> set repo. tr_id r = k)"

subsection \<open>The interface\<close>

locale record_store =
  fixes put :: "'s \<Rightarrow> TransferRecord \<Rightarrow> 's"
    and get :: "'s \<Rightarrow> string \<Rightarrow> TransferRecord option"
    and opened :: "'s \<Rightarrow> TransferRecord list"
    and claim :: "'s \<Rightarrow> TransferRecord \<Rightarrow> int \<Rightarrow> (exn, bool \<times> 's) result"
    and ok :: "'s \<Rightarrow> bool"
  assumes get_put: "get (put s r) k = (if k = tr_id r then Some r else get s k)"
    and put_ok: "ok s \<Longrightarrow> ok (put s r)"
    and opened_iff: "ok s \<Longrightarrow> r \<in> set (opened s) \<longleftrightarrow> get s (tr_id r) = Some r \<and> state_is_open (state r)"
    and put_open: "ok s \<Longrightarrow> get s (tr_id r) = Some q \<Longrightarrow> state_is_open (state q) \<Longrightarrow>
      length (opened (put s r)) \<le> length (opened s)"
    and put_closed: "ok s \<Longrightarrow> \<not> state_is_open (state r) \<Longrightarrow> length (opened (put s r)) \<le> length (opened s)"
    and put_any: "ok s \<Longrightarrow> length (opened (put s r)) \<le> Suc (length (opened s))"
    and claim_put: "claim s r m = Inr (True, s') \<Longrightarrow> s' = put s r \<and> int (length (opened s)) < m"
    and claim_full: "claim s r m = Inr (False, s') \<Longrightarrow> s' = s \<and> m \<le> int (length (opened s))"
    and claim_total: "0 \<le> m \<Longrightarrow> is_ok (claim s r m)"
begin

text \<open>
  A write of the workflow is either a claim of a new slot, or the save of a record whose
  stored version is still open, or the save of a closed record.
\<close>

definition workflow_write :: "int \<Rightarrow> 's \<Rightarrow> 's \<Rightarrow> bool" where
  "workflow_write m s s' \<longleftrightarrow>
     (\<exists>r. claim s r m = Inr (True, s')) \<or>
     (\<exists>r. s' = put s r \<and>
        (\<not> state_is_open (state r) \<or> (\<exists>q. get s (tr_id r) = Some q \<and> state_is_open (state q))))"

lemma workflow_write_capped:
  assumes "workflow_write m s s'" "ok s" "int (length (opened s)) \<le> m"
  shows "ok s' \<and> int (length (opened s')) \<le> m"
  using assms(1) unfolding workflow_write_def
proof (elim disjE exE conjE)
  fix r assume "claim s r m = Inr (True, s')"
  then have "s' = put s r" "int (length (opened s)) < m" using claim_put by blast+
  then show ?thesis using put_ok [OF assms(2)] put_any [OF assms(2), of r] by auto
next
  fix r assume "s' = put s r" "\<not> state_is_open (state r)"
  then show ?thesis using put_ok [OF assms(2)] put_closed [OF assms(2), of r] assms(3) by auto
next
  fix r q assume "s' = put s r" "get s (tr_id r) = Some q" "state_is_open (state q)"
  then show ?thesis using put_ok [OF assms(2)] put_open [OF assms(2), of r q] assms(3) by auto
qed

end

subsection \<open>The repository provides it\<close>

lemma repo_ok_save: "repo_ok repo \<Longrightarrow> repo_ok (save repo r)"
proof -
  assume ok: "repo_ok repo"
  have "(k, v) \<in> set (dict_set repo (tr_id r) r) \<Longrightarrow> (k, v) \<in> set repo \<or> (k = tr_id r \<and> v = r)" for k v
    by (induction repo "tr_id r" r rule: dict_set.induct) (auto split: if_splits)
  then have "\<forall>(k, v) \<in> set (dict_set repo (tr_id r) r). tr_id v = k"
    using ok unfolding repo_ok_def by blast
  then show ?thesis using ok by (simp add: repo_ok_def save_def)
qed

lemma save_fresh: "dict_get repo (tr_id r) = None \<Longrightarrow> save repo r = repo @ [(tr_id r, r)]"
  unfolding save_def by (induction repo "tr_id r" r rule: dict_set.induct) (auto split: if_splits)

lemma save_replace:
  "dict_get repo (tr_id r) = Some q \<Longrightarrow>
   \<exists>xs ys. repo = xs @ (tr_id r, q) # ys \<and> save repo r = xs @ (tr_id r, r) # ys"
  unfolding save_def
proof (induction repo)
  case (Cons p repo)
  obtain k v where p: "p = (k, v)" by (cases p)
  show ?case
  proof (cases "k = tr_id r")
    case True
    then show ?thesis using Cons.prems p by (intro exI [of _ "[]"] exI [of _ repo]) auto
  next
    case False
    then obtain xs ys where "repo = xs @ (tr_id r, q) # ys"
      "dict_set repo (tr_id r) r = xs @ (tr_id r, r) # ys"
      using Cons p by auto
    then show ?thesis using False p by (intro exI [of _ "p # xs"] exI [of _ ys]) auto
  qed
qed simp

lemma open_rows_append [simp]: "open_rows (xs @ ys) = open_rows xs @ open_rows ys"
  by (simp add: open_rows_def)

lemma open_rows_Cons [simp]:
  "open_rows ((k, r) # ys) = (if state_is_open (state r) then [r] else []) @ open_rows ys"
  by (simp add: open_rows_def)

lemma open_rows_Nil [simp]: "open_rows [] = []"
  by (simp add: open_rows_def)

lemma save_open_rows:
  "length (open_rows (save repo r)) + (case dict_get repo (tr_id r) of
      Some q \<Rightarrow> if state_is_open (state q) then 1 else 0 | None \<Rightarrow> 0) =
   length (open_rows repo) + (if state_is_open (state r) then 1 else 0)"
proof (cases "dict_get repo (tr_id r)")
  case None
  then show ?thesis by (simp add: save_fresh)
next
  case (Some q)
  from save_replace [OF Some] obtain xs ys where xy: "repo = xs @ (tr_id r, q) # ys"
    "save repo r = xs @ (tr_id r, r) # ys" by blast
  show ?thesis unfolding xy(2) Some using xy(1) by simp
qed

lemma open_rows_iff:
  "repo_ok repo \<Longrightarrow> r \<in> set (open_rows repo) \<longleftrightarrow> dict_get repo (tr_id r) = Some r \<and> state_is_open (state r)"
  by (force simp: open_rows_def repo_ok_def dict_get_in_iff)

lemma set_list_open [simp]: "set (list_open repo) = set (open_rows repo)"
  "length (list_open repo) = length (open_rows repo)"
  by (simp_all add: list_open_def)

interpretation transfer_repo: record_store save get_record list_open try_claim_new_open_slot repo_ok
proof unfold_locales
  fix s :: repo and s' :: repo and r q :: TransferRecord and k :: string and m :: int
  show "get_record (save s r) k = (if k = tr_id r then Some r else get_record s k)"
    by (simp add: get_record_def save_def)
  show "repo_ok s \<Longrightarrow> repo_ok (save s r)" by (rule repo_ok_save)
  show "repo_ok s \<Longrightarrow> (r \<in> set (list_open s)) =
      (get_record s (tr_id r) = Some r \<and> state_is_open (state r))"
    by (simp add: open_rows_iff get_record_def)
  show "repo_ok s \<Longrightarrow> get_record s (tr_id r) = Some q \<Longrightarrow> state_is_open (state q) \<Longrightarrow>
      length (list_open (save s r)) \<le> length (list_open s)"
    using save_open_rows [of s r] by (simp add: get_record_def split: if_splits)
  show "repo_ok s \<Longrightarrow> \<not> state_is_open (state r) \<Longrightarrow> length (list_open (save s r)) \<le> length (list_open s)"
    using save_open_rows [of s r] by simp
  show "repo_ok s \<Longrightarrow> length (list_open (save s r)) \<le> Suc (length (list_open s))"
    using save_open_rows [of s r] by (simp split: if_splits)
  show "try_claim_new_open_slot s r m = Inr (True, s') \<Longrightarrow> s' = save s r \<and> int (length (list_open s)) < m"
    by (auto simp: try_claim_new_open_slot_def save_def count_open_def split: if_splits)
  show "try_claim_new_open_slot s r m = Inr (False, s') \<Longrightarrow> s' = s \<and> m \<le> int (length (list_open s))"
    by (auto simp: try_claim_new_open_slot_def count_open_def split: if_splits)
  show "0 \<le> m \<Longrightarrow> is_ok (try_claim_new_open_slot s r m)"
    by (simp add: try_claim_new_open_slot_def)
qed

text \<open>(claim_never_exceeds_cap).
  Claiming a slot for a new transfer either inserts the record when fewer than the allowed
  number of transfers are open, or leaves the table untouched; the number of open transfers
  never exceeds the cap because of a claim, and closed records are not disturbed.\<close>

theorem claim_never_exceeds_cap:
  assumes "repo_ok repo" "try_claim_new_open_slot repo r m = Inr (claimed, repo')"
  shows "repo_ok repo' \<and>
    (if claimed then count_open repo < m \<and> count_open repo' \<le> m \<and> get_record repo' (tr_id r) = Some r
     else repo' = repo \<and> m \<le> count_open repo) \<and>
    (\<forall>k. k \<noteq> tr_id r \<longrightarrow> get_record repo' k = get_record repo k)"
proof (cases claimed)
  case True
  have c: "repo' = save repo r" "count_open repo < m"
    using transfer_repo.claim_put [of repo r m repo'] assms(2) True by (simp_all add: count_open_def)
  have "transfer_repo.workflow_write m repo repo'"
    unfolding transfer_repo.workflow_write_def using assms(2) True by auto
  then have "repo_ok repo'" "count_open repo' \<le> m"
    using transfer_repo.workflow_write_capped [of m repo repo'] assms(1) c(2)
    by (simp_all add: count_open_def)
  then show ?thesis using True c transfer_repo.get_put by simp
next
  case False
  then show ?thesis
    using transfer_repo.claim_full [of repo r m repo'] assms by (simp add: count_open_def)
qed

theorem claim_never_exceeds_cap_witness:
  "\<exists>repo'. try_claim_new_open_slot [] (new_record ''trf-1'' sample_plan PAPER 0) 1 = Inr (True, repo') \<and>
    count_open repo' \<le> 1"
proof -
  let ?r = "new_record ''trf-1'' sample_plan PAPER 0"
  have c: "try_claim_new_open_slot [] ?r 1 = Inr (True, [(''trf-1'', ?r)])"
    by (simp add: try_claim_new_open_slot_def count_open_def new_record_def)
  have "repo_ok []" by (simp add: repo_ok_def dict_ok_def)
  from claim_never_exceeds_cap [OF this c] c show ?thesis by simp
qed

end
