(* ===== verification/Transfer_Networks.thy ===== *)
theory Transfer_Networks
  imports Transfer_Models "HOL-Library.List_Lexorder" "HOL-Library.Char_ord"
    "HOL-Library.Product_Lexorder"
begin

text \<open>
  Network selection for a transfer (\<^verbatim>\<open>app/strategies/transfer/networks.py\<close>): the
  cheapest network on which the source venue lets the asset out and the destination venue lets
  it in. Strings compare by code points, pairs lexicographically, as Python's do.
\<close>

record RouteNetwork =
  rn_network :: string
  rn_code :: string
  rn_withdrawal_fee :: decimal
  rn_withdrawal_min :: decimal
  rn_deposit_min :: decimal

definition code_of :: "WithdrawalNetwork \<Rightarrow> string" where
  "code_of n =
     py_upper (py_strip (opt_or (str_or (network_code n) (Some (network n))) []))"

text \<open>A dictionary comprehension: later entries replace the value of earlier ones.\<close>

definition by_code :: "WithdrawalNetwork list \<Rightarrow> (string, WithdrawalNetwork) dict" where
  "by_code ns = fold (\<lambda>n d. dict_set d (code_of n) n) ns []"

text \<open>Python's \<^verbatim>\<open>min(items, key=f)\<close>, for a non-empty collection.\<close>

fun min_by :: "('a \<Rightarrow> 'b::linorder) \<Rightarrow> 'a \<Rightarrow> 'a list \<Rightarrow> 'a" where
  "min_by f m [] = m"
| "min_by f m (x # xs) = min_by f (if f x < f m then x else m) xs"

definition network_cost :: "(string, WithdrawalNetwork) dict \<Rightarrow> string \<Rightarrow> decimal \<times> string" where
  "network_cost withdrawable code = (withdrawal_fee (the (dict_get withdrawable code)), code)"

definition select ::
  "WithdrawalNetwork list \<Rightarrow> WithdrawalNetwork list \<Rightarrow> (exn, RouteNetwork) result" where
  "select source_networks dest_networks =
     (if source_networks = []
      then Inl (NetworkMismatchError ''source venue publishes no withdrawal networks'')
      else if dest_networks = []
      then Inl (NetworkMismatchError ''destination venue publishes no deposit networks'')
      else
        let withdrawable = by_code (filter withdraw_enabled source_networks) in
        if withdrawable = []
        then Inl (NetworkMismatchError
               ''withdrawals are disabled on the source venue for every network'')
        else
          let depositable = by_code (filter deposit_enabled dest_networks) in
          if depositable = []
          then Inl (NetworkMismatchError
                 ''deposits are disabled on the destination venue for every network'')
          else
            case filter (\<lambda>c. dict_get depositable c \<noteq> None) (dict_keys withdrawable) of
              [] \<Rightarrow> Inl (NetworkMismatchError ''no common enabled network'')
            | c # cs \<Rightarrow>
                let best = min_by (network_cost withdrawable) c cs;
                    source = the (dict_get withdrawable best);
                    dest = the (dict_get depositable best)
                in Inr \<lparr>rn_network = network source, rn_code = best,
                        rn_withdrawal_fee = withdrawal_fee source,
                        rn_withdrawal_min = withdrawal_min source,
                        rn_deposit_min = deposit_min dest\<rparr>)"

subsection \<open>Helper lemmas\<close>

lemma min_by_in: "min_by f m xs \<in> set (m # xs)"
  by (induction f m xs rule: min_by.induct) auto

lemma min_by_le: "x \<in> set (m # xs) \<Longrightarrow> f (min_by f m xs) \<le> f x"
proof (induction f m xs arbitrary: x rule: min_by.induct)
  case (2 f m y xs)
  let ?m = "if f y < f m then y else m"
  have top: "f (min_by f m (y # xs)) \<le> f ?m" using "2.IH" [of ?m] by simp
  have "f ?m \<le> f m" "f ?m \<le> f y" by auto
  then show ?case using top "2.IH" [of x] "2.prems" by (auto intro: order_trans)
qed simp

lemma by_code_get:
  "dict_get (by_code ns) c = Some n \<Longrightarrow> n \<in> set ns \<and> code_of n = c"
  unfolding by_code_def
proof (induction ns rule: rev_induct)
  case (snoc m ns)
  then show ?case by (cases "c = code_of m") auto
qed simp

lemma by_code_None: "dict_get (by_code ns) c = None \<longleftrightarrow> c \<notin> code_of ` set ns"
  unfolding by_code_def by (induction ns rule: rev_induct) auto

lemma by_code_distinct:
  assumes "distinct (map code_of ns)" "n \<in> set ns"
  shows "dict_get (by_code ns) (code_of n) = Some n"
proof -
  obtain m where m: "dict_get (by_code ns) (code_of n) = Some m"
    using assms(2) by_code_None [of ns "code_of n"] by (cases "dict_get (by_code ns) (code_of n)") auto
  then have "m \<in> set ns" "code_of m = code_of n" using by_code_get by auto
  then show ?thesis using m assms by (metis distinct_map inj_on_contraD)
qed

lemma dict_empty_iff: "d = [] \<longleftrightarrow> (\<forall>k. dict_get d k = None)"
proof (cases d)
  case (Cons p d')
  then show ?thesis by (cases p) (auto intro!: exI [of _ "fst p"])
qed simp

text \<open>The networks that are open on both sides.\<close>

definition open_pair ::
  "WithdrawalNetwork list \<Rightarrow> WithdrawalNetwork list \<Rightarrow> WithdrawalNetwork \<Rightarrow> WithdrawalNetwork \<Rightarrow> bool"
where
  "open_pair src dst a b \<longleftrightarrow>
     a \<in> set src \<and> withdraw_enabled a \<and> b \<in> set dst \<and> deposit_enabled b \<and> code_of a = code_of b"

lemma common_codes:
  "c \<in> set (filter (\<lambda>c. dict_get (by_code (filter deposit_enabled dst)) c \<noteq> None)
      (dict_keys (by_code (filter withdraw_enabled src)))) \<longleftrightarrow>
   (\<exists>a b. open_pair src dst a b \<and> code_of a = c)"
proof -
  have "c \<in> set (dict_keys (by_code (filter withdraw_enabled src))) \<longleftrightarrow>
      dict_get (by_code (filter withdraw_enabled src)) c \<noteq> None"
    by (simp add: dict_keys_def dict_get_None_iff)
  then show ?thesis by (auto simp: by_code_None open_pair_def image_iff)
qed

lemma select_unfold:
  assumes "src \<noteq> []" "dst \<noteq> []" "open_pair src dst a b"
  shows "\<exists>c cs. filter (\<lambda>c. dict_get (by_code (filter deposit_enabled dst)) c \<noteq> None)
      (dict_keys (by_code (filter withdraw_enabled src))) = c # cs \<and>
    by_code (filter withdraw_enabled src) \<noteq> [] \<and> by_code (filter deposit_enabled dst) \<noteq> []"
proof -
  let ?F = "filter (\<lambda>c. dict_get (by_code (filter deposit_enabled dst)) c \<noteq> None)
      (dict_keys (by_code (filter withdraw_enabled src)))"
  have in_F: "code_of a \<in> set ?F" using assms(3) common_codes by blast
  then have "?F \<noteq> []" by (metis empty_iff list.set(1))
  moreover have "by_code (filter withdraw_enabled src) \<noteq> []" "by_code (filter deposit_enabled dst) \<noteq> []"
    using in_F by (auto simp: dict_keys_def)
  ultimately show ?thesis by (meson neq_Nil_conv)
qed

lemma select_no_pair:
  assumes "\<nexists>a b. open_pair src dst a b"
  shows "\<exists>m. select src dst = Inl (NetworkMismatchError m)"
proof -
  have "filter (\<lambda>c. dict_get (by_code (filter deposit_enabled dst)) c \<noteq> None)
      (dict_keys (by_code (filter withdraw_enabled src))) = []"
    using assms common_codes [of _ dst src] by (metis list.set_sel(1))
  then show ?thesis by (simp add: select_def Let_def)
qed

text \<open>(network_select_sound_and_complete).
  Network selection succeeds exactly when some network is open for withdrawal at the source
  and for deposit at the destination under the same code; what it returns is such a network
  with the source's own withdrawal fee and minimum, and, when each venue lists a code once,
  no other common open network is cheaper. Otherwise it refuses with a mismatch error.\<close>

theorem network_select_sound_and_complete:
  "case select src dst of
     Inl e \<Rightarrow> (\<exists>m. e = NetworkMismatchError m) \<and> (\<nexists>a b. open_pair src dst a b)
   | Inr r \<Rightarrow> (\<exists>a b. open_pair src dst a b \<and> rn_code r = code_of a \<and> rn_network r = network a \<and>
         rn_withdrawal_fee r = withdrawal_fee a \<and> rn_withdrawal_min r = withdrawal_min a \<and>
         rn_deposit_min r = deposit_min b) \<and>
       (distinct (map code_of (filter withdraw_enabled src)) \<longrightarrow>
         (\<forall>a b. open_pair src dst a b \<longrightarrow> rn_withdrawal_fee r \<le> withdrawal_fee a))"
proof (cases "\<exists>a b. open_pair src dst a b")
  case False
  then obtain m where "select src dst = Inl (NetworkMismatchError m)"
    using select_no_pair by blast
  then show ?thesis using False by simp
next
  case True
  then obtain a0 b0 where p: "open_pair src dst a0 b0" by blast
  let ?W = "by_code (filter withdraw_enabled src)" and ?D = "by_code (filter deposit_enabled dst)"
  let ?F = "filter (\<lambda>c. dict_get ?D c \<noteq> None) (dict_keys ?W)"
  have ne: "src \<noteq> []" "dst \<noteq> []" using p by (auto simp: open_pair_def)
  obtain c cs where F: "?F = c # cs" and W: "?W \<noteq> []" and D: "?D \<noteq> []"
    using select_unfold [OF ne p] by blast
  define best where "best = min_by (network_cost ?W) c cs"
  have bF: "best \<in> set ?F" unfolding best_def F by (rule min_by_in)
  then obtain a b where a: "dict_get ?W best = Some a" and b: "dict_get ?D best = Some b"
    by (auto simp: dict_keys_def dict_get_None_iff image_iff)
      (metis dict_get_None_iff fst_conv image_eqI not_None_eq)
  have ab: "open_pair src dst a b" "code_of a = best"
    using by_code_get [OF a] by_code_get [OF b] by (auto simp: open_pair_def)
  have sel: "select src dst = Inr \<lparr>rn_network = network a, rn_code = best,
      rn_withdrawal_fee = withdrawal_fee a, rn_withdrawal_min = withdrawal_min a,
      rn_deposit_min = deposit_min b\<rparr>"
    using ne F W D a b by (simp add: select_def Let_def best_def [symmetric])
  have cheapest: "withdrawal_fee a \<le> withdrawal_fee a'"
    if "distinct (map code_of (filter withdraw_enabled src))" "open_pair src dst a' b'" for a' b'
  proof -
    have "code_of a' \<in> set ?F" using that(2) common_codes by blast
    then have "network_cost ?W best \<le> network_cost ?W (code_of a')"
      unfolding best_def F by (rule min_by_le)
    moreover have "dict_get ?W (code_of a') = Some a'"
      using that by (intro by_code_distinct) (auto simp: open_pair_def)
    ultimately show ?thesis using a by (auto simp: network_cost_def)
  qed
  show ?thesis using sel ab cheapest by auto
qed

definition sample_net :: "string \<Rightarrow> decimal \<Rightarrow> bool \<Rightarrow> bool \<Rightarrow> WithdrawalNetwork" where
  "sample_net code fee w d =
     \<lparr>network = code, network_code = Some code, withdraw_enabled = w, deposit_enabled = d,
      withdrawal_fee = fee, withdrawal_min = 1, deposit_min = 0\<rparr>"

theorem network_select_sound_and_complete_witness:
  "\<exists>r. select [sample_net ''ETH'' 5 True True, sample_net ''TRX'' 1 True True]
      [sample_net ''TRX'' 9 True True, sample_net ''ETH'' 9 True True] = Inr r \<and>
    rn_withdrawal_fee r \<le> 1"
proof -
  let ?s = "[sample_net ''ETH'' 5 True True, sample_net ''TRX'' 1 True True]"
  let ?d = "[sample_net ''TRX'' 9 True True, sample_net ''ETH'' 9 True True]"
  have c: "code_of (sample_net ''ETH'' f w d) = ''ETH''" "code_of (sample_net ''TRX'' f w d) = ''TRX''"
    for f w d
  proof -
    have "py_upper (py_strip ''ETH'') = ''ETH''" "py_upper (py_strip ''TRX'') = ''TRX''" by code_simp+
    then show "code_of (sample_net ''ETH'' f w d) = ''ETH''" "code_of (sample_net ''TRX'' f w d) = ''TRX''"
      by (simp_all add: code_of_def sample_net_def str_or_def)
  qed
  have d: "distinct (map code_of (filter withdraw_enabled ?s))"
    by (simp add: c)
  have o: "open_pair ?s ?d (sample_net ''TRX'' 1 True True) (sample_net ''TRX'' 9 True True)"
    unfolding open_pair_def c by (simp add: sample_net_def)
  have f: "withdrawal_fee (sample_net ''TRX'' 1 True True) = 1" by (simp add: sample_net_def)
  show ?thesis
    using network_select_sound_and_complete [of ?s ?d] d o f by (fastforce split: sum.splits)
qed

end
