(* ===== verification/Order_Book_Math.thy ===== *)
theory Order_Book_Math
  imports Order_Models
begin

text \<open>
  \<^verbatim>\<open>app/market_data/order_book.py\<close>: depth-aware pricing. Each loop over the levels is
  a recursive function with the loop variables as accumulators. The theory relates the walks
  to an exact reference cost: on books whose prices and sizes have at most eight decimal
  places (what venues publish) and whose notional stays below \<open>10 ^ 12\<close>, the rounded
  decimal arithmetic of the code is exact.
\<close>

definition floor_amount :: "decimal \<Rightarrow> decimal" where
  "floor_amount value = quantize_down 8 value"

text \<open>\<^verbatim>\<open>levels[:n]\<close>\<close>

definition py_slice_to :: "int option \<Rightarrow> 'a list \<Rightarrow> 'a list" where
  "py_slice_to n xs =
     (case n of None \<Rightarrow> xs
      | Some k \<Rightarrow> if 0 \<le> k then take (nat k) xs else take (length xs - nat (- k)) xs)"

definition available_liquidity :: "OrderBookLevel list \<Rightarrow> int option \<Rightarrow> decimal" where
  "available_liquidity levels max_levels = dsum (map amount (py_slice_to max_levels levels))"

fun vwap_loop ::
  "OrderBookLevel list \<Rightarrow> decimal \<Rightarrow> decimal \<Rightarrow> decimal \<Rightarrow> decimal option" where
  "vwap_loop [] amt remaining quot = None"
| "vwap_loop (l # ls) amt remaining quot =
     (let tk = min remaining (amount l);
          quot' = dadd quot (dmul tk (price l));
          remaining' = dsub remaining tk
      in if remaining' \<le> 0 then Some (quantize 8 (ddiv quot' amt))
         else vwap_loop ls amt remaining' quot')"

definition vwap :: "OrderBookLevel list \<Rightarrow> decimal \<Rightarrow> decimal option" where
  "vwap levels amt = (if amt \<le> 0 then None else vwap_loop levels amt amt 0)"

definition slippage_bps :: "decimal \<Rightarrow> decimal \<Rightarrow> OrderSide \<Rightarrow> decimal" where
  "slippage_bps reference average sd =
     (if reference \<le> 0 then 0
      else let delta = (if sd = BUY then dsub average reference else dsub reference average)
           in quantize 4 (dmul (ddiv delta reference) 10000))"

fun base_walk ::
  "OrderBookLevel list \<Rightarrow> decimal \<Rightarrow> decimal \<Rightarrow> nat \<Rightarrow> decimal \<times> decimal \<times> nat" where
  "base_walk [] remaining quot consumed = (remaining, quot, consumed)"
| "base_walk (l # ls) remaining quot consumed =
     (let tk = min remaining (amount l) in
      if tk \<le> 0 then base_walk ls remaining quot consumed
      else let quot' = dadd quot (dmul tk (price l));
               remaining' = dsub remaining tk
           in if remaining' \<le> 0 then (remaining', quot', consumed + 1)
              else base_walk ls remaining' quot' (consumed + 1))"

definition estimate_for_base_amount ::
  "OrderBook \<Rightarrow> OrderSide \<Rightarrow> decimal \<Rightarrow> (exn, ExecutionEstimate) result" where
  "estimate_for_base_amount book sd amt =
     (if amt \<le> 0 then Inl (ValidationError ''amount must be positive'')
      else case book_side book sd of
        [] \<Rightarrow> Inl (ValidationError ''empty side'')
      | l0 # ls \<Rightarrow>
          (let reference = price l0;
               (remaining, quot, consumed) = base_walk (l0 # ls) amt 0 0;
               filled = dsub amt remaining;
               average = (if filled > 0 then quantize 8 (ddiv quot filled) else reference)
           in check_estimate
                \<lparr>est_side = sd, requested_amount = amt, est_filled_amount = filled,
                 est_quote_amount = quantize 8 quot, est_average_price = average,
                 est_reference_price = reference,
                 est_slippage_bps = slippage_bps reference average sd,
                 levels_consumed = consumed, est_is_complete = (remaining \<le> 0),
                 requested_quote = None\<rparr>))"

fun quote_walk ::
  "OrderBookLevel list \<Rightarrow> decimal \<Rightarrow> decimal \<Rightarrow> decimal \<Rightarrow> nat \<Rightarrow>
   decimal \<times> decimal \<times> decimal \<times> nat" where
  "quote_walk [] remaining filled spent consumed = (remaining, filled, spent, consumed)"
| "quote_walk (l # ls) remaining filled spent consumed =
     (let level_quote = dmul (price l) (amount l);
          take_quote = min remaining level_quote
      in if take_quote \<le> 0 then quote_walk ls remaining filled spent consumed
         else let filled' = dadd filled (ddiv take_quote (price l));
                  spent' = dadd spent take_quote;
                  remaining' = dsub remaining take_quote
              in if remaining' \<le> 0 then (remaining', filled', spent', consumed + 1)
                 else quote_walk ls remaining' filled' spent' (consumed + 1))"

definition estimate_for_quote_amount ::
  "OrderBook \<Rightarrow> OrderSide \<Rightarrow> decimal \<Rightarrow> (exn, ExecutionEstimate) result" where
  "estimate_for_quote_amount book sd quote_amount =
     (if quote_amount \<le> 0 then Inl (ValidationError ''quote_amount must be positive'')
      else case book_side book sd of
        [] \<Rightarrow> Inl (ValidationError ''empty side'')
      | l0 # ls \<Rightarrow>
          (let reference = price l0;
               (remaining, filled, spent, consumed) = quote_walk (l0 # ls) quote_amount 0 0 0;
               average = (if filled > 0 then quantize 8 (ddiv spent filled) else reference)
           in if reference = 0 then Inl (OtherError ''DivisionByZero'')
              else check_estimate
                \<lparr>est_side = sd, requested_amount = floor_amount (ddiv quote_amount reference),
                 est_filled_amount = floor_amount filled,
                 est_quote_amount = quantize 8 spent, est_average_price = average,
                 est_reference_price = reference,
                 est_slippage_bps = slippage_bps reference average sd,
                 levels_consumed = consumed, est_is_complete = (remaining \<le> 0),
                 requested_quote = Some quote_amount\<rparr>))"

definition max_executable_notional :: "OrderBook \<Rightarrow> OrderSide \<Rightarrow> int option \<Rightarrow> decimal" where
  "max_executable_notional book sd max_levels =
     quantize 8 (dsum (map level_notional (py_slice_to max_levels (book_side book sd))))"

text \<open>
  The crossing loop: the two indices of the code are the remaining suffixes of the two
  sides. One of the two sides advances in every iteration.
\<close>

definition refill :: "OrderBookLevel list \<Rightarrow> decimal \<Rightarrow> decimal" where
  "refill ls left = (case ls of [] \<Rightarrow> left | l # _ \<Rightarrow> amount l)"

function cross_loop ::
  "OrderBookLevel list \<Rightarrow> OrderBookLevel list \<Rightarrow> decimal \<Rightarrow> decimal \<Rightarrow> decimal \<Rightarrow> decimal \<Rightarrow>
   decimal \<times> decimal" where
  "cross_loop [] bs al bl bas quot = (bas, quot)"
| "cross_loop (a # as) [] al bl bas quot = (bas, quot)"
| "cross_loop (a # as) (b # bs) al bl bas quot =
     (if price b \<le> price a then (bas, quot)
      else let tk = min al bl;
               bas' = (if tk > 0 then dadd bas tk else bas);
               quot' = (if tk > 0 then dadd quot (dmul tk (price a)) else quot);
               al' = dsub al tk;
               bl' = dsub bl tk;
               as' = (if al' \<le> 0 then as else a # as);
               al'' = (if al' \<le> 0 then refill as al' else al');
               bs' = (if bl' \<le> 0 then bs else b # bs);
               bl'' = (if bl' \<le> 0 then refill bs bl' else bl')
           in cross_loop as' bs' al'' bl'' bas' quot')"
  by pat_completeness auto
termination
  by (relation "measure (\<lambda>(as, bs, _). length as + length bs)") (auto simp: min_def)

definition crossable_liquidity :: "OrderBook \<Rightarrow> OrderBook \<Rightarrow> decimal \<times> decimal" where
  "crossable_liquidity buy_book sell_book =
     (let (bas, quot) = cross_loop (asks buy_book) (bids sell_book)
            (refill (asks buy_book) 0) (refill (bids sell_book) 0) 0 0
      in (floor_amount bas, quantize 8 quot))"

subsection \<open>Exact books and the reference cost\<close>

definition level_exact :: "OrderBookLevel \<Rightarrow> bool" where
  "level_exact l \<longleftrightarrow> 0 < price l \<and> 0 < amount l \<and> on_grid 8 (price l) \<and> on_grid 8 (amount l)"

definition levels_exact :: "OrderBookLevel list \<Rightarrow> bool" where
  "levels_exact ls \<longleftrightarrow> list_all level_exact ls \<and> (\<Sum>l\<leftarrow>ls. price l * amount l) < 10 ^ 12"

fun exact_cost :: "rat \<Rightarrow> OrderBookLevel list \<Rightarrow> rat" where
  "exact_cost a [] = 0"
| "exact_cost a (l # ls) =
     (let t = min a (amount l) in t * price l + exact_cost (a - t) ls)"

abbreviation liquidity :: "OrderBookLevel list \<Rightarrow> rat" where
  "liquidity ls \<equiv> (\<Sum>l\<leftarrow>ls. amount l)"

lemma liquidity_nonneg: "list_all level_exact ls \<Longrightarrow> 0 \<le> liquidity ls"
  by (intro sum_list_nonneg) (auto simp: list_all_iff level_exact_def less_imp_le)

lemma exact_cost_0 [simp]: "list_all level_exact ls \<Longrightarrow> exact_cost 0 ls = 0"
  by (induction ls) (auto simp: level_exact_def min_def)

lemma exact_cost_bounds:
  "list_all level_exact ls \<Longrightarrow> 0 \<le> a \<Longrightarrow>
   0 \<le> exact_cost a ls \<and> exact_cost a ls \<le> (\<Sum>l\<leftarrow>ls. price l * amount l)"
proof (induction ls arbitrary: a)
  case (Cons l ls)
  let ?t = "min a (amount l)"
  have t: "0 \<le> ?t" "0 \<le> a - ?t" using Cons.prems by (auto simp: level_exact_def)
  have "0 \<le> exact_cost (a - ?t) ls" "exact_cost (a - ?t) ls \<le> (\<Sum>l\<leftarrow>ls. price l * amount l)"
    using Cons.IH [of "a - ?t"] Cons.prems t by auto
  moreover have "0 \<le> ?t * price l" "?t * price l \<le> price l * amount l"
    using Cons.prems t by (auto simp: level_exact_def mult.commute mult_left_mono)
  ultimately show ?case by (simp add: Let_def)
qed simp

text \<open>One level of a base walk on exact data: the three rounded operations are exact.\<close>

lemma walk_step:
  assumes "list_all level_exact (l # ls)" "0 < r" "on_grid 8 r" "r < 10 ^ 20"
    "0 \<le> q" "on_grid 16 q" "q + exact_cost r (l # ls) < 10 ^ 12"
  shows "dmul (min r (amount l)) (price l) = min r (amount l) * price l"
    "dadd q (min r (amount l) * price l) = q + min r (amount l) * price l"
    "dsub r (min r (amount l)) = r - min r (amount l)"
    "0 < min r (amount l)" "on_grid 8 (r - min r (amount l))"
    "on_grid 16 (q + min r (amount l) * price l)"
    "0 \<le> q + min r (amount l) * price l"
proof -
  let ?t = "min r (amount l)"
  have l: "level_exact l" and ls: "list_all level_exact ls" using assms by auto
  have t: "0 < ?t" "on_grid 8 ?t" using l assms by (auto simp: level_exact_def min_def)
  have g: "on_grid 16 (?t * price l)"
    using on_grid_mult [of 8 ?t 8 "price l"] t l by (simp add: level_exact_def)
  have c: "0 \<le> exact_cost (r - ?t) ls" using exact_cost_bounds [OF ls, of "r - ?t"] by simp
  have tp: "0 \<le> ?t * price l" using t l by (simp add: level_exact_def)
  have cost: "exact_cost r (l # ls) = ?t * price l + exact_cost (r - ?t) ls" by (simp add: Let_def)
  have tb: "?t * price l < 10 ^ 12" "q + ?t * price l < 10 ^ 12"
    using assms c cost by linarith+
  show "dmul ?t (price l) = ?t * price l"
    unfolding dmul_def using g tp tb by (intro fix28_grid16) (simp_all only: abs_of_nonneg)
  show "dadd q (?t * price l) = q + ?t * price l"
    unfolding dadd_def using g tp tb assms by (intro fix28_grid16) auto
  show "dsub r ?t = r - ?t"
    unfolding dsub_def using t assms by (intro fix28_grid8) auto
  show "0 < ?t" by (rule t)
  show "on_grid 8 (r - ?t)" "on_grid 16 (q + ?t * price l)" "0 \<le> q + ?t * price l"
    using t g tp assms by auto
qed

lemma base_walk_exact:
  assumes "list_all level_exact ls" "0 < r" "on_grid 8 r" "r < 10 ^ 20"
    "0 \<le> q" "on_grid 16 q" "q + exact_cost r ls < 10 ^ 12"
  shows "\<exists>n'. base_walk ls r q n = (max 0 (r - liquidity ls), q + exact_cost r ls, n')
    \<and> n' \<le> n + length ls"
  using assms
proof (induction ls arbitrary: r q n)
  case (Cons l ls)
  let ?t = "min r (amount l)"
  note step = walk_step [OF Cons.prems]
  have ls: "list_all level_exact ls" using Cons.prems by auto
  show ?case
  proof (cases "r \<le> amount l")
    case True
    then show ?thesis using step ls liquidity_nonneg [OF ls] by (simp add: Let_def)
  next
    case False
    then have ta: "?t = amount l" by simp
    have "\<exists>n'. base_walk ls (r - ?t) (q + ?t * price l) (n + 1) =
        (max 0 (r - ?t - liquidity ls), q + ?t * price l + exact_cost (r - ?t) ls, n')
        \<and> n' \<le> n + 1 + length ls"
      by (rule Cons.IH [OF ls]) (use False step Cons.prems in \<open>auto simp: Let_def\<close>)
    then show ?thesis using step False ta by (auto simp: Let_def diff_diff_eq add.assoc)
  qed
qed auto

lemma liquidity_grid: "list_all level_exact ls \<Longrightarrow> on_grid 8 (liquidity ls)"
  by (induction ls) (auto simp: level_exact_def)

lemma exact_cost_ge:
  "list_all level_exact ls \<Longrightarrow> \<forall>l \<in> set ls. p \<le> price l \<Longrightarrow> 0 \<le> a \<Longrightarrow>
   p * min a (liquidity ls) \<le> exact_cost a ls"
proof (induction ls arbitrary: a)
  case (Cons l ls)
  let ?t = "min a (amount l)"
  have t: "0 \<le> ?t" "0 \<le> a - ?t" using Cons.prems by (auto simp: level_exact_def)
  have "p * min (a - ?t) (liquidity ls) \<le> exact_cost (a - ?t) ls"
    using Cons t by auto
  moreover have "p * ?t \<le> price l * ?t"
    using Cons.prems t by (intro mult_right_mono) auto
  moreover have "min a (liquidity (l # ls)) = ?t + min (a - ?t) (liquidity ls)"
    using liquidity_nonneg [of ls] Cons.prems by (auto simp: min_def)
  ultimately show ?case by (simp add: Let_def distrib_left mult.commute)
qed simp

lemma exact_cost_le:
  "list_all level_exact ls \<Longrightarrow> \<forall>l \<in> set ls. price l \<le> p \<Longrightarrow> 0 \<le> a \<Longrightarrow>
   exact_cost a ls \<le> p * min a (liquidity ls)"
proof (induction ls arbitrary: a)
  case (Cons l ls)
  let ?t = "min a (amount l)"
  have t: "0 \<le> ?t" "0 \<le> a - ?t" using Cons.prems by (auto simp: level_exact_def)
  have "exact_cost (a - ?t) ls \<le> p * min (a - ?t) (liquidity ls)"
    using Cons t by auto
  moreover have "price l * ?t \<le> p * ?t"
    using Cons.prems t by (intro mult_right_mono) auto
  moreover have "min a (liquidity (l # ls)) = ?t + min (a - ?t) (liquidity ls)"
    using liquidity_nonneg [of ls] Cons.prems by (auto simp: min_def)
  ultimately show ?case by (simp add: Let_def distrib_left mult.commute)
qed simp

definition size_exact :: "decimal \<Rightarrow> bool" where
  "size_exact x \<longleftrightarrow> 0 < x \<and> on_grid 8 x \<and> x < 10 ^ 20"

lemma quantized_ratio_ge:
  assumes "on_grid 8 p" "\<bar>p\<bar> < 10 ^ 20" "0 < y" "p * y \<le> x"
  shows "p \<le> quantize 8 (ddiv x y)"
proof -
  have "p \<le> x / y" using assms by (simp add: le_divide_eq)
  then have "p \<le> ddiv x y"
    unfolding ddiv_def using assms by (intro ctx.rnd_ge_exact fix28_grid [of 8]) auto
  then show ?thesis using assms by (intro quantize_above_grid)
qed

lemma quantized_ratio_le:
  assumes "on_grid 8 p" "\<bar>p\<bar> < 10 ^ 20" "0 < y" "x \<le> p * y"
  shows "quantize 8 (ddiv x y) \<le> p"
proof -
  have "x / y \<le> p" using assms by (simp add: divide_le_eq)
  then have "ddiv x y \<le> p"
    unfolding ddiv_def using assms by (intro ctx.rnd_le_exact fix28_grid [of 8]) auto
  then show ?thesis using assms by (intro quantize_below_grid)
qed

lemma slippage_nonneg:
  "(if sd = BUY then reference \<le> average else average \<le> reference) \<Longrightarrow>
   0 \<le> slippage_bps reference average sd"
  unfolding slippage_bps_def Let_def
  by (auto split: if_splits intro!: quantize_nonneg dmul_signs ddiv_signs)

lemma estimate_base_unfold:
  assumes "book_side book sd = l0 # ls" "0 < amt" "base_walk (l0 # ls) amt 0 0 = (r, q, n)"
  shows "estimate_for_base_amount book sd amt =
    (let average = (if r < amt then quantize 8 (ddiv q (dsub amt r)) else price l0)
     in check_estimate
      \<lparr>est_side = sd, requested_amount = amt, est_filled_amount = dsub amt r,
       est_quote_amount = quantize 8 q, est_average_price = average,
       est_reference_price = price l0,
       est_slippage_bps = slippage_bps (price l0) average sd,
       levels_consumed = n, est_is_complete = (r \<le> 0), requested_quote = None\<rparr>)"
  using assms by (simp add: estimate_for_base_amount_def Let_def del: base_walk.simps)

lemma estimate_base_exact:
  assumes "book_side book sd = l0 # ls" "levels_exact (l0 # ls)" "size_exact amt"
  obtains e where "estimate_for_base_amount book sd amt = Inr e"
    "est_filled_amount e = min amt (liquidity (l0 # ls))"
    "est_is_complete e \<longleftrightarrow> amt \<le> liquidity (l0 # ls)"
    "est_quote_amount e = quantize 8 (exact_cost amt (l0 # ls))"
    "est_reference_price e = price l0"
    "est_average_price e =
       quantize 8 (ddiv (exact_cost amt (l0 # ls)) (min amt (liquidity (l0 # ls))))"
    "est_slippage_bps e = slippage_bps (price l0) (est_average_price e) sd"
proof -
  define L where "L = l0 # ls"
  have B: "list_all level_exact L" and N: "(\<Sum>l\<leftarrow>L. price l * amount l) < 10 ^ 12"
    using assms(2) by (auto simp: levels_exact_def L_def)
  have A: "0 < amt" "on_grid 8 amt" "amt < 10 ^ 20" using assms(3) by (auto simp: size_exact_def)
  have C: "0 \<le> exact_cost amt L" "exact_cost amt L < 10 ^ 12"
    using exact_cost_bounds [OF B, of amt] A N by auto
  obtain n where w: "base_walk L amt 0 0 = (max 0 (amt - liquidity L), exact_cost amt L, n)"
    using base_walk_exact [OF B, of amt 0 0] A C by auto
  have lp: "0 < liquidity L"
    using B liquidity_nonneg [of ls] by (auto simp: level_exact_def L_def)
  have f: "dsub amt (max 0 (amt - liquidity L)) = min amt (liquidity L)"
  proof -
    have e: "amt - max 0 (amt - liquidity L) = min amt (liquidity L)" by auto
    show ?thesis unfolding dsub_def e
      using A lp liquidity_grid [OF B] by (intro fix28_grid8) auto
  qed
  have q: "\<not> quantize 8 (exact_cost amt L) < 0"
    using quantize_nonneg [OF C(1)] by (simp add: not_less)
  have r: "max 0 (amt - liquidity L) < amt" using lp A by auto
  have c: "\<not> (min amt (liquidity L) < 0 \<or> quantize 8 (exact_cost amt L) < 0)"
    using lp A q by simp
  note u = estimate_base_unfold [OF assms(1) A(1), folded L_def, OF w, unfolded f if_P [OF r]
      Let_def check_estimate_def ExecutionEstimate.select_convs if_not_P [OF c]]
  show ?thesis
    by (rule that [OF u]) (auto simp flip: L_def)
qed

text \<open>The walk over a quote budget.\<close>

abbreviation notional_sum :: "OrderBookLevel list \<Rightarrow> rat" where
  "notional_sum ls \<equiv> (\<Sum>l\<leftarrow>ls. price l * amount l)"

lemma notional_nonneg: "list_all level_exact ls \<Longrightarrow> 0 \<le> notional_sum ls"
  by (intro sum_list_nonneg) (auto simp: list_all_iff level_exact_def less_imp_le)

lemma quote_walk_exact:
  assumes "list_all level_exact ls" "notional_sum ls < 10 ^ 12" "0 < r" "on_grid 16 r"
    "0 \<le> f" "0 \<le> s" "on_grid 16 s" "s + r < 10 ^ 12"
  shows "\<exists>f' n'. quote_walk ls r f s n =
    (max 0 (r - notional_sum ls), f', s + min r (notional_sum ls), n') \<and> 0 \<le> f'
     \<and> (ls \<noteq> [] \<longrightarrow> 0 < f')"
  using assms
proof (induction ls arbitrary: r f s n)
  case (Cons l ls)
  let ?v = "price l * amount l"
  have l: "level_exact l" and ls: "list_all level_exact ls" using Cons.prems by auto
  have nn: "0 \<le> notional_sum ls" using ls by (rule notional_nonneg)
  have v: "0 < ?v" "on_grid 16 ?v" "?v < 10 ^ 12"
    using l on_grid_mult [of 8 "price l" 8 "amount l"] Cons.prems nn
    by (auto simp: level_exact_def)
  have m: "dmul (price l) (amount l) = ?v"
    unfolding dmul_def using v by (intro fix28_grid16) (simp_all only: abs_of_pos)
  let ?t = "min r ?v"
  have t: "0 < ?t" "on_grid 16 ?t" using v Cons.prems by (auto simp: min_def)
  have sp: "dadd s ?t = s + ?t"
    unfolding dadd_def using t Cons.prems by (intro fix28_grid16) auto
  have rm: "dsub r ?t = r - ?t"
    unfolding dsub_def using t Cons.prems by (intro fix28_grid16) auto
  have f: "0 < dadd f (ddiv ?t (price l))"
    using t l Cons.prems by (intro dec_signs) (auto simp: level_exact_def)
  show ?case
  proof (cases "r \<le> ?v")
    case True
    then show ?thesis using t m sp rm f nn Cons.prems by (auto simp: Let_def)
  next
    case False
    then have tv: "?t = ?v" by simp
    have "\<exists>f' n'. quote_walk ls (r - ?v) (dadd f (ddiv ?v (price l))) (s + ?v) (n + 1) =
      (max 0 (r - ?v - notional_sum ls), f', s + ?v + min (r - ?v) (notional_sum ls), n')
       \<and> 0 \<le> f' \<and> (ls \<noteq> [] \<longrightarrow> 0 < f')"
    proof (rule Cons.IH [OF ls])
      show "notional_sum ls < 10 ^ 12" using Cons.prems v by simp
    qed (use False f tv v Cons.prems in auto)
    moreover have "ls = [] \<Longrightarrow> quote_walk ls (r - ?v) (dadd f (ddiv ?v (price l))) (s + ?v) (n + 1)
      = (r - ?v, dadd f (ddiv ?v (price l)), s + ?v, n + 1)" by simp
    ultimately show ?thesis
      using False t m sp rm f tv
      by (cases "ls = []") (auto simp: Let_def diff_diff_eq add.assoc min_def max_def)
  qed
qed auto

lemma vwap_loop_exact:
  assumes "list_all level_exact ls" "0 < r" "on_grid 8 r" "r < 10 ^ 20"
    "0 \<le> q" "on_grid 16 q" "q + exact_cost r ls < 10 ^ 12"
  shows "vwap_loop ls a r q =
    (if r \<le> liquidity ls then Some (quantize 8 (ddiv (q + exact_cost r ls) a)) else None)"
  using assms
proof (induction ls arbitrary: r q)
  case (Cons l ls)
  let ?t = "min r (amount l)"
  note step = walk_step [OF Cons.prems]
  have ls: "list_all level_exact ls" using Cons.prems by auto
  show ?case
  proof (cases "r \<le> amount l")
    case True
    then show ?thesis using step ls liquidity_nonneg [OF ls] by (simp add: Let_def)
  next
    case False
    then have ta: "?t = amount l" by simp
    have "vwap_loop ls a (r - ?t) (q + ?t * price l) =
      (if r - ?t \<le> liquidity ls
       then Some (quantize 8 (ddiv (q + ?t * price l + exact_cost (r - ?t) ls) a)) else None)"
      by (rule Cons.IH [OF ls]) (use False step Cons.prems in \<open>auto simp: Let_def\<close>)
    then show ?thesis using False step ta by (auto simp: Let_def add.assoc)
  qed
qed auto


lemma estimate_quote_unfold:
  assumes "book_side book sd = l0 # ls" "0 < b" "price l0 \<noteq> 0"
    "quote_walk (l0 # ls) b 0 0 0 = (r, f, s, n)"
  shows "estimate_for_quote_amount book sd b =
    (let average = (if 0 < f then quantize 8 (ddiv s f) else price l0)
     in check_estimate
      \<lparr>est_side = sd, requested_amount = floor_amount (ddiv b (price l0)),
       est_filled_amount = floor_amount f, est_quote_amount = quantize 8 s,
       est_average_price = average, est_reference_price = price l0,
       est_slippage_bps = slippage_bps (price l0) average sd,
       levels_consumed = n, est_is_complete = (r \<le> 0), requested_quote = Some b\<rparr>)"
  using assms by (simp add: estimate_for_quote_amount_def Let_def del: quote_walk.simps)

lemma estimate_quote_exact:
  assumes "book_side book sd = l0 # ls" "levels_exact (l0 # ls)" "0 < b" "on_grid 8 b" "b < 10 ^ 12"
  obtains e where "estimate_for_quote_amount book sd b = Inr e"
    "est_quote_amount e = quantize 8 (min b (notional_sum (l0 # ls)))"
    "est_is_complete e \<longleftrightarrow> b \<le> notional_sum (l0 # ls)"
    "0 \<le> est_filled_amount e" "est_reference_price e = price l0"
proof -
  define L where "L = l0 # ls"
  have B: "list_all level_exact L" and N: "notional_sum L < 10 ^ 12"
    using assms(2) by (auto simp: levels_exact_def L_def)
  have g: "on_grid 16 b" using on_grid_le [OF assms(4)] by simp
  obtain f n where w: "quote_walk L b 0 0 0 =
      (max 0 (b - notional_sum L), f, min b (notional_sum L), n)" and f: "0 < f"
    using quote_walk_exact [OF B N assms(3) g, of 0 0 0] assms(3,5) by (auto simp: L_def)
  have p: "price l0 \<noteq> 0" using B by (auto simp: L_def level_exact_def)
  have s: "0 \<le> min b (notional_sum L)" using assms(3) notional_nonneg [OF B] by simp
  have c: "\<not> (floor_amount f < 0 \<or> quantize 8 (min b (notional_sum L)) < 0)"
    using quantize_nonneg [OF s] f by (simp add: floor_amount_def quantize_down_nonneg not_less)
  note u = estimate_quote_unfold [OF assms(1) assms(3) p, folded L_def, OF w, unfolded if_P [OF f]
      Let_def check_estimate_def ExecutionEstimate.select_convs if_not_P [OF c]]
  show ?thesis
    by (rule that [OF u]) (use c in \<open>auto simp flip: L_def\<close>)
qed

subsection \<open>The crossing loop\<close>

definition pool :: "(OrderBookLevel \<Rightarrow> bool) \<Rightarrow> OrderBookLevel list \<Rightarrow> decimal \<Rightarrow> rat" where
  "pool Q ls left =
     (case ls of [] \<Rightarrow> 0
      | l # ls' \<Rightarrow> (if Q l then left else 0) + liquidity (filter Q ls'))"

lemma pool_refill: "pool Q ls (refill ls x) = liquidity (filter Q ls)"
  by (auto simp: pool_def refill_def split: list.splits)

lemma liquidity_filter_le: "list_all level_exact ls \<Longrightarrow> liquidity (filter Q ls) \<le> liquidity ls"
  by (induction ls) (auto simp: level_exact_def)

definition side_left :: "OrderBookLevel list \<Rightarrow> decimal \<Rightarrow> bool" where
  "side_left ls left \<longleftrightarrow> list_all level_exact ls \<and> (ls \<noteq> [] \<longrightarrow> 0 < left \<and> on_grid 8 left)"

lemma side_left_refill: "list_all level_exact ls \<Longrightarrow> side_left ls (refill ls x)"
  by (cases ls) (auto simp: side_left_def refill_def level_exact_def)

text \<open>One iteration on exact sides: sizes stay exact and positive.\<close>

lemma cross_step:
  assumes "side_left (a # as) al" "side_left (b # bs) bl" "0 \<le> bas" "on_grid 8 bas"
    "bas + al < 10 ^ 20" "bl < 10 ^ 20"
  shows "0 < min al bl" "dadd bas (min al bl) = bas + min al bl"
    "dsub al (min al bl) = al - min al bl" "dsub bl (min al bl) = bl - min al bl"
    "on_grid 8 (bas + min al bl)"
    "side_left (if al \<le> min al bl then as else a # as)
       (if al \<le> min al bl then refill as x else al - min al bl)"
    "side_left (if bl \<le> min al bl then bs else b # bs)
       (if bl \<le> min al bl then refill bs y else bl - min al bl)"
proof -
  have g: "0 < al" "on_grid 8 al" "0 < bl" "on_grid 8 bl" "list_all level_exact as"
    "list_all level_exact bs" using assms by (auto simp: side_left_def)
  show "0 < min al bl" using g by simp
  show "dadd bas (min al bl) = bas + min al bl"
    unfolding dadd_def using g assms by (intro fix28_grid8) auto
  show "dsub al (min al bl) = al - min al bl"
    unfolding dsub_def using g assms by (intro fix28_grid8) auto
  show "dsub bl (min al bl) = bl - min al bl"
    unfolding dsub_def using g assms by (intro fix28_grid8) auto
  show "on_grid 8 (bas + min al bl)" using g assms by auto
  show "side_left (if al \<le> min al bl then as else a # as)
       (if al \<le> min al bl then refill as x else al - min al bl)"
    using g side_left_refill assms by (auto simp: side_left_def)
  show "side_left (if bl \<le> min al bl then bs else b # bs)
       (if bl \<le> min al bl then refill bs y else bl - min al bl)"
    using g side_left_refill assms by (auto simp: side_left_def)
qed

definition left_total :: "OrderBookLevel list \<Rightarrow> decimal \<Rightarrow> rat" where
  "left_total ls left = (case ls of [] \<Rightarrow> 0 | l # ls' \<Rightarrow> left + liquidity ls')"

lemma left_total_refill: "left_total ls (refill ls x) = liquidity ls"
  by (auto simp: left_total_def refill_def split: list.splits)

lemma pool_nonneg: "side_left ls left \<Longrightarrow> 0 \<le> pool Q ls left"
proof -
  assume "side_left ls left"
  moreover have "list_all level_exact xs \<Longrightarrow> 0 \<le> liquidity (filter Q xs)" for xs
    by (rule liquidity_nonneg) (auto simp: list_all_iff)
  ultimately show ?thesis by (fastforce simp: pool_def side_left_def split: list.splits)
qed

lemma pool_step:
  "Q l \<Longrightarrow> t \<le> left \<Longrightarrow>
   pool Q (if left \<le> t then ls else l # ls) (if left \<le> t then refill ls x else left - t)
     = pool Q (l # ls) left - t"
  by (auto simp: pool_refill) (auto simp: pool_def)

lemma total_step:
  "t \<le> left \<Longrightarrow>
   left_total (if left \<le> t then ls else l # ls) (if left \<le> t then refill ls x else left - t)
     = left_total (l # ls) left - t"
  by (auto simp: left_total_refill) (auto simp: left_total_def)

lemma cross_loop_bound:
  assumes "side_left as al" "side_left bs bl" "0 \<le> bas" "on_grid 8 bas"
    "bas + left_total as al < 10 ^ 20" "left_total bs bl < 10 ^ 20"
    "\<forall>b \<in> set bs. price b \<le> P" "\<forall>a \<in> set as. R \<le> price a"
  shows "bas \<le> fst (cross_loop as bs al bl bas quot)
    \<and> fst (cross_loop as bs al bl bas quot) \<le> bas + pool (\<lambda>l. price l < P) as al
    \<and> fst (cross_loop as bs al bl bas quot) \<le> bas + pool (\<lambda>l. R < price l) bs bl"
  using assms
proof (induction as bs al bl bas quot rule: cross_loop.induct)
  case (3 a as b bs al bl bas quot)
  show ?case
  proof (cases "price b \<le> price a")
    case True
    then show ?thesis using 3(2,3) pool_nonneg by simp
  next
    case False
    let ?t = "min al bl"
    have la: "0 \<le> liquidity as" "0 \<le> liquidity bs"
      using 3(2,3) by (auto simp: side_left_def intro: liquidity_nonneg)
    then have sz: "bas + al < 10 ^ 20" "bl < 10 ^ 20"
      using 3(6,7) by (auto simp: left_total_def)
    note step = cross_step [OF 3(2,3,4,5) sz]
    let ?as = "if al \<le> ?t then as else a # as" and ?al = "if al \<le> ?t then refill as (al - ?t) else al - ?t"
    let ?bs = "if bl \<le> ?t then bs else b # bs" and ?bl = "if bl \<le> ?t then refill bs (bl - ?t) else bl - ?t"
    let ?q = "dadd quot (dmul ?t (price a))"
    have e: "cross_loop (a # as) (b # bs) al bl bas quot = cross_loop ?as ?bs ?al ?bl (bas + ?t) ?q"
      by (subst cross_loop.simps(3))
        (simp only: False step(1-4) Let_def if_True if_False diff_le_0_iff_le)
    note ih = 3(1) [OF False refl refl refl refl refl refl refl refl refl,
        unfolded step(2,3,4) if_P [OF step(1)] diff_le_0_iff_le, OF step(6,7)]
    have pa: "price a < P" "R < price b" using False 3(8,9) by auto
    have "bas + ?t \<le> fst (cross_loop ?as ?bs ?al ?bl (bas + ?t) ?q)
      \<and> fst (cross_loop ?as ?bs ?al ?bl (bas + ?t) ?q) \<le> bas + ?t + pool (\<lambda>l. price l < P) ?as ?al
      \<and> fst (cross_loop ?as ?bs ?al ?bl (bas + ?t) ?q) \<le> bas + ?t + pool (\<lambda>l. R < price l) ?bs ?bl"
    proof (rule ih)
      show "0 \<le> bas + ?t" using step(1) 3(4) by simp
      show "on_grid 8 (bas + ?t)" by (rule step(5))
      show "bas + ?t + left_total ?as ?al < 10 ^ 20"
        using 3(6) by (simp only: total_step min.cobounded1)
      show "left_total ?bs ?bl < 10 ^ 20"
        using 3(7) step(1) by (simp only: total_step min.cobounded2)
      show "\<forall>x \<in> set ?bs. price x \<le> P" "\<forall>x \<in> set ?as. R \<le> price x" using 3(8,9) by auto
    qed
    then show ?thesis
      unfolding e using pa step(1) by (simp only: pool_step total_step min.cobounded1 min.cobounded2) auto
  qed
qed (use pool_nonneg in \<open>auto simp: pool_def [of _ "[]"]\<close>)

subsection \<open>Properties\<close>

text \<open>(estimate_base_correct).
  On a book with exact levels, pricing a base amount never raises; it fills the smaller of
  the request and the offered liquidity, is complete exactly when the liquidity suffices,
  and the quote amount is the exact cost of walking the levels, rounded to eight places.\<close>

theorem estimate_base_correct:
  assumes "book_side book sd = ls" "ls \<noteq> []" "levels_exact ls" "size_exact amt"
  shows "\<exists>e. estimate_for_base_amount book sd amt = Inr e \<and>
    est_filled_amount e = min amt (liquidity ls) \<and>
    (est_is_complete e \<longleftrightarrow> amt \<le> liquidity ls) \<and>
    est_quote_amount e = quantize 8 (exact_cost amt ls)"
proof -
  obtain l0 ls' where l: "ls = l0 # ls'" using assms(2) by (cases ls) auto
  show ?thesis
    using assms unfolding l by (metis estimate_base_exact [of book sd l0 ls' amt])
qed

definition sample_book :: OrderBook where
  "sample_book = mk_order_book ''okx'' \<lparr>base = ''BTC'', quote = ''USDT'', settle = None\<rparr> 0
     [\<lparr>price = 98, amount = 1\<rparr>, \<lparr>price = 99, amount = 2\<rparr>]
     [\<lparr>price = 101, amount = 2\<rparr>, \<lparr>price = 100, amount = 1\<rparr>]"

lemma sample_book_sides:
  "asks sample_book = [\<lparr>price = 100, amount = 1\<rparr>, \<lparr>price = 101, amount = 2\<rparr>]"
  "bids sample_book = [\<lparr>price = 99, amount = 2\<rparr>, \<lparr>price = 98, amount = 1\<rparr>]"
  by (simp_all add: sample_book_def mk_order_book_def sort_asks_def sort_bids_def)

lemma sample_book_exact:
  "levels_exact (asks sample_book)" "levels_exact (bids sample_book)" "size_exact 2"
  by (simp_all add: sample_book_sides levels_exact_def level_exact_def on_grid_def size_exact_def)

theorem estimate_base_correct_witness:
  "\<exists>e. estimate_for_base_amount sample_book BUY 2 = Inr e \<and>
    est_filled_amount e = 2 \<and> est_is_complete e \<and> est_quote_amount e = 201"
  using estimate_base_correct [of sample_book BUY "asks sample_book" 2] sample_book_exact
  by (simp add: book_side_def sample_book_sides dec_eval)

lemma estimate_price_between:
  assumes "book_ok book" "book_side book sd = ls" "ls \<noteq> []" "levels_exact ls" "size_exact amt"
    "\<forall>l \<in> set ls. price l < 10 ^ 20" "estimate_for_base_amount book sd amt = Inr e"
  shows "(if sd = BUY
      then price (hd ls) \<le> est_average_price e \<and> est_average_price e \<le> price (last ls)
      else price (last ls) \<le> est_average_price e \<and> est_average_price e \<le> price (hd ls))
    \<and> 0 \<le> est_slippage_bps e"
proof -
  obtain l0 ls' where l: "ls = l0 # ls'" using assms(3) by (cases ls) auto
  obtain e' where e': "estimate_for_base_amount book sd amt = Inr e'"
    "est_average_price e' = quantize 8 (ddiv (exact_cost amt ls) (min amt (liquidity ls)))"
    "est_slippage_bps e' = slippage_bps (price l0) (est_average_price e') sd"
    using estimate_base_exact [of book sd l0 ls' amt] assms(2,4,5) unfolding l by metis
  then have e: "e = e'" using assms(7) by simp
  have L: "list_all level_exact ls" and A: "0 < amt"
    using assms(4,5) by (auto simp: levels_exact_def size_exact_def)
  have m: "0 < min amt (liquidity ls)"
    using A L liquidity_nonneg [of ls'] by (auto simp: l level_exact_def)
  have between: "lo \<le> est_average_price e' \<and> est_average_price e' \<le> hi"
    if "lo \<in> price ` set ls" "hi \<in> price ` set ls" "\<forall>x \<in> set ls. lo \<le> price x \<and> price x \<le> hi"
    for lo hi
  proof -
    have g: "on_grid 8 lo" "on_grid 8 hi" "\<bar>lo\<bar> < 10 ^ 20" "\<bar>hi\<bar> < 10 ^ 20"
      using that(1,2) L assms(6) by (auto simp: list_all_iff level_exact_def)
    have "lo * min amt (liquidity ls) \<le> exact_cost amt ls"
      using exact_cost_ge [OF L, of lo amt] that(3) A by simp
    moreover have "exact_cost amt ls \<le> hi * min amt (liquidity ls)"
      using exact_cost_le [OF L, of hi amt] that(3) A by simp
    ultimately show ?thesis
      unfolding e'(2) using g m by (auto intro!: quantized_ratio_ge quantized_ratio_le)
  qed
  have so: "if sd = BUY then sorted_wrt (\<lambda>l m. price l \<le> price m) ls
      else sorted_wrt (\<lambda>l m. price m \<le> price l) ls"
    using assms(1,2) by (auto simp: book_ok_def book_side_def)
  have ends: "\<forall>x \<in> set ls. price (hd ls) \<le> price x \<and> price x \<le> price (last ls)" if "sd = BUY"
    using so that sorted_wrt_ends [of "\<lambda>l m. price l \<le> price m" ls] by simp
  have ends': "\<forall>x \<in> set ls. price (last ls) \<le> price x \<and> price x \<le> price (hd ls)" if "sd \<noteq> BUY"
    using so that sorted_wrt_ends [of "\<lambda>l m. price m \<le> price l" ls] by simp
  have b: "if sd = BUY
      then price (hd ls) \<le> est_average_price e' \<and> est_average_price e' \<le> price (last ls)
      else price (last ls) \<le> est_average_price e' \<and> est_average_price e' \<le> price (hd ls)"
    using between [of "price (hd ls)" "price (last ls)"] between [of "price (last ls)" "price (hd ls)"]
      ends ends' assms(3) by (cases "sd = BUY") simp_all
  moreover have "0 \<le> est_slippage_bps e'"
    unfolding e'(3) using b by (intro slippage_nonneg) (auto simp: l)
  ultimately show ?thesis by (simp add: e)
qed

text \<open>(estimate_price_bounds).
  On a sorted exact book the average price of an estimate lies between the top of the book
  and the worst price of the side, so the reported slippage is never negative.\<close>

theorem estimate_price_bounds:
  assumes "book_ok book" "book_side book sd = ls" "ls \<noteq> []" "levels_exact ls" "size_exact amt"
    "\<forall>l \<in> set ls. price l < 10 ^ 20" "estimate_for_base_amount book sd amt = Inr e"
  shows "(if sd = BUY
      then price (hd ls) \<le> est_average_price e \<and> est_average_price e \<le> price (last ls)
      else price (last ls) \<le> est_average_price e \<and> est_average_price e \<le> price (hd ls))
    \<and> 0 \<le> est_slippage_bps e"
  using estimate_price_between [OF assms] .

theorem estimate_price_bounds_witness:
  "\<exists>e. estimate_for_base_amount sample_book BUY 2 = Inr e \<and>
    100 \<le> est_average_price e \<and> est_average_price e \<le> 101 \<and> 0 \<le> est_slippage_bps e"
proof -
  have ok: "book_ok sample_book"
    unfolding sample_book_def by (rule mk_order_book_ok) simp_all
  obtain e where e: "estimate_for_base_amount sample_book BUY 2 = Inr e"
    using estimate_base_exact [of sample_book BUY "hd (asks sample_book)" "tl (asks sample_book)" 2]
      sample_book_exact by (auto simp: book_side_def sample_book_sides)
  show ?thesis
    using estimate_price_bounds [OF ok, of BUY "asks sample_book" 2 e] sample_book_exact e
    by (simp add: book_side_def sample_book_sides)
qed

text \<open>(vwap_agrees).
  The standalone volume-weighted average price and the estimator agree: \<open>vwap\<close> is the
  estimate's average when the estimate is complete and \<open>None\<close> when the liquidity is short.\<close>

theorem vwap_agrees:
  assumes "book_side book sd = ls" "ls \<noteq> []" "levels_exact ls" "size_exact amt"
    "estimate_for_base_amount book sd amt = Inr e"
  shows "vwap ls amt = (if est_is_complete e then Some (est_average_price e) else None)"
proof -
  obtain l0 ls' where l: "ls = l0 # ls'" using assms(2) by (cases ls) auto
  have L: "list_all level_exact ls" and N: "notional_sum ls < 10 ^ 12"
    and A: "0 < amt" "on_grid 8 amt" "amt < 10 ^ 20"
    using assms(3,4) by (auto simp: levels_exact_def size_exact_def)
  have "exact_cost amt ls < 10 ^ 12" using exact_cost_bounds [OF L, of amt] A N by simp
  then have v: "vwap ls amt =
      (if amt \<le> liquidity ls then Some (quantize 8 (ddiv (exact_cost amt ls) amt)) else None)"
    using vwap_loop_exact [OF L, of amt 0 amt] A by (simp add: vwap_def)
  obtain e' where "estimate_for_base_amount book sd amt = Inr e'"
    "est_is_complete e' \<longleftrightarrow> amt \<le> liquidity ls"
    "est_average_price e' = quantize 8 (ddiv (exact_cost amt ls) (min amt (liquidity ls)))"
    using estimate_base_exact [of book sd l0 ls' amt] assms(1,3,4) unfolding l by metis
  with assms(5) v show ?thesis by auto
qed

theorem vwap_agrees_witness: "vwap (asks sample_book) 2 = Some (201 / 2)"
proof -
  obtain e where e: "estimate_for_base_amount sample_book BUY 2 = Inr e" "est_is_complete e"
    "est_average_price e = quantize 8 (ddiv (exact_cost 2 (asks sample_book)) (min 2 (liquidity (asks sample_book))))"
    using estimate_base_exact [of sample_book BUY "hd (asks sample_book)" "tl (asks sample_book)" 2]
      sample_book_exact by (force simp: book_side_def sample_book_sides)
  have "vwap (asks sample_book) 2 = Some (est_average_price e)"
    using vwap_agrees [of sample_book BUY "asks sample_book" 2 e] sample_book_exact e(1,2)
    by (simp add: book_side_def sample_book_sides)
  then show ?thesis using e(3) by (simp add: sample_book_sides dec_eval)
qed

text \<open>(estimate_quote_within_budget).
  Walking a quote budget over an exact book never raises and never reports more quote than
  the budget; it is complete exactly when the side's notional covers the budget.\<close>

theorem estimate_quote_within_budget:
  assumes "book_side book sd = ls" "ls \<noteq> []" "levels_exact ls" "0 < b" "on_grid 8 b" "b < 10 ^ 12"
  shows "\<exists>e. estimate_for_quote_amount book sd b = Inr e \<and> 0 \<le> est_filled_amount e \<and>
    est_quote_amount e \<le> b \<and> (est_is_complete e \<longleftrightarrow> b \<le> notional_sum ls) \<and>
    (est_is_complete e \<longrightarrow> est_quote_amount e = b)"
proof -
  obtain l0 ls' where l: "ls = l0 # ls'" using assms(2) by (cases ls) auto
  obtain e where "estimate_for_quote_amount book sd b = Inr e"
    "est_quote_amount e = quantize 8 (min b (notional_sum ls))"
    "est_is_complete e \<longleftrightarrow> b \<le> notional_sum ls" "0 \<le> est_filled_amount e"
    unfolding l by (rule estimate_quote_exact [OF assms(1,3,4,5,6) [unfolded l]])
  then show ?thesis
    using assms(5) quantize_below_grid [OF assms(5), of "min b (notional_sum ls)"]
    by (auto simp: quantize_grid)
qed

theorem estimate_quote_within_budget_witness:
  "\<exists>e. estimate_for_quote_amount sample_book BUY 150 = Inr e \<and> est_is_complete e \<and>
    est_quote_amount e = 150"
  using estimate_quote_within_budget [of sample_book BUY "asks sample_book" 150] sample_book_exact
  by (auto simp: book_side_def sample_book_sides on_grid_def)

text \<open>(crossable_only_profitable).
  The crossing loop counts only liquidity that is profitable to cross: on exact books the
  base amount is bounded by the asks priced below the best bid and by the bids priced above
  the best ask, and it is zero when the books do not cross.\<close>

theorem crossable_only_profitable:
  assumes "list_all level_exact (asks b1)" "list_all level_exact (bids b2)"
    "liquidity (asks b1) < 10 ^ 20" "liquidity (bids b2) < 10 ^ 20"
    "\<forall>l \<in> set (bids b2). price l \<le> P" "\<forall>l \<in> set (asks b1). R \<le> price l"
  shows "0 \<le> fst (crossable_liquidity b1 b2)
    \<and> fst (crossable_liquidity b1 b2) \<le> liquidity (filter (\<lambda>l. price l < P) (asks b1))
    \<and> fst (crossable_liquidity b1 b2) \<le> liquidity (filter (\<lambda>l. R < price l) (bids b2))"
proof -
  let ?c = "cross_loop (asks b1) (bids b2) (refill (asks b1) 0) (refill (bids b2) 0) 0 0"
  have c: "0 \<le> fst ?c \<and> fst ?c \<le> liquidity (filter (\<lambda>l. price l < P) (asks b1))
    \<and> fst ?c \<le> liquidity (filter (\<lambda>l. R < price l) (bids b2))"
    using cross_loop_bound [OF side_left_refill [OF assms(1)] side_left_refill [OF assms(2)],
        of 0 0 0 P R 0] assms(3-6) by (simp add: left_total_refill pool_refill)
  moreover have "fst (crossable_liquidity b1 b2) = floor_amount (fst ?c)"
    by (simp add: crossable_liquidity_def case_prod_unfold Let_def)
  ultimately show ?thesis
    using quantize_down_le [of "fst ?c" 8] quantize_down_nonneg [of "fst ?c" 8]
    by (auto simp: floor_amount_def)
qed

theorem crossable_only_profitable_witness:
  "fst (crossable_liquidity sample_book (sample_book\<lparr>bids := [\<lparr>price = 200, amount = 5\<rparr>]\<rparr>)) \<le> 3
   \<and> fst (crossable_liquidity sample_book sample_book) = 0"
  using crossable_only_profitable [of sample_book "sample_book\<lparr>bids := [\<lparr>price = 200, amount = 5\<rparr>]\<rparr>" 200 100]
    crossable_only_profitable [of sample_book sample_book 99 100]
  by (simp add: sample_book_sides level_exact_def on_grid_def)

end
