(* ===== verification/Transfer_Planner.thy ===== *)
theory Transfer_Planner
  imports Transfer_Models Order_Book_Math
begin

text \<open>
  The transfer planner (\<^verbatim>\<open>app/strategies/transfer/planner.py\<close>): sanity of the two
  books, executable prices on both venues, the profit threshold and the sizing rules.
\<close>

subsection \<open>Book sanity\<close>

definition max_intra_spread_bps :: decimal where
  "max_intra_spread_bps = 1000"

definition wide_spread :: "OrderBook \<Rightarrow> bool" where
  "wide_spread b =
     (case (book_mid b, best_ask b, best_bid b) of
        (Some m, Some x, Some y) \<Rightarrow>
          m > 0 \<and> dmul (ddiv (dsub x y) m) 10000 > max_intra_spread_bps
      | _ \<Rightarrow> False)"

definition locked :: "OrderBook \<Rightarrow> bool" where
  "locked b = (case (best_bid b, best_ask b) of (Some x, Some y) \<Rightarrow> x \<ge> y | _ \<Rightarrow> False)"

definition validate_transfer_books :: "OrderBook \<Rightarrow> OrderBook \<Rightarrow> decimal \<Rightarrow> string option" where
  "validate_transfer_books buy_book sell_book max_gross =
     (case (best_ask buy_book, best_bid sell_book) of
        (Some buy_ask, Some sell_bid) \<Rightarrow>
          if asks buy_book = [] \<or> bids sell_book = [] then Some ''invalid_book''
          else if is_crossed buy_book \<or> is_crossed sell_book then Some ''invalid_book''
          else if locked buy_book then Some ''invalid_book''
          else if locked sell_book then Some ''invalid_book''
          else if wide_spread buy_book \<or> wide_spread sell_book then Some ''invalid_book''
          else if buy_ask \<le> 0 then Some ''invalid_book''
          else
            let gross_bps = dmul (ddiv (dsub sell_bid buy_ask) buy_ask) 10000 in
            if dabs gross_bps > max_gross then Some ''gross_divergence'' else None
      | _ \<Rightarrow> Some ''invalid_book'')"

subsection \<open>Prices\<close>

record PricePair =
  pp_buy_price :: decimal
  pp_sell_price :: decimal
  pp_from_books :: bool
  pp_buy_slippage_bps :: decimal
  pp_sell_slippage_bps :: decimal

definition price_pair :: "OrderBook \<Rightarrow> OrderBook \<Rightarrow> decimal \<Rightarrow> (exn, PricePair) result" where
  "price_pair buy_book sell_book amt =
     res_bind (estimate_for_base_amount buy_book BUY amt) (\<lambda>buy.
     res_bind (estimate_for_base_amount sell_book SELL amt) (\<lambda>sell.
       Inr \<lparr>pp_buy_price = quantize 8 (est_average_price buy),
            pp_sell_price = quantize 8 (est_average_price sell), pp_from_books = True,
            pp_buy_slippage_bps = est_slippage_bps buy,
            pp_sell_slippage_bps = est_slippage_bps sell\<rparr>))"

subsection \<open>Plans\<close>

definition evaluate_plan :: "decimal \<Rightarrow> TransferPlan \<Rightarrow> TransferPlan option" where
  "evaluate_plan min_bps p =
     (if plan_amount p \<le> 0 \<or> plan_buy_price p \<le> 0 \<or> plan_sell_price p \<le> 0 then None
      else if plan_source p = plan_dest p then None
      else if net_profit_bps p < min_bps then None
      else Some p)"

definition build_plan ::
  "string \<Rightarrow> string \<Rightarrow> string \<Rightarrow> string \<Rightarrow> decimal \<Rightarrow> PricePair \<Rightarrow> decimal \<Rightarrow> decimal \<Rightarrow> decimal \<Rightarrow>
   decimal \<Rightarrow> TransferPlan" where
  "build_plan source dest asset net amt prices buy_fee sell_fee wd_fee net_cost =
     \<lparr>plan_source = source, plan_dest = dest, plan_asset = asset, plan_network = net,
      plan_amount = amt, plan_buy_price = pp_buy_price prices,
      plan_sell_price = pp_sell_price prices, plan_buy_fee_bps = buy_fee,
      plan_sell_fee_bps = sell_fee, plan_withdrawal_fee = wd_fee,
      plan_network_cost_quote = net_cost,
      plan_slippage_bps = dadd (pp_buy_slippage_bps prices) (pp_sell_slippage_bps prices),
      plan_data_age_ms = Some 0\<rparr>"

definition cap_amount :: "decimal option \<Rightarrow> decimal \<Rightarrow> decimal" where
  "cap_amount cap amt = (case cap of None \<Rightarrow> amt | Some m \<Rightarrow> min amt m)"

definition executable_amount ::
  "decimal \<Rightarrow> decimal \<Rightarrow> decimal \<Rightarrow> decimal \<Rightarrow> decimal option \<Rightarrow> decimal option \<Rightarrow> decimal" where
  "executable_amount requested wd_min available buy_price max_amount max_notional =
     (let a1 = cap_amount max_amount requested;
          a2 = (case max_notional of
                  Some n \<Rightarrow> if buy_price > 0 then min a1 (quantize 8 (ddiv n buy_price)) else a1
                | None \<Rightarrow> a1);
          a3 = (if buy_price > 0 then min a2 (quantize 8 (ddiv available buy_price)) else a2);
          a4 = min a3 (quantize 8 requested);
          a5 = quantize 8 a4
      in if a5 \<le> 0 \<or> a5 < wd_min then 0 else a5)"

definition executable_amount_from_notional ::
  "decimal \<Rightarrow> decimal \<Rightarrow> decimal \<Rightarrow> decimal \<Rightarrow> decimal \<Rightarrow> decimal option \<Rightarrow> decimal" where
  "executable_amount_from_notional min_notional max_notional available buy_price wd_min max_amount =
     (let effective_max = min max_notional available in
      if effective_max < min_notional \<or> buy_price \<le> 0 then 0
      else
        let a1 = quantize 8 (ddiv effective_max buy_price);
            a2 = quantize 8 (cap_amount max_amount a1)
        in if a2 \<le> 0 \<or> a2 < wd_min then 0
           else if dmul a2 buy_price < min_notional then 0
           else a2)"

subsection \<open>Rounding of a size derived from a budget\<close>

lemma quantized_div_bound:
  assumes "0 < p" "0 \<le> x" "x / p \<le> 10 ^ 18"
  shows "quantize 8 (ddiv x p) * p \<le> x + p / 10 ^ 8"
proof -
  have "\<bar>ddiv x p - x / p\<bar> \<le> \<bar>x / p\<bar> / (2 * 10 ^ 27)"
    unfolding ddiv_def by (rule fix28_error)
  also have "\<dots> \<le> 10 ^ 18 / (2 * 10 ^ 27)"
    using assms by (intro divide_right_mono) auto
  also have "\<dots> = 1 / (2 * 10 ^ 9)" by simp
  finally have "ddiv x p \<le> x / p + 1 / (2 * 10 ^ 9)" by (simp only: abs_le_iff) linarith
  moreover have "quantize 8 (ddiv x p) \<le> ddiv x p + 1 / (2 * 10 ^ 8)"
    using quantize_error [of 8 "ddiv x p"] by (simp only: abs_le_iff) linarith
  ultimately have "quantize 8 (ddiv x p) \<le> x / p + 1 / 10 ^ 8" by simp
  then have "quantize 8 (ddiv x p) * p \<le> (x / p + 1 / 10 ^ 8) * p"
    using assms(1) by (intro mult_right_mono) auto
  also have "\<dots> = x + p / 10 ^ 8" using assms(1) by (simp add: field_simps)
  finally show ?thesis .
qed

lemma quantize_min: "quantize k (min x y) = min (quantize k x) (quantize k y)"
  using quantize_mono [of x y k] quantize_mono [of y x k] by (auto simp: min_def)

text \<open>(executable_amount_within_limits).
  A transfer size computed from a requested amount is zero or a positive amount on the
  eight-digit grid that reaches the venue's withdrawal minimum, exceeds neither the (rounded)
  request nor the amount cap, and costs at most the available balance and the notional cap
  plus the price of one unit in the eighth digit.\<close>

theorem executable_amount_within_limits:
  assumes "0 < p" "0 \<le> available" "available / p \<le> 10 ^ 18" "0 \<le> n" "n / p \<le> 10 ^ 18"
    "a = executable_amount requested wd_min available p (Some m) (Some n)"
  shows "a = 0 \<or>
    (0 < a \<and> wd_min \<le> a \<and> on_grid 8 a \<and> a \<le> quantize 8 requested \<and> a \<le> quantize 8 m \<and>
     a * p \<le> available + p / 10 ^ 8 \<and> a * p \<le> n + p / 10 ^ 8)"
proof (cases "a = 0")
  case False
  let ?q = "min (min (min (min requested m) (quantize 8 (ddiv n p))) (quantize 8 (ddiv available p)))
      (quantize 8 requested)"
  have "a = (if quantize 8 ?q \<le> 0 \<or> quantize 8 ?q < wd_min then 0 else quantize 8 ?q)"
    unfolding assms(6) executable_amount_def cap_amount_def Let_def option.case
    using assms(1) by (simp only: if_True)
  with False have a: "a = quantize 8 ?q" "0 < a" "wd_min \<le> a"
    by (metis not_le)+
  have le: "a \<le> quantize 8 m" "a \<le> quantize 8 requested" "a \<le> quantize 8 (ddiv available p)"
    "a \<le> quantize 8 (ddiv n p)"
    unfolding a(1) quantize_min by simp_all
  have "a * p \<le> quantize 8 (ddiv available p) * p" "a * p \<le> quantize 8 (ddiv n p) * p"
    using le assms(1) by (auto intro!: mult_right_mono)
  then have "a * p \<le> available + p / 10 ^ 8" "a * p \<le> n + p / 10 ^ 8"
    using quantized_div_bound [OF assms(1-3)] quantized_div_bound [OF assms(1,4,5)]
    by (blast intro: order_trans)+
  moreover have "on_grid 8 a" unfolding a(1) by simp
  ultimately show ?thesis using a(2,3) le by blast
qed simp

text \<open>(notional_sizing_within_limits).
  Sizing from a quote-currency range gives zero or an amount on the eight-digit grid that
  reaches the withdrawal minimum, whose cost reaches the minimum notional and stays within
  both the maximum notional and the available balance up to the price of one unit in the
  eighth digit.\<close>

theorem notional_sizing_within_limits:
  assumes "0 < p" "0 \<le> lo" "hi / p \<le> 10 ^ 18"
    "a = executable_amount_from_notional lo hi available p wd_min cap"
  shows "a = 0 \<or>
    (0 < a \<and> wd_min \<le> a \<and> on_grid 8 a \<and> lo \<le> dmul a p \<and>
     a * p \<le> min hi available + p / 10 ^ 8)"
proof (cases "a = 0")
  case False
  let ?e = "min hi available"
  let ?a2 = "quantize 8 (cap_amount cap (quantize 8 (ddiv ?e p)))"
  have "a = (if ?e < lo \<or> p \<le> 0 then 0 else if ?a2 \<le> 0 \<or> ?a2 < wd_min then 0
      else if dmul ?a2 p < lo then 0 else ?a2)"
    unfolding assms(4) executable_amount_from_notional_def Let_def ..
  with False have a: "a = ?a2" "0 < a" "wd_min \<le> a" "lo \<le> dmul a p" "lo \<le> ?e"
    by (metis not_le)+
  have "?e / p \<le> hi / p" using assms(1) by (intro divide_right_mono) auto
  then have e: "?e / p \<le> 10 ^ 18" "0 \<le> ?e" using assms(2,3) a(5) by auto
  have "cap_amount cap x \<le> x" for x by (simp add: cap_amount_def split: option.splits)
  then have "a \<le> quantize 8 (quantize 8 (ddiv ?e p))" unfolding a(1) by (rule quantize_mono)
  then have "a * p \<le> quantize 8 (ddiv ?e p) * p" using assms(1) by (intro mult_right_mono) auto
  then have "a * p \<le> ?e + p / 10 ^ 8" using quantized_div_bound [OF assms(1) e(2,1)] by simp
  moreover have "on_grid 8 a" unfolding a(1) by simp
  ultimately show ?thesis using a by blast
qed simp

lemma two_thirds: "quantize 8 (ddiv 2 3) = 66666667 / 10 ^ 8"
proof -
  define d :: rat where "d = ddiv 2 3"
  have "\<bar>d - 2 / 3\<bar> \<le> \<bar>2 / 3\<bar> / (2 * 10 ^ 27)"
    unfolding d_def ddiv_def by (rule fix28_error)
  also have "\<dots> \<le> 1 / 1000000000" by simp
  finally have y: "d \<le> 2 / 3 + 1 / 1000000000" "2 / 3 - 1 / 1000000000 \<le> d" by linarith+
  let ?r = "round_half_even (d * 100000000)"
  have "\<bar>of_int ?r - d * 100000000\<bar> \<le> 1 / 2"
    using round_half_even_bounds [of "d * 100000000"] by linarith
  then have "66666666 < (of_int ?r :: rat)" "(of_int ?r :: rat) < 66666668"
    using y by linarith+
  then have "?r = 66666667" by linarith
  then show ?thesis by (simp add: quantize_def d_def)
qed

text \<open>(sizing_can_exceed_budget).
  The size is rounded half-even, not floored: with 2 units of quote and a price of 3 the
  planner sizes 0.66666667, which costs more than is available.\<close>

theorem sizing_can_exceed_budget:
  "executable_amount 1 0 2 3 None None = 66666667 / 10 ^ 8 \<and>
   executable_amount 1 0 2 3 None None * 3 > 2"
proof -
  have q: "quantize 8 1 = 1" "quantize 8 (66666667 / 10 ^ 8) = 66666667 / 10 ^ 8"
    by (intro quantize_grid; simp add: on_grid_def)+
  have m: "min (min 1 (66666667 / 10 ^ 8)) 1 = (66666667 / 10 ^ 8 :: rat)" by simp
  have "executable_amount 1 0 2 3 None None = 66666667 / 10 ^ 8"
    unfolding executable_amount_def cap_amount_def Let_def option.case
    by (simp only: two_thirds q if_True if_False m zero_less_numeral) simp
  then show ?thesis by simp
qed


theorem executable_amount_within_limits_witness:
  "executable_amount 1 (1 / 10) 2 3 (Some 5) (Some 100) * 3 \<le> 2 + 3 / 10 ^ 8"
  using executable_amount_within_limits [of 3 2 100 _ 1 "1 / 10" 5, OF _ _ _ _ _ refl] by auto

theorem notional_sizing_within_limits_witness:
  "executable_amount_from_notional 1 500 2 3 (1 / 10) None * 3 \<le> 2 + 3 / 10 ^ 8"
  using notional_sizing_within_limits [of 3 1 500 _ 2 "1 / 10" None, OF _ _ _ refl] by auto

subsection \<open>Sanity of the books\<close>

definition ulp :: rat where
  "ulp = 1 / (2 * 10 ^ 27)"

lemma fix28_abs_ge: "\<bar>x\<bar> * (1 - ulp) \<le> \<bar>fix28 x\<bar>"
proof -
  have "\<bar>x\<bar> - \<bar>fix28 x\<bar> \<le> \<bar>fix28 x - x\<bar>" by linarith
  also have "\<dots> \<le> \<bar>x\<bar> / (2 * 10 ^ 27)" by (rule fix28_error)
  also have "\<dots> = \<bar>x\<bar> * ulp" by (simp add: ulp_def)
  finally show ?thesis by (simp add: right_diff_distrib)
qed

text \<open>(validated_books_agree).
  When the sanity guard accepts a pair of books, neither is crossed, the buy side has a
  positive best ask and the sell side a best bid, and the two venues' prices differ by no more
  than the configured divergence, up to the relative rounding of four decimal operations.\<close>

theorem validated_books_agree:
  assumes "validate_transfer_books b s m = None"
  shows "\<exists>ask bid. best_ask b = Some ask \<and> best_bid s = Some bid \<and> 0 < ask \<and>
    \<not> is_crossed b \<and> \<not> is_crossed s \<and>
    \<bar>bid - ask\<bar> / ask * 10000 * (1 - ulp) ^ 4 \<le> m"
proof -
  obtain ask bid where ab: "best_ask b = Some ask" "best_bid s = Some bid"
    using assms by (auto simp: validate_transfer_books_def split: option.splits)
  have c: "\<not> is_crossed b" "\<not> is_crossed s" "0 < ask"
    "dabs (dmul (ddiv (dsub bid ask) ask) 10000) \<le> m"
    using assms ab
    by (auto simp: validate_transfer_books_def Let_def not_le not_less split: if_splits)
  let ?k = "1 - ulp"
  have k: "0 \<le> ?k" by (simp add: ulp_def)
  have d1: "\<bar>bid - ask\<bar> * ?k \<le> \<bar>dsub bid ask\<bar>" unfolding dsub_def by (rule fix28_abs_ge)
  have "\<bar>bid - ask\<bar> / ask * ?k * ?k = \<bar>bid - ask\<bar> * ?k / ask * ?k" by simp
  also have "\<dots> \<le> \<bar>dsub bid ask / ask\<bar> * ?k"
    using d1 c(3) k by (intro mult_right_mono) (auto simp: divide_right_mono)
  also have "\<dots> \<le> \<bar>ddiv (dsub bid ask) ask\<bar>" unfolding ddiv_def by (rule fix28_abs_ge)
  finally have d2: "\<bar>bid - ask\<bar> / ask * ?k * ?k \<le> \<bar>ddiv (dsub bid ask) ask\<bar>" .
  then have "\<bar>bid - ask\<bar> / ask * ?k * ?k * 10000 \<le> \<bar>ddiv (dsub bid ask) ask\<bar> * 10000"
    by (intro mult_right_mono) auto
  then have "\<bar>bid - ask\<bar> / ask * ?k * ?k * 10000 * ?k \<le> \<bar>ddiv (dsub bid ask) ask * 10000\<bar> * ?k"
    unfolding abs_mult using k by (intro mult_right_mono) simp_all
  also have "\<dots> \<le> \<bar>dmul (ddiv (dsub bid ask) ask) 10000\<bar>"
    unfolding dmul_def by (rule fix28_abs_ge)
  finally have d3: "\<bar>bid - ask\<bar> / ask * ?k * ?k * 10000 * ?k * ?k \<le>
      \<bar>dmul (ddiv (dsub bid ask) ask) 10000\<bar> * ?k"
    using k by (intro mult_right_mono) auto
  have "\<dots> \<le> \<bar>dabs (dmul (ddiv (dsub bid ask) ask) 10000)\<bar>"
    using fix28_abs_ge [of "\<bar>dmul (ddiv (dsub bid ask) ask) 10000\<bar>"] by (simp add: dabs_def)
  moreover have "0 \<le> dabs (dmul (ddiv (dsub bid ask) ask) 10000)"
    using ctx.rnd_mono [of 0 "\<bar>dmul (ddiv (dsub bid ask) ask) 10000\<bar>"] by (simp add: dabs_def)
  ultimately have "\<bar>bid - ask\<bar> / ask * ?k * ?k * 10000 * ?k * ?k \<le> m" using d3 c(4) by linarith
  moreover have "y * k * k * 10000 * k * k = y * 10000 * k ^ 4" for y k :: rat
    by (simp add: power4_eq_xxxx)
  ultimately have "\<bar>bid - ask\<bar> / ask * 10000 * ?k ^ 4 \<le> m" by (simp only:)
  then show ?thesis using ab c by blast
qed

definition priced_side :: "OrderBook \<Rightarrow> OrderSide \<Rightarrow> decimal \<Rightarrow> bool" where
  "priced_side b sd amt \<longleftrightarrow>
     book_ok b \<and> book_side b sd \<noteq> [] \<and> levels_exact (book_side b sd) \<and> size_exact amt \<and>
     (\<forall>l \<in> set (book_side b sd). price l < 10 ^ 20)"

lemma estimate_on_priced_side:
  assumes "priced_side b sd amt"
  obtains e where "estimate_for_base_amount b sd amt = Inr e" "0 \<le> est_slippage_bps e"
    "quantize 8 (est_average_price e) = est_average_price e"
    "if sd = BUY then price (hd (book_side b sd)) \<le> est_average_price e
     else est_average_price e \<le> price (hd (book_side b sd))"
proof -
  obtain l ls where l: "book_side b sd = l # ls" using assms by (auto simp: priced_side_def neq_Nil_conv)
  obtain e where e: "estimate_for_base_amount b sd amt = Inr e"
    "est_average_price e = quantize 8 (ddiv (exact_cost amt (l # ls)) (min amt (liquidity (l # ls))))"
    using estimate_base_exact [OF l, of amt] assms unfolding priced_side_def l by metis
  moreover have "(if sd = BUY
      then price (hd (l # ls)) \<le> est_average_price e \<and> est_average_price e \<le> price (last (l # ls))
      else price (last (l # ls)) \<le> est_average_price e \<and> est_average_price e \<le> price (hd (l # ls)))
    \<and> 0 \<le> est_slippage_bps e"
    using assms l e by (intro estimate_price_between [of b sd "l # ls" amt e]) (auto simp: priced_side_def)
  ultimately show thesis using that [of e] l by (cases sd) auto
qed

text \<open>(price_pair_never_better_than_top).
  On exact, sorted books the planner's executable prices are never better than the top of
  the book: it never plans to buy below the best ask or to sell above the best bid, and the
  slippages it reports are not negative.\<close>

theorem price_pair_never_better_than_top:
  assumes "priced_side b BUY amt" "priced_side s SELL amt"
  shows "\<exists>pp ask bid. price_pair b s amt = Inr pp \<and> best_ask b = Some ask \<and> best_bid s = Some bid \<and>
    ask \<le> pp_buy_price pp \<and> pp_sell_price pp \<le> bid \<and>
    0 \<le> pp_buy_slippage_bps pp \<and> 0 \<le> pp_sell_slippage_bps pp"
proof -
  obtain e where e: "estimate_for_base_amount b BUY amt = Inr e" "0 \<le> est_slippage_bps e"
    "quantize 8 (est_average_price e) = est_average_price e"
    "price (hd (asks b)) \<le> est_average_price e" "asks b \<noteq> []"
    using estimate_on_priced_side [OF assms(1)] assms(1) by (auto simp: book_side_def priced_side_def)
  obtain f where f: "estimate_for_base_amount s SELL amt = Inr f" "0 \<le> est_slippage_bps f"
    "quantize 8 (est_average_price f) = est_average_price f"
    "est_average_price f \<le> price (hd (bids s))" "bids s \<noteq> []"
    using estimate_on_priced_side [OF assms(2)] assms(2) by (auto simp: book_side_def priced_side_def)
  show ?thesis
    using e f by (auto simp: price_pair_def best_ask_def best_bid_def neq_Nil_conv)
qed

definition rich_book :: OrderBook where
  "rich_book = mk_order_book ''bybit'' \<lparr>base = ''BTC'', quote = ''USDT'', settle = None\<rparr> 0
     [\<lparr>price = 102, amount = 3\<rparr>] [\<lparr>price = 103, amount = 3\<rparr>]"

lemma rich_book_sides:
  "asks rich_book = [\<lparr>price = 103, amount = 3\<rparr>]" "bids rich_book = [\<lparr>price = 102, amount = 3\<rparr>]"
  by (simp_all add: rich_book_def mk_order_book_def sort_asks_def sort_bids_def)

theorem price_pair_never_better_than_top_witness:
  "\<exists>pp. price_pair sample_book rich_book 2 = Inr pp \<and> 100 \<le> pp_buy_price pp \<and> pp_sell_price pp \<le> 102"
proof -
  have ok: "book_ok sample_book" "book_ok rich_book"
    unfolding sample_book_def rich_book_def by (rule mk_order_book_ok; simp)+
  have "priced_side sample_book BUY 2"
    using ok sample_book_exact by (simp add: priced_side_def book_side_def sample_book_sides)
  moreover have "priced_side rich_book SELL 2"
    using ok sample_book_exact(3)
    by (simp add: priced_side_def book_side_def rich_book_sides levels_exact_def level_exact_def on_grid_def)
  ultimately show ?thesis
    using price_pair_never_better_than_top [of sample_book 2 rich_book]
    by (auto simp: best_ask_def best_bid_def sample_book_sides rich_book_sides)
qed

lemma unit_spread:
  assumes "10 \<le> x"
  shows "dmul (ddiv 1 x) 10000 \<le> 1000"
proof -
  have "1 / x \<le> 1 / 10" using assms by (intro divide_left_mono) auto
  then have "ddiv 1 x \<le> fix28 (1 / 10)" unfolding ddiv_def by (rule ctx.rnd_mono)
  also have "\<dots> = 1 / 10" by (simp add: fix28_grid [of 16] on_grid_def)
  finally have "ddiv 1 x * 10000 \<le> 1000" by simp
  then have "dmul (ddiv 1 x) 10000 \<le> fix28 1000" unfolding dmul_def by (rule ctx.rnd_mono)
  then show ?thesis by (simp add: fix28_grid [of 16] on_grid_def)
qed

lemma rich_validated: "validate_transfer_books sample_book rich_book 500 = None"
proof -
  have q: "dsub 102 100 = 2" "ddiv 2 100 = 1 / 50" "dmul (1 / 50) 10000 = 200" "dabs 200 = 200"
    "dadd 99 100 = 199" "ddiv 199 2 = 199 / 2" "dadd 102 103 = 205" "ddiv 205 2 = 205 / 2"
    "dsub 100 99 = 1" "dsub 103 102 = 1"
    by (simp_all add: dec_eval)
  have w: "\<not> wide_spread sample_book" "\<not> wide_spread rich_book"
    using unit_spread [of "199 / 2"] unit_spread [of "205 / 2"]
    by (simp_all add: wide_spread_def book_mid_def best_ask_def best_bid_def sample_book_sides
        rich_book_sides q max_intra_spread_bps_def not_less)
  show ?thesis
    unfolding validate_transfer_books_def
    by (simp add: best_ask_def best_bid_def sample_book_sides rich_book_sides w is_crossed_def
        locked_def Let_def q)
qed

theorem validated_books_agree_witness:
  "\<exists>ask bid. best_ask sample_book = Some ask \<and> best_bid rich_book = Some bid \<and>
    \<bar>bid - ask\<bar> / ask * 10000 * (1 - ulp) ^ 4 \<le> 500"
  using validated_books_agree [OF rich_validated] by auto

end
