(* ===== verification/Fill_Simulator.thy ===== *)
theory Fill_Simulator
  imports Order_Book_Math
begin

text \<open>
  \<^verbatim>\<open>app/execution/fill_simulator.py\<close>: the deterministic paper fill. The loop over the
  levels stops at the slippage cap; the fee is charged in the currency received. The theory
  shows that a fill never goes past the cap, never fills more than requested, never spends
  more than the budget, and that the reported net amounts and fee add up.
\<close>

record SimulatedFill =
  sf_side :: OrderSide
  sf_symbol :: Symbol
  sf_filled_amount :: decimal
  sf_quote_amount :: decimal
  sf_average_price :: decimal
  sf_reference_price :: decimal
  sf_fee :: decimal
  sf_slippage_bps :: decimal
  sf_fill_ratio :: decimal
  rejected_reason :: "string option"

definition sf_is_rejected :: "SimulatedFill \<Rightarrow> bool" where
  "sf_is_rejected f \<longleftrightarrow> rejected_reason f \<noteq> None"

definition sf_is_complete :: "SimulatedFill \<Rightarrow> bool" where
  "sf_is_complete f \<longleftrightarrow> \<not> sf_is_rejected f \<and> sf_fill_ratio f \<ge> 999 / 1000"

record FillSimulator =
  sim_taker_fee_bps :: decimal
  sim_max_slippage_bps :: decimal

definition rejected_fill :: "OrderBook \<Rightarrow> OrderSide \<Rightarrow> string \<Rightarrow> SimulatedFill" where
  "rejected_fill book sd reason =
     (let reference = (case book_side book sd of [] \<Rightarrow> 0 | l # _ \<Rightarrow> price l)
      in \<lparr>sf_side = sd, sf_symbol = book_symbol book, sf_filled_amount = 0, sf_quote_amount = 0,
          sf_average_price = reference, sf_reference_price = reference, sf_fee = 0,
          sf_slippage_bps = 0, sf_fill_ratio = 0, rejected_reason = Some reason\<rparr>)"

definition price_cap :: "FillSimulator \<Rightarrow> OrderSide \<Rightarrow> decimal \<Rightarrow> decimal" where
  "price_cap fs sd reference =
     (let direction = (if sd = BUY then 1 else - 1);
          cap_multiplier = dadd 1 (ddiv (dmul direction (sim_max_slippage_bps fs)) 10000)
      in quantize 8 (dmul reference cap_multiplier))"

definition past_cap :: "OrderSide \<Rightarrow> decimal \<Rightarrow> OrderBookLevel \<Rightarrow> bool" where
  "past_cap sd cap l \<longleftrightarrow> (sd = BUY \<and> price l > cap) \<or> (sd = SELL \<and> price l < cap)"

fun sim_base_walk ::
  "OrderSide \<Rightarrow> decimal \<Rightarrow> OrderBookLevel list \<Rightarrow> decimal \<Rightarrow> decimal \<Rightarrow> decimal \<Rightarrow> decimal \<times> decimal"
where
  "sim_base_walk sd cap [] remaining filled quot = (filled, quot)"
| "sim_base_walk sd cap (l # ls) remaining filled quot =
     (if past_cap sd cap l then (filled, quot)
      else let tk = min remaining (amount l);
               filled' = dadd filled tk;
               quot' = dadd quot (dmul tk (price l));
               remaining' = dsub remaining tk
           in if remaining' \<le> 0 then (filled', quot')
              else sim_base_walk sd cap ls remaining' filled' quot')"

fun sim_quote_walk ::
  "OrderSide \<Rightarrow> decimal \<Rightarrow> OrderBookLevel list \<Rightarrow> decimal \<Rightarrow> decimal \<Rightarrow> decimal \<Rightarrow>
   (exn, decimal \<times> decimal) result" where
  "sim_quote_walk sd cap [] remaining filled quot = Inr (filled, quot)"
| "sim_quote_walk sd cap (l # ls) remaining filled quot =
     (if past_cap sd cap l then Inr (filled, quot)
      else let level_quote = dmul (price l) (amount l);
               take_quote = min remaining level_quote
           in if price l = 0 then Inl (OtherError ''DivisionByZero'')
              else let filled' = dadd filled (quantize 8 (ddiv take_quote (price l)));
                       quot' = dadd quot take_quote;
                       remaining' = dsub remaining take_quote
                   in if remaining' \<le> 0 then Inr (filled', quot')
                      else sim_quote_walk sd cap ls remaining' filled' quot')"

text \<open>The part of \<^verbatim>\<open>simulate\<close> after the walk: averages, fee and the returned fill.\<close>

definition settle_fill ::
  "FillSimulator \<Rightarrow> OrderBook \<Rightarrow> OrderSide \<Rightarrow> bool \<Rightarrow> decimal \<Rightarrow> decimal \<Rightarrow> decimal \<Rightarrow> decimal \<Rightarrow>
   SimulatedFill" where
  "settle_fill fs book sd by_base requested reference filled quot =
     (let average = quantize 8 (ddiv quot filled);
          slippage = slippage_bps reference average sd;
          fee_rate = ddiv (sim_taker_fee_bps fs) 10000;
          fee = (if sd = BUY then quantize 8 (dmul filled fee_rate)
                 else quantize 8 (dmul quot fee_rate));
          filled_net = (if sd = BUY then quantize 8 (dsub filled fee) else filled);
          quot' = (if sd = BUY then quot else quantize 8 (dsub quot fee));
          ratio = (if by_base \<and> requested > 0 then ddiv filled requested
                   else min 1 (ddiv quot' requested))
      in \<lparr>sf_side = sd, sf_symbol = book_symbol book, sf_filled_amount = quantize 8 filled_net,
          sf_quote_amount = quantize 8 quot', sf_average_price = average,
          sf_reference_price = reference, sf_fee = fee, sf_slippage_bps = slippage,
          sf_fill_ratio = quantize 6 ratio, rejected_reason = None\<rparr>)"

definition simulate ::
  "FillSimulator \<Rightarrow> OrderBook \<Rightarrow> OrderSide \<Rightarrow> decimal option \<Rightarrow> decimal option \<Rightarrow>
   (exn, SimulatedFill) result" where
  "simulate fs book sd base_amount quote_amount =
     (if (base_amount = None) = (quote_amount = None)
      then Inl (ValueError ''exactly one of base_amount/quote_amount is required'')
      else if (\<exists>a \<in> set_option base_amount. a \<le> 0) then Inr (rejected_fill book sd ''zero_amount'')
      else if (\<exists>a \<in> set_option quote_amount. a \<le> 0) then Inr (rejected_fill book sd ''zero_amount'')
      else case book_side book sd of
        [] \<Rightarrow> Inr (rejected_fill book sd ''empty_book'')
      | l0 # ls \<Rightarrow>
          (let reference = price l0; cap = price_cap fs sd reference
           in case (base_amount, quote_amount) of
                (Some amt, _) \<Rightarrow>
                  (let (filled, quot) = sim_base_walk sd cap (l0 # ls) amt 0 0
                   in if filled \<le> 0
                      then Inr (rejected_fill book sd ''insufficient_liquidity_within_slippage_cap'')
                      else Inr (settle_fill fs book sd True amt reference filled quot))
              | (None, Some amt) \<Rightarrow>
                  res_bind (sim_quote_walk sd cap (l0 # ls) amt 0 0) (\<lambda>(filled, quot).
                    if filled \<le> 0 \<or> quot \<le> 0
                    then Inr (rejected_fill book sd ''insufficient_liquidity_within_slippage_cap'')
                    else Inr (settle_fill fs book sd False amt reference filled quot))
              | (None, None) \<Rightarrow> Inl (ValueError ''exactly one of base_amount/quote_amount is required'')))"

subsection \<open>The walks on exact books\<close>

abbreviation reachable_levels :: "OrderSide \<Rightarrow> decimal \<Rightarrow> OrderBookLevel list \<Rightarrow> OrderBookLevel list" where
  "reachable_levels sd cap ls \<equiv> takeWhile (\<lambda>l. \<not> past_cap sd cap l) ls"

lemma sim_base_walk_exact:
  assumes "list_all level_exact ls" "0 < r" "on_grid 8 r" "f + r < 10 ^ 20" "0 \<le> f" "on_grid 8 f"
    "0 \<le> q" "on_grid 16 q" "q + exact_cost r (reachable_levels sd cap ls) < 10 ^ 12"
  shows "sim_base_walk sd cap ls r f q =
    (f + min r (liquidity (reachable_levels sd cap ls)),
     q + exact_cost r (reachable_levels sd cap ls))"
  using assms
proof (induction ls arbitrary: r f q)
  case (Cons l ls)
  let ?t = "min r (amount l)" and ?W = "reachable_levels sd cap ls"
  have ls: "list_all level_exact ls" and W: "list_all level_exact ?W"
    using Cons.prems(1) by (auto simp: list_all_iff dest: set_takeWhileD)
  show ?case
  proof (cases "past_cap sd cap l")
    case True
    then show ?thesis using Cons.prems by (simp add: min_def)
  next
    case False
    have lW: "list_all level_exact (l # ?W)" using Cons.prems(1) W by simp
    have cost: "q + exact_cost r (l # ?W) < 10 ^ 12" using Cons.prems(9) False by simp
    have r20: "r < 10 ^ 20" using Cons.prems by linarith
    note step = walk_step [OF lW Cons.prems(2,3) r20 Cons.prems(7,8) cost]
    have fd: "dadd f ?t = f + ?t"
      unfolding dadd_def using step(4) Cons.prems lW
      by (intro fix28_grid8) (auto simp: level_exact_def)
    show ?thesis
    proof (cases "r \<le> amount l")
      case True
      then show ?thesis using False step fd W liquidity_nonneg [OF W] by (simp add: Let_def)
    next
      case big: False
      then have ta: "?t = amount l" by simp
      have "sim_base_walk sd cap ls (r - ?t) (f + ?t) (q + ?t * price l) =
        (f + ?t + min (r - ?t) (liquidity ?W), q + ?t * price l + exact_cost (r - ?t) ?W)"
      proof (rule Cons.IH [OF ls])
        show "on_grid 8 (f + ?t)"
          using Cons.prems lW ta by (auto simp: level_exact_def)
      qed (use big step Cons.prems cost in \<open>auto simp: Let_def\<close>)
      then show ?thesis using False big step fd ta by (auto simp: Let_def add.assoc min_def)
    qed
  qed
qed auto

lemma sim_quote_walk_exact:
  assumes "list_all level_exact ls" "notional_sum ls < 10 ^ 12" "0 < r" "on_grid 16 r"
    "0 \<le> f" "0 \<le> s" "on_grid 16 s" "s + r < 10 ^ 12"
  shows "\<exists>f'. sim_quote_walk sd cap ls r f s =
    Inr (f', s + min r (notional_sum (reachable_levels sd cap ls))) \<and> 0 \<le> f'"
  using assms
proof (induction ls arbitrary: r f s)
  case (Cons l ls)
  let ?v = "price l * amount l" and ?W = "reachable_levels sd cap ls"
  have l: "level_exact l" and ls: "list_all level_exact ls" using Cons.prems by auto
  have W: "0 \<le> notional_sum ?W"
    by (rule notional_nonneg) (use ls in \<open>auto simp: list_all_iff dest: set_takeWhileD\<close>)
  show ?case
  proof (cases "past_cap sd cap l")
    case True
    then show ?thesis using Cons.prems by (simp add: min_def)
  next
    case False
    have v: "0 < ?v" "on_grid 16 ?v" "?v < 10 ^ 12"
      using l on_grid_mult [of 8 "price l" 8 "amount l"] Cons.prems notional_nonneg [OF ls]
      by (auto simp: level_exact_def)
    have m: "dmul (price l) (amount l) = ?v"
      unfolding dmul_def using v by (intro fix28_grid16) (simp_all only: abs_of_pos)
    let ?t = "min r ?v"
    have t: "0 < ?t" "on_grid 16 ?t" using v Cons.prems by (auto simp: min_def)
    have sp: "dadd s ?t = s + ?t"
      unfolding dadd_def using t Cons.prems by (intro fix28_grid16) auto
    have rm: "dsub r ?t = r - ?t"
      unfolding dsub_def using t Cons.prems by (intro fix28_grid16) auto
    have p0: "price l \<noteq> 0" using l by (simp add: level_exact_def)
    have f: "0 \<le> dadd f (quantize 8 (ddiv ?t (price l)))"
      using t l Cons.prems by (intro dec_signs) (auto simp: level_exact_def)
    show ?thesis
    proof (cases "r \<le> ?v")
      case True
      then show ?thesis using False t m sp rm f W p0 by (auto simp: Let_def)
    next
      case big: False
      then have tv: "?t = ?v" by simp
      have "\<exists>f'. sim_quote_walk sd cap ls (r - ?v) (dadd f (quantize 8 (ddiv ?v (price l)))) (s + ?v) =
        Inr (f', s + ?v + min (r - ?v) (notional_sum ?W)) \<and> 0 \<le> f'"
      proof (rule Cons.IH [OF ls])
        show "notional_sum ls < 10 ^ 12" using Cons.prems v by simp
      qed (use big f tv v Cons.prems in auto)
      then show ?thesis
        using False big t m sp rm tv p0 by (auto simp: Let_def add.assoc min_def)
    qed
  qed
qed auto

lemma cap_admits_reference:
  assumes "on_grid 8 ref" "0 < ref" "ref < 10 ^ 20" "0 \<le> sim_max_slippage_bps fs"
  shows "sd = BUY \<Longrightarrow> ref \<le> price_cap fs sd ref" "sd = SELL \<Longrightarrow> price_cap fs sd ref \<le> ref"
proof -
  let ?s = "sim_max_slippage_bps fs"
  have one: "fix28 1 = 1" using fix28_exact [of 1 1 0] by simp
  have ref: "fix28 ref = ref" using assms by (intro fix28_grid8) auto
  show "sd = BUY \<Longrightarrow> ref \<le> price_cap fs sd ref"
  proof -
    assume "sd = BUY"
    have "0 \<le> ddiv (dmul 1 ?s) 10000" using assms(4) by (intro dec_signs) auto
    then have "1 \<le> dadd 1 (ddiv (dmul 1 ?s) 10000)"
      unfolding dadd_def using one by (intro ctx.rnd_ge_exact) auto
    then have "ref \<le> dmul ref (dadd 1 (ddiv (dmul 1 ?s) 10000))"
      unfolding dmul_def [of ref] using ref assms(2) by (intro ctx.rnd_ge_exact) auto
    then show ?thesis
      using \<open>sd = BUY\<close> assms(1) by (simp add: price_cap_def quantize_above_grid)
  qed
  show "sd = SELL \<Longrightarrow> price_cap fs sd ref \<le> ref"
  proof -
    assume "sd = SELL"
    have "ddiv (dmul (- 1) ?s) 10000 \<le> 0" using assms(4) by (simp add: ddiv_def dmul_def divide_le_0_iff)
    then have "dadd 1 (ddiv (dmul (- 1) ?s) 10000) \<le> 1"
      unfolding dadd_def using one by (intro ctx.rnd_le_exact) auto
    then have "dmul ref (dadd 1 (ddiv (dmul (- 1) ?s) 10000)) \<le> ref"
      unfolding dmul_def [of ref] using ref assms(2)
      by (intro ctx.rnd_le_exact) (auto simp: mult_left_le)
    then show ?thesis
      using \<open>sd = SELL\<close> assms(1) by (simp add: price_cap_def quantize_below_grid)
  qed
qed

lemma rate_le_one:
  assumes "0 \<le> b" "b \<le> 10000"
  shows "0 \<le> ddiv b 10000" "ddiv b 10000 \<le> 1"
proof -
  have "fix28 1 = 1" using fix28_exact [of 1 1 0] by simp
  then show "ddiv b 10000 \<le> 1" unfolding ddiv_def using assms by (intro ctx.rnd_le_exact) auto
  show "0 \<le> ddiv b 10000" using assms by (intro dec_signs) auto
qed

lemma fee_bounds:
  assumes "0 \<le> b" "b \<le> 10000" "0 \<le> x" "on_grid 8 x" "x < 10 ^ 20"
  shows "0 \<le> quantize 8 (dmul x (ddiv b 10000))" "quantize 8 (dmul x (ddiv b 10000)) \<le> x"
proof -
  note r = rate_le_one [OF assms(1,2)]
  show "0 \<le> quantize 8 (dmul x (ddiv b 10000))" using assms r by (intro dec_signs) auto
  have "fix28 x = x" using assms by (intro fix28_grid8) auto
  then have "dmul x (ddiv b 10000) \<le> x"
    unfolding dmul_def using assms r by (intro ctx.rnd_le_exact) (auto simp: mult_left_le)
  then show "quantize 8 (dmul x (ddiv b 10000)) \<le> x" using assms by (intro quantize_below_grid)
qed

lemma simulate_base_exact:
  assumes "book_side book sd = l0 # ls" "levels_exact (l0 # ls)" "size_exact amt"
    "price l0 < 10 ^ 20" "0 \<le> sim_max_slippage_bps fs"
  defines "W \<equiv> reachable_levels sd (price_cap fs sd (price l0)) (l0 # ls)"
  shows "simulate fs book sd (Some amt) None =
      Inr (settle_fill fs book sd True amt (price l0) (min amt (liquidity W)) (exact_cost amt W))"
    "0 < min amt (liquidity W)" "list_all level_exact W" "hd W = l0" "W \<noteq> []"
    "exact_cost amt W < 10 ^ 12" "0 \<le> exact_cost amt W"
proof -
  have L: "list_all level_exact (l0 # ls)" and N: "notional_sum (l0 # ls) < 10 ^ 12"
    and A: "0 < amt" "on_grid 8 amt" "amt < 10 ^ 20"
    using assms(2,3) by (auto simp: levels_exact_def size_exact_def)
  show W: "list_all level_exact W"
    unfolding W_def using L by (auto simp: list_all_iff dest: set_takeWhileD)
  have "\<not> past_cap sd (price_cap fs sd (price l0)) l0"
    using cap_admits_reference [of "price l0" fs sd] L assms(4,5)
    by (cases sd) (auto simp: past_cap_def level_exact_def)
  then obtain W' where W': "W = l0 # W'" by (simp add: W_def)
  then show "hd W = l0" "W \<noteq> []" by auto
  show pos: "0 < min amt (liquidity W)"
    using W liquidity_nonneg [of W'] A by (auto simp: W' level_exact_def)
  have "notional_sum W \<le> notional_sum (l0 # ls)"
  proof -
    have "(l0 # ls) = W @ dropWhile (\<lambda>l. \<not> past_cap sd (price_cap fs sd (price l0)) l) (l0 # ls)"
      unfolding W_def by simp
    moreover have "0 \<le> notional_sum (dropWhile (\<lambda>l. \<not> past_cap sd (price_cap fs sd (price l0)) l) (l0 # ls))"
      by (rule notional_nonneg) (use L in \<open>auto simp: list_all_iff dest: set_dropWhileD\<close>)
    ultimately show ?thesis by (metis (no_types, lifting) le_add_same_cancel1 map_append sum_list_append)
  qed
  then show c: "exact_cost amt W < 10 ^ 12" "0 \<le> exact_cost amt W"
    using exact_cost_bounds [OF W, of amt] A N by auto
  have w: "sim_base_walk sd (price_cap fs sd (price l0)) (l0 # ls) amt 0 0 =
      (min amt (liquidity W), exact_cost amt W)"
    using sim_base_walk_exact [OF L A(1,2), of 0 0 sd "price_cap fs sd (price l0)"] A c
    by (simp only: W_def) simp
  show "simulate fs book sd (Some amt) None =
      Inr (settle_fill fs book sd True amt (price l0) (min amt (liquidity W)) (exact_cost amt W))"
    using A pos by (simp add: simulate_def assms(1) Let_def w del: sim_base_walk.simps)
qed

subsection \<open>Properties\<close>

text \<open>(simulate_respects_cap).
  On a sorted exact book a base-sized paper fill is always executed (never raises or
  rejects), its average price stays between the top of the book and the slippage cap, and
  its fill ratio lies between zero and one.\<close>

theorem simulate_respects_cap:
  assumes "book_ok book" "book_side book sd = ls" "ls \<noteq> []" "levels_exact ls" "size_exact amt"
    "\<forall>l \<in> set ls. price l < 10 ^ 20" "0 \<le> sim_max_slippage_bps fs"
    "price_cap fs sd (price (hd ls)) < 10 ^ 20" "- (10 ^ 20) < price_cap fs sd (price (hd ls))"
  shows "\<exists>f. simulate fs book sd (Some amt) None = Inr f \<and> \<not> sf_is_rejected f \<and>
    (if sd = BUY
     then price (hd ls) \<le> sf_average_price f \<and> sf_average_price f \<le> price_cap fs sd (price (hd ls))
     else price_cap fs sd (price (hd ls)) \<le> sf_average_price f \<and> sf_average_price f \<le> price (hd ls)) \<and>
    0 \<le> sf_slippage_bps f \<and> 0 \<le> sf_fill_ratio f \<and> sf_fill_ratio f \<le> 1"
proof -
  obtain l0 ls' where l: "ls = l0 # ls'" using assms(3) by (cases ls) auto
  then have hd: "hd ls = l0" by simp
  let ?cap = "price_cap fs sd (price l0)"
  let ?W = "reachable_levels sd ?cap ls"
  have p0: "price l0 < 10 ^ 20" using assms(6) l by simp
  note ex = simulate_base_exact [OF assms(2,4) [unfolded l] assms(5) p0 assms(7), folded l]
  have A: "0 < amt" "on_grid 8 amt" "amt < 10 ^ 20" using assms(5) by (auto simp: size_exact_def)
  let ?m = "min amt (liquidity ?W)" and ?c = "exact_cost amt ?W"
  let ?f = "settle_fill fs book sd True amt (price l0) ?m ?c"
  have so: "if sd = BUY then sorted_wrt (\<lambda>l m. price l \<le> price m) ls
      else sorted_wrt (\<lambda>l m. price m \<le> price l) ls"
    using assms(1,2) by (auto simp: book_ok_def book_side_def)
  have rng: "x \<in> set ?W \<Longrightarrow> if sd = BUY then price l0 \<le> price x \<and> price x \<le> ?cap
      else ?cap \<le> price x \<and> price x \<le> price l0" for x
    using so sorted_wrt_ends [of "\<lambda>l m. price l \<le> price m" ls x]
      sorted_wrt_ends [of "\<lambda>l m. price m \<le> price l" ls x]
    by (cases sd) (auto simp: past_cap_def l dest: set_takeWhileD split: if_splits)
  have g0: "on_grid 8 (price l0)" "0 < price l0"
    using assms(4) l by (auto simp: levels_exact_def level_exact_def)
  have gc: "on_grid 8 ?cap" "\<bar>?cap\<bar> < 10 ^ 20" using assms(8,9) by (auto simp: price_cap_def hd)
  have avg: "if sd = BUY then price l0 \<le> quantize 8 (ddiv ?c ?m) \<and> quantize 8 (ddiv ?c ?m) \<le> ?cap
      else ?cap \<le> quantize 8 (ddiv ?c ?m) \<and> quantize 8 (ddiv ?c ?m) \<le> price l0"
  proof (cases sd)
    case BUY
    then have "\<forall>x \<in> set ?W. price l0 \<le> price x" "\<forall>x \<in> set ?W. price x \<le> ?cap" using rng by simp_all
    then have "price l0 * ?m \<le> ?c" "?c \<le> ?cap * ?m"
      using exact_cost_ge [OF ex(3)] exact_cost_le [OF ex(3)] A by simp_all
    then show ?thesis
      using BUY g0 gc p0 ex(2) by (simp add: quantized_ratio_ge quantized_ratio_le)
  next
    case SELL
    then have "\<forall>x \<in> set ?W. ?cap \<le> price x" "\<forall>x \<in> set ?W. price x \<le> price l0" using rng by simp_all
    then have "?cap * ?m \<le> ?c" "?c \<le> price l0 * ?m"
      using exact_cost_ge [OF ex(3)] exact_cost_le [OF ex(3)] A by simp_all
    then show ?thesis
      using SELL g0 gc p0 ex(2) by (simp add: quantized_ratio_ge quantized_ratio_le)
  qed
  have ratio: "0 \<le> ddiv ?m amt" "ddiv ?m amt \<le> 1"
  proof -
    have "fix28 1 = 1" using fix28_exact [of 1 1 0] by simp
    then show "ddiv ?m amt \<le> 1" unfolding ddiv_def using A by (intro ctx.rnd_le_exact) auto
    show "0 \<le> ddiv ?m amt" using A ex(2) by (intro dec_signs) auto
  qed
  have one: "on_grid 6 1" by (simp add: on_grid_def)
  have av: "sf_average_price ?f = quantize 8 (ddiv ?c ?m)"
    by (simp only: settle_fill_def Let_def SimulatedFill.select_convs)
  show ?thesis
  proof (intro exI conjI)
    show "simulate fs book sd (Some amt) None = Inr ?f" by (rule ex(1))
    show "\<not> sf_is_rejected ?f" by (simp add: settle_fill_def sf_is_rejected_def Let_def)
    show "if sd = BUY
     then price (hd ls) \<le> sf_average_price ?f \<and> sf_average_price ?f \<le> price_cap fs sd (price (hd ls))
     else price_cap fs sd (price (hd ls)) \<le> sf_average_price ?f \<and> sf_average_price ?f \<le> price (hd ls)"
      using avg unfolding av hd .
    have "sf_slippage_bps ?f = slippage_bps (price l0) (quantize 8 (ddiv ?c ?m)) sd"
      by (simp only: settle_fill_def Let_def SimulatedFill.select_convs)
    moreover have "if sd = BUY then price l0 \<le> quantize 8 (ddiv ?c ?m)
        else quantize 8 (ddiv ?c ?m) \<le> price l0" using avg by (cases sd) simp_all
    ultimately show "0 \<le> sf_slippage_bps ?f" by (simp only: slippage_nonneg)
    show "0 \<le> sf_fill_ratio ?f"
      using ratio A by (simp add: settle_fill_def Let_def quantize_nonneg)
    show "sf_fill_ratio ?f \<le> 1"
      using ratio A one by (simp add: settle_fill_def Let_def quantize_below_grid)
  qed
qed

definition sample_simulator :: FillSimulator where
  "sample_simulator = \<lparr>sim_taker_fee_bps = 10, sim_max_slippage_bps = 50\<rparr>"

lemma sample_cap: "price_cap sample_simulator BUY 100 = 201 / 2"
proof -
  have a: "dmul 1 50 = (50 :: rat)" "ddiv 50 10000 = (1 / 200 :: rat)"
    "dadd 1 (1 / 200) = (201 / 200 :: rat)" "dmul 100 (201 / 200) = (201 / 2 :: rat)"
    "quantize 8 (201 / 2) = 201 / 2"
    by (simp_all add: dec_eval)
  show ?thesis
    unfolding price_cap_def sample_simulator_def Let_def by (simp add: a)
qed

theorem simulate_respects_cap_witness:
  "\<exists>f. simulate sample_simulator sample_book BUY (Some 2) None = Inr f \<and> \<not> sf_is_rejected f \<and>
    sf_average_price f \<le> 201 / 2"
proof -
  have ok: "book_ok sample_book"
    unfolding sample_book_def by (rule mk_order_book_ok) simp_all
  note c = sample_cap
  show ?thesis
    using simulate_respects_cap [OF ok, of BUY "asks sample_book" 2 sample_simulator] c
      sample_book_exact
    by (auto simp: book_side_def sample_book_sides sample_simulator_def)
qed

text \<open>(simulate_fee_accounting).
  A base-sized paper buy charges the taker fee in the base received: the reported net amount
  plus the reported fee is exactly the gross fill (the smaller of the request and the
  liquidity within the cap), and neither is negative.\<close>

theorem simulate_fee_accounting:
  assumes "book_side book BUY = ls" "ls \<noteq> []" "levels_exact ls" "size_exact amt"
    "price (hd ls) < 10 ^ 20" "0 \<le> sim_max_slippage_bps fs"
    "0 \<le> sim_taker_fee_bps fs" "sim_taker_fee_bps fs \<le> 10000"
    "simulate fs book BUY (Some amt) None = Inr f"
  shows "sf_filled_amount f + sf_fee f =
      min amt (liquidity (reachable_levels BUY (price_cap fs BUY (price (hd ls))) ls)) \<and>
    0 \<le> sf_fee f \<and> 0 \<le> sf_filled_amount f"
proof -
  obtain l0 ls' where l: "ls = l0 # ls'" using assms(2) by (cases ls) auto
  let ?W = "reachable_levels BUY (price_cap fs BUY (price l0)) ls"
  have p0: "price l0 < 10 ^ 20" using assms(5) l by simp
  note ex = simulate_base_exact [OF assms(1,3) [unfolded l] assms(4) p0 assms(6), folded l]
  let ?m = "min amt (liquidity ?W)"
  have A: "0 < amt" "on_grid 8 amt" "amt < 10 ^ 20" using assms(4) by (auto simp: size_exact_def)
  have m: "0 \<le> ?m" "on_grid 8 ?m" "?m < 10 ^ 20"
    using A ex(2) liquidity_grid [OF ex(3)] by auto
  let ?fee = "quantize 8 (dmul ?m (ddiv (sim_taker_fee_bps fs) 10000))"
  note fee = fee_bounds [OF assms(7,8) m]
  have net: "dsub ?m ?fee = ?m - ?fee" "on_grid 8 (?m - ?fee)"
  proof -
    show g: "on_grid 8 (?m - ?fee)" using m(2) by (intro on_grid_diff) auto
    show "dsub ?m ?fee = ?m - ?fee"
      unfolding dsub_def using g fee m by (intro fix28_grid8) auto
  qed
  have "f = settle_fill fs book BUY True amt (price l0) ?m (exact_cost amt ?W)"
    using ex(1) assms(9) by simp
  then have "sf_filled_amount f = ?m - ?fee" "sf_fee f = ?fee"
    using net by (simp_all add: settle_fill_def Let_def quantize_grid)
  then show ?thesis using fee by (simp add: l)
qed

theorem simulate_fee_accounting_witness:
  "\<exists>f. simulate sample_simulator sample_book BUY (Some 1) None = Inr f \<and>
    sf_filled_amount f + sf_fee f = 1 \<and> sf_fee f = 1 / 1000"
proof -
  note c = sample_cap
  let ?f = "settle_fill sample_simulator sample_book BUY True 1 100 1 100"
  have e: "simulate sample_simulator sample_book BUY (Some 1) None = Inr ?f"
    by (simp add: simulate_def book_side_def sample_book_sides c past_cap_def dec_eval)
  have side: "book_side sample_book BUY = asks sample_book" by (simp add: book_side_def)
  have hd: "asks sample_book \<noteq> []" "price (hd (asks sample_book)) = 100"
    by (simp_all add: sample_book_sides)
  have one: "size_exact 1" by (simp add: size_exact_def on_grid_def)
  have p: "price (hd (asks sample_book)) < 10 ^ 20" by (simp add: hd)
  have fees: "0 \<le> sim_max_slippage_bps sample_simulator" "0 \<le> sim_taker_fee_bps sample_simulator"
    "sim_taker_fee_bps sample_simulator \<le> 10000" by (simp_all add: sample_simulator_def)
  have "sf_filled_amount ?f + sf_fee ?f =
      min 1 (liquidity (reachable_levels BUY (price_cap sample_simulator BUY 100) (asks sample_book)))"
    using simulate_fee_accounting [OF side hd(1) sample_book_exact(1) one p fees e] unfolding hd(2)
    by (rule conjunct1)
  also have "\<dots> = 1" by (simp add: c sample_book_sides past_cap_def)
  finally have "sf_filled_amount ?f + sf_fee ?f = 1" .
  moreover have "sf_fee ?f = quantize 8 (dmul 1 (ddiv 10 10000))"
    by (simp add: settle_fill_def Let_def sample_simulator_def)
  moreover have "quantize 8 (dmul 1 (ddiv 10 10000)) = 1 / 1000" by (simp add: dec_eval)
  ultimately show ?thesis using e by auto
qed

text \<open>(simulate_quote_within_budget).
  A paper buy that spends a quote budget on an exact book returns without raising, and what
  it reports as spent never exceeds the budget.\<close>

theorem simulate_quote_within_budget:
  assumes "book_side book BUY = ls" "levels_exact ls" "0 < b" "on_grid 8 b" "b < 10 ^ 12"
  shows "\<exists>f. simulate fs book BUY None (Some b) = Inr f \<and> sf_quote_amount f \<le> b \<and>
    0 \<le> sf_quote_amount f"
proof (cases ls)
  case Nil
  then show ?thesis using assms by (simp add: simulate_def rejected_fill_def)
next
  case (Cons l0 ls')
  let ?cap = "price_cap fs BUY (price l0)"
  have L: "list_all level_exact ls" "notional_sum ls < 10 ^ 12"
    using assms(2) by (auto simp: levels_exact_def)
  have g: "on_grid 16 b" using on_grid_le [OF assms(4)] by simp
  define q where "q = min b (notional_sum (reachable_levels BUY ?cap ls))"
  obtain x where w: "sim_quote_walk BUY ?cap ls b 0 0 = Inr (x, q)" and x: "0 \<le> x"
    using sim_quote_walk_exact [OF L assms(3) g, of 0 0 BUY ?cap] assms(3,5) q_def by auto
  have "list_all level_exact (reachable_levels BUY ?cap ls)"
    using L by (auto simp: list_all_iff dest: set_takeWhileD)
  then have q: "0 \<le> q" "q \<le> b" using assms(3) notional_nonneg by (auto simp: q_def)
  have "sf_quote_amount (settle_fill fs book BUY False b (price l0) x q) = quantize 8 q"
    by (simp add: settle_fill_def Let_def)
  moreover have "0 \<le> quantize 8 q" "quantize 8 q \<le> b"
    using q assms(4) by (auto intro: quantize_nonneg quantize_below_grid)
  ultimately show ?thesis
    using assms w [unfolded Cons] Cons
    by (simp add: simulate_def Let_def rejected_fill_def del: sim_quote_walk.simps)
qed

theorem simulate_quote_within_budget_witness:
  "\<exists>f. simulate sample_simulator sample_book BUY None (Some 100) = Inr f \<and> sf_quote_amount f \<le> 100"
  using simulate_quote_within_budget [of sample_book "asks sample_book" 100 sample_simulator]
    sample_book_exact(1)
  by (auto simp: book_side_def on_grid_def)

end
