(* ===== verification/Paper_Wallet.thy ===== *)
theory Paper_Wallet
  imports Order_Models
begin

text \<open>
  \<^verbatim>\<open>app/execution/paper_wallet.py\<close>: free balances by asset code. The interface
  \<open>ledger\<close> states what clients of a wallet rely on (a credit or debit changes one asset
  by the stated amount, a debit beyond the balance raises, balances never become negative);
  the wallet's own operations interpret it, and the facts about movements are proved
  once inside the interface.
\<close>

type_synonym wallet = "(string, decimal) dict"

definition asset_key :: "string \<Rightarrow> string" where
  "asset_key asset = py_upper (py_strip asset)"

definition wallet_init :: "(string, decimal) dict option \<Rightarrow> wallet" where
  "wallet_init b = opt_or b []"

text \<open>\<^verbatim>\<open>{b.asset: b.free for b in snapshot.balances}\<close>: a later entry overwrites.\<close>

definition from_snapshot :: "BalanceSnapshot \<Rightarrow> wallet" where
  "from_snapshot s = foldl (\<lambda>d b. dict_set d (bal_asset b) (bal_free b)) [] (balances s)"

definition free :: "wallet \<Rightarrow> string \<Rightarrow> decimal" where
  "free w asset = opt_or (dict_get w (asset_key asset)) 0"

definition credit :: "wallet \<Rightarrow> string \<Rightarrow> decimal \<Rightarrow> wallet" where
  "credit w asset amt =
     (if amt \<le> 0 then w
      else let key = asset_key asset
           in dict_set w key (dadd (opt_or (dict_get w key) 0) amt))"

definition debit :: "wallet \<Rightarrow> string \<Rightarrow> decimal \<Rightarrow> (exn, wallet) result" where
  "debit w asset amt =
     (if amt \<le> 0 then Inr w
      else let key = asset_key asset; available = opt_or (dict_get w key) 0
           in if available < amt then Inl (ValueError ''insufficient paper balance'')
              else Inr (dict_set w key (dsub available amt)))"

definition wallet_snapshot :: "wallet \<Rightarrow> (string, decimal) dict" where
  "wallet_snapshot w = w"

text \<open>Well-formed: one entry per asset, no negative balance.\<close>

definition wallet_ok :: "wallet \<Rightarrow> bool" where
  "wallet_ok w \<longleftrightarrow> dict_ok w \<and> (\<forall>(k, v) \<in> set w. 0 \<le> v)"

subsection \<open>The interface of a ledger\<close>

locale ledger =
  fixes bal :: "'w \<Rightarrow> string \<Rightarrow> decimal"
    and put :: "'w \<Rightarrow> string \<Rightarrow> decimal \<Rightarrow> 'w"
    and pay :: "'w \<Rightarrow> string \<Rightarrow> decimal \<Rightarrow> (exn, 'w) result"
    and ok :: "'w \<Rightarrow> bool"
    and same :: "string \<Rightarrow> string \<Rightarrow> bool"
  assumes same_refl: "same a a"
    and bal_nonneg: "ok w \<Longrightarrow> 0 \<le> bal w a"
    and put_ok: "ok w \<Longrightarrow> ok (put w a x)"
    and pay_ok: "ok w \<Longrightarrow> pay w a x = Inr w' \<Longrightarrow> ok w'"
    and bal_put: "bal (put w a x) b = (if same a b \<and> 0 < x then dadd (bal w a) x else bal w b)"
    and bal_pay: "pay w a x = Inr w' \<Longrightarrow>
      bal w' b = (if same a b \<and> 0 < x then dsub (bal w a) x else bal w b)"
    and pay_iff: "(\<exists>w'. pay w a x = Inr w') \<longleftrightarrow> x \<le> 0 \<or> x \<le> bal w a"
begin

lemma pay_error: "0 < x \<Longrightarrow> bal w a < x \<Longrightarrow> \<exists>e. pay w a x = Inl e"
  using pay_iff [of w a x] by (cases "pay w a x") auto

lemma pay_covered: "0 < x \<Longrightarrow> pay w a x = Inr w' \<Longrightarrow> x \<le> bal w a"
  using pay_iff [of w a x] by auto

text \<open>Moving an amount on the eight-place grid out and back is the identity on balances.\<close>

lemma put_after_pay:
  assumes "pay w a x = Inr w'" "0 < x" "on_grid 8 (bal w a)" "on_grid 8 x" "bal w a < 10 ^ 20"
  shows "bal (put w' a x) a = bal w a"
proof -
  have le: "x \<le> bal w a" using assms(1,2) by (intro pay_covered)
  have d: "dsub (bal w a) x = bal w a - x"
    unfolding dsub_def using le assms by (intro fix28_grid8) auto
  have "dadd (bal w a - x) x = bal w a"
    unfolding dadd_def using le assms by (intro trans [OF fix28_grid8]) auto
  then show ?thesis using bal_put [of w' a x a] bal_pay [OF assms(1), of a] assms(2) same_refl d
    by simp
qed

end

subsection \<open>The paper wallet is a ledger\<close>

lemma wallet_ok_get: "wallet_ok w \<Longrightarrow> dict_get w k = Some v \<Longrightarrow> 0 \<le> v"
  using dict_get_Some_in by (fastforce simp: wallet_ok_def)

lemma set_dict_set_value:
  "(k', v') \<in> set (dict_set w k v) \<Longrightarrow> v' = v \<or> (k', v') \<in> set w"
  by (induction w k v rule: dict_set.induct) (auto split: if_splits)

lemma wallet_ok_set: "wallet_ok w \<Longrightarrow> 0 \<le> v \<Longrightarrow> wallet_ok (dict_set w k v)"
  unfolding wallet_ok_def using set_dict_set_value by fastforce

lemma wallet_ok_free: "wallet_ok w \<Longrightarrow> 0 \<le> free w a"
  by (cases "dict_get w (asset_key a)") (auto simp: free_def dest: wallet_ok_get)

interpretation paper: ledger free credit debit wallet_ok "\<lambda>a b. asset_key a = asset_key b"
proof unfold_locales
  fix w :: wallet and a b :: string and x :: decimal and w'
  show "asset_key a = asset_key a" by simp
  show "wallet_ok w \<Longrightarrow> 0 \<le> free w a" by (rule wallet_ok_free)
  show "wallet_ok w \<Longrightarrow> wallet_ok (credit w a x)"
    using wallet_ok_free [of w a]
    by (auto simp: credit_def free_def Let_def intro!: wallet_ok_set dec_signs)
  show "wallet_ok w \<Longrightarrow> debit w a x = Inr w' \<Longrightarrow> wallet_ok w'"
    by (auto simp: debit_def Let_def intro!: wallet_ok_set split: if_splits)
  show "free (credit w a x) b =
      (if asset_key a = asset_key b \<and> 0 < x then dadd (free w a) x else free w b)"
    by (auto simp: credit_def free_def Let_def)
  show "debit w a x = Inr w' \<Longrightarrow> free w' b =
      (if asset_key a = asset_key b \<and> 0 < x then dsub (free w a) x else free w b)"
    by (auto simp: debit_def free_def Let_def split: if_splits)
  show "(\<exists>w'. debit w a x = Inr w') \<longleftrightarrow> x \<le> 0 \<or> x \<le> free w a"
    by (auto simp: debit_def free_def Let_def)
qed

lemma from_snapshot_ok:
  assumes "\<forall>b \<in> set (balances s). 0 \<le> bal_free b"
  shows "wallet_ok (from_snapshot s)"
proof -
  have "wallet_ok d \<Longrightarrow> \<forall>b \<in> set bs. 0 \<le> bal_free b \<Longrightarrow>
      wallet_ok (foldl (\<lambda>d b. dict_set d (bal_asset b) (bal_free b)) d bs)" for d bs
    by (induction bs arbitrary: d) (auto intro: wallet_ok_set)
  moreover have "wallet_ok []" by (simp add: wallet_ok_def dict_ok_def)
  ultimately show ?thesis using assms unfolding from_snapshot_def by blast
qed

text \<open>(wallet_never_negative).
  The paper wallet fails closed: a debit succeeds exactly when the amount is covered (or not
  positive), it takes exactly that asset down by the amount, and no balance of a well-formed
  wallet ever becomes negative.\<close>

theorem wallet_never_negative:
  assumes "wallet_ok w"
  shows "((\<exists>w'. debit w a x = Inr w') \<longleftrightarrow> x \<le> 0 \<or> x \<le> free w a) \<and>
    (\<forall>w'. debit w a x = Inr w' \<longrightarrow> wallet_ok w' \<and> 0 \<le> free w' b \<and>
       (asset_key b \<noteq> asset_key a \<longrightarrow> free w' b = free w b)) \<and>
    wallet_ok (credit w a x)"
  using assms paper.pay_iff [of w a x] paper.pay_ok [of w a x] paper.put_ok [of w a x]
    paper.bal_pay [of w a x _ b] paper.bal_nonneg by (metis (no_types, lifting))

theorem wallet_never_negative_witness:
  "wallet_ok [(''USDT'', 5)] \<and> (\<exists>w'. debit [(''USDT'', 5)] ''usdt'' 3 = Inr w') \<and>
   \<not> (\<exists>w'. debit [(''USDT'', 5)] ''usdt'' 6 = Inr w')"
proof -
  have ok: "wallet_ok [(''USDT'', 5)]" by (simp add: wallet_ok_def dict_ok_def)
  have f: "free [(''USDT'', 5)] ''usdt'' = 5" by code_simp
  show ?thesis
    using wallet_never_negative [OF ok, of "''usdt''" 3] wallet_never_negative [OF ok, of "''usdt''" 6]
      ok f by auto
qed

text \<open>(wallet_move_back).
  For balances and amounts with at most eight decimals below \<open>10 ^ 20\<close>, crediting back what
  was debited restores the balance exactly: the decimal rounding loses nothing.\<close>

theorem wallet_move_back:
  assumes "debit w a x = Inr w'" "0 < x" "on_grid 8 (free w a)" "on_grid 8 x" "free w a < 10 ^ 20"
  shows "free (credit w' a x) a = free w a"
  using assms by (rule paper.put_after_pay)

theorem wallet_move_back_witness:
  "\<exists>w'. debit [(''USDT'', 5)] ''USDT'' 3 = Inr w' \<and> free (credit w' ''USDT'' 3) ''USDT'' = 5"
proof -
  have f: "free [(''USDT'', 5)] ''USDT'' = 5" by code_simp
  obtain w' where w: "debit [(''USDT'', 5)] ''USDT'' 3 = Inr w'"
    using paper.pay_iff [of "[(''USDT'', 5)]" "''USDT''" 3] f by auto
  show ?thesis using wallet_move_back [OF w] w f by (auto simp: on_grid_def)
qed

end
