(* ===== verification/Market_Store.thy ===== *)
theory Market_Store
  imports Order_Models
begin

text \<open>
  The in-memory market-data store (\<^verbatim>\<open>app/market_data/store.py\<close>): latest-value caches
  for tickers and order books with explicit freshness. Ages are in milliseconds, \<open>None\<close>
  being the float infinity; the float arithmetic of an age is modelled as exact.

  The locale \<open>latest_cache\<close> states what the readers rely on, that a write is visible under
  its own key unless it is refused as outdated and changes nothing else. It is interpreted on
  the book cache, which refuses older snapshots, and on the ticker cache, which takes all.
\<close>

record Ticker =
  tick_exchange_id :: string
  tick_symbol :: Symbol
  tick_timestamp :: int
  tick_bid :: "decimal option"
  tick_ask :: "decimal option"

definition ticker_mid :: "Ticker \<Rightarrow> decimal option" where
  "ticker_mid t =
     (case (tick_bid t, tick_ask t) of
        (Some x, Some y) \<Rightarrow> Some (ddiv (dadd x y) 2)
      | _ \<Rightarrow> None)"

definition ticker_spread_bps :: "Ticker \<Rightarrow> decimal option" where
  "ticker_spread_bps t =
     (case (ticker_mid t, tick_bid t, tick_ask t) of
        (Some m, Some x, Some y) \<Rightarrow>
          if m \<le> 0 then None else Some (dmul (ddiv (dsub y x) m) 10000)
      | _ \<Rightarrow> None)"

record QuoteKey =
  key_exchange_id :: string
  key_symbol :: string
  key_market_type :: MarketType

definition quote_key :: "string \<Rightarrow> Symbol \<Rightarrow> MarketType \<Rightarrow> QuoteKey" where
  "quote_key venue symb mt =
     \<lparr>key_exchange_id = py_lower venue, key_symbol = symbol_name symb, key_market_type = mt\<rparr>"

record MarketDataStore =
  stale_after_ms :: int
  tickers :: "(QuoteKey, Ticker) dict"
  cached_books :: "(QuoteKey, OrderBook) dict"

definition new_store :: "int \<Rightarrow> MarketDataStore" where
  "new_store stale = \<lparr>stale_after_ms = stale, tickers = [], cached_books = []\<rparr>"

subsection \<open>Writes\<close>

definition ticker_key :: "Ticker \<Rightarrow> QuoteKey" where
  "ticker_key t = quote_key (tick_exchange_id t) (tick_symbol t) SPOT"

definition book_key :: "OrderBook \<Rightarrow> QuoteKey" where
  "book_key b = quote_key (book_exchange_id b) (book_symbol b) SPOT"

definition put_ticker :: "MarketDataStore \<Rightarrow> Ticker \<Rightarrow> MarketDataStore" where
  "put_ticker s t = s\<lparr>tickers := dict_set (tickers s) (ticker_key t) t\<rparr>"

definition put_order_book :: "MarketDataStore \<Rightarrow> OrderBook \<Rightarrow> MarketDataStore" where
  "put_order_book s b =
     (let key = book_key b in
      case dict_get (cached_books s) key of
        Some existing \<Rightarrow>
          if book_timestamp b < book_timestamp existing then s
          else s\<lparr>cached_books := dict_set (cached_books s) key b\<rparr>
      | None \<Rightarrow> s\<lparr>cached_books := dict_set (cached_books s) key b\<rparr>)"

definition clear_store :: "MarketDataStore \<Rightarrow> string option \<Rightarrow> MarketDataStore" where
  "clear_store s venue =
     (case venue of
        None \<Rightarrow> s\<lparr>tickers := [], cached_books := []\<rparr>
      | Some v \<Rightarrow>
          s\<lparr>tickers := filter (\<lambda>(k, _). key_exchange_id k \<noteq> py_lower v) (tickers s),
            cached_books := filter (\<lambda>(k, _). key_exchange_id k \<noteq> py_lower v) (cached_books s)\<rparr>)"

subsection \<open>Freshness\<close>

definition future_tolerance_ms :: rat where
  "future_tolerance_ms = 10000"

definition age_ms :: "int \<Rightarrow> int \<Rightarrow> rat option" where
  "age_ms now ts =
     (let raw = of_int (now - ts) / 1000 in
      if raw < - future_tolerance_ms then None else Some (max 0 raw))"

definition is_fresh :: "MarketDataStore \<Rightarrow> rat option \<Rightarrow> bool" where
  "is_fresh s age = (case age of None \<Rightarrow> False | Some a \<Rightarrow> a \<le> of_int (stale_after_ms s))"

definition is_stale :: "MarketDataStore \<Rightarrow> rat option \<Rightarrow> bool" where
  "is_stale s age \<longleftrightarrow> \<not> is_fresh s age"

subsection \<open>Reads\<close>

definition ticker :: "MarketDataStore \<Rightarrow> string \<Rightarrow> Symbol \<Rightarrow> Ticker option" where
  "ticker s venue symb = dict_get (tickers s) (quote_key venue symb SPOT)"

definition order_book :: "MarketDataStore \<Rightarrow> string \<Rightarrow> Symbol \<Rightarrow> OrderBook option" where
  "order_book s venue symb = dict_get (cached_books s) (quote_key venue symb SPOT)"

definition wanted_key :: "Symbol \<Rightarrow> string list option \<Rightarrow> QuoteKey \<Rightarrow> bool" where
  "wanted_key symb venues k \<longleftrightarrow>
     key_symbol k = symbol_name symb \<and>
     (case venues of None \<Rightarrow> True | Some vs \<Rightarrow> key_exchange_id k \<in> set (map py_lower vs))"

definition tickers_for ::
  "MarketDataStore \<Rightarrow> int \<Rightarrow> Symbol \<Rightarrow> string list option \<Rightarrow> bool \<Rightarrow> Ticker list" where
  "tickers_for s now symb venues fresh_only =
     map snd (filter (\<lambda>(k, t). wanted_key symb venues k \<and>
       (\<not> fresh_only \<or> is_fresh s (age_ms now (tick_timestamp t)))) (tickers s))"

definition order_books_for ::
  "MarketDataStore \<Rightarrow> int \<Rightarrow> Symbol \<Rightarrow> string list option \<Rightarrow> bool \<Rightarrow> OrderBook list" where
  "order_books_for s now symb venues fresh_only =
     map snd (filter (\<lambda>(k, b). wanted_key symb venues k \<and>
       (\<not> fresh_only \<or> is_fresh s (age_ms now (book_timestamp b)))) (cached_books s))"

definition books :: "MarketDataStore \<Rightarrow> string option \<Rightarrow> (string, OrderBook) dict" where
  "books s venue =
     (let needle = (if truthy_str venue then map_option py_lower venue else None) in
      fold (\<lambda>(k, b) out.
              if needle \<noteq> None \<and> needle \<noteq> Some (key_exchange_id k) then out
              else dict_set out (key_symbol k) b)
        (cached_books s) [])"

definition all_tickers :: "MarketDataStore \<Rightarrow> Ticker list" where
  "all_tickers s = map snd (tickers s)"

text \<open>\<^verbatim>\<open>dict.fromkeys\<close>: the distinct elements in order of first occurrence.\<close>

definition dedup :: "'a list \<Rightarrow> 'a list" where
  "dedup xs = rev (remdups (rev xs))"

definition store_symbols :: "MarketDataStore \<Rightarrow> string list" where
  "store_symbols s =
     dedup (map key_symbol (dict_keys (tickers s) @ dict_keys (cached_books s)))"

definition store_exchange_ids :: "MarketDataStore \<Rightarrow> string list" where
  "store_exchange_ids s =
     dedup (map key_exchange_id (dict_keys (tickers s) @ dict_keys (cached_books s)))"

definition store_stats :: "MarketDataStore \<Rightarrow> (string, nat) dict" where
  "store_stats s =
     [(''tickers'', length (tickers s)), (''order_books'', length (cached_books s)),
      (''exchanges'', length (store_exchange_ids s))]"

subsection \<open>Latest-value caches\<close>

text \<open>The last element with key \<open>k\<close> that no other element with that key outdates.\<close>

definition latest_of :: "('b \<Rightarrow> 'k) \<Rightarrow> ('b \<Rightarrow> 'b \<Rightarrow> bool) \<Rightarrow> 'k \<Rightarrow> 'b list \<Rightarrow> 'b \<Rightarrow> bool" where
  "latest_of key outdated k bs b \<longleftrightarrow>
     key b = k \<and> (\<exists>xs ys. bs = xs @ b # ys \<and>
       (\<forall>c \<in> set xs. key c = k \<longrightarrow> \<not> outdated b c) \<and>
       (\<forall>c \<in> set ys. key c = k \<longrightarrow> outdated c b))"

lemma latest_of_keep:
  assumes "latest_of key outdated k bs c" "key b = k \<longrightarrow> outdated b c"
  shows "latest_of key outdated k (bs @ [b]) c"
proof -
  obtain xs ys where "bs = xs @ c # ys" "key c = k" "\<forall>d \<in> set xs. key d = k \<longrightarrow> \<not> outdated c d"
    "\<forall>d \<in> set ys. key d = k \<longrightarrow> outdated d c"
    using assms(1) unfolding latest_of_def by blast
  then show ?thesis
    unfolding latest_of_def using assms(2) by (intro conjI exI [of _ xs] exI [of _ "ys @ [b]"]) auto
qed

lemma latest_of_new:
  assumes "key b = k" "\<forall>d \<in> set bs. key d = k \<longrightarrow> \<not> outdated b d"
  shows "latest_of key outdated k (bs @ [b]) b"
  unfolding latest_of_def using assms by (intro conjI exI [of _ bs] exI [of _ "[]"]) auto

lemma latest_of_cases:
  assumes "latest_of key outdated k bs c" "d \<in> set bs" "key d = k"
  shows "\<not> outdated c d \<or> outdated d c \<or> d = c"
  using assms unfolding latest_of_def by auto

locale latest_cache =
  fixes put :: "'s \<Rightarrow> 'b \<Rightarrow> 's"
    and get :: "'s \<Rightarrow> 'k \<Rightarrow> 'b option"
    and key :: "'b \<Rightarrow> 'k"
    and outdated :: "'b \<Rightarrow> 'b \<Rightarrow> bool"
  assumes put_other: "k \<noteq> key b \<Longrightarrow> get (put s b) k = get s k"
    and put_fresh: "get s (key b) = None \<Longrightarrow> get (put s b) (key b) = Some b"
    and put_outdated: "get s (key b) = Some c \<Longrightarrow> outdated b c \<Longrightarrow> get (put s b) (key b) = Some c"
    and put_newer: "get s (key b) = Some c \<Longrightarrow> \<not> outdated b c \<Longrightarrow> get (put s b) (key b) = Some b"
    and outdated_asym: "outdated a b \<Longrightarrow> \<not> outdated b a"
    and outdated_trans: "outdated a b \<Longrightarrow> \<not> outdated c b \<Longrightarrow> outdated a c"
begin

lemma get_put:
  "get (put s b) k =
     (if k = key b then
        (case get s k of Some c \<Rightarrow> Some (if outdated b c then c else b) | None \<Rightarrow> Some b)
      else get s k)"
  using put_other put_fresh put_outdated put_newer by (cases "get s k") auto

lemma latest_not_outdated:
  assumes "latest_of key outdated k bs c" "d \<in> set bs" "key d = k"
  shows "\<not> outdated c d"
  using latest_of_cases [OF assms] outdated_asym [of d c] outdated_asym [of c c] by auto

lemma get_after:
  assumes "get s k = None"
  shows "case get (fold (\<lambda>b s. put s b) bs s) k of
      None \<Rightarrow> k \<notin> key ` set bs
    | Some b \<Rightarrow> latest_of key outdated k bs b"
proof (induction bs rule: rev_induct)
  case Nil
  then show ?case using assms by simp
next
  case (snoc b bs)
  let ?s = "fold (\<lambda>b s. put s b) bs s"
  show ?case
  proof (cases "get ?s k")
    case None
    then have "\<forall>d \<in> set bs. key d \<noteq> k" using snoc by auto
    then show ?thesis using None by (auto simp: get_put intro!: latest_of_new)
  next
    case (Some c)
    then have c: "latest_of key outdated k bs c" using snoc by simp
    show ?thesis
    proof (cases "k = key b \<and> \<not> outdated b c")
      case True
      then have "\<not> outdated b d" if "d \<in> set bs" "key d = k" for d
        using latest_not_outdated [OF c that] outdated_trans by blast
      then show ?thesis using Some True by (auto simp: get_put intro!: latest_of_new)
    next
      case False
      then show ?thesis using Some latest_of_keep [OF c, of b] by (auto simp: get_put)
    qed
  qed
qed

end

interpretation book_cache: latest_cache put_order_book "\<lambda>s k. dict_get (cached_books s) k" book_key
  "\<lambda>b c. book_timestamp b < book_timestamp c"
  by unfold_locales (auto simp: put_order_book_def Let_def split: option.splits)

interpretation ticker_cache: latest_cache put_ticker "\<lambda>s k. dict_get (tickers s) k" ticker_key
  "\<lambda>_ _. False"
  by unfold_locales (auto simp: put_ticker_def)

text \<open>(store_keeps_newest_book).
  Whatever the order in which snapshots arrive, the store serves for a venue and symbol a
  snapshot that was written for exactly that stream and that is at least as recent as every
  other one written for it (the latest arrival among equally recent ones); it serves none
  only if none was written.\<close>

theorem store_keeps_newest_book:
  "case order_book (fold (\<lambda>b s. put_order_book s b) bs (new_store stale)) venue symb of
     None \<Rightarrow> quote_key venue symb SPOT \<notin> book_key ` set bs
   | Some b \<Rightarrow> latest_of book_key (\<lambda>c d. book_timestamp c < book_timestamp d)
       (quote_key venue symb SPOT) bs b"
  using book_cache.get_after [of "new_store stale" "quote_key venue symb SPOT" bs]
  by (simp add: new_store_def order_book_def)

lemma is_fresh_age_iff:
  "is_fresh s (age_ms now ts) \<longleftrightarrow>
     0 \<le> stale_after_ms s \<and> now - 1000 * stale_after_ms s \<le> ts \<and> ts \<le> now + 10000000"
proof -
  have a: "of_int (now - ts) / 1000 < - (10000 :: rat) \<longleftrightarrow> now + 10000000 < ts"
  proof -
    have "of_int (now - ts) / 1000 < - (10000 :: rat) \<longleftrightarrow> (of_int (now - ts) :: rat) < of_int (- 10000000)"
      by (simp add: field_simps)
    then show ?thesis by (simp only: of_int_less_iff) linarith
  qed
  have b: "of_int (now - ts) / 1000 \<le> (of_int m :: rat) \<longleftrightarrow> now - 1000 * m \<le> ts" for m
  proof -
    have "of_int (now - ts) / 1000 \<le> (of_int m :: rat) \<longleftrightarrow> (of_int (now - ts) :: rat) \<le> of_int (1000 * m)"
      by (simp add: field_simps)
    then show ?thesis by (simp only: of_int_le_iff) linarith
  qed
  show ?thesis
    using b [of "stale_after_ms s"] by (auto simp: is_fresh_def age_ms_def future_tolerance_ms_def a Let_def)
qed

text \<open>(fresh_books_are_recent).
  Reading with \<^verbatim>\<open>fresh_only\<close> returns exactly the cached books of the symbol and
  venues asked for whose exchange timestamp lies between the staleness bound in the past and
  ten seconds in the future: neither an old snapshot nor a far-future one passes.\<close>

theorem fresh_books_are_recent:
  "b \<in> set (order_books_for s now symb (Some venues) True) \<longleftrightarrow>
     (\<exists>k. (k, b) \<in> set (cached_books s) \<and> key_symbol k = symbol_name symb \<and>
        key_exchange_id k \<in> py_lower ` set venues) \<and>
     0 \<le> stale_after_ms s \<and>
     now - 1000 * stale_after_ms s \<le> book_timestamp b \<and> book_timestamp b \<le> now + 10000000"
  by (force simp: order_books_for_def wanted_key_def is_fresh_age_iff)

end
