(* ===== verification/Recovery.thy ===== *)
theory Recovery
  imports Order_Models
begin

text \<open>
  Execution recovery (\<^verbatim>\<open>app/recovery/recovery.py\<close>): resolving an order whose outcome
  is uncertain against the venue. The venue is a parameter: its answers to
  \<^verbatim>\<open>fetch_order\<close> and \<^verbatim>\<open>fetch_open_orders\<close> may differ from one attempt
  to the next, so they are functions of the attempt number, and each may raise.
\<close>

record OrderVenue =
  fetch_order :: "nat \<Rightarrow> string \<Rightarrow> Symbol \<Rightarrow> (exn, Order) result"
  fetch_open_orders :: "nat \<Rightarrow> Symbol \<Rightarrow> (exn, Order list) result"

definition max_query_attempts :: nat where
  "max_query_attempts = 3"

subsection \<open>Helpers\<close>

definition match_by_client_id :: "Order list \<Rightarrow> string option \<Rightarrow> Order option" where
  "match_by_client_id orders cid =
     (if \<not> truthy_str cid then None
      else List.find (\<lambda>ord1. client_order_id ord1 = cid) orders)"

definition merged_status :: "Order \<Rightarrow> Order \<Rightarrow> decimal \<Rightarrow> OrderStatus" where
  "merged_status loc fetched filled =
     (if filled \<ge> ord_amount loc then FILLED
      else if status_is_terminal (ord_status fetched) then ord_status fetched
      else if 0 < filled \<and> filled < ord_amount loc then PARTIALLY_FILLED
      else MANUAL_REVIEW)"

definition merge :: "Order \<Rightarrow> Order \<Rightarrow> Order" where
  "merge loc fetched =
     (let filled = (if filled_amount fetched > ord_amount loc then ord_amount loc
                    else filled_amount fetched)
      in loc\<lparr>ord_status := merged_status loc fetched filled,
             filled_amount := filled,
             average_price := dec_or (average_price fetched) (average_price loc),
             fee_paid := (if fee_paid fetched = 0 then fee_paid loc else fee_paid fetched),
             exchange_order_id := str_or (exchange_order_id fetched) (exchange_order_id loc),
             fills := (if fills fetched = [] then fills loc else fills fetched),
             ord_updated_at := ord_updated_at fetched\<rparr>)"

subsection \<open>Protocol\<close>

definition not_found_error :: string where
  "not_found_error = ''recovery: order not found on venue''"

definition unreachable_error :: string where
  "unreachable_error = ''recovery: exchange unreachable after 3 attempts''"

definition refresh_error :: string where
  "refresh_error = ''recovery: refresh failed''"

text \<open>One round of queries: the resolved order, or the exception that ends the round.\<close>

definition resolve_attempt :: "OrderVenue \<Rightarrow> int \<Rightarrow> nat \<Rightarrow> Order \<Rightarrow> (exn, Order) result" where
  "resolve_attempt v now k ord1 =
     (if truthy_str (exchange_order_id ord1)
      then res_bind (fetch_order v k (the (exchange_order_id ord1)) (ord_symbol ord1))
             (\<lambda>fetched. Inr (merge ord1 fetched))
      else res_bind (fetch_open_orders v k (ord_symbol ord1))
             (\<lambda>open_orders.
                case match_by_client_id open_orders (client_order_id ord1) of
                  Some m \<Rightarrow> Inr (merge ord1 m)
                | None \<Rightarrow> Inr (order_with_status ord1 now MANUAL_REVIEW (Some not_found_error))))"

text \<open>The loop over the remaining attempts, the next one being number \<open>k\<close>.\<close>

fun resolve_loop :: "OrderVenue \<Rightarrow> int \<Rightarrow> nat \<Rightarrow> nat \<Rightarrow> Order \<Rightarrow> Order" where
  "resolve_loop v now k 0 ord1 =
     order_with_status ord1 now MANUAL_REVIEW (Some unreachable_error)"
| "resolve_loop v now k (Suc n) ord1 =
     (case resolve_attempt v now k ord1 of
        Inr resolved \<Rightarrow> resolved
      | Inl _ \<Rightarrow> resolve_loop v now (Suc k) n ord1)"

definition resolve_unknown :: "OrderVenue \<Rightarrow> int \<Rightarrow> Order \<Rightarrow> Order" where
  "resolve_unknown v now ord1 = resolve_loop v now 1 max_query_attempts ord1"

definition refresh_partial :: "OrderVenue \<Rightarrow> int \<Rightarrow> Order \<Rightarrow> Order" where
  "refresh_partial v now ord1 =
     (let result =
        (if truthy_str (exchange_order_id ord1)
         then res_bind (fetch_order v 1 (the (exchange_order_id ord1)) (ord_symbol ord1))
                (\<lambda>fetched. Inr (merge ord1 fetched))
         else res_bind (fetch_open_orders v 1 (ord_symbol ord1))
                (\<lambda>open_orders. Inr (case match_by_client_id open_orders (client_order_id ord1) of
                    Some m \<Rightarrow> merge ord1 m
                  | None \<Rightarrow> ord1)))
      in case result of
           Inr resolved \<Rightarrow> resolved
         | Inl _ \<Rightarrow> order_with_status ord1 now PARTIALLY_FILLED (Some refresh_error))"

definition recover :: "OrderVenue \<Rightarrow> int \<Rightarrow> Order \<Rightarrow> Order" where
  "recover v now ord1 =
     (if ord_status ord1 = REJECTED then ord1
      else if ord_status ord1 \<in> set [TIMEOUT, UNKNOWN, PENDING, OPEN]
      then resolve_unknown v now ord1
      else if ord_status ord1 = PARTIALLY_FILLED then refresh_partial v now ord1
      else ord1)"

subsection \<open>What the venue answered\<close>

text \<open>The order \<open>f\<close> is an answer of the venue about \<open>ord1\<close> in one of the attempts.\<close>

definition venue_answer :: "OrderVenue \<Rightarrow> Order \<Rightarrow> Order \<Rightarrow> bool" where
  "venue_answer v ord1 f \<longleftrightarrow>
     (\<exists>k oid. exchange_order_id ord1 = Some oid \<and> oid \<noteq> [] \<and>
        fetch_order v k oid (ord_symbol ord1) = Inr f) \<or>
     (\<exists>k os. fetch_open_orders v k (ord_symbol ord1) = Inr os \<and> f \<in> set os \<and>
        truthy_str (client_order_id ord1) \<and> client_order_id f = client_order_id ord1)"

lemma match_by_client_id_Some:
  "match_by_client_id os cid = Some m \<Longrightarrow> m \<in> set os \<and> truthy_str cid \<and> client_order_id m = cid"
  using find_Some_in by (fastforce simp: match_by_client_id_def split: if_splits)

lemma venue_answer_direct:
  "truthy_str (exchange_order_id ord1) \<Longrightarrow>
   fetch_order v k (the (exchange_order_id ord1)) (ord_symbol ord1) = Inr f \<Longrightarrow> venue_answer v ord1 f"
  by (auto simp: venue_answer_def truthy_str_def)

lemma venue_answer_match:
  "fetch_open_orders v k (ord_symbol ord1) = Inr os \<Longrightarrow>
   match_by_client_id os (client_order_id ord1) = Some m \<Longrightarrow> venue_answer v ord1 m"
  using match_by_client_id_Some unfolding venue_answer_def by blast

lemma resolve_attempt_cases:
  assumes "resolve_attempt v now k ord1 = Inr r"
  shows "(\<exists>f. venue_answer v ord1 f \<and> r = merge ord1 f) \<or>
    r = order_with_status ord1 now MANUAL_REVIEW (Some not_found_error)"
proof (cases "truthy_str (exchange_order_id ord1)")
  case True
  then obtain f where "fetch_order v k (the (exchange_order_id ord1)) (ord_symbol ord1) = Inr f"
    "r = merge ord1 f"
    using assms by (auto simp: resolve_attempt_def res_bind_Inr_iff)
  then show ?thesis using venue_answer_direct [OF True] by blast
next
  case False
  then obtain os where os: "fetch_open_orders v k (ord_symbol ord1) = Inr os"
    and r: "(case match_by_client_id os (client_order_id ord1) of
        Some m \<Rightarrow> Inr (merge ord1 m)
      | None \<Rightarrow> Inr (order_with_status ord1 now MANUAL_REVIEW (Some not_found_error))) = (Inr r :: (exn, Order) result)"
    using assms by (auto simp: resolve_attempt_def res_bind_Inr_iff)
  then show ?thesis using venue_answer_match [OF os] by (auto split: option.splits)
qed

lemma resolve_loop_cases:
  "(\<exists>f. venue_answer v ord1 f \<and> resolve_loop v now k n ord1 = merge ord1 f) \<or>
   (\<exists>e. e \<noteq> [] \<and> resolve_loop v now k n ord1 = order_with_status ord1 now MANUAL_REVIEW (Some e))"
proof (induction v now k n ord1 rule: resolve_loop.induct)
  case (1 v now k ord1)
  show ?case by (auto simp: unreachable_error_def)
next
  case (2 v now k n ord1)
  show ?case
  proof (cases "resolve_attempt v now k ord1")
    case (Inl e)
    then show ?thesis using 2 by simp
  next
    case (Inr r)
    then show ?thesis using resolve_attempt_cases [OF Inr] by (auto simp: not_found_error_def)
  qed
qed

lemma refresh_partial_cases:
  "(\<exists>f. venue_answer v ord1 f \<and> refresh_partial v now ord1 = merge ord1 f) \<or>
   refresh_partial v now ord1 = ord1 \<or>
   refresh_partial v now ord1 = order_with_status ord1 now PARTIALLY_FILLED (Some refresh_error)"
proof (cases "truthy_str (exchange_order_id ord1)")
  case True
  then show ?thesis using venue_answer_direct [OF True, of v 1]
    by (cases "fetch_order v 1 (the (exchange_order_id ord1)) (ord_symbol ord1)")
      (auto simp: refresh_partial_def)
next
  case False
  show ?thesis
  proof (cases "fetch_open_orders v 1 (ord_symbol ord1)")
    case (Inr os)
    then show ?thesis using False venue_answer_match [OF Inr]
      by (cases "match_by_client_id os (client_order_id ord1)") (auto simp: refresh_partial_def)
  qed (use False in \<open>simp add: refresh_partial_def\<close>)
qed

lemma recover_cases:
  obtains (merged) f where "venue_answer v ord1 f" "recover v now ord1 = merge ord1 f"
      "outcome_unconfirmed ord1"
  | (review) e where "recover v now ord1 = order_with_status ord1 now MANUAL_REVIEW (Some e)"
      "outcome_unconfirmed ord1"
  | (same) "recover v now ord1 = ord1"
  | (partial) "recover v now ord1 = order_with_status ord1 now PARTIALLY_FILLED (Some refresh_error)"
      "ord_status ord1 = PARTIALLY_FILLED"
proof (cases "ord_status ord1 \<in> set [TIMEOUT, UNKNOWN, PENDING, OPEN]")
  case True
  then have r: "recover v now ord1 = resolve_loop v now 1 max_query_attempts ord1"
    and u: "outcome_unconfirmed ord1"
    by (auto simp: recover_def resolve_unknown_def outcome_defs)
  show thesis
    using resolve_loop_cases [of v ord1 now 1 max_query_attempts] r u merged review by auto
next
  case False
  show thesis
  proof (cases "ord_status ord1 = PARTIALLY_FILLED")
    case True
    then have "recover v now ord1 = refresh_partial v now ord1" "outcome_unconfirmed ord1"
      by (simp_all add: recover_def outcome_defs)
    then show thesis
      using refresh_partial_cases [of v ord1 now] merged same partial True by auto
  next
    case ne: False
    then show thesis using same False by (simp add: recover_def)
  qed
qed

lemma merge_simps [simp]:
  "ord_amount (merge l f) = ord_amount l" "client_order_id (merge l f) = client_order_id l"
  "ord_symbol (merge l f) = ord_symbol l" "ord_side (merge l f) = ord_side l"
  "ord_exchange_id (merge l f) = ord_exchange_id l"
  "filled_amount (merge l f) = min (filled_amount f) (ord_amount l)"
  by (auto simp: merge_def Let_def)

lemma order_with_status_simps [simp]:
  "ord_status (order_with_status l now st e) = st"
  "ord_amount (order_with_status l now st e) = ord_amount l"
  "filled_amount (order_with_status l now st e) = filled_amount l"
  "client_order_id (order_with_status l now st e) = client_order_id l"
  "ord_symbol (order_with_status l now st e) = ord_symbol l"
  "ord_side (order_with_status l now st e) = ord_side l"
  "ord_exchange_id (order_with_status l now st e) = ord_exchange_id l"
  by (simp_all add: order_with_status_def)

lemma merge_not_filled:
  assumes "0 < ord_amount l" "confirmed_not_filled (merge l f)"
  shows "confirmed_not_filled f \<and> ord_status (merge l f) = ord_status f"
proof -
  have z: "filled_amount f \<le> 0"
    using assms by (auto simp: confirmed_not_filled_def min_def split: if_splits)
  have st: "ord_status (merge l f) =
      (if status_is_terminal (ord_status f) then ord_status f else MANUAL_REVIEW)"
    using z assms(1) by (auto simp: merge_def merged_status_def Let_def)
  show ?thesis
    using assms(2) z st by (auto simp: confirmed_not_filled_def outcome_unconfirmed_def status_defs
        split: if_splits)
qed


definition sample_order :: Order where
  "sample_order =
     (new_order ''okx'' \<lparr>base = ''BTC'', quote = ''USDT'', settle = None\<rparr> BUY TIMEOUT 2 0)
       \<lparr>exchange_order_id := Some ''17'', client_order_id := Some ''c1''\<rparr>"

text \<open>A venue that fails at first and then reports the order canceled unfilled.\<close>

definition sample_venue :: OrderVenue where
  "sample_venue =
     \<lparr>fetch_order = (\<lambda>k oid s. if k < 2 then Inl TimeoutError
        else Inr (order_with_status sample_order 5 CANCELED None)),
      fetch_open_orders = (\<lambda>k s. Inr [])\<rparr>"

definition dead_venue :: OrderVenue where
  "dead_venue =
     \<lparr>fetch_order = (\<lambda>k oid s. Inl TimeoutError), fetch_open_orders = (\<lambda>k s. Inl TimeoutError)\<rparr>"

lemmas sample_order_eval =
  sample_order_def sample_venue_def new_order_def recover_def resolve_unknown_def
  max_query_attempts_def resolve_attempt_def merge_def merged_status_def order_with_status_def
  outcome_defs Let_def


text \<open>(recovery_fill_bounded).
  Recovery keeps an order's identity and size and never reports more filled than was ordered,
  whatever the venue says; an order that was already resolved is returned as it is.\<close>

theorem recovery_fill_bounded:
  assumes "filled_amount ord1 \<le> ord_amount ord1"
  shows "filled_amount (recover v now ord1) \<le> ord_amount ord1 \<and>
    ord_amount (recover v now ord1) = ord_amount ord1 \<and>
    client_order_id (recover v now ord1) = client_order_id ord1 \<and>
    ord_exchange_id (recover v now ord1) = ord_exchange_id ord1 \<and>
    ord_symbol (recover v now ord1) = ord_symbol ord1 \<and>
    ord_side (recover v now ord1) = ord_side ord1 \<and>
    (\<not> outcome_unconfirmed ord1 \<longrightarrow> recover v now ord1 = ord1)"
  using recover_cases [of v ord1 now]
  by cases (use assms in \<open>auto simp: outcome_defs\<close>)

theorem recovery_fill_bounded_witness:
  "filled_amount (recover sample_venue 9 sample_order) \<le> 2"
proof -
  have "filled_amount sample_order \<le> ord_amount sample_order" "ord_amount sample_order = 2"
    by (simp_all add: sample_order_eval)
  then show ?thesis using recovery_fill_bounded [of sample_order sample_venue 9] by simp
qed

text \<open>(recovery_unreachable_escalates).
  When every query of every attempt raises, an order without a known outcome goes to manual
  review with its fill unchanged: recovery always returns, and never guesses.\<close>

theorem recovery_unreachable_escalates:
  assumes "ord_status ord1 \<in> set [TIMEOUT, UNKNOWN, PENDING, OPEN]"
    "\<And>k oid s. \<not> is_ok (fetch_order v k oid s)" "\<And>k s. \<not> is_ok (fetch_open_orders v k s)"
  shows "recover v now ord1 =
    ord1\<lparr>ord_status := MANUAL_REVIEW, ord_error := Some unreachable_error, ord_updated_at := now\<rparr>"
proof -
  have "\<exists>e. resolve_attempt v now k ord1 = Inl e" for k
    using assms(2) [of k "the (exchange_order_id ord1)" "ord_symbol ord1"]
      assms(3) [of k "ord_symbol ord1"]
    by (auto simp: resolve_attempt_def is_ok_def res_bind_def split: sum.splits)
  then have "resolve_loop v now k n ord1 =
      order_with_status ord1 now MANUAL_REVIEW (Some unreachable_error)" for k n
  proof (induction n arbitrary: k)
    case (Suc n)
    then show ?case by (metis resolve_loop.simps(2) old.sum.simps(5))
  qed simp
  then show ?thesis
    using assms(1) by (auto simp: recover_def resolve_unknown_def order_with_status_def
        unreachable_error_def str_or_def)
qed

theorem recovery_unreachable_escalates_witness:
  "ord_status (recover dead_venue 9 sample_order) = MANUAL_REVIEW"
proof -
  have st: "ord_status sample_order \<in> set [TIMEOUT, UNKNOWN, PENDING, OPEN]"
    by (simp add: sample_order_eval)
  have "recover dead_venue 9 sample_order =
      sample_order\<lparr>ord_status := MANUAL_REVIEW, ord_error := Some unreachable_error, ord_updated_at := 9\<rparr>"
    by (rule recovery_unreachable_escalates [OF st]) (simp_all add: dead_venue_def)
  then show ?thesis by simp
qed

end
