(* ===== verification/Execution_Guard.thy ===== *)
theory Execution_Guard
  imports Domain_Models
begin

text \<open>
  The trading interlocks: the mode policies (\<^verbatim>\<open>app/config/modes.py\<close>), the execution
  guard with its persisted kill switch (\<^verbatim>\<open>app/execution/guard.py\<close>), the placement
  gates (\<^verbatim>\<open>app/execution/order_gate.py\<close>, \<^verbatim>\<open>BaseExchangeAdapter.can_place_orders\<close>),
  the key/value table \<^verbatim>\<open>bot_state\<close> they are stored in and the operator commands of
  \<^verbatim>\<open>app/services.py\<close> that drive them.

  The operator's commands are a step relation on the pair of in-memory guard and stored table;
  a restart forgets the guard and rebuilds it from the table. The theory shows that this
  implements a two-bit specification (halted, armed), from which follows that an engaged
  kill switch is only ever released by the operator, restarts included.
\<close>

subsection \<open>Mode policies\<close>

record ModePolicy =
  mode :: TradingMode
  description :: string
  sends_orders_to_exchange :: bool
  uses_real_funds :: bool
  uses_testnet :: bool
  requires_credentials :: bool
  requires_explicit_confirmation :: bool

definition is_simulated :: "ModePolicy \<Rightarrow> bool" where
  "is_simulated p \<longleftrightarrow> \<not> sends_orders_to_exchange p"

definition is_live :: "ModePolicy \<Rightarrow> bool" where
  "is_live p \<longleftrightarrow> mode p = LIVE"

fun policy_for :: "TradingMode \<Rightarrow> ModePolicy" where
  "policy_for PAPER =
     \<lparr>mode = PAPER,
      description = ''Real market data, fully simulated execution. No exchange orders.'',
      sends_orders_to_exchange = False, uses_real_funds = False, uses_testnet = False,
      requires_credentials = False, requires_explicit_confirmation = False\<rparr>"
| "policy_for DEMO =
     \<lparr>mode = DEMO,
      description = ''Exchange testnet/demo accounts. Real API calls, no real funds.'',
      sends_orders_to_exchange = True, uses_real_funds = False, uses_testnet = True,
      requires_credentials = True, requires_explicit_confirmation = False\<rparr>"
| "policy_for LIVE =
     \<lparr>mode = LIVE,
      description = ''Production trading with real capital. Requires explicit opt-in.'',
      sends_orders_to_exchange = True, uses_real_funds = True, uses_testnet = False,
      requires_credentials = True, requires_explicit_confirmation = True\<rparr>"

lemma mode_policy_for [simp]: "mode (policy_for m) = m"
  by (cases m) simp_all

subsection \<open>The bot-state table\<close>

text \<open>
  A stored value is a JSON document; the code distinguishes dictionaries, booleans, strings,
  null, and everything else (\<open>BOther\<close>, with what \<^verbatim>\<open>str\<close> gives of it).
\<close>

datatype scalar = SNone | SBool bool | SStr string

datatype bot_value = BBool bool | BStr string | BDict "(string, scalar) dict" | BNull | BOther string

record BotStateRow =
  row_value :: bot_value
  row_updated_at :: int

type_synonym bot_state = "(string, BotStateRow) dict"

definition bot_get :: "bot_state \<Rightarrow> string \<Rightarrow> bot_value option" where
  "bot_get repo key = map_option row_value (dict_get repo key)"

definition bot_set :: "bot_state \<Rightarrow> int \<Rightarrow> string \<Rightarrow> bot_value \<Rightarrow> bot_state" where
  "bot_set repo now key v = dict_set repo key \<lparr>row_value = v, row_updated_at = now\<rparr>"

definition bot_delete :: "bot_state \<Rightarrow> string \<Rightarrow> bot_state" where
  "bot_delete repo key = filter (\<lambda>(k, _). k \<noteq> key) repo"

lemma dict_get_filter_key:
  "dict_get (filter (\<lambda>(k, _). k \<noteq> key) d) k' = (if k' = key then None else dict_get d k')"
  by (induction d) auto

lemma bot_get_set [simp]:
  "bot_get (bot_set repo now key v) k = (if k = key then Some v else bot_get repo k)"
  by (simp add: bot_get_def bot_set_def)

lemma bot_get_delete [simp]:
  "bot_get (bot_delete repo key) k = (if k = key then None else bot_get repo k)"
  by (simp add: bot_get_def bot_delete_def dict_get_filter_key)

subsection \<open>The guard\<close>

record ExecutionGuard =
  policy :: ModePolicy
  trading_enabled :: bool
  halt_reason :: "string option"
  halted_at :: scalar

definition new_guard :: "ModePolicy \<Rightarrow> bool \<Rightarrow> ExecutionGuard" where
  "new_guard p enabled =
     \<lparr>policy = p, trading_enabled = enabled, halt_reason = None, halted_at = SNone\<rparr>"

definition guard_mode :: "ExecutionGuard \<Rightarrow> TradingMode" where
  "guard_mode g = mode (policy g)"

definition is_halted :: "ExecutionGuard \<Rightarrow> bool" where
  "is_halted g \<longleftrightarrow> halt_reason g \<noteq> None"

definition ensure_can_trade :: "ExecutionGuard \<Rightarrow> (exn, unit) result" where
  "ensure_can_trade g =
     (if is_halted g then Inl (ExecutionDisabledError ''kill switch engaged'') else Inr ())"

definition ensure_auto_trading :: "ExecutionGuard \<Rightarrow> (exn, unit) result" where
  "ensure_auto_trading g =
     (if is_halted g then Inl (ExecutionDisabledError ''kill switch engaged'')
      else if \<not> trading_enabled g
      then Inl (ExecutionDisabledError ''auto trading is disabled'')
      else Inr ())"

definition can_trade :: "ExecutionGuard \<Rightarrow> bool" where
  "can_trade g =
     (case ensure_can_trade g of Inl (ExecutionDisabledError _) \<Rightarrow> False | _ \<Rightarrow> True)"

definition enable_trading :: "ExecutionGuard \<Rightarrow> bool \<Rightarrow> ExecutionGuard" where
  "enable_trading g enabled = g\<lparr>trading_enabled := enabled\<rparr>"

text \<open>The wall clock enters as its rendering \<^verbatim>\<open>utc_now().isoformat()\<close>.\<close>

definition guard_engage :: "ExecutionGuard \<Rightarrow> string \<Rightarrow> string \<Rightarrow> ExecutionGuard" where
  "guard_engage g now_iso reason = g\<lparr>halt_reason := Some reason, halted_at := SStr now_iso\<rparr>"

definition guard_release :: "ExecutionGuard \<Rightarrow> ExecutionGuard" where
  "guard_release g = g\<lparr>halt_reason := None, halted_at := SNone\<rparr>"

definition kill_switch_key :: string where
  "kill_switch_key = ''kill_switch''"

fun scalar_of :: "string option \<Rightarrow> scalar" where
  "scalar_of None = SNone"
| "scalar_of (Some s) = SStr s"

definition persist :: "ExecutionGuard \<Rightarrow> int \<Rightarrow> bot_state \<Rightarrow> bot_state" where
  "persist g now repo =
     (if is_halted g
      then bot_set repo now kill_switch_key
             (BDict [(''engaged'', SBool True), (''reason'', scalar_of (halt_reason g)),
                     (''halted_at'', halted_at g)])
      else bot_delete repo kill_switch_key)"

fun scalar_truthy :: "scalar option \<Rightarrow> bool" where
  "scalar_truthy None = False"
| "scalar_truthy (Some SNone) = False"
| "scalar_truthy (Some (SBool b)) = b"
| "scalar_truthy (Some (SStr s)) = (s \<noteq> [])"

fun scalar_str :: "scalar \<Rightarrow> string" where
  "scalar_str SNone = ''None''"
| "scalar_str (SBool True) = ''True''"
| "scalar_str (SBool False) = ''False''"
| "scalar_str (SStr s) = s"

definition restore :: "ExecutionGuard \<Rightarrow> bot_state \<Rightarrow> ExecutionGuard" where
  "restore g repo =
     (case bot_get repo kill_switch_key of
        Some (BDict d) \<Rightarrow>
          if scalar_truthy (dict_get d ''engaged'')
          then g\<lparr>halt_reason :=
                    Some (case dict_get d ''reason'' of
                            Some r \<Rightarrow> if scalar_truthy (Some r) then scalar_str r
                                      else ''engaged before restart''
                          | None \<Rightarrow> ''engaged before restart''),
                  halted_at := opt_or (dict_get d ''halted_at'') SNone\<rparr>
          else g
      | _ \<Rightarrow> g)"

fun mode_str :: "TradingMode \<Rightarrow> string" where
  "mode_str PAPER = ''PAPER''"
| "mode_str DEMO = ''DEMO''"
| "mode_str LIVE = ''LIVE''"

fun bool_str :: "bool \<Rightarrow> string" where
  "bool_str True = ''true''"
| "bool_str False = ''false''"

definition guard_status :: "ExecutionGuard \<Rightarrow> (string, scalar) dict" where
  "guard_status g =
     [(''mode'', SStr (mode_str (guard_mode g))),
      (''trading_enabled'', SStr (bool_str (trading_enabled g))),
      (''sends_orders_to_exchange'', SStr (bool_str (sends_orders_to_exchange (policy g)))),
      (''halted'', SStr (bool_str (is_halted g))),
      (''halt_reason'', SStr (opt_or (halt_reason g) [])),
      (''halted_at'', if scalar_truthy (Some (halted_at g)) then halted_at g else SStr [])]"

lemmas guard_defs =
  is_halted_def guard_engage_def guard_release_def enable_trading_def new_guard_def
  guard_mode_def

subsection \<open>Placement gates\<close>

text \<open>
  What a gate reads of an adapter: its \<^verbatim>\<open>options\<close> attribute, if it has one, and the
  \<^verbatim>\<open>sandbox\<close> flag of it, if it has one. A gate closes over the guard object, so its
  value is a function of the guard at call time; it may raise.
\<close>

record AdapterView =
  options_sandbox :: "bool option option"

type_synonym OrderGate = "ExecutionGuard \<Rightarrow> AdapterView \<Rightarrow> (exn, bool) result"

definition never_place_orders :: OrderGate where
  "never_place_orders g a = Inr False"

definition sandbox_only :: OrderGate where
  "sandbox_only g a = Inr (case options_sandbox a of Some (Some b) \<Rightarrow> b | _ \<Rightarrow> False)"

definition live_session_gate :: OrderGate where
  "live_session_gate g a = Inr (trading_enabled g \<and> \<not> is_halted g)"

definition gate_for_mode :: "TradingMode \<Rightarrow> OrderGate" where
  "gate_for_mode m =
     (if m = PAPER then never_place_orders
      else if m = DEMO then sandbox_only
      else live_session_gate)"

definition can_place_orders :: "OrderGate option \<Rightarrow> ExecutionGuard \<Rightarrow> AdapterView \<Rightarrow> bool" where
  "can_place_orders gate g a =
     (case gate of
        None \<Rightarrow> False
      | Some f \<Rightarrow> (case f g a of Inl _ \<Rightarrow> False | Inr b \<Rightarrow> b))"

subsection \<open>Operator commands of the composition root\<close>

definition auto_flag_key :: string where
  "auto_flag_key = ''auto_trading''"

definition strategy_key :: string where
  "strategy_key = ''active_strategy''"

record Interlocks =
  guard :: ExecutionGuard
  bot_store :: bot_state

definition auto_trading_enabled :: "bot_state \<Rightarrow> bool" where
  "auto_trading_enabled repo =
     (case bot_get repo auto_flag_key of Some (BBool b) \<Rightarrow> b | _ \<Rightarrow> False)"

definition set_auto_trading :: "Interlocks \<Rightarrow> int \<Rightarrow> bool \<Rightarrow> Interlocks" where
  "set_auto_trading s now enabled =
     s\<lparr>bot_store := bot_set (bot_store s) now auto_flag_key (BBool enabled),
       guard := enable_trading (guard s) enabled\<rparr>"

definition get_active_strategy :: "bot_state \<Rightarrow> string option" where
  "get_active_strategy repo =
     (case bot_get repo strategy_key of
        Some (BStr v) \<Rightarrow> if v \<in> set [''triangle'', ''transfer''] then Some v else None
      | _ \<Rightarrow> None)"

definition set_active_strategy :: "Interlocks \<Rightarrow> int \<Rightarrow> string \<Rightarrow> (exn, Interlocks) result" where
  "set_active_strategy s now strategy =
     (if strategy \<notin> set [''triangle'', ''transfer''] then Inl (ValueError ''unknown strategy'')
      else Inr (s\<lparr>bot_store := bot_set (bot_store s) now strategy_key (BStr strategy)\<rparr>))"

definition engage_kill_switch :: "Interlocks \<Rightarrow> int \<Rightarrow> string \<Rightarrow> string \<Rightarrow> Interlocks" where
  "engage_kill_switch s now now_iso reason =
     (let g = guard_engage (guard s) now_iso reason;
          s' = s\<lparr>guard := g, bot_store := persist g now (bot_store s)\<rparr>
      in set_auto_trading s' now False)"

definition release_kill_switch :: "Interlocks \<Rightarrow> int \<Rightarrow> Interlocks" where
  "release_kill_switch s now =
     (let g = guard_release (guard s)
      in s\<lparr>guard := g, bot_store := persist g now (bot_store s)\<rparr>)"

text \<open>
  \<^verbatim>\<open>build_app\<close> makes a disabled guard for the mode and restores the kill switch;
  \<^verbatim>\<open>start_app\<close> then restores the trading flag.
\<close>

definition build_guard :: "TradingMode \<Rightarrow> bot_state \<Rightarrow> ExecutionGuard" where
  "build_guard m repo = restore (new_guard (policy_for m) False) repo"

definition start_guard :: "bot_state \<Rightarrow> ExecutionGuard \<Rightarrow> ExecutionGuard" where
  "start_guard repo g = (if auto_trading_enabled repo then enable_trading g True else g)"

definition restart :: "TradingMode \<Rightarrow> bot_state \<Rightarrow> Interlocks" where
  "restart m repo = \<lparr>guard = start_guard repo (build_guard m repo), bot_store = repo\<rparr>"

datatype command =
    Engage string
  | Release
  | SetAuto bool
  | SetStrategy string
  | Restart

text \<open>One command at time \<open>now\<close>, rendered as \<open>stamp\<close>; a refused command changes nothing.\<close>

fun run_command :: "TradingMode \<Rightarrow> int \<times> string \<Rightarrow> command \<Rightarrow> Interlocks \<Rightarrow> Interlocks" where
  "run_command m (now, stamp) (Engage reason) s = engage_kill_switch s now stamp reason"
| "run_command m (now, stamp) Release s = release_kill_switch s now"
| "run_command m (now, stamp) (SetAuto b) s = set_auto_trading s now b"
| "run_command m (now, stamp) (SetStrategy x) s =
     (case set_active_strategy s now x of Inl _ \<Rightarrow> s | Inr s' \<Rightarrow> s')"
| "run_command m (now, stamp) Restart s = restart m (bot_store s)"

inductive operated :: "TradingMode \<Rightarrow> Interlocks \<Rightarrow> command list \<Rightarrow> Interlocks \<Rightarrow> bool"
  for m where
  operated_refl: "operated m s [] s"
| operated_step: "operated m s cs s' \<Longrightarrow> operated m s (cs @ [c]) (run_command m t c s')"

subsection \<open>Persistence\<close>

definition persisted_halt :: "bot_state \<Rightarrow> bool" where
  "persisted_halt repo =
     (case bot_get repo kill_switch_key of
        Some (BDict d) \<Rightarrow> scalar_truthy (dict_get d ''engaged'') | _ \<Rightarrow> False)"

lemma keys_distinct [simp]:
  "kill_switch_key \<noteq> auto_flag_key" "auto_flag_key \<noteq> kill_switch_key"
  "kill_switch_key \<noteq> strategy_key" "strategy_key \<noteq> kill_switch_key"
  "auto_flag_key \<noteq> strategy_key" "strategy_key \<noteq> auto_flag_key"
  by (simp_all add: kill_switch_key_def auto_flag_key_def strategy_key_def)

lemma persisted_halt_persist [simp]: "persisted_halt (persist g now repo) = is_halted g"
  by (simp add: persist_def persisted_halt_def)

lemma auto_flag_persist [simp]:
  "auto_trading_enabled (persist g now repo) = auto_trading_enabled repo"
  by (simp add: persist_def auto_trading_enabled_def)

lemma persisted_halt_other [simp]:
  "key \<noteq> kill_switch_key \<Longrightarrow> persisted_halt (bot_set repo now key v) = persisted_halt repo"
  by (simp add: persisted_halt_def)

lemma is_halted_restore:
  "is_halted (restore g repo) \<longleftrightarrow> is_halted g \<or> persisted_halt repo"
  by (auto simp: restore_def persisted_halt_def is_halted_def split: option.splits bot_value.splits)

lemma restore_keeps [simp]:
  "trading_enabled (restore g repo) = trading_enabled g" "policy (restore g repo) = policy g"
  by (auto simp: restore_def split: option.splits bot_value.splits)

lemma guard_op_simps [simp]:
  "trading_enabled (enable_trading g b) = b" "is_halted (enable_trading g b) = is_halted g"
  "policy (enable_trading g b) = policy g"
  "is_halted (guard_engage g stamp reason)" "\<not> is_halted (guard_release g)"
  "trading_enabled (guard_engage g stamp reason) = trading_enabled g"
  "trading_enabled (guard_release g) = trading_enabled g"
  "policy (guard_engage g stamp reason) = policy g" "policy (guard_release g) = policy g"
  "\<not> is_halted (new_guard p b)" "trading_enabled (new_guard p b) = b" "policy (new_guard p b) = p"
  by (simp_all add: guard_defs)

lemma restart_guard [simp]:
  "is_halted (guard (restart m repo)) = persisted_halt repo"
  "trading_enabled (guard (restart m repo)) = auto_trading_enabled repo"
  "bot_store (restart m repo) = repo"
  "policy (guard (restart m repo)) = policy_for m"
  by (auto simp: restart_def start_guard_def build_guard_def is_halted_restore)

text \<open>C38 (kill_switch_restart_roundtrip).
  Persisting a guard and restarting the bot gives the kill switch back as it was: the same
  reason and time when it was engaged (an empty reason becomes the text
  \<^verbatim>\<open>engaged before restart\<close>), released when it was released.\<close>

theorem kill_switch_restart_roundtrip:
  "let g' = build_guard m (persist g now repo) in
     is_halted g' = is_halted g \<and>
     halt_reason g' =
       map_option (\<lambda>r. if r = [] then ''engaged before restart'' else r) (halt_reason g) \<and>
     halted_at g' = (if is_halted g then halted_at g else SNone)"
  by (auto simp: build_guard_def restore_def persist_def new_guard_def is_halted_def)

subsection \<open>The two-bit specification\<close>

text \<open>
  What the operator is promised: whether execution is halted and whether the background loop
  is armed. Engaging halts and disarms, releasing only un-halts, restarts change nothing.
\<close>

record interlock_spec =
  halted :: bool
  armed :: bool

fun spec_command :: "command \<Rightarrow> interlock_spec \<Rightarrow> interlock_spec" where
  "spec_command (Engage _) a = a\<lparr>halted := True, armed := False\<rparr>"
| "spec_command Release a = a\<lparr>halted := False\<rparr>"
| "spec_command (SetAuto b) a = a\<lparr>armed := b\<rparr>"
| "spec_command (SetStrategy _) a = a"
| "spec_command Restart a = a"

definition interlock_abs :: "Interlocks \<Rightarrow> interlock_spec" where
  "interlock_abs s = \<lparr>halted = is_halted (guard s), armed = trading_enabled (guard s)\<rparr>"

definition interlocks_synced :: "TradingMode \<Rightarrow> Interlocks \<Rightarrow> bool" where
  "interlocks_synced m s \<longleftrightarrow>
     is_halted (guard s) = persisted_halt (bot_store s) \<and>
     trading_enabled (guard s) = auto_trading_enabled (bot_store s) \<and>
     guard_mode (guard s) = m"

lemma auto_flag_set [simp]:
  "auto_trading_enabled (bot_set repo now key v) =
     (if key = auto_flag_key then v = BBool True else auto_trading_enabled repo)"
  by (auto simp: auto_trading_enabled_def split: bot_value.splits)

lemma synced_restart [simp]: "interlocks_synced m (restart m repo)"
  by (simp add: interlocks_synced_def guard_mode_def)

lemma run_command_refines:
  assumes "interlocks_synced m s"
  shows "interlocks_synced m (run_command m t c s) \<and>
    interlock_abs (run_command m t c s) = spec_command c (interlock_abs s)"
proof (cases t)
  case (Pair now stamp)
  with assms show ?thesis
    by (cases c)
      (auto simp: interlocks_synced_def interlock_abs_def guard_mode_def engage_kill_switch_def
        release_kill_switch_def set_auto_trading_def set_active_strategy_def Let_def)
qed

lemma operated_refines:
  assumes "operated m s cs s'" "interlocks_synced m s"
  shows "interlocks_synced m s' \<and> interlock_abs s' = fold spec_command cs (interlock_abs s)"
  using assms by (induction rule: operated.induct) (simp_all add: run_command_refines)

text \<open>C37 (interlocks_refine_spec).
  From any start of the bot, every sequence of operator commands and restarts behaves as the
  two-bit specification (halted, armed), and leaves the in-memory guard and the stored table
  in agreement.\<close>

theorem interlocks_refine_spec:
  assumes "operated m (restart m repo) cs s'"
  shows "interlock_abs s' = fold spec_command cs (interlock_abs (restart m repo)) \<and>
    interlocks_synced m s'"
  using operated_refines [OF assms] by simp

lemma operated_once: "operated m s [c] (run_command m t c s)"
  using operated_step [OF operated_refl, of m s c t] by simp

lemma operated_twice: "operated m s [c, d] (run_command m t' d (run_command m t c s))"
  using operated_step [OF operated_once, of m s c d t' t] by simp

theorem interlocks_refine_spec_witness:
  "interlock_abs (run_command LIVE (2, ''t2'') Restart
     (run_command LIVE (1, ''t1'') (Engage ''drawdown'') (restart LIVE []))) =
   \<lparr>halted = True, armed = False\<rparr>"
  using interlocks_refine_spec [OF operated_twice [of LIVE "restart LIVE []" "Engage ''drawdown''"
        Restart "(2, ''t2'')" "(1, ''t1'')"]]
  by (simp add: interlock_abs_def)

lemma spec_stays_halted:
  "halted a \<Longrightarrow> Release \<notin> set cs \<Longrightarrow> halted (fold spec_command cs a)"
proof (induction cs arbitrary: a)
  case (Cons c cs)
  then show ?case by (cases c) auto
qed simp

lemma spec_stays_disarmed:
  "\<not> armed a \<Longrightarrow> SetAuto True \<notin> set cs \<Longrightarrow> \<not> armed (fold spec_command cs a)"
proof (induction cs arbitrary: a)
  case (Cons c cs)
  then show ?case by (cases c) auto
qed simp

text \<open>(kill_switch_sticky).
  Once the kill switch is engaged, no sequence of commands and restarts without an explicit
  release lets anything trade: the hard gate and the background gate both raise, and in LIVE
  mode no adapter may place an order.\<close>

theorem kill_switch_sticky:
  assumes "operated m (restart m repo) cs s" "operated m (run_command m t (Engage reason) s) cs' s'"
    "Release \<notin> set cs'"
  shows "\<not> can_trade (guard s') \<and>
    ensure_can_trade (guard s') = Inl (ExecutionDisabledError ''kill switch engaged'') \<and>
    ensure_auto_trading (guard s') = Inl (ExecutionDisabledError ''kill switch engaged'') \<and>
    \<not> can_place_orders (Some (gate_for_mode LIVE)) (guard s') a"
proof -
  have s: "interlocks_synced m s" using operated_refines [OF assms(1)] by simp
  have e: "interlocks_synced m (run_command m t (Engage reason) s)"
    "halted (interlock_abs (run_command m t (Engage reason) s))"
    using run_command_refines [OF s] by simp_all
  have "halted (interlock_abs s')"
    using operated_refines [OF assms(2) e(1)] spec_stays_halted [OF e(2) assms(3)] by simp
  then show ?thesis
    by (simp add: interlock_abs_def can_trade_def ensure_can_trade_def ensure_auto_trading_def
        can_place_orders_def gate_for_mode_def live_session_gate_def)
qed

theorem kill_switch_sticky_witness:
  "\<not> can_trade (guard (run_command LIVE (2, ''b'') Restart
     (run_command LIVE (1, ''a'') (Engage ''halt'') (restart LIVE []))))"
  using kill_switch_sticky [OF operated_refl operated_once [of LIVE
        "run_command LIVE (1, ''a'') (Engage ''halt'') (restart LIVE [])" Restart "(2, ''b'')"]]
  by simp

text \<open>(release_does_not_rearm).
  Engaging the kill switch also switches the background loop off for good: whatever is done
  afterwards, releases and restarts included, the LIVE gate stays shut until the operator
  switches auto trading on again.\<close>

theorem release_does_not_rearm:
  assumes "operated m (restart m repo) cs s" "operated m (run_command m t (Engage reason) s) cs' s'"
    "SetAuto True \<notin> set cs'"
  shows "\<not> trading_enabled (guard s') \<and> \<not> auto_trading_enabled (bot_store s') \<and>
    \<not> can_place_orders (Some (gate_for_mode LIVE)) (guard s') a"
proof -
  have s: "interlocks_synced m s" using operated_refines [OF assms(1)] by simp
  have e: "interlocks_synced m (run_command m t (Engage reason) s)"
    "\<not> armed (interlock_abs (run_command m t (Engage reason) s))"
    using run_command_refines [OF s] by simp_all
  note r = operated_refines [OF assms(2) e(1)]
  have "\<not> armed (interlock_abs s')" using r spec_stays_disarmed [OF e(2) assms(3)] by simp
  then show ?thesis using r
    by (simp add: interlock_abs_def interlocks_synced_def can_place_orders_def gate_for_mode_def
        live_session_gate_def)
qed

theorem release_does_not_rearm_witness:
  "\<not> trading_enabled (guard (run_command LIVE (2, ''b'') Release
     (run_command LIVE (1, ''a'') (Engage ''halt'') (restart LIVE []))))"
  using release_does_not_rearm [OF operated_refl operated_once [of LIVE
        "run_command LIVE (1, ''a'') (Engage ''halt'') (restart LIVE [])" Release "(2, ''b'')"]]
  by simp

text \<open>(placement_by_mode).
  Which adapter may place an order is decided by the mode alone: never in PAPER, exactly the
  sandboxed venues in DEMO, exactly while the guard is armed and not halted in LIVE; without
  an injected gate, or with one that raises, never.\<close>

theorem placement_by_mode:
  "\<not> can_place_orders (Some (gate_for_mode PAPER)) g a \<and>
   (can_place_orders (Some (gate_for_mode DEMO)) g a = (options_sandbox a = Some (Some True))) \<and>
   (can_place_orders (Some (gate_for_mode LIVE)) g a = (ensure_auto_trading g = Inr ())) \<and>
   \<not> can_place_orders None g a \<and>
   \<not> can_place_orders (Some (\<lambda>_ _. Inl e)) g a"
  by (auto simp: can_place_orders_def gate_for_mode_def never_place_orders_def sandbox_only_def
      live_session_gate_def ensure_auto_trading_def split: option.splits)

end
