(* ===== verification/Risk.thy ===== *)
theory Risk
  imports Execution_Guard Transfer_Models
begin

text \<open>
  The risk engine: limits, violations and assessments (\<^verbatim>\<open>app/models/risk.py\<close>), the
  nine pre-trade rules and the exposure maps (\<^verbatim>\<open>app/risk/rules.py\<close>), the engine
  that runs them fail-closed (\<^verbatim>\<open>app/risk/engine.py\<close>), the runtime counters
  (\<^verbatim>\<open>app/risk/state.py\<close>) and the places of \<^verbatim>\<open>app/services.py\<close> where
  a context is built from them.

  A rule returns an optional violation or raises. The locale \<open>rule_book\<close> states what the
  engine's clients rely on, that a set of rules passes exactly a given predicate, and is
  interpreted on the default rules with the predicate \<open>within_limits\<close>.
\<close>

subsection \<open>Models\<close>

record RiskLimits =
  max_trade_size :: decimal
  min_net_profit_bps :: decimal
  max_daily_loss :: decimal
  max_open_transfers :: int
  max_exchange_exposure :: decimal
  max_asset_exposure :: decimal
  max_slippage_bps :: decimal
  max_data_age_ms :: int

definition default_limits :: RiskLimits where
  "default_limits =
     \<lparr>max_trade_size = 1000, min_net_profit_bps = 10, max_daily_loss = 250,
      max_open_transfers = 3, max_exchange_exposure = 150000, max_asset_exposure = 750000,
      max_slippage_bps = 15, max_data_age_ms = 2500\<rparr>"

record RiskViolation =
  viol_rule :: string
  viol_message :: string
  viol_limit :: "decimal option"
  viol_actual :: "decimal option"
  viol_subject :: "string option"
  viol_severity :: RiskLevel

record RiskAssessment =
  approved :: bool
  violations :: "RiskViolation list"
  level :: RiskLevel

definition reasons :: "RiskAssessment \<Rightarrow> string list" where
  "reasons a = map viol_message (violations a)"

text \<open>\<open>ctx_data_age_ms = None\<close> is the float infinity.\<close>

record RiskContext =
  ctx_strategy :: ArbitrageStrategy
  ctx_notional_quote :: decimal
  ctx_net_profit_bps :: decimal
  ctx_slippage_bps :: decimal
  ctx_data_age_ms :: "rat option"
  ctx_daily_pnl :: decimal
  ctx_open_transfers :: int
  ctx_exchange_exposure :: "(string, decimal) dict option"
  ctx_asset_exposure :: "(string, decimal) dict option"
  ctx_kill_switch_engaged :: bool

record RiskRule =
  rule_name :: string
  check :: "RiskContext \<Rightarrow> RiskLimits \<Rightarrow> (exn, RiskViolation option) result"

definition violation_of ::
  "string \<Rightarrow> string \<Rightarrow> decimal option \<Rightarrow> decimal option \<Rightarrow> RiskLevel \<Rightarrow> string option \<Rightarrow> RiskViolation"
where
  "violation_of rule message limit actual severity subject =
     \<lparr>viol_rule = rule, viol_message = message, viol_limit = limit, viol_actual = actual,
      viol_subject = subject, viol_severity = severity\<rparr>"

subsection \<open>Rules\<close>

definition KillSwitchRule :: RiskRule where
  "KillSwitchRule =
     \<lparr>rule_name = ''kill_switch'',
      check = (\<lambda>c l. Inr (
        if ctx_kill_switch_engaged c
        then Some (violation_of ''kill_switch''
               ''kill switch is engaged: new execution is stopped'' None None CRITICAL None)
        else None))\<rparr>"

definition MaxDailyLossRule :: RiskRule where
  "MaxDailyLossRule =
     \<lparr>rule_name = ''max_daily_loss'',
      check = (\<lambda>c l. Inr (let loss = dneg (ctx_daily_pnl c) in
        if loss \<ge> max_daily_loss l
        then Some (violation_of ''max_daily_loss'' ''daily loss'' (Some (max_daily_loss l))
               (Some loss) CRITICAL None)
        else None))\<rparr>"

definition MinNetProfitRule :: RiskRule where
  "MinNetProfitRule =
     \<lparr>rule_name = ''min_net_profit'',
      check = (\<lambda>c l. Inr (
        if ctx_net_profit_bps c < min_net_profit_bps l
        then Some (violation_of ''min_net_profit'' ''net profit'' (Some (min_net_profit_bps l))
               (Some (ctx_net_profit_bps c)) MEDIUM None)
        else None))\<rparr>"

definition MaxTradeSizeRule :: RiskRule where
  "MaxTradeSizeRule =
     \<lparr>rule_name = ''max_trade_size'',
      check = (\<lambda>c l. Inr (
        if ctx_notional_quote c > max_trade_size l
        then Some (violation_of ''max_trade_size'' ''trade size'' (Some (max_trade_size l))
               (Some (ctx_notional_quote c)) HIGH None)
        else None))\<rparr>"

definition MaxSlippageRule :: RiskRule where
  "MaxSlippageRule =
     \<lparr>rule_name = ''max_slippage'',
      check = (\<lambda>c l. Inr (
        if ctx_slippage_bps c > max_slippage_bps l
        then Some (violation_of ''max_slippage'' ''slippage'' (Some (max_slippage_bps l))
               (Some (ctx_slippage_bps c)) HIGH None)
        else None))\<rparr>"

definition MaxOpenTransfersRule :: RiskRule where
  "MaxOpenTransfersRule =
     \<lparr>rule_name = ''max_open_transfers'',
      check = (\<lambda>c l. Inr (
        if ctx_strategy c \<noteq> TRANSFER then None
        else if ctx_open_transfers c \<ge> max_open_transfers l
        then Some (violation_of ''max_open_transfers'' ''open transfers reached the maximum''
               (Some (of_int (max_open_transfers l))) (Some (of_int (ctx_open_transfers c)))
               HIGH None)
        else None))\<rparr>"

text \<open>The first entry of the exposure map above the cap is reported.\<close>

definition exposure_check ::
  "string \<Rightarrow> string \<Rightarrow> (string, decimal) dict option \<Rightarrow> decimal \<Rightarrow> RiskViolation option" where
  "exposure_check rule message exposure cap =
     (case exposure of
        None \<Rightarrow> None
      | Some d \<Rightarrow>
          (case List.find (\<lambda>(_, v). v > cap) d of
             None \<Rightarrow> None
           | Some (k, v) \<Rightarrow>
               Some (violation_of rule message (Some cap) (Some v) HIGH (Some k))))"

definition MaxExchangeExposureRule :: RiskRule where
  "MaxExchangeExposureRule =
     \<lparr>rule_name = ''max_exchange_exposure'',
      check = (\<lambda>c l. Inr (exposure_check ''max_exchange_exposure'' ''exchange''
        (ctx_exchange_exposure c) (max_exchange_exposure l)))\<rparr>"

definition MaxAssetExposureRule :: RiskRule where
  "MaxAssetExposureRule =
     \<lparr>rule_name = ''max_asset_exposure'',
      check = (\<lambda>c l. Inr (exposure_check ''max_asset_exposure'' ''asset''
        (ctx_asset_exposure c) (max_asset_exposure l)))\<rparr>"

definition age_within :: "rat option \<Rightarrow> int \<Rightarrow> bool" where
  "age_within age limit = (case age of None \<Rightarrow> False | Some a \<Rightarrow> a \<le> of_int limit)"

definition int_trunc :: "rat \<Rightarrow> int" where
  "int_trunc x = (if x \<ge> 0 then \<lfloor>x\<rfloor> else \<lceil>x\<rceil>)"

definition MaxDataAgeRule :: RiskRule where
  "MaxDataAgeRule =
     \<lparr>rule_name = ''max_data_age'',
      check = (\<lambda>c l. Inr (
        if \<not> age_within (ctx_data_age_ms c) (max_data_age_ms l)
        then Some (violation_of ''max_data_age'' ''market data age''
               (Some (of_int (max_data_age_ms l)))
               (map_option (\<lambda>a. of_int (int_trunc a)) (ctx_data_age_ms c)) CRITICAL None)
        else None))\<rparr>"

definition DEFAULT_RISK_RULES :: "RiskRule list" where
  "DEFAULT_RISK_RULES =
     [KillSwitchRule, MaxDailyLossRule, MaxDataAgeRule, MinNetProfitRule, MaxTradeSizeRule,
      MaxSlippageRule, MaxOpenTransfersRule, MaxExchangeExposureRule, MaxAssetExposureRule]"

lemmas rule_defs =
  KillSwitchRule_def MaxDailyLossRule_def MaxDataAgeRule_def MinNetProfitRule_def
  MaxTradeSizeRule_def MaxSlippageRule_def MaxOpenTransfersRule_def
  MaxExchangeExposureRule_def MaxAssetExposureRule_def

subsection \<open>The engine\<close>

fun severity_order :: "RiskLevel \<Rightarrow> nat" where
  "severity_order LOW = 0"
| "severity_order MEDIUM = 1"
| "severity_order HIGH = 2"
| "severity_order CRITICAL = 3"

definition rule_violation :: "RiskLimits \<Rightarrow> RiskContext \<Rightarrow> RiskRule \<Rightarrow> RiskViolation list" where
  "rule_violation limits c r =
     (case check r c limits of
        Inl e \<Rightarrow> [violation_of (rule_name r) ''rule evaluation failed'' None None CRITICAL None]
      | Inr None \<Rightarrow> []
      | Inr (Some v) \<Rightarrow> [v])"

definition evaluate :: "RiskLimits \<Rightarrow> RiskRule list \<Rightarrow> RiskContext \<Rightarrow> RiskAssessment" where
  "evaluate limits rules c =
     (let vs = concat (map (rule_violation limits c) rules) in
      \<lparr>approved = (vs = []), violations = vs,
       level = (case map viol_severity vs of
                  [] \<Rightarrow> LOW
                | s # ss \<Rightarrow> max_by severity_order s ss)\<rparr>)"

subsection \<open>Exposure maps\<close>

definition dict_add :: "(string, decimal) dict \<Rightarrow> string \<Rightarrow> decimal \<Rightarrow> (string, decimal) dict" where
  "dict_add d k v = dict_set d k (dadd (opt_or (dict_get d k) 0) v)"

definition source_weight :: "TransferRecord \<Rightarrow> decimal" where
  "source_weight r = (if deposit_amount r > 0 then 1 / 2 else 1)"

definition add_exposure ::
  "TransferRecord \<Rightarrow> (string, decimal) dict \<times> (string, decimal) dict
     \<Rightarrow> (string, decimal) dict \<times> (string, decimal) dict" where
  "add_exposure r maps =
     (case maps of (exchange, asset) \<Rightarrow>
        let val = buy_cost_quote (plan r);
            ex1 = dict_add exchange (source_exchange r) (dmul val (source_weight r));
            ex2 = dict_add ex1 (dest_exchange r) (dmul val (dsub 1 (source_weight r)))
        in (ex2, dict_add asset (tr_asset r) val))"

definition exposure_maps_for_transfers ::
  "TransferRecord list \<Rightarrow> (string, decimal) dict \<times> (string, decimal) dict" where
  "exposure_maps_for_transfers records = fold add_exposure records ([], [])"

subsection \<open>Runtime counters\<close>

record RiskEnvironment =
  env_kill_switch_engaged :: bool
  env_open_transfers :: int
  env_daily_pnl :: decimal
  env_exchange_exposure :: "(string, decimal) dict"
  env_asset_exposure :: "(string, decimal) dict"

record RiskStateTracker =
  trk_open_transfers :: int
  trk_daily_pnl :: decimal
  trk_day :: int

text \<open>The UTC date of a time in microseconds, as a day number.\<close>

definition day_of :: "int \<Rightarrow> int" where
  "day_of now = now div 86400000000"

definition new_tracker :: "int \<Rightarrow> RiskStateTracker" where
  "new_tracker now = \<lparr>trk_open_transfers = 0, trk_daily_pnl = 0, trk_day = day_of now\<rparr>"

definition roll_day :: "RiskStateTracker \<Rightarrow> int \<Rightarrow> RiskStateTracker" where
  "roll_day t now =
     (if day_of now \<noteq> trk_day t then t\<lparr>trk_day := day_of now, trk_daily_pnl := 0\<rparr> else t)"

definition sync_from_storage ::
  "RiskStateTracker \<Rightarrow> decimal \<Rightarrow> TransferRecord list \<Rightarrow> RiskStateTracker" where
  "sync_from_storage t pnl open_records =
     t\<lparr>trk_daily_pnl := pnl, trk_open_transfers := int (length open_records)\<rparr>"

definition register_realized_pnl :: "RiskStateTracker \<Rightarrow> int \<Rightarrow> decimal \<Rightarrow> RiskStateTracker" where
  "register_realized_pnl t now x =
     (let t' = roll_day t now in t'\<lparr>trk_daily_pnl := dadd (trk_daily_pnl t') x\<rparr>)"

definition register_transfer_opened :: "RiskStateTracker \<Rightarrow> RiskStateTracker" where
  "register_transfer_opened t = t\<lparr>trk_open_transfers := trk_open_transfers t + 1\<rparr>"

definition register_transfer_closed :: "RiskStateTracker \<Rightarrow> int \<Rightarrow> decimal \<Rightarrow> RiskStateTracker" where
  "register_transfer_closed t now x =
     register_realized_pnl (t\<lparr>trk_open_transfers := max 0 (trk_open_transfers t - 1)\<rparr>) now x"

definition snapshot ::
  "RiskStateTracker \<Rightarrow> int \<Rightarrow> bool \<Rightarrow> (string, decimal) dict \<Rightarrow> (string, decimal) dict
     \<Rightarrow> RiskStateTracker \<times> RiskEnvironment" where
  "snapshot t now halt exchange asset =
     (let t' = roll_day t now in
      (t', \<lparr>env_kill_switch_engaged = halt, env_open_transfers = trk_open_transfers t',
            env_daily_pnl = trk_daily_pnl t', env_exchange_exposure = exchange,
            env_asset_exposure = asset\<rparr>))"

subsection \<open>Wiring in the composition root\<close>

record RiskServices =
  svc_limits :: RiskLimits
  svc_tracker :: RiskStateTracker
  cached_exchange_exposure :: "(string, decimal) dict"
  cached_asset_exposure :: "(string, decimal) dict"

definition refresh_risk_exposure :: "RiskServices \<Rightarrow> TransferRecord list \<Rightarrow> RiskServices" where
  "refresh_risk_exposure s open_records =
     (case exposure_maps_for_transfers open_records of (exchange, asset) \<Rightarrow>
        s\<lparr>cached_exchange_exposure := exchange, cached_asset_exposure := asset,
          svc_tracker := (svc_tracker s)\<lparr>trk_open_transfers := int (length open_records)\<rparr>\<rparr>)"

definition risk_environment ::
  "RiskServices \<Rightarrow> ExecutionGuard \<Rightarrow> int \<Rightarrow> RiskServices \<times> RiskEnvironment" where
  "risk_environment s g now =
     (case snapshot (svc_tracker s) now (is_halted g) (cached_exchange_exposure s)
             (cached_asset_exposure s) of
        (t, env) \<Rightarrow> (s\<lparr>svc_tracker := t\<rparr>, env))"

definition transfer_context :: "TransferPlan \<Rightarrow> RiskEnvironment \<Rightarrow> RiskContext" where
  "transfer_context p env =
     \<lparr>ctx_strategy = TRANSFER, ctx_notional_quote = buy_cost_quote p,
      ctx_net_profit_bps = net_profit_bps p, ctx_slippage_bps = plan_slippage_bps p,
      ctx_data_age_ms = plan_data_age_ms p, ctx_daily_pnl = env_daily_pnl env,
      ctx_open_transfers = env_open_transfers env,
      ctx_exchange_exposure = Some (env_exchange_exposure env),
      ctx_asset_exposure = Some (env_asset_exposure env),
      ctx_kill_switch_engaged = env_kill_switch_engaged env\<rparr>"

definition validate_transfer ::
  "RiskServices \<Rightarrow> ExecutionGuard \<Rightarrow> int \<Rightarrow> TransferPlan \<Rightarrow> RiskServices \<times> RiskAssessment" where
  "validate_transfer s g now p =
     (case risk_environment s g now of
        (s', env) \<Rightarrow> (s', evaluate (svc_limits s) DEFAULT_RISK_RULES (transfer_context p env)))"

subsection \<open>What approval means\<close>

definition exposure_within :: "(string, decimal) dict option \<Rightarrow> decimal \<Rightarrow> bool" where
  "exposure_within exposure cap =
     (case exposure of None \<Rightarrow> True | Some d \<Rightarrow> list_all (\<lambda>(_, v). v \<le> cap) d)"

definition within_limits :: "RiskContext \<Rightarrow> RiskLimits \<Rightarrow> bool" where
  "within_limits c l \<longleftrightarrow>
     \<not> ctx_kill_switch_engaged c \<and>
     dneg (ctx_daily_pnl c) < max_daily_loss l \<and>
     age_within (ctx_data_age_ms c) (max_data_age_ms l) \<and>
     min_net_profit_bps l \<le> ctx_net_profit_bps c \<and>
     ctx_notional_quote c \<le> max_trade_size l \<and>
     ctx_slippage_bps c \<le> max_slippage_bps l \<and>
     (ctx_strategy c = TRANSFER \<longrightarrow> ctx_open_transfers c < max_open_transfers l) \<and>
     exposure_within (ctx_exchange_exposure c) (max_exchange_exposure l) \<and>
     exposure_within (ctx_asset_exposure c) (max_asset_exposure l)"

lemma evaluate_simps:
  "violations (evaluate l rs c) = concat (map (rule_violation l c) rs)"
  "approved (evaluate l rs c) \<longleftrightarrow> violations (evaluate l rs c) = []"
  by (simp_all add: evaluate_def Let_def)

lemma evaluate_level:
  "level (evaluate l rs c) =
     (case map viol_severity (violations (evaluate l rs c)) of
        [] \<Rightarrow> LOW | s # ss \<Rightarrow> max_by severity_order s ss)"
  by (simp add: evaluate_def Let_def)

lemma rule_violation_Nil_iff: "rule_violation l c r = [] \<longleftrightarrow> check r c l = Inr None"
  by (auto simp: rule_violation_def split: sum.splits option.splits)

lemma approved_iff_all: "approved (evaluate l rs c) \<longleftrightarrow> (\<forall>r \<in> set rs. check r c l = Inr None)"
  by (auto simp: evaluate_simps rule_violation_Nil_iff)

locale rule_book =
  fixes rules :: "RiskRule list"
    and ok :: "RiskContext \<Rightarrow> RiskLimits \<Rightarrow> bool"
  assumes pass_iff: "(\<forall>r \<in> set rules. check r c l = Inr None) \<longleftrightarrow> ok c l"
    and total: "r \<in> set rules \<Longrightarrow> is_ok (check r c l)"
begin

lemma approved_iff: "approved (evaluate l rules c) \<longleftrightarrow> ok c l"
  by (simp add: approved_iff_all pass_iff)

lemma violations_from_rules:
  "v \<in> set (violations (evaluate l rules c)) \<longleftrightarrow> (\<exists>r \<in> set rules. check r c l = Inr (Some v))"
proof -
  have "v \<in> set (rule_violation l c r) \<longleftrightarrow> check r c l = Inr (Some v)" if "r \<in> set rules" for r
    using total [OF that, of c l] by (auto simp: rule_violation_def split: sum.splits option.splits)
  then show ?thesis by (auto simp: evaluate_simps)
qed

end

lemma exposure_check_None_iff:
  "exposure_check rule msg e cap = None \<longleftrightarrow> exposure_within e cap"
proof (cases e)
  case (Some d)
  have "List.find (\<lambda>(_, v). v > cap) d = None \<longleftrightarrow> list_all (\<lambda>(_, v). v \<le> cap) d"
    unfolding find_None_all list_all_iff by (auto simp: not_less)
  then show ?thesis using Some
    by (auto simp: exposure_check_def exposure_within_def split: option.splits)
qed (simp add: exposure_check_def exposure_within_def)

interpretation defaults: rule_book DEFAULT_RISK_RULES within_limits
proof unfold_locales
  show "(\<forall>r \<in> set DEFAULT_RISK_RULES. check r c l = Inr None) \<longleftrightarrow> within_limits c l" for c l
    by (auto simp: DEFAULT_RISK_RULES_def rule_defs within_limits_def exposure_check_None_iff
        Let_def not_le not_less split: if_splits)
  show "r \<in> set DEFAULT_RISK_RULES \<Longrightarrow> is_ok (check r c l)" for r c l
    by (auto simp: DEFAULT_RISK_RULES_def rule_defs)
qed

lemma severity_CRITICAL_max: "severity_order CRITICAL \<le> severity_order s \<Longrightarrow> s = CRITICAL"
  by (cases s) auto

lemma level_is_max:
  assumes "\<not> approved (evaluate l rs c)"
  shows "level (evaluate l rs c) \<in> viol_severity ` set (violations (evaluate l rs c)) \<and>
    (\<forall>v \<in> set (violations (evaluate l rs c)).
       severity_order (viol_severity v) \<le> severity_order (level (evaluate l rs c)))"
proof (cases "violations (evaluate l rs c)")
  case Nil
  with assms show ?thesis by (simp add: evaluate_simps(2))
next
  case (Cons v vs)
  then have "level (evaluate l rs c) = max_by severity_order (viol_severity v) (map viol_severity vs)"
    unfolding evaluate_level by simp
  moreover note max_by_in [of severity_order "viol_severity v" "map viol_severity vs"]
  moreover note max_by_ge [of _ "viol_severity v" "map viol_severity vs" severity_order]
  ultimately show ?thesis using Cons by auto
qed

lemma approved_within:
  "approved (snd (validate_transfer s g now p)) \<longleftrightarrow>
     within_limits (transfer_context p (snd (risk_environment s g now))) (svc_limits s)"
  by (simp add: validate_transfer_def defaults.approved_iff split: prod.splits)

lemma roll_day_open [simp]: "trk_open_transfers (roll_day t now) = trk_open_transfers t"
  by (simp add: roll_day_def)

text \<open>(transfer_approved_iff).
  A transfer is approved exactly when every limit holds in the state the services are in at
  that moment: no kill switch, today's loss below its bound, fresh data, enough margin, size,
  slippage, open transfers and every exposure within bounds.\<close>

theorem transfer_approved_iff:
  "approved (snd (validate_transfer s g now p)) \<longleftrightarrow>
     \<not> is_halted g \<and>
     dneg (trk_daily_pnl (roll_day (svc_tracker s) now)) < max_daily_loss (svc_limits s) \<and>
     age_within (plan_data_age_ms p) (max_data_age_ms (svc_limits s)) \<and>
     min_net_profit_bps (svc_limits s) \<le> net_profit_bps p \<and>
     buy_cost_quote p \<le> max_trade_size (svc_limits s) \<and>
     plan_slippage_bps p \<le> max_slippage_bps (svc_limits s) \<and>
     trk_open_transfers (svc_tracker s) < max_open_transfers (svc_limits s) \<and>
     list_all (\<lambda>(_, v). v \<le> max_exchange_exposure (svc_limits s)) (cached_exchange_exposure s) \<and>
     list_all (\<lambda>(_, v). v \<le> max_asset_exposure (svc_limits s)) (cached_asset_exposure s)"
  by (simp add: approved_within risk_environment_def snapshot_def Let_def transfer_context_def
      within_limits_def exposure_within_def)

text \<open>(approved_transfer_is_profitable).
  With a positive margin limit, an approved plan of positive size and non-negative fees
  sells above its buy price, and its gross profit exceeds all of its fees.\<close>

theorem approved_transfer_is_profitable:
  assumes "approved (snd (validate_transfer s g now p))" "0 < min_net_profit_bps (svc_limits s)"
    "0 < plan_amount p" "0 < plan_buy_price p" "0 \<le> plan_sell_price p" "0 \<le> plan_buy_fee_bps p"
    "0 \<le> plan_sell_fee_bps p" "0 \<le> plan_withdrawal_fee p" "0 \<le> plan_network_cost_quote p"
  shows "plan_buy_price p < plan_sell_price p \<and> total_fees_quote p < gross_profit_quote p \<and>
    0 < net_profit_quote p"
proof -
  have "min_net_profit_bps (svc_limits s) \<le> net_profit_bps p"
    using assms(1) by (simp add: approved_within within_limits_def transfer_context_def)
  then have n: "0 < net_profit_bps p" using assms(2) by simp
  have c: "0 < buy_cost_quote p"
    using assms(3,4) by (simp add: buy_cost_quote_def dmul_nonneg_pos_iff)
  have f: "total_fees_quote p < gross_profit_quote p" using n net_bps_pos_iff [OF c] by simp
  have "0 \<le> total_fees_quote p" using assms by (intro total_fees_nonneg) auto
  then show ?thesis
    using f gross_pos_prices [OF _ assms(3)] by (auto simp: net_profit_quote_def)
qed

text \<open>C39 (risk_fails_closed).
  With any set of rules, a rule that raises blocks the trade and makes the verdict CRITICAL;
  otherwise the verdict's level is the highest severity among the reported violations.\<close>

theorem risk_fails_closed:
  "(r \<in> set rs \<and> check r c l = Inl e \<longrightarrow>
      \<not> approved (evaluate l rs c) \<and> level (evaluate l rs c) = CRITICAL) \<and>
   (approved (evaluate l rs c) \<longrightarrow> level (evaluate l rs c) = LOW) \<and>
   (\<not> approved (evaluate l rs c) \<longrightarrow>
      severity_order (level (evaluate l rs c)) =
        Max (set (map (severity_order \<circ> viol_severity) (violations (evaluate l rs c)))))"
proof (intro conjI impI)
  assume r: "r \<in> set rs \<and> check r c l = Inl e"
  then show na: "\<not> approved (evaluate l rs c)" unfolding approved_iff_all by force
  let ?v = "violation_of (rule_name r) ''rule evaluation failed'' None None CRITICAL None"
  have "?v \<in> set (violations (evaluate l rs c))"
    using r by (auto simp: evaluate_simps rule_violation_def intro!: bexI [of _ r])
  then have "severity_order (viol_severity ?v) \<le> severity_order (level (evaluate l rs c))"
    using level_is_max [OF na] by blast
  then show "level (evaluate l rs c) = CRITICAL"
    by (intro severity_CRITICAL_max) (simp add: violation_of_def)
next
  assume "approved (evaluate l rs c)"
  then have "violations (evaluate l rs c) = []" by (simp add: evaluate_simps(2))
  then show "level (evaluate l rs c) = LOW" unfolding evaluate_level by simp
next
  assume na: "\<not> approved (evaluate l rs c)"
  show "severity_order (level (evaluate l rs c)) =
      Max (set (map (severity_order \<circ> viol_severity) (violations (evaluate l rs c))))"
    using level_is_max [OF na] by (intro Max_eqI [symmetric]) auto
qed


definition sample_services :: RiskServices where
  "sample_services =
     \<lparr>svc_limits = default_limits, svc_tracker = new_tracker 0,
      cached_exchange_exposure = [(''okx'', 500)], cached_asset_exposure = [(''SOL'', 500)]\<rparr>"

definition sample_guard :: ExecutionGuard where
  "sample_guard = new_guard (policy_for PAPER) False"

lemma sample_approved: "approved (snd (validate_transfer sample_services sample_guard 0 sample_plan))"
proof -
  have f: "plan_slippage_bps sample_plan = 5" "plan_data_age_ms sample_plan = Some 300"
    by (simp_all add: sample_plan_def)
  have z: "dneg 0 = 0" by (simp add: dec_eval)
  show ?thesis
    unfolding approved_within within_limits_def transfer_context_def risk_environment_def
      snapshot_def sample_services_def sample_guard_def
    by (simp add: sample_plan_numbers f z default_limits_def new_tracker_def roll_day_def
        exposure_within_def age_within_def)
qed

theorem approved_transfer_is_profitable_witness:
  "plan_buy_price sample_plan < plan_sell_price sample_plan \<and>
   total_fees_quote sample_plan < gross_profit_quote sample_plan"
proof -
  have l: "0 < min_net_profit_bps (svc_limits sample_services)"
    by (simp add: sample_services_def default_limits_def)
  show ?thesis
    using approved_transfer_is_profitable [OF sample_approved l] by (simp add: sample_plan_def)
qed

definition broken_rule :: RiskRule where
  "broken_rule = \<lparr>rule_name = ''rule'', check = (\<lambda>c l. Inl (OtherError ''NotImplementedError''))\<rparr>"

definition sample_context :: RiskContext where
  "sample_context = transfer_context sample_plan (snd (risk_environment sample_services sample_guard 0))"

theorem risk_fails_closed_witness:
  "\<not> approved (evaluate default_limits [broken_rule, KillSwitchRule] sample_context) \<and>
   level (evaluate default_limits [broken_rule, KillSwitchRule] sample_context) = CRITICAL"
  using risk_fails_closed [of broken_rule "[broken_rule, KillSwitchRule]" sample_context
      default_limits "OtherError ''NotImplementedError''"]
  by (simp add: broken_rule_def)

subsection \<open>Exposure maps\<close>

text \<open>What each open transfer adds to the venues it involves.\<close>

definition venue_contributions :: "TransferRecord \<Rightarrow> (string \<times> decimal) list" where
  "venue_contributions r =
     [(source_exchange r, dmul (buy_cost_quote (plan r)) (source_weight r)),
      (dest_exchange r, dmul (buy_cost_quote (plan r)) (dsub 1 (source_weight r)))]"

definition total_of :: "string \<Rightarrow> (string \<times> decimal) list \<Rightarrow> decimal option" where
  "total_of k cs =
     (case filter (\<lambda>(k', _). k' = k) cs of
        [] \<Rightarrow> None | xs \<Rightarrow> Some (fold (\<lambda>(_, v) acc. dadd acc v) xs 0))"

lemma total_of_snoc:
  "total_of k (cs @ [(k', v)]) =
     (if k' = k then Some (dadd (opt_or (total_of k cs) 0) v) else total_of k cs)"
  by (simp add: total_of_def split: list.splits)

lemma dict_add_total:
  assumes "\<And>k. dict_get d k = total_of k cs"
  shows "dict_get (dict_add d k' v) k = total_of k (cs @ [(k', v)])"
  by (simp add: dict_add_def total_of_snoc assms)

lemma add_exposure_totals:
  assumes "\<And>k. dict_get (fst m) k = total_of k es" "\<And>k. dict_get (snd m) k = total_of k as"
  shows "dict_get (fst (add_exposure r m)) k = total_of k (es @ venue_contributions r)"
    and "dict_get (snd (add_exposure r m)) k = total_of k (as @ [(tr_asset r, buy_cost_quote (plan r))])"
proof -
  let ?c = "buy_cost_quote (plan r)" and ?w = "source_weight r"
  have "dict_get (dict_add (dict_add (fst m) (source_exchange r) (dmul ?c ?w)) (dest_exchange r)
      (dmul ?c (dsub 1 ?w))) k = total_of k ((es @ [(source_exchange r, dmul ?c ?w)]) @
        [(dest_exchange r, dmul ?c (dsub 1 ?w))])"
    by (intro dict_add_total assms(1))
  then show "dict_get (fst (add_exposure r m)) k = total_of k (es @ venue_contributions r)"
    by (cases m) (simp add: add_exposure_def venue_contributions_def Let_def)
  show "dict_get (snd (add_exposure r m)) k = total_of k (as @ [(tr_asset r, ?c)])"
    using dict_add_total [of "snd m" as, OF assms(2)]
    by (cases m) (simp add: add_exposure_def Let_def)
qed

text \<open>(exposure_maps_account_for_every_transfer).
  The exposure maps are exactly the per-venue and per-asset totals of the open transfers:
  every transfer counts in full at its source until its deposit is seen and is then split
  evenly between source and destination, and no venue or asset is missing or invented.\<close>

theorem exposure_maps_account_for_every_transfer:
  "dict_get (fst (exposure_maps_for_transfers rs)) v =
     total_of v (concat (map venue_contributions rs)) \<and>
   dict_get (snd (exposure_maps_for_transfers rs)) a =
     total_of a (map (\<lambda>r. (tr_asset r, buy_cost_quote (plan r))) rs)"
proof -
  let ?p = "\<lambda>r. (tr_asset r, buy_cost_quote (plan r))"
  have "(\<forall>k. dict_get (fst (fold add_exposure rs ([], []))) k =
        total_of k (concat (map venue_contributions rs))) \<and>
    (\<forall>k. dict_get (snd (fold add_exposure rs ([], []))) k = total_of k (map ?p rs))"
  proof (induction rs rule: rev_induct)
    case Nil
    show ?case by (simp add: total_of_def)
  next
    case (snoc r rs)
    then show ?case
      using add_exposure_totals [of "fold add_exposure rs ([], [])"
          "concat (map venue_contributions rs)" "map ?p rs" r] by simp
  qed
  then show ?thesis by (simp add: exposure_maps_for_transfers_def)
qed

subsection \<open>Daily profit and loss\<close>

text \<open>Registered results, in the order they were registered, each with its time.\<close>

definition register_all :: "(int \<times> decimal) list \<Rightarrow> RiskStateTracker \<Rightarrow> RiskStateTracker" where
  "register_all es t = fold (\<lambda>(now, x) t. register_realized_pnl t now x) es t"

definition pnl_of_day :: "int \<Rightarrow> decimal \<Rightarrow> (int \<times> decimal) list \<Rightarrow> decimal" where
  "pnl_of_day d p0 es = fold (\<lambda>(_, x) acc. dadd acc x) (filter (\<lambda>(now, _). day_of now = d) es) p0"

lemma register_all_day:
  assumes "sorted (map fst ((t0, x0) # es))" "trk_day t = day_of t0"
  shows "trk_day (register_all es t) = day_of (fst (last ((t0, x0) # es))) \<and>
    trk_daily_pnl (register_all es t) =
      (let d = day_of (fst (last ((t0, x0) # es))) in
       pnl_of_day d (if d = day_of t0 then trk_daily_pnl t else 0) es)"
  using assms
proof (induction es rule: rev_induct)
  case Nil
  then show ?case by (simp add: register_all_def pnl_of_day_def)
next
  case (snoc e es)
  obtain now x where e: "e = (now, x)" by (cases e)
  let ?t = "register_all es t" and ?d = "day_of (fst (last ((t0, x0) # es)))"
  have IH: "trk_day ?t = ?d"
    "trk_daily_pnl ?t = pnl_of_day ?d (if ?d = day_of t0 then trk_daily_pnl t else 0) es"
    using snoc by (simp_all add: sorted_append Let_def)
  have le: "\<forall>p \<in> set ((t0, x0) # es). fst p \<le> fst (last ((t0, x0) # es))"
    using snoc.prems(1) sorted_wrt_ends [of "\<lambda>p q. fst p \<le> fst q" "(t0, x0) # es"]
    by (simp add: sorted_append sorted_map)
  have now: "fst (last ((t0, x0) # es)) \<le> now"
    using snoc.prems(1) e last_in_set [of "(t0, x0) # es"] by (auto simp: sorted_append split: if_splits)
  have R: "register_all (es @ [(now, x)]) t = register_realized_pnl ?t now x"
    by (simp add: register_all_def)
  show ?case
  proof (cases "day_of now = ?d")
    case True
    then show ?thesis using IH by (simp add: R e register_realized_pnl_def roll_day_def pnl_of_day_def)
  next
    case False
    have early: "day_of (fst p) \<noteq> day_of now" if "p \<in> set ((t0, x0) # es)" for p
    proof -
      have "day_of (fst p) \<le> ?d" "?d \<le> day_of now"
        using le that now by (auto simp: day_of_def intro!: zdiv_mono1)
      then show ?thesis using False by simp
    qed
    then have "filter (\<lambda>(n, _). day_of n = day_of now) es = []" "day_of t0 \<noteq> day_of now"
      by (force simp: filter_empty_conv)+
    then show ?thesis using False IH
      by (simp add: R e register_realized_pnl_def roll_day_def pnl_of_day_def Let_def)
  qed
qed

text \<open>(daily_pnl_is_todays).
  At any moment the profit and loss that the daily-loss rule reads is the running sum of
  exactly the results registered on that moment's UTC day, on top of the value restored at
  startup when the bot was started that same day.\<close>

theorem daily_pnl_is_todays:
  assumes "sorted (map fst ((start, p0) # es))" "\<forall>e \<in> set ((start, p0) # es). fst e \<le> now"
  shows "env_daily_pnl (snd (snapshot
      (register_all es (sync_from_storage (new_tracker start) p0 open_records)) now h ex as)) =
    pnl_of_day (day_of now) (if day_of now = day_of start then p0 else 0) es"
proof -
  let ?t = "sync_from_storage (new_tracker start) p0 open_records"
  let ?d = "day_of (fst (last ((start, p0) # es)))"
  have init: "trk_day ?t = day_of start" "trk_daily_pnl ?t = p0"
    by (simp_all add: sync_from_storage_def new_tracker_def)
  note R = register_all_day [OF assms(1) init(1)]
  have le: "day_of (fst e) \<le> ?d" "?d \<le> day_of now" if "e \<in> set ((start, p0) # es)" for e
  proof -
    have "fst e \<le> fst (last ((start, p0) # es))"
      using assms(1) that sorted_wrt_ends [of "\<lambda>p q. fst p \<le> fst q" "(start, p0) # es" e]
      by (simp add: sorted_map)
    moreover have "fst (last ((start, p0) # es)) \<le> now"
      using assms(2) last_in_set [of "(start, p0) # es"] by blast
    ultimately show "day_of (fst e) \<le> ?d" "?d \<le> day_of now"
      unfolding day_of_def by (auto intro!: zdiv_mono1)
  qed
  show ?thesis
  proof (cases "day_of now = ?d")
    case True
    then show ?thesis using R init by (simp add: snapshot_def roll_day_def Let_def)
  next
    case False
    then have early: "day_of (fst e) \<noteq> day_of now" if "e \<in> set ((start, p0) # es)" for e
      using le [OF that] by simp
    then have "filter (\<lambda>(n, _). day_of n = day_of now) es = []" "day_of now \<noteq> day_of start"
      by (force simp: filter_empty_conv)+
    then show ?thesis using R False
      by (simp add: snapshot_def roll_day_def Let_def pnl_of_day_def)
  qed
qed

theorem daily_pnl_is_todays_witness:
  "env_daily_pnl (snd (snapshot (register_all [(1, 50), (86400000000, - 20)]
      (sync_from_storage (new_tracker 0) 7 [])) 86400000001 False [] [])) = - 20"
proof -
  have "dadd 0 (- 20) = - 20" by (simp add: dec_eval)
  then show ?thesis
    using daily_pnl_is_todays [of 0 7 "[(1, 50), (86400000000, - 20)]" 86400000001 "[]" False "[]" "[]"]
    by (simp add: pnl_of_day_def day_of_def)
qed

end
