(* ===== verification/Transfer_Orchestrator.thy ===== *)
theory Transfer_Orchestrator
  imports Transfer_Store Transfer_Networks Transfer_Planner Fill_Simulator Paper_Wallet
    Market_Store Recovery Risk
begin

text \<open>
  The transfer orchestrator (\<^verbatim>\<open>app/strategies/transfer/orchestrator.py\<close>): starting a
  transfer and advancing it step by step through its persisted lifecycle.

  Each handler is a function of the settings, of the environment of its run and of the memory
  of the process (paper wallets, market data). It returns the new record or the exception it
  raises, the new memory, and the list of its durable and external effects in the order in
  which it performs them: committed saves, audit entries, orders and withdrawals submitted to
  venues. What the exchange layer answers is part of the environment, which is a parameter:
  the adapter per venue (or the exception of looking it up), the guard as it stands, the time,
  the next client order id. Every call to an adapter in one handler has different arguments, so
  an environment that is a function of the arguments is no restriction; consecutive runs may
  have unrelated environments. \<^verbatim>\<open>asyncio.wait_for\<close> is a call that may answer
  \<open>TimeoutError\<close>. The effects carry the id of the transfer they are performed for.
\<close>

subsection \<open>Environment, memory, effects\<close>

record OrchSettings =
  os_mode :: TradingMode
  base_currency :: string
  simulated_transfer_seconds :: rat
  deposit_timeout_seconds :: int
  os_max_open_transfers :: int
  os_sim :: FillSimulator
  min_notional_quote :: decimal
  max_notional_quote :: decimal
  os_max_amount :: decimal
  os_max_trade_size :: decimal
  max_transfer_gross_divergence_bps :: decimal
  os_min_net_profit_bps :: decimal

record Adapter =
  fetch_withdrawal_networks :: "string \<Rightarrow> (exn, WithdrawalNetwork list) result"
  fetch_deposit_address :: "string \<Rightarrow> string \<Rightarrow> (exn, DepositAddress) result"
  create_order :: "OrderRequest \<Rightarrow> (exn, Order) result"
  withdraw :: "string \<Rightarrow> decimal \<Rightarrow> string \<Rightarrow> string option \<Rightarrow> string \<Rightarrow> (exn, TransferTx) result"
  fetch_withdrawals :: "string \<Rightarrow> (exn, TransferTx list) result"
  fetch_deposits :: "string \<Rightarrow> (exn, TransferTx list) result"
  fetch_balances :: "(exn, BalanceSnapshot) result"
  fetch_trading_fees :: "Symbol \<Rightarrow> (exn, MarketFees) result"
  order_queries :: OrderVenue

record Env =
  env_now :: int
  env_guard :: ExecutionGuard
  env_client_id :: string
  env_adapter :: "string \<Rightarrow> (exn, Adapter) result"
  env_refresh :: "(MarketDataStore \<Rightarrow> string \<Rightarrow> Symbol \<Rightarrow> MarketDataStore) option"

record Mem =
  paper_wallets :: "(string, wallet) dict"
  market_store :: MarketDataStore

datatype effect =
    ESave TransferRecord
  | EOrder string OrderRequest
  | EWithdraw string string string decimal string "string option" string
  | EAudit string string

type_synonym 'a run = "(exn, 'a) result \<times> Mem \<times> effect list"

text \<open>The effects \<open>es\<close> performed before the rest of a run.\<close>

definition after_effects :: "effect list \<Rightarrow> 'a run \<Rightarrow> 'a run" where
  "after_effects es rn = (case rn of (r, m, fs) \<Rightarrow> (r, m, es @ fs))"

definition fail_record ::
  "Env \<Rightarrow> Mem \<Rightarrow> TransferRecord \<Rightarrow> TransferState \<Rightarrow> string \<Rightarrow> TransferRecord run" where
  "fail_record env m r st reason =
     (let updated = with_state r (env_now env) st (Some reason) in
      (Inr updated, m,
       [ESave updated,
        EAudit (if st = FAILED then ''TRANSFER_FAILED'' else ''TRANSFER_MANUAL_REVIEW'') reason]))"

subsection \<open>One order leg\<close>

definition cached_fresh :: "Env \<Rightarrow> Mem \<Rightarrow> string \<Rightarrow> Symbol \<Rightarrow> OrderBook option" where
  "cached_fresh env m venue symb =
     (case order_book (market_store m) venue symb of
        Some b \<Rightarrow>
          if is_stale (market_store m) (age_ms (env_now env) (book_timestamp b)) then None
          else Some b
      | None \<Rightarrow> None)"

definition fresh_book ::
  "OrchSettings \<Rightarrow> Env \<Rightarrow> Mem \<Rightarrow> string \<Rightarrow> Symbol \<Rightarrow> (exn, OrderBook) result \<times> Mem" where
  "fresh_book s env m venue symb =
     (case cached_fresh env m venue symb of
        Some b \<Rightarrow> (Inr b, m)
      | None \<Rightarrow>
          (let refreshing = (os_mode s = DEMO \<and> env_refresh env \<noteq> None);
               m' = (if refreshing
                     then m\<lparr>market_store := the (env_refresh env) (market_store m) venue symb\<rparr>
                     else m)
           in case (if refreshing then cached_fresh env m' venue symb else None) of
                Some b \<Rightarrow> (Inr b, m')
              | None \<Rightarrow>
                  (Inl (ValueError (if order_book (market_store m') venue symb = None
                                    then ''no order book cached'' else ''stale order book'')),
                   m')))"

definition apply_wallet ::
  "Mem \<Rightarrow> string \<Rightarrow> OrderSide \<Rightarrow> Symbol \<Rightarrow> SimulatedFill \<Rightarrow> (exn, Mem) result" where
  "apply_wallet m venue sd symb f =
     (case dict_get (paper_wallets m) venue of
        None \<Rightarrow> Inr m
      | Some w \<Rightarrow>
          if sd = BUY
          then res_bind (debit w (quote symb) (sf_quote_amount f)) (\<lambda>w1.
                 Inr (m\<lparr>paper_wallets := dict_set (paper_wallets m) venue
                          (credit w1 (base symb) (sf_filled_amount f))\<rparr>))
          else res_bind (debit w (base symb) (sf_filled_amount f)) (\<lambda>w1.
                 Inr (m\<lparr>paper_wallets := dict_set (paper_wallets m) venue
                          (credit w1 (quote symb) (sf_quote_amount f))\<rparr>)))"

definition leg_order :: "string \<Rightarrow> Symbol \<Rightarrow> OrderSide \<Rightarrow> OrderStatus \<Rightarrow> decimal \<Rightarrow> int \<Rightarrow> Order" where
  "leg_order venue symb sd st amt now =
     (new_order venue symb sd st amt now)\<lparr>ord_order_type := MARKET\<rparr>"

definition simulated_leg ::
  "OrchSettings \<Rightarrow> Env \<Rightarrow> Mem \<Rightarrow> OrderBook \<Rightarrow> string \<Rightarrow> Symbol \<Rightarrow> OrderSide \<Rightarrow> decimal option \<Rightarrow>
   decimal option \<Rightarrow> (exn, SimulatedFill option \<times> Order) result \<times> Mem" where
  "simulated_leg s env m book venue symb sd base_amount quote_amount =
     (case simulate (os_sim s) book sd base_amount quote_amount of
        Inl e \<Rightarrow> (Inl e, m)
      | Inr f \<Rightarrow>
          if sf_is_rejected f
          then (Inr (None, (leg_order venue symb sd REJECTED (opt_or base_amount 0) (env_now env))
                             \<lparr>ord_error := rejected_reason f\<rparr>), m)
          else (case apply_wallet m venue sd symb f of
                  Inl e \<Rightarrow> (Inl e, m)
                | Inr m' \<Rightarrow>
                    (Inr (Some f,
                       (leg_order venue symb sd FILLED (sf_filled_amount f) (env_now env))
                         \<lparr>filled_amount := sf_filled_amount f,
                          average_price := Some (sf_average_price f), fee_paid := sf_fee f,
                          fee_currency := Some (if sd = BUY then base symb else quote symb)\<rparr>),
                     m')))"

text \<open>
  The size of a venue order. The branch for an empty book builds an order without an amount,
  which the model class rejects.
\<close>

definition venue_amount ::
  "OrderBook \<Rightarrow> decimal option \<Rightarrow> decimal option \<Rightarrow> (exn, decimal) result" where
  "venue_amount book base_amount quote_amount =
     (case base_amount of
        Some a \<Rightarrow> Inr a
      | None \<Rightarrow>
          (case asks book of
             [] \<Rightarrow> Inl (ValidationError ''amount: field required'')
           | l # _ \<Rightarrow>
               (case quote_amount of
                  None \<Rightarrow> Inl (OtherError ''TypeError'')
                | Some q \<Rightarrow>
                    if price l = 0 then Inl (OtherError ''DivisionByZero'')
                    else Inr (quantize 8 (ddiv q (price l))))))"

text \<open>\<^verbatim>\<open>type(exc).__name__: exc\<close>\<close>

fun exn_text :: "exn \<Rightarrow> string" where
  "exn_text (ExecutionDisabledError x) = ''ExecutionDisabledError: '' @ x"
| "exn_text (NetworkMismatchError x) = ''NetworkMismatchError: '' @ x"
| "exn_text (ValidationError x) = ''ValidationError: '' @ x"
| "exn_text (ValueError x) = ''ValueError: '' @ x"
| "exn_text TimeoutError = ''TimeoutError: ''"
| "exn_text (ConfigurationError x) = ''ConfigurationError: '' @ x"
| "exn_text (CapabilityNotSupportedError x) = ''CapabilityNotSupportedError: '' @ x"
| "exn_text (VenueAuthError x) = ''VenueAuthError: '' @ x"
| "exn_text (RateLimitError x _) = ''RateLimitError: '' @ x"
| "exn_text (OtherError x) = x"

definition placed_order ::
  "Env \<Rightarrow> Adapter \<Rightarrow> OrderRequest \<Rightarrow> Order" where
  "placed_order env ad req =
     (let local_order = (\<lambda>st err.
            (leg_order (req_exchange_id req) (req_symbol req) (req_side req) st (req_amount req)
               (env_now env))
              \<lparr>client_order_id := Some (req_client_order_id req), ord_error := Some err\<rparr>);
          order = (case create_order ad req of
                     Inr o1 \<Rightarrow> o1
                   | Inl TimeoutError \<Rightarrow> local_order TIMEOUT ''placement timed out''
                   | Inl e \<Rightarrow> local_order UNKNOWN (take 500 (exn_text e)));
          identified = (if truthy_str (client_order_id order) then order
                        else order\<lparr>client_order_id := Some (req_client_order_id req)\<rparr>)
      in if ord_status identified \<in> set [TIMEOUT, UNKNOWN, PARTIALLY_FILLED]
         then recover (order_queries ad) (env_now env) identified
         else identified)"

text \<open>PAPER simulates both legs; DEMO simulates the sell leg, whose funds are simulated.\<close>

definition leg_is_simulated :: "OrchSettings \<Rightarrow> Mem \<Rightarrow> string \<Rightarrow> OrderSide \<Rightarrow> bool" where
  "leg_is_simulated s m venue sd \<longleftrightarrow>
     os_mode s = PAPER \<or>
     (os_mode s = DEMO \<and> sd = SELL \<and> dict_get (paper_wallets m) venue \<noteq> None)"

text \<open>
  \<^verbatim>\<open>_fill\<close>. The callback \<^verbatim>\<open>on_submit\<close> is the record it saves for a
  request, if there is a callback; the record it saved is returned beside the result.
\<close>

definition fill_leg ::
  "OrchSettings \<Rightarrow> Env \<Rightarrow> Mem \<Rightarrow> string \<Rightarrow> string \<Rightarrow> Symbol \<Rightarrow> OrderSide \<Rightarrow> decimal option \<Rightarrow>
   decimal option \<Rightarrow> (OrderRequest \<Rightarrow> TransferRecord) option \<Rightarrow>
   (SimulatedFill option \<times> Order) run \<times> TransferRecord option" where
  "fill_leg s env m tid venue symb sd base_amount quote_amount on_submit =
     (case fresh_book s env m venue symb of
        (Inl e, m1) \<Rightarrow> ((Inl e, m1, []), None)
      | (Inr book, m1) \<Rightarrow>
          if leg_is_simulated s m1 venue sd
          then (case simulated_leg s env m1 book venue symb sd base_amount quote_amount of
                  (res, m2) \<Rightarrow> ((res, m2, []), None))
          else
            (case venue_amount book base_amount quote_amount of
               Inl e \<Rightarrow> ((Inl e, m1, []), None)
             | Inr amt \<Rightarrow>
                 (let req = \<lparr>req_exchange_id = venue, req_symbol = symb, req_side = sd,
                             req_order_type = MARKET, req_amount = amt, req_price = None,
                             req_client_order_id = env_client_id env\<rparr>
                  in case env_adapter env venue of
                       Inl e \<Rightarrow> ((Inl e, m1, []), None)
                     | Inr ad \<Rightarrow>
                         (let noted = map_option (\<lambda>f. f req) on_submit;
                              es = (case noted of None \<Rightarrow> [] | Some r \<Rightarrow> [ESave r])
                          in ((Inr (None, placed_order env ad req), m1, es @ [EOrder tid req]),
                              noted)))))"

subsection \<open>Buy leg\<close>

definition intent_record :: "Env \<Rightarrow> TransferRecord \<Rightarrow> OrderRequest \<Rightarrow> TransferRecord" where
  "intent_record env r req =
     (with_state r (env_now env) BUY_SUBMITTED None)
       \<lparr>buy_order := Some (order_to_json
          ((leg_order (req_exchange_id req) (req_symbol req) (req_side req) PENDING
              (req_amount req) (env_now env))
             \<lparr>ord_order_type := req_order_type req,
              client_order_id := Some (req_client_order_id req)\<rparr>))\<rparr>"

definition buy_submitted :: "Env \<Rightarrow> TransferRecord \<Rightarrow> Order \<Rightarrow> TransferRecord" where
  "buy_submitted env r order =
     (with_state r (env_now env) BUY_SUBMITTED None)
       \<lparr>buy_order := Some (order_to_json order), buy_filled_amount := filled_amount order\<rparr>"

definition buy_filled :: "Env \<Rightarrow> TransferRecord \<Rightarrow> decimal \<Rightarrow> TransferRecord" where
  "buy_filled env r filled =
     (with_state r (env_now env) BUY_FILLED None)\<lparr>buy_filled_amount := quantize 8 filled\<rparr>"

definition settle_buy ::
  "Env \<Rightarrow> Mem \<Rightarrow> TransferRecord \<Rightarrow> SimulatedFill option \<Rightarrow> Order \<Rightarrow> TransferRecord run" where
  "settle_buy env m r f order =
     (let r1 = buy_submitted env r order in
      after_effects [ESave r1]
        (if confirmed_not_filled order then fail_record env m r1 FAILED ''buy leg rejected''
         else if outcome_unconfirmed order
         then fail_record env m r1 STATE_MANUAL_REVIEW ''buy leg outcome unconfirmed''
         else
           let filled = (if filled_amount order \<le> 0
                         then (case f of Some sf \<Rightarrow> sf_filled_amount sf | None \<Rightarrow> filled_amount order)
                         else filled_amount order)
           in if filled \<le> 0 then fail_record env m r1 FAILED ''buy leg produced no fill''
              else let r2 = buy_filled env r1 filled in (Inr r2, m, [ESave r2])))"

definition resolve_existing_buy :: "Env \<Rightarrow> Mem \<Rightarrow> TransferRecord \<Rightarrow> TransferRecord run" where
  "resolve_existing_buy env m r =
     (case order_from_json (buy_order r) of
        None \<Rightarrow> fail_record env m r STATE_MANUAL_REVIEW ''persisted buy order could not be parsed''
      | Some order \<Rightarrow>
          if is_confirmed_fill order
          then let r1 = buy_filled env r (filled_amount order) in (Inr r1, m, [ESave r1])
          else if confirmed_not_filled order
          then fail_record env m r FAILED ''buy leg confirmed not filled''
          else
            (case env_adapter env (plan_source (plan r)) of
               Inl e \<Rightarrow> (Inl e, m, [])
             | Inr ad \<Rightarrow>
                 (let recovered = recover (order_queries ad) (env_now env) order;
                      r1 = buy_submitted env r recovered
                  in after_effects [ESave r1]
                       (if is_confirmed_fill recovered
                        then let r2 = buy_filled env r1 (filled_amount recovered)
                             in (Inr r2, m, [ESave r2])
                        else if confirmed_not_filled recovered
                        then fail_record env m r1 FAILED ''buy leg confirmed not filled after recovery''
                        else fail_record env m r1 STATE_MANUAL_REVIEW
                               ''buy order state could not be established''))))"

definition execute_buy :: "OrchSettings \<Rightarrow> Env \<Rightarrow> Mem \<Rightarrow> TransferRecord \<Rightarrow> TransferRecord run" where
  "execute_buy s env m r =
     (case ensure_can_trade (env_guard env) of
        Inl e \<Rightarrow> (Inl e, m, [])
      | Inr _ \<Rightarrow>
          (case mk_symbol (plan_asset (plan r)) (base_currency s) None of
             Inl e \<Rightarrow> (Inl e, m, [])
           | Inr symb \<Rightarrow>
               if buy_order r \<noteq> None then resolve_existing_buy env m r
               else
                 (case fill_leg s env m (tr_id r) (plan_source (plan r)) symb BUY None
                         (Some (buy_cost_quote (plan r))) (Some (intent_record env r)) of
                    ((res, m1, es), noted) \<Rightarrow>
                      (let r1 = opt_or noted r in
                       after_effects es
                         (case res of
                            Inl (ExecutionDisabledError x) \<Rightarrow> (Inl (ExecutionDisabledError x), m1, [])
                          | Inl _ \<Rightarrow>
                              if buy_order r1 \<noteq> None
                              then fail_record env m1 r1 STATE_MANUAL_REVIEW
                                     ''buy leg error after submission attempt''
                              else fail_record env m1 r1 FAILED ''buy leg error''
                          | Inr (f, order) \<Rightarrow> settle_buy env m1 r1 f order)))))"

subsection \<open>Withdrawal and deposit\<close>

definition memo_required_assets :: "string list" where
  "memo_required_assets =
     [''XRP'', ''XLM'', ''EOS'', ''HBAR'', ''XIN'', ''RVN'', ''ATOM'', ''BNB'', ''LUNA'', ''LUNC'',
      ''KAVA'', ''CRO'', ''BTS'']"

definition memo_missing :: "string \<Rightarrow> string option \<Rightarrow> bool" where
  "memo_missing asset mm \<longleftrightarrow>
     py_upper asset \<in> set memo_required_assets \<and>
     \<not> (truthy_str mm \<and> py_strip (the mm) \<noteq> [])"

text \<open>\<^verbatim>\<open>text[-n:]\<close>\<close>

definition py_suffix :: "nat \<Rightarrow> string \<Rightarrow> string" where
  "py_suffix n t = drop (length t - n) t"

definition withdrawal_intent_prefix :: string where
  "withdrawal_intent_prefix = ''wd-intent-''"

definition withdrawal_record ::
  "Env \<Rightarrow> TransferRecord \<Rightarrow> string option \<Rightarrow> string option \<Rightarrow> string \<Rightarrow> decimal \<Rightarrow> TransferRecord" where
  "withdrawal_record env r wid txid addr send_amount =
     (with_state r (env_now env) WITHDRAW_SUBMITTED None)
       \<lparr>withdrawal_id := wid, withdrawal_txid := txid, deposit_address := Some addr,
        withdrawal_amount := quantize 8 send_amount\<rparr>"

definition withdrawal_intent ::
  "Env \<Rightarrow> TransferRecord \<Rightarrow> string \<Rightarrow> decimal \<Rightarrow> TransferRecord" where
  "withdrawal_intent env r addr send_amount =
     withdrawal_record env r (Some (withdrawal_intent_prefix @ py_suffix 12 (tr_id r)))
       (withdrawal_txid r) addr send_amount"

text \<open>The submission itself, by mode: the venue's id and transaction id, and the effect.\<close>

definition send_withdrawal ::
  "OrchSettings \<Rightarrow> Adapter \<Rightarrow> TransferRecord \<Rightarrow> DepositAddress \<Rightarrow> decimal \<Rightarrow>
   (exn, string option \<times> string option) result \<times> effect list" where
  "send_withdrawal s ad r addr send_amount =
     (if os_mode s = DEMO
      then (let sim = ''sim-demo-'' @ py_suffix 6 (tr_id r) in (Inr (Some sim, Some sim), []))
      else
        (res_bind (withdraw ad (plan_asset (plan r)) send_amount (address addr) (memo addr)
                     (plan_network (plan r)))
           (\<lambda>tx. Inr (tx_txid tx, tx_txid tx)),
         [EWithdraw (tr_id r) (plan_source (plan r)) (plan_asset (plan r)) send_amount
            (address addr) (memo addr) (plan_network (plan r))]))"

text \<open>\<^verbatim>\<open>wallet.debit\<close> on the paper wallet of a venue, when there is one.\<close>

definition debit_wallet :: "Mem \<Rightarrow> string \<Rightarrow> string \<Rightarrow> decimal \<Rightarrow> (exn, Mem) result" where
  "debit_wallet m venue asset amt =
     (case dict_get (paper_wallets m) venue of
        None \<Rightarrow> Inr m
      | Some w \<Rightarrow> res_bind (debit w asset amt) (\<lambda>w1.
          Inr (m\<lparr>paper_wallets := dict_set (paper_wallets m) venue w1\<rparr>)))"

definition credit_wallet :: "Mem \<Rightarrow> string \<Rightarrow> string \<Rightarrow> decimal \<Rightarrow> Mem" where
  "credit_wallet m venue asset amt =
     (case dict_get (paper_wallets m) venue of
        None \<Rightarrow> m
      | Some w \<Rightarrow> m\<lparr>paper_wallets := dict_set (paper_wallets m) venue (credit w asset amt)\<rparr>)"

definition perform_withdrawal ::
  "OrchSettings \<Rightarrow> Env \<Rightarrow> Mem \<Rightarrow> Adapter \<Rightarrow> TransferRecord \<Rightarrow> DepositAddress \<Rightarrow> decimal \<Rightarrow>
   TransferRecord run" where
  "perform_withdrawal s env m ad r addr send_amount =
     (let r1 = withdrawal_intent env r (address addr) send_amount in
      after_effects [ESave r1]
        (case send_withdrawal s ad r1 addr send_amount of
           (res, es) \<Rightarrow>
             after_effects es
               (case res of
                  Inl (ExecutionDisabledError x) \<Rightarrow> (Inl (ExecutionDisabledError x), m, [])
                | Inl _ \<Rightarrow> fail_record env m r1 STATE_MANUAL_REVIEW ''withdrawal failed''
                | Inr (wid, txid) \<Rightarrow>
                    (case (if os_mode s = PAPER
                           then debit_wallet m (plan_source (plan r)) (plan_asset (plan r))
                                  (buy_filled_amount r1)
                           else Inr m) of
                       Inl e \<Rightarrow> (Inl e, m, [])
                     | Inr m1 \<Rightarrow>
                         (let r2 = withdrawal_record env r1 wid txid (address addr) send_amount
                          in (Inr r2, m1,
                              [ESave r2, EAudit ''TRANSFER_WITHDRAW_SUBMITTED'' (plan_asset (plan r))]))))))"

definition network_changed :: "RouteNetwork \<Rightarrow> TransferPlan \<Rightarrow> bool" where
  "network_changed route p \<longleftrightarrow>
     py_upper (rn_code route) \<noteq> py_upper (plan_network p) \<and>
     py_upper (rn_network route) \<noteq> py_upper (plan_network p)"

definition send_to_address ::
  "OrchSettings \<Rightarrow> Env \<Rightarrow> Mem \<Rightarrow> Adapter \<Rightarrow> TransferRecord \<Rightarrow> RouteNetwork \<Rightarrow> DepositAddress \<Rightarrow>
   TransferRecord run" where
  "send_to_address s env m ad r route addr =
     (if memo_missing (plan_asset (plan r)) (memo addr)
      then fail_record env m r STATE_MANUAL_REVIEW ''destination venue returned no memo/tag''
      else
        let send_amount = dsub (buy_filled_amount r) (rn_withdrawal_fee route) in
        if send_amount \<le> 0
        then fail_record env m r STATE_MANUAL_REVIEW
               ''bought amount does not cover the withdrawal fee''
        else perform_withdrawal s env m ad r addr send_amount)"

definition submit_withdrawal ::
  "OrchSettings \<Rightarrow> Env \<Rightarrow> Mem \<Rightarrow> TransferRecord \<Rightarrow> TransferRecord run" where
  "submit_withdrawal s env m r =
     (case ensure_can_trade (env_guard env) of
        Inl e \<Rightarrow> (Inl e, m, [])
      | Inr _ \<Rightarrow>
          if withdrawal_id r \<noteq> None then (Inr r, m, [])
          else
            (case (env_adapter env (plan_source (plan r)), env_adapter env (plan_dest (plan r))) of
               (Inl e, _) \<Rightarrow> (Inl e, m, [])
             | (_, Inl e) \<Rightarrow> (Inl e, m, [])
             | (Inr ad, Inr dest_ad) \<Rightarrow>
                 (case res_bind (fetch_withdrawal_networks ad (plan_asset (plan r))) (\<lambda>src.
                         res_bind (fetch_withdrawal_networks dest_ad (plan_asset (plan r)))
                           (select src)) of
                    Inl (NetworkMismatchError _) \<Rightarrow>
                      fail_record env m r STATE_MANUAL_REVIEW
                        ''network validation failed before withdrawal''
                  | Inl e \<Rightarrow> (Inl e, m, [])
                  | Inr route \<Rightarrow>
                      if network_changed route (plan r)
                      then fail_record env m r STATE_MANUAL_REVIEW
                             ''planned network no longer matches validated network''
                      else
                        (case fetch_deposit_address dest_ad (plan_asset (plan r))
                                (plan_network (plan r)) of
                           Inl _ \<Rightarrow>
                             fail_record env m r STATE_MANUAL_REVIEW ''deposit address unavailable''
                         | Inr addr \<Rightarrow> send_to_address s env m ad r route addr))))"

definition timeout_guard :: "OrchSettings \<Rightarrow> Env \<Rightarrow> Mem \<Rightarrow> TransferRecord \<Rightarrow> TransferRecord run" where
  "timeout_guard s env m r =
     (if env_now env - created_at r > deposit_timeout_seconds s * 1000000
      then let r1 = with_state r (env_now env) STATE_MANUAL_REVIEW (Some ''timeout'')
           in (Inr r1, m, [ESave r1])
      else (Inr r, m, []))"

definition simulated_delay :: "OrchSettings \<Rightarrow> rat" where
  "simulated_delay s =
     (if os_mode s = DEMO then min (simulated_transfer_seconds s) 10
      else simulated_transfer_seconds s)"

definition elapsed_seconds :: "Env \<Rightarrow> int \<Rightarrow> rat" where
  "elapsed_seconds env since = of_int (env_now env - since) / 1000000"

definition matches_withdrawal :: "TransferRecord \<Rightarrow> TransferTx \<Rightarrow> bool" where
  "matches_withdrawal r tx \<longleftrightarrow>
     (truthy_str (withdrawal_id r) \<and> tx_txid tx = withdrawal_id r) \<or>
     (truthy_str (withdrawal_txid r) \<and> tx_txid tx = withdrawal_txid r)"

definition check_withdrawal ::
  "OrchSettings \<Rightarrow> Env \<Rightarrow> Mem \<Rightarrow> TransferRecord \<Rightarrow> TransferRecord run" where
  "check_withdrawal s env m r =
     (if os_mode s = PAPER \<or> os_mode s = DEMO
      then
        let elapsed = elapsed_seconds env (updated_at r); delay = simulated_delay s in
        if elapsed < delay / 2 \<and> state r = WITHDRAW_SUBMITTED
        then let r1 = with_state r (env_now env) WITHDRAW_PENDING None in (Inr r1, m, [ESave r1])
        else if elapsed < delay then (Inr r, m, [])
        else let r1 = with_state r (env_now env) TRANSFER_IN_PROGRESS None
             in (Inr r1, m, [ESave r1])
      else
        (case res_bind (env_adapter env (plan_source (plan r)))
                (\<lambda>ad. fetch_withdrawals ad (plan_asset (plan r))) of
           Inl _ \<Rightarrow> timeout_guard s env m r
         | Inr txs \<Rightarrow>
             (case List.find (matches_withdrawal r) txs of
                None \<Rightarrow> timeout_guard s env m r
              | Some tx \<Rightarrow>
                  if tx_is_confirmed tx
                  then let r1 = with_state r (env_now env) TRANSFER_IN_PROGRESS None
                       in (Inr r1, m, [ESave r1])
                  else if tx_status tx \<in> set [''failed'', ''canceled'', ''cancelled'', ''reject'']
                  then fail_record env m r STATE_MANUAL_REVIEW ''withdrawal failed on venue''
                  else (Inr (with_state r (env_now env) WITHDRAW_PENDING None), m, []))))"

definition deposit_record ::
  "Env \<Rightarrow> TransferRecord \<Rightarrow> string option \<Rightarrow> decimal \<Rightarrow> TransferRecord" where
  "deposit_record env r txid amt =
     (with_state r (env_now env) DEPOSIT_DETECTED None)
       \<lparr>deposit_txid := txid, deposit_amount := quantize 8 amt\<rparr>"

definition matches_deposit :: "TransferRecord \<Rightarrow> TransferTx \<Rightarrow> bool" where
  "matches_deposit r tx \<longleftrightarrow>
     tx_status tx \<notin> set [''pending'', ''processing''] \<and> tx_is_confirmed tx \<and>
     (dabs (dsub (tx_amount tx) (withdrawal_amount r)) \<le> dmul (withdrawal_amount r) (5 / 1000) \<or>
      (truthy_str (deposit_address r) \<and> tx_address tx = deposit_address r))"

definition await_deposit ::
  "OrchSettings \<Rightarrow> Env \<Rightarrow> Mem \<Rightarrow> TransferRecord \<Rightarrow> TransferRecord run" where
  "await_deposit s env m r =
     (if os_mode s = PAPER \<or> os_mode s = DEMO
      then
        if elapsed_seconds env (updated_at r) < simulated_delay s then (Inr r, m, [])
        else
          let m1 = credit_wallet m (plan_dest (plan r)) (plan_asset (plan r)) (withdrawal_amount r);
              r1 = deposit_record env r
                     (Some (''sim-'' @ opt_or (withdrawal_txid r) ''None'')) (withdrawal_amount r)
          in (Inr r1, m1, [ESave r1])
      else
        (case res_bind (env_adapter env (plan_dest (plan r)))
                (\<lambda>ad. fetch_deposits ad (plan_asset (plan r))) of
           Inl _ \<Rightarrow> timeout_guard s env m r
         | Inr txs \<Rightarrow>
             (case List.find (matches_deposit r) txs of
                None \<Rightarrow> timeout_guard s env m r
              | Some tx \<Rightarrow>
                  let r1 = deposit_record env r (tx_txid tx) (tx_amount tx)
                  in (Inr r1, m, [ESave r1]))))"

subsection \<open>Sell leg and settlement\<close>

definition positive_price :: "decimal option \<Rightarrow> decimal \<Rightarrow> decimal" where
  "positive_price p d = (case p of Some x \<Rightarrow> if x > 0 then x else d | None \<Rightarrow> d)"

definition final_proceeds :: "TransferRecord \<Rightarrow> decimal" where
  "final_proceeds r =
     (if sell_proceeds_quote r \<le> 0 \<and> sell_filled_amount r > 0
      then (case json_average_price (sell_order r) of
              Some a \<Rightarrow> dmul (sell_filled_amount r) a
            | None \<Rightarrow> sell_proceeds_quote r)
      else sell_proceeds_quote r)"

definition actual_buy_cost :: "TransferRecord \<Rightarrow> decimal" where
  "actual_buy_cost r =
     (case json_average_price (buy_order r) of
        Some a \<Rightarrow> if a > 0 then dmul (buy_filled_amount r) a else buy_cost_quote (plan r)
      | None \<Rightarrow> buy_cost_quote (plan r))"

definition actual_fees :: "TransferRecord \<Rightarrow> decimal" where
  "actual_fees r =
     (let p = plan r;
          sell_avg = positive_price (json_average_price (sell_order r)) (plan_sell_price p);
          buy_avg = positive_price (json_average_price (buy_order r)) (plan_buy_price p)
      in dadd (dadd (ddiv (dmul (dmul (buy_filled_amount r) buy_avg) (plan_buy_fee_bps p)) 10000)
                    (ddiv (dmul (dmul (sell_filled_amount r) sell_avg) (plan_sell_fee_bps p)) 10000))
              (dmul (plan_withdrawal_fee p) sell_avg))"

definition completed_record :: "Env \<Rightarrow> TransferRecord \<Rightarrow> TransferRecord" where
  "completed_record env r =
     (with_state r (env_now env) COMPLETED None)
       \<lparr>sell_proceeds_quote := quantize 8 (final_proceeds r),
        fees_quote := quantize 8 (actual_fees r),
        realized_profit_quote := quantize 8 (dsub (final_proceeds r) (actual_buy_cost r))\<rparr>"

definition finish :: "OrchSettings \<Rightarrow> Env \<Rightarrow> Mem \<Rightarrow> TransferRecord \<Rightarrow> TransferRecord run" where
  "finish s env m r =
     (if final_proceeds r \<le> 0
      then fail_record env m r STATE_MANUAL_REVIEW ''cannot compute sell proceeds''
      else
        (case (if os_mode s = PAPER
               then res_bind (debit_wallet m (plan_dest (plan r)) (plan_asset (plan r))
                                (sell_filled_amount r))
                      (\<lambda>m1. Inr (credit_wallet m1 (plan_dest (plan r)) (base_currency s)
                                   (final_proceeds r)))
               else Inr m) of
           Inl e \<Rightarrow> (Inl e, m, [])
         | Inr m1 \<Rightarrow>
             (let r1 = completed_record env r
              in (Inr r1, m1, [ESave r1, EAudit ''TRANSFER_COMPLETED'' (plan_asset (plan r))]))))"

text \<open>DEMO: the simulated deposit lives in the in-memory wallet, topped up when it is short.\<close>

definition top_up_wallet :: "OrchSettings \<Rightarrow> Mem \<Rightarrow> TransferRecord \<Rightarrow> Mem" where
  "top_up_wallet s m r =
     (case dict_get (paper_wallets m) (plan_dest (plan r)) of
        Some w \<Rightarrow>
          if os_mode s = DEMO \<and> free w (plan_asset (plan r)) < deposit_amount r
          then credit_wallet m (plan_dest (plan r)) (plan_asset (plan r))
                 (dsub (deposit_amount r) (free w (plan_asset (plan r))))
          else m
      | None \<Rightarrow> m)"

definition leg_proceeds :: "Symbol \<Rightarrow> SimulatedFill option \<Rightarrow> Order \<Rightarrow> decimal" where
  "leg_proceeds symb f order =
     (case f of
        Some sf \<Rightarrow> sf_quote_amount sf
      | None \<Rightarrow>
          (case average_price order of
             Some a \<Rightarrow>
               (let gross = dmul (filled_amount order) a
                in if fee_currency order = Some (quote symb) then dsub gross (fee_paid order)
                   else gross)
           | None \<Rightarrow> 0))"

definition sell_submitted ::
  "Env \<Rightarrow> TransferRecord \<Rightarrow> Order \<Rightarrow> decimal \<Rightarrow> TransferRecord" where
  "sell_submitted env r order proceeds =
     (with_state r (env_now env) SELL_SUBMITTED None)
       \<lparr>sell_order := Some (order_to_json order), sell_filled_amount := filled_amount order,
        sell_proceeds_quote := (if proceeds > 0 then quantize 8 proceeds else 0)\<rparr>"

definition execute_sell ::
  "OrchSettings \<Rightarrow> Env \<Rightarrow> Mem \<Rightarrow> TransferRecord \<Rightarrow> TransferRecord run" where
  "execute_sell s env m r =
     (case ensure_can_trade (env_guard env) of
        Inl e \<Rightarrow> (Inl e, m, [])
      | Inr _ \<Rightarrow>
          (case mk_symbol (plan_asset (plan r)) (base_currency s) None of
             Inl e \<Rightarrow> (Inl e, m, [])
           | Inr symb \<Rightarrow>
               if deposit_amount r \<le> 0
               then fail_record env m r STATE_MANUAL_REVIEW ''nothing to sell: deposit amount is zero''
               else
                 (case fill_leg s env (top_up_wallet s m r) (tr_id r) (plan_dest (plan r)) symb SELL
                         (Some (deposit_amount r)) None None of
                    ((res, m1, es), _) \<Rightarrow>
                      after_effects es
                        (case res of
                           Inl (ExecutionDisabledError x) \<Rightarrow> (Inl (ExecutionDisabledError x), m1, [])
                         | Inl _ \<Rightarrow> fail_record env m1 r STATE_MANUAL_REVIEW ''sell leg error''
                         | Inr (f, order) \<Rightarrow>
                             (let r1 = sell_submitted env r order (leg_proceeds symb f order)
                              in after_effects [ESave r1]
                                   (if outcome_unconfirmed order
                                    then fail_record env m1 r1 STATE_MANUAL_REVIEW
                                           ''sell leg outcome unconfirmed''
                                    else if filled_amount order \<le> 0
                                    then fail_record env m1 r1 STATE_MANUAL_REVIEW ''sell leg rejected''
                                    else finish s env m1 r1))))))"

subsection \<open>Driving the lifecycle\<close>

definition advance :: "OrchSettings \<Rightarrow> Env \<Rightarrow> Mem \<Rightarrow> TransferRecord \<Rightarrow> TransferRecord run" where
  "advance s env m r =
     (case state r of
        CREATED \<Rightarrow> execute_buy s env m r
      | BUY_SUBMITTED \<Rightarrow> execute_buy s env m r
      | BUY_FILLED \<Rightarrow> submit_withdrawal s env m r
      | WITHDRAW_SUBMITTED \<Rightarrow> check_withdrawal s env m r
      | WITHDRAW_PENDING \<Rightarrow> check_withdrawal s env m r
      | TRANSFER_IN_PROGRESS \<Rightarrow> await_deposit s env m r
      | DEPOSIT_DETECTED \<Rightarrow> execute_sell s env m r
      | SELL_SUBMITTED \<Rightarrow> finish s env m r
      | _ \<Rightarrow> (Inr r, m, []))"

text \<open>One record of a tick: an exception sends the record as it was read to manual review.\<close>

definition tick_record ::
  "OrchSettings \<Rightarrow> Env \<Rightarrow> Mem \<Rightarrow> TransferRecord \<Rightarrow> TransferRecord \<times> Mem \<times> effect list" where
  "tick_record s env m r =
     (case advance s env m r of
        (Inr updated, m1, es) \<Rightarrow> (updated, m1, es)
      | (Inl e, m1, es) \<Rightarrow>
          (let updated = with_state r (env_now env) STATE_MANUAL_REVIEW
                 (Some (take 500 (''tick error: '' @ exn_text e)))
           in (updated, m1, es @ [ESave updated])))"

text \<open>
  A whole tick over the records listed at its start, the \<open>i\<close>-th with its own environment;
  the records that changed are returned.
\<close>

fun tick_loop ::
  "OrchSettings \<Rightarrow> (nat \<Rightarrow> Env) \<Rightarrow> nat \<Rightarrow> Mem \<Rightarrow> TransferRecord list \<Rightarrow>
   TransferRecord list \<times> Mem \<times> effect list" where
  "tick_loop s envs i m [] = ([], m, [])"
| "tick_loop s envs i m (r # rs) =
     (case tick_record s (envs i) m r of
        (updated, m1, es) \<Rightarrow>
          (case tick_loop s envs (Suc i) m1 rs of
             (advanced, m2, fs) \<Rightarrow>
               ((if updated \<noteq> r then updated # advanced else advanced), m2, es @ fs)))"

definition tick ::
  "OrchSettings \<Rightarrow> (nat \<Rightarrow> Env) \<Rightarrow> Mem \<Rightarrow> repo \<Rightarrow> TransferRecord list \<times> Mem \<times> effect list" where
  "tick s envs m repo = tick_loop s envs 0 m (list_open repo)"

definition resume :: "repo \<Rightarrow> nat" where
  "resume repo = length (list_open repo)"

text \<open>\<open>tid\<close> is the fresh id of the new record, \<open>risk\<close> the injected risk check.\<close>

definition start ::
  "OrchSettings \<Rightarrow> Env \<Rightarrow> (TransferPlan \<Rightarrow> RiskAssessment) option \<Rightarrow> string \<Rightarrow> Mem \<Rightarrow> repo \<Rightarrow>
   TransferPlan \<Rightarrow> TransferRecord run" where
  "start s env risk tid m repo p =
     (case ensure_can_trade (env_guard env) of
        Inl e \<Rightarrow> (Inl e, m, [])
      | Inr _ \<Rightarrow>
          if (case risk of None \<Rightarrow> False | Some chk \<Rightarrow> \<not> approved (chk p))
          then (Inl (ExecutionDisabledError ''transfer rejected by risk validation''), m, [])
          else
            (let r = new_record tid p (os_mode s) (env_now env) in
             case try_claim_new_open_slot repo r (os_max_open_transfers s) of
               Inl e \<Rightarrow> (Inl e, m, [])
             | Inr (False, _) \<Rightarrow>
                 (Inl (ExecutionDisabledError ''transfer rejected by risk validation''), m, [])
             | Inr (True, _) \<Rightarrow>
                 after_effects [ESave r, EAudit ''TRANSFER_STARTED'' (plan_asset p)]
                   (case execute_buy s env m r of
                      (Inr r1, m1, es) \<Rightarrow>
                        if state r1 = BUY_FILLED
                        then after_effects es (submit_withdrawal s env m1 r1)
                        else (Inr r1, m1, es)
                    | (Inl e, m1, es) \<Rightarrow> (Inl e, m1, es))))"

subsection \<open>Planning one route\<close>

definition available_quote :: "OrchSettings \<Rightarrow> Env \<Rightarrow> Mem \<Rightarrow> string \<Rightarrow> decimal" where
  "available_quote s env m venue =
     (case (if os_mode s = PAPER then dict_get (paper_wallets m) venue else None) of
        Some w \<Rightarrow> free w (base_currency s)
      | None \<Rightarrow>
          (case res_bind (env_adapter env venue) fetch_balances of
             Inr snap \<Rightarrow> free_of snap (base_currency s)
           | Inl _ \<Rightarrow> 0))"

definition taker_fees :: "Env \<Rightarrow> string \<Rightarrow> Symbol \<Rightarrow> decimal" where
  "taker_fees env venue symb =
     (case res_bind (env_adapter env venue) (\<lambda>ad. fetch_trading_fees ad symb) of
        Inr fees \<Rightarrow> taker_bps fees
      | Inl _ \<Rightarrow> 10)"

text \<open>The executable amount and its prices, or nothing when the route cannot be sized.\<close>

definition size_explicit ::
  "OrchSettings \<Rightarrow> OrderBook \<Rightarrow> OrderBook \<Rightarrow> RouteNetwork \<Rightarrow> decimal \<Rightarrow> decimal \<Rightarrow>
   (exn, (decimal \<times> PricePair) option) result" where
  "size_explicit s buy_book sell_book route available requested =
     (let max_notional = min (max_notional_quote s) (os_max_trade_size s);
          probe = max requested (rn_withdrawal_min route)
      in res_bind (price_pair buy_book sell_book probe) (\<lambda>prices.
           let executable = executable_amount requested (rn_withdrawal_min route) available
                 (pp_buy_price prices) (Some (os_max_amount s)) (Some max_notional)
           in if executable \<le> 0 then Inr None
              else if executable \<noteq> probe
              then res_bind (price_pair buy_book sell_book executable)
                     (\<lambda>prices'. Inr (Some (executable, prices')))
              else Inr (Some (executable, prices))))"

definition size_by_notional ::
  "OrchSettings \<Rightarrow> OrderBook \<Rightarrow> OrderBook \<Rightarrow> RouteNetwork \<Rightarrow> decimal \<Rightarrow>
   (exn, (decimal \<times> PricePair) option) result" where
  "size_by_notional s buy_book sell_book route available =
     (let lo = min_notional_quote s;
          hi = min (min (max_notional_quote s) (os_max_trade_size s)) available;
          est_price = (case asks buy_book of [] \<Rightarrow> 0 | l # _ \<Rightarrow> price l);
          sized = (\<lambda>prices. executable_amount_from_notional lo hi available (pp_buy_price prices)
                     (rn_withdrawal_min route) (Some (os_max_amount s)))
      in if hi < lo \<or> est_price \<le> 0 then Inr None
         else
           let est_amount = max (quantize 8 (ddiv hi est_price)) (rn_withdrawal_min route) in
           res_bind (price_pair buy_book sell_book est_amount) (\<lambda>prices.
             if sized prices \<le> 0 then Inr None
             else if sized prices = est_amount then Inr (Some (est_amount, prices))
             else res_bind (price_pair buy_book sell_book (sized prices)) (\<lambda>prices'.
               if sized prices' \<le> 0 then Inr None
               else if sized prices' = est_amount then Inr (Some (est_amount, prices'))
               else res_bind (price_pair buy_book sell_book (sized prices')) (\<lambda>prices''.
                 Inr (Some (sized prices', prices''))))))"

definition older_age :: "rat option \<Rightarrow> rat option \<Rightarrow> rat option" where
  "older_age x y = (case (x, y) of (Some a, Some b) \<Rightarrow> Some (max a b) | _ \<Rightarrow> None)"

definition route_plan ::
  "OrchSettings \<Rightarrow> Env \<Rightarrow> Mem \<Rightarrow> Symbol \<Rightarrow> string \<Rightarrow> string \<Rightarrow> OrderBook \<Rightarrow> OrderBook \<Rightarrow>
   RouteNetwork \<Rightarrow> decimal option \<Rightarrow> (exn, TransferPlan option) result" where
  "route_plan s env m symb source dest buy_book sell_book route amt =
     (let available = available_quote s env m source;
          buy_fees = taker_fees env source symb;
          sell_fees = taker_fees env dest symb
      in res_bind
           (case amt of
              Some requested \<Rightarrow> size_explicit s buy_book sell_book route available requested
            | None \<Rightarrow> size_by_notional s buy_book sell_book route available)
           (\<lambda>sized.
              case sized of
                None \<Rightarrow> Inr None
              | Some (executable, prices) \<Rightarrow>
                  (let p = (build_plan source dest (base symb) (rn_network route) executable prices
                              buy_fees sell_fees (rn_withdrawal_fee route) 0)
                             \<lparr>plan_data_age_ms :=
                                older_age (age_ms (env_now env) (book_timestamp buy_book))
                                  (age_ms (env_now env) (book_timestamp sell_book))\<rparr>
                   in Inr (evaluate_plan (os_min_net_profit_bps s) p))))"

definition plan_pair ::
  "OrchSettings \<Rightarrow> Env \<Rightarrow> Mem \<Rightarrow> Symbol \<Rightarrow> string \<Rightarrow> string \<Rightarrow> decimal option \<Rightarrow>
   (exn, TransferPlan option) result \<times> Mem" where
  "plan_pair s env m symb source dest amt =
     (case fresh_book s env m source symb of
        (Inl _, m1) \<Rightarrow> (Inr None, m1)
      | (Inr buy_book, m1) \<Rightarrow>
          (case fresh_book s env m1 dest symb of
             (Inl _, m2) \<Rightarrow> (Inr None, m2)
           | (Inr sell_book, m2) \<Rightarrow>
               (case res_bind (env_adapter env source) (\<lambda>ad.
                       res_bind (fetch_withdrawal_networks ad (base symb)) (\<lambda>src.
                         res_bind (env_adapter env dest) (\<lambda>dest_ad.
                           res_bind (fetch_withdrawal_networks dest_ad (base symb)) (select src)))) of
                  Inl _ \<Rightarrow> (Inr None, m2)
                | Inr route \<Rightarrow>
                    if validate_transfer_books buy_book sell_book
                         (max_transfer_gross_divergence_bps s) \<noteq> None
                    then (Inr None, m2)
                    else (route_plan s env m2 symb source dest buy_book sell_book route amt, m2))))"

end
