(* ===== verification/Transfer_Lifecycle.thy ===== *)
theory Transfer_Lifecycle
  imports Transfer_Orchestrator "HOL-Library.Sublist"
begin

text \<open>
  What the transfer orchestrator guarantees about its durable and external effects, over all
  runs: any sequence of starts and ticks, with arbitrary answers of the venues, and with a
  crash of the process at any point between two effects.

  The state of the world is the log of effects; the transfer table is a function of it. A step
  of the system appends the effects of a start or of one record's tick, or a prefix of them
  when the process dies on the way. The contract \<open>effect_ok\<close> says which effect may follow
  which log; the main lemma is that every reachable log respects it, and the properties of the
  lifecycle are consequences of the contract.
\<close>

subsection \<open>Logs\<close>

definition apply_effect :: "effect \<Rightarrow> repo \<Rightarrow> repo" where
  "apply_effect e repo = (case e of ESave r \<Rightarrow> save repo r | _ \<Rightarrow> repo)"

definition store_of :: "effect list \<Rightarrow> repo" where
  "store_of hist = fold apply_effect hist []"

fun is_buy :: "string \<Rightarrow> effect \<Rightarrow> bool" where
  "is_buy tid (EOrder t req) = (t = tid \<and> req_side req = BUY)"
| "is_buy tid _ = False"

fun is_withdrawal :: "string \<Rightarrow> effect \<Rightarrow> bool" where
  "is_withdrawal tid (EWithdraw t _ _ _ _ _ _) = (t = tid)"
| "is_withdrawal tid _ = False"

definition buys :: "string \<Rightarrow> effect list \<Rightarrow> nat" where
  "buys tid hist = length (filter (is_buy tid) hist)"

definition withdrawals :: "string \<Rightarrow> effect list \<Rightarrow> nat" where
  "withdrawals tid hist = length (filter (is_withdrawal tid) hist)"

definition step :: "OrchSettings \<Rightarrow> effect list \<Rightarrow> effect list \<Rightarrow> bool" where
  "step s hist hist' \<longleftrightarrow>
     (\<exists>env risk tid m p res m' es fs.
        get_record (store_of hist) tid = None \<and>
        start s env risk tid m (store_of hist) p = (res, m', es) \<and> prefix fs es \<and> hist' = hist @ fs) \<or>
     (\<exists>env m r u m' es fs.
        r \<in> set (list_open (store_of hist)) \<and>
        tick_record s env m r = (u, m', es) \<and> prefix fs es \<and> hist' = hist @ fs)"

inductive reachable :: "OrchSettings \<Rightarrow> effect list \<Rightarrow> bool" for s where
  reachable_init: "reachable s []"
| reachable_step: "reachable s hist \<Longrightarrow> step s hist hist' \<Longrightarrow> reachable s hist'"

inductive_cases reachable_cases: "reachable s hist"

subsection \<open>The contract\<close>

fun state_rank :: "TransferState \<Rightarrow> nat" where
  "state_rank CREATED = 0"
| "state_rank BUY_SUBMITTED = 1"
| "state_rank BUY_FILLED = 2"
| "state_rank WITHDRAW_SUBMITTED = 3"
| "state_rank WITHDRAW_PENDING = 4"
| "state_rank TRANSFER_IN_PROGRESS = 5"
| "state_rank DEPOSIT_DETECTED = 6"
| "state_rank SELL_SUBMITTED = 7"
| "state_rank COMPLETED = 8"
| "state_rank FAILED = 8"
| "state_rank STATE_MANUAL_REVIEW = 8"

text \<open>A record may only be overwritten by one further along the same transfer.\<close>

definition nothing_bought :: "TransferRecord \<Rightarrow> bool" where
  "nothing_bought r =
     (case order_from_json (buy_order r) of None \<Rightarrow> True | Some ord1 \<Rightarrow> \<not> is_confirmed_fill ord1)"

definition forward :: "TransferRecord \<Rightarrow> TransferRecord \<Rightarrow> bool" where
  "forward r r' \<longleftrightarrow>
     state_is_open (state r) \<and> state_rank (state r) \<le> state_rank (state r') \<and>
     plan r' = plan r \<and> created_at r' = created_at r \<and>
     (buy_order r \<noteq> None \<longrightarrow> buy_order r' \<noteq> None \<or> \<not> state_is_open (state r')) \<and>
     (state r' = FAILED \<longrightarrow> state_rank (state r) \<le> 1 \<and> nothing_bought r')"

definition buy_intent :: "TransferRecord \<Rightarrow> OrderRequest \<Rightarrow> bool" where
  "buy_intent r req \<longleftrightarrow>
     state r = BUY_SUBMITTED \<and> req_exchange_id req = plan_source (plan r) \<and>
     (\<exists>ord1. buy_order r = Some (JOrder ord1) \<and>
        client_order_id ord1 = Some (req_client_order_id req) \<and> ord_status ord1 = PENDING)"

definition sell_allowed :: "TransferRecord \<Rightarrow> OrderRequest \<Rightarrow> bool" where
  "sell_allowed r req \<longleftrightarrow>
     state r = DEPOSIT_DETECTED \<and> req_exchange_id req = plan_dest (plan r) \<and>
     req_amount req = deposit_amount r \<and> 0 < deposit_amount r"

definition withdrawal_allowed ::
  "TransferRecord \<Rightarrow> string \<Rightarrow> string \<Rightarrow> decimal \<Rightarrow> string \<Rightarrow> string option \<Rightarrow> string \<Rightarrow> bool" where
  "withdrawal_allowed r venue asset amt addr mm net \<longleftrightarrow>
     state r = WITHDRAW_SUBMITTED \<and>
     withdrawal_id r = Some (withdrawal_intent_prefix @ py_suffix 12 (tr_id r)) \<and>
     deposit_address r = Some addr \<and> withdrawal_amount r = quantize 8 amt \<and> 0 < amt \<and>
     venue = plan_source (plan r) \<and> asset = plan_asset (plan r) \<and> net = plan_network (plan r) \<and>
     \<not> memo_missing asset mm"

fun effect_ok :: "OrchSettings \<Rightarrow> effect list \<Rightarrow> effect \<Rightarrow> bool" where
  "effect_ok s hist (ESave r') =
     (case get_record (store_of hist) (tr_id r') of
        None \<Rightarrow> state r' = CREATED \<and> buy_order r' = None \<and>
          count_open (store_of hist) < os_max_open_transfers s
      | Some r \<Rightarrow> forward r r')"
| "effect_ok s hist (EOrder tid req) =
     (case get_record (store_of hist) tid of
        None \<Rightarrow> False
      | Some r \<Rightarrow>
          if req_side req = BUY then buys tid hist = 0 \<and> buy_intent r req else sell_allowed r req)"
| "effect_ok s hist (EWithdraw tid venue asset amt addr mm net) =
     (case get_record (store_of hist) tid of
        None \<Rightarrow> False
      | Some r \<Rightarrow> withdrawals tid hist = 0 \<and> withdrawal_allowed r venue asset amt addr mm net)"
| "effect_ok s hist (EAudit _ _) = True"

definition log_ok :: "OrchSettings \<Rightarrow> effect list \<Rightarrow> bool" where
  "log_ok s hist \<longleftrightarrow> (\<forall>xs e ys. hist = xs @ e # ys \<longrightarrow> effect_ok s xs e)"

lemma log_ok_Nil [simp]: "log_ok s []"
  by (simp add: log_ok_def)

lemma log_ok_snoc [simp]: "log_ok s (hist @ [e]) \<longleftrightarrow> log_ok s hist \<and> effect_ok s hist e"
proof
  assume ok: "log_ok s (hist @ [e])"
  then have "effect_ok s hist e" by (simp add: log_ok_def)
  moreover have "log_ok s hist"
    unfolding log_ok_def
  proof (intro allI impI)
    fix xs f ys assume "hist = xs @ f # ys"
    then have "hist @ [e] = xs @ f # (ys @ [e])" by simp
    then show "effect_ok s xs f" using ok unfolding log_ok_def by blast
  qed
  ultimately show "log_ok s hist \<and> effect_ok s hist e" by simp
next
  assume ok: "log_ok s hist \<and> effect_ok s hist e"
  show "log_ok s (hist @ [e])"
    unfolding log_ok_def
  proof (intro allI impI)
    fix xs f ys assume eq: "hist @ [e] = xs @ f # ys"
    show "effect_ok s xs f"
    proof (cases ys rule: rev_cases)
      case Nil
      then show ?thesis using eq ok by simp
    next
      case (snoc zs g)
      then have "hist = xs @ f # zs" using eq by simp
      then show ?thesis using ok unfolding log_ok_def by blast
    qed
  qed
qed

lemma log_ok_prefix: "log_ok s (hist @ fs) \<Longrightarrow> log_ok s hist"
  by (induction fs rule: rev_induct) (simp_all flip: append_assoc)

lemma store_of_snoc: "store_of (hist @ [e]) = apply_effect e (store_of hist)"
  by (simp add: store_of_def)

lemma store_of_ok [simp]: "repo_ok (store_of hist)"
  by (induction hist rule: rev_induct)
    (auto simp: store_of_def repo_ok_def dict_ok_def apply_effect_def repo_ok_save [unfolded repo_ok_def dict_ok_def]
      split: effect.splits)

lemma get_store_snoc:
  "get_record (store_of (hist @ [e])) tid =
     (case e of ESave r \<Rightarrow> if tr_id r = tid then Some r else get_record (store_of hist) tid
      | _ \<Rightarrow> get_record (store_of hist) tid)"
  by (auto simp: store_of_snoc apply_effect_def transfer_repo.get_put split: effect.splits)

lemma get_store_id: "get_record (store_of hist) tid = Some r \<Longrightarrow> tr_id r = tid"
  using store_of_ok [of hist] unfolding repo_ok_def get_record_def
  by (auto dest: dict_get_Some_in)

lemma count_snoc [simp]:
  "buys tid (hist @ [e]) = buys tid hist + (if is_buy tid e then 1 else 0)"
  "withdrawals tid (hist @ [e]) = withdrawals tid hist + (if is_withdrawal tid e then 1 else 0)"
  by (simp_all add: buys_def withdrawals_def)

subsection \<open>Consequences of the contract\<close>

lemma forward_simps:
  assumes "forward r r'"
  shows "state_is_open (state r)" "state_rank (state r) \<le> state_rank (state r')" "plan r' = plan r"
    "created_at r' = created_at r"
    "buy_order r \<noteq> None \<Longrightarrow> buy_order r' \<noteq> None \<or> \<not> state_is_open (state r')"
    "state r' = FAILED \<Longrightarrow> state_rank (state r) \<le> 1 \<and> nothing_bought r'"
  using assms by (auto simp: forward_def)

lemma rank_closed: "\<not> state_is_open st \<longleftrightarrow> state_rank st = 8"
  by (cases st) (auto simp: state_defs)

text \<open>Submissions and stored records agree.\<close>

definition record_counts :: "effect list \<Rightarrow> string \<Rightarrow> bool" where
  "record_counts hist tid =
     (case get_record (store_of hist) tid of
        None \<Rightarrow> buys tid hist = 0 \<and> withdrawals tid hist = 0
      | Some r \<Rightarrow> buys tid hist \<le> 1 \<and> withdrawals tid hist \<le> 1 \<and>
          (buy_order r = None \<and> state_is_open (state r) \<longrightarrow> buys tid hist = 0) \<and>
          (state_rank (state r) \<le> 2 \<longrightarrow> withdrawals tid hist = 0))"

lemma record_counts_snoc:
  assumes "record_counts hist tid" "effect_ok s hist e"
  shows "record_counts (hist @ [e]) tid"
proof (cases e)
  case (ESave r')
  show ?thesis
  proof (cases "tr_id r' = tid")
    case True
    show ?thesis
    proof (cases "get_record (store_of hist) tid")
      case None
      then show ?thesis using assms(1) ESave True by (simp add: record_counts_def get_store_snoc)
    next
      case (Some r)
      then have "forward r r'" using assms(2) ESave True by simp
      note f = forward_simps [OF this]
      show ?thesis using assms(1) Some ESave True f
        by (auto simp: record_counts_def get_store_snoc)
    qed
  next
    case False
    then show ?thesis using assms(1) ESave
      by (cases "get_record (store_of hist) tid") (simp_all add: record_counts_def get_store_snoc)
  qed
next
  case (EOrder t req)
  then show ?thesis using assms
    by (cases "t = tid"; cases "get_record (store_of hist) tid")
      (auto simp: record_counts_def get_store_snoc buy_intent_def split: if_splits)
next
  case (EWithdraw t venue asset amt addr mm net)
  then show ?thesis using assms
    by (cases "t = tid"; cases "get_record (store_of hist) tid")
      (auto simp: record_counts_def get_store_snoc withdrawal_allowed_def)
next
  case (EAudit a b)
  then show ?thesis using assms(1)
    by (cases "get_record (store_of hist) tid") (simp_all add: record_counts_def get_store_snoc)
qed

lemma log_ok_counts: "log_ok s hist \<Longrightarrow> record_counts hist tid"
proof (induction hist rule: rev_induct)
  case Nil
  show ?case by (simp add: record_counts_def store_of_def get_record_def buys_def withdrawals_def)
next
  case (snoc e hist)
  then have "record_counts hist tid" "effect_ok s hist e" by simp_all
  then show ?case by (rule record_counts_snoc)
qed

lemma log_ok_capped:
  "log_ok s hist \<Longrightarrow> 0 \<le> os_max_open_transfers s \<Longrightarrow> count_open (store_of hist) \<le> os_max_open_transfers s"
proof (induction hist rule: rev_induct)
  case Nil
  then show ?case by (simp add: store_of_def count_open_def)
next
  case (snoc e hist)
  let ?st = "store_of hist" and ?m = "os_max_open_transfers s"
  have IH: "int (length (list_open ?st)) \<le> ?m" using snoc by (simp add: count_open_def)
  show ?case
  proof (cases e)
    case (ESave r)
    have "transfer_repo.workflow_write ?m ?st (save ?st r)"
    proof (cases "get_record ?st (tr_id r)")
      case None
      then have "count_open ?st < ?m" using snoc.prems(1) ESave by simp
      then have "try_claim_new_open_slot ?st r ?m = Inr (True, save ?st r)"
        using snoc.prems(2) by (simp add: try_claim_new_open_slot_def save_def)
      then show ?thesis unfolding transfer_repo.workflow_write_def by blast
    next
      case (Some q)
      then have "forward q r" using snoc.prems(1) ESave by simp
      then show ?thesis
        unfolding transfer_repo.workflow_write_def using Some forward_simps(1) by blast
    qed
    then show ?thesis
      using transfer_repo.workflow_write_capped [OF _ store_of_ok IH] ESave
      by (simp add: store_of_snoc apply_effect_def count_open_def)
  qed (use snoc in \<open>simp_all add: store_of_snoc apply_effect_def\<close>)
qed

text \<open>What a later log holds for a transfer that an earlier one already had.\<close>

lemma log_ok_extends:
  assumes "log_ok s (hist @ fs)" "get_record (store_of hist) tid = Some r"
  shows "\<exists>r'. get_record (store_of (hist @ fs)) tid = Some r' \<and>
    state_rank (state r) \<le> state_rank (state r') \<and> plan r' = plan r \<and>
    (\<not> state_is_open (state r) \<longrightarrow> r' = r) \<and>
    (state r' = FAILED \<and> state_rank (state r) > 1 \<longrightarrow> state r = FAILED)"
  using assms(1)
proof (induction fs rule: rev_induct)
  case Nil
  then show ?case using assms(2) by simp
next
  case (snoc e fs)
  then obtain r' where r': "get_record (store_of (hist @ fs)) tid = Some r'"
    "state_rank (state r) \<le> state_rank (state r')" "plan r' = plan r"
    "\<not> state_is_open (state r) \<longrightarrow> r' = r"
    "state r' = FAILED \<and> state_rank (state r) > 1 \<longrightarrow> state r = FAILED"
    by (auto simp flip: append_assoc)
  have ok: "effect_ok s (hist @ fs) e" using snoc.prems by (simp flip: append_assoc)
  have get: "get_record (store_of (hist @ fs @ [e])) tid =
      (case e of ESave q \<Rightarrow> if tr_id q = tid then Some q else Some r' | _ \<Rightarrow> Some r')"
    using get_store_snoc [of "hist @ fs" e tid] r'(1) by (simp split: effect.splits)
  show ?case
  proof (cases "\<exists>q. e = ESave q \<and> tr_id q = tid")
    case True
    then obtain q where q: "e = ESave q" "tr_id q = tid" by blast
    then have f: "forward r' q" using ok r'(1) by simp
    show ?thesis
      using get q f r' forward_simps [OF f] by (auto simp: forward_def intro: order_trans)
  next
    case False
    then have "get_record (store_of (hist @ fs @ [e])) tid = Some r'"
      using get by (auto split: effect.splits)
    then show ?thesis using r' by blast
  qed
qed

subsection \<open>Traces of one transfer\<close>

text \<open>
  The contract seen from the record being processed: \<open>n\<close> buys and \<open>k\<close> withdrawals
  were submitted for it before.
\<close>

fun trace_ok :: "TransferRecord \<Rightarrow> nat \<Rightarrow> nat \<Rightarrow> effect list \<Rightarrow> bool" where
  "trace_ok r n k [] = True"
| "trace_ok r n k (ESave r' # es) = (tr_id r' = tr_id r \<and> forward r r' \<and> trace_ok r' n k es)"
| "trace_ok r n k (EOrder tid req # es) =
     (tid = tr_id r \<and>
      (if req_side req = BUY then n = 0 \<and> buy_intent r req \<and> trace_ok r 1 k es
       else sell_allowed r req \<and> trace_ok r n k es))"
| "trace_ok r n k (EWithdraw tid venue asset amt addr mm net # es) =
     (tid = tr_id r \<and> k = 0 \<and> withdrawal_allowed r venue asset amt addr mm net \<and> trace_ok r n 1 es)"
| "trace_ok r n k (EAudit _ _ # es) = trace_ok r n k es"

lemma trace_ok_log:
  assumes "trace_ok r n k es" "log_ok s hist" "get_record (store_of hist) (tr_id r) = Some r"
    "buys (tr_id r) hist = n" "withdrawals (tr_id r) hist = k"
  shows "log_ok s (hist @ es)"
  using assms
proof (induction r n k es arbitrary: hist rule: trace_ok.induct)
  case (2 r n k r' es)
  then have ok: "log_ok s (hist @ [ESave r'])" by simp
  have "log_ok s ((hist @ [ESave r']) @ es)"
    by (rule "2.IH" [OF _ ok]) (use 2 in \<open>auto simp: get_store_snoc\<close>)
  then show ?case by simp
next
  case (3 r n k tid req es)
  then have ok: "log_ok s (hist @ [EOrder tid req])" by (auto split: if_splits)
  have "log_ok s ((hist @ [EOrder tid req]) @ es)"
  proof (cases "req_side req = BUY")
    case True
    show ?thesis by (rule "3.IH"(1) [OF True _ ok]) (use 3 True in \<open>auto simp: get_store_snoc\<close>)
  next
    case False
    show ?thesis by (rule "3.IH"(2) [OF False _ ok]) (use 3 False in \<open>auto simp: get_store_snoc\<close>)
  qed
  then show ?case by simp
next
  case (4 r n k tid venue asset amt addr mm net es)
  let ?e = "EWithdraw tid venue asset amt addr mm net"
  have ok: "log_ok s (hist @ [?e])" using 4 by auto
  have "log_ok s ((hist @ [?e]) @ es)"
    by (rule "4.IH" [OF _ ok]) (use 4 in \<open>auto simp: get_store_snoc\<close>)
  then show ?case by simp
next
  case (5 r n k a b es)
  have ok: "log_ok s (hist @ [EAudit a b])" using 5 by simp
  have "log_ok s ((hist @ [EAudit a b]) @ es)"
    by (rule "5.IH" [OF _ ok]) (use 5 in \<open>auto simp: get_store_snoc\<close>)
  then show ?case by simp
qed simp

fun trace_end :: "TransferRecord \<Rightarrow> effect list \<Rightarrow> TransferRecord" where
  "trace_end r [] = r"
| "trace_end r (ESave r' # es) = trace_end r' es"
| "trace_end r (_ # es) = trace_end r es"

definition good_run :: "TransferRecord \<Rightarrow> nat \<Rightarrow> nat \<Rightarrow> TransferRecord run \<Rightarrow> bool" where
  "good_run r n k rn =
     (case rn of (res, m, es) \<Rightarrow>
        trace_ok r n k es \<and>
        (case res of
           Inl _ \<Rightarrow> state_is_open (state (trace_end r es))
         | Inr u \<Rightarrow> (state u = BUY_FILLED \<or> state u = COMPLETED \<longrightarrow> u = trace_end r es) \<and>
             (state (trace_end r es) = COMPLETED \<longrightarrow> state u = COMPLETED)))"

lemma good_run_simps [simp]:
  "good_run r n k (Inl e, m, es) \<longleftrightarrow> trace_ok r n k es \<and> state_is_open (state (trace_end r es))"
  "good_run r n k (Inr u, m, es) \<longleftrightarrow>
     trace_ok r n k es \<and> (state u = BUY_FILLED \<or> state u = COMPLETED \<longrightarrow> u = trace_end r es) \<and>
     (state (trace_end r es) = COMPLETED \<longrightarrow> state u = COMPLETED)"
  by (simp_all add: good_run_def)

lemma good_run_after [simp]:
  "good_run r n k (after_effects [] rn) = good_run r n k rn"
  "good_run r n k (after_effects (ESave r' # es) rn) \<longleftrightarrow>
     tr_id r' = tr_id r \<and> forward r r' \<and> good_run r' n k (after_effects es rn)"
  "good_run r n k (after_effects (EOrder tid req # es) rn) \<longleftrightarrow>
     tid = tr_id r \<and>
     (if req_side req = BUY then n = 0 \<and> buy_intent r req \<and> good_run r 1 k (after_effects es rn)
      else sell_allowed r req \<and> good_run r n k (after_effects es rn))"
  "good_run r n k (after_effects (EWithdraw tid venue asset amt addr mm net # es) rn) \<longleftrightarrow>
     tid = tr_id r \<and> k = 0 \<and> withdrawal_allowed r venue asset amt addr mm net \<and>
     good_run r n 1 (after_effects es rn)"
  by (cases rn; auto simp: good_run_def after_effects_def split: sum.splits)+

lemma good_run_fail [simp]:
  "good_run r n k (fail_record env m r st reason) \<longleftrightarrow>
     forward r (with_state r (env_now env) st (Some reason))"
  by (simp add: fail_record_def Let_def)

subsection \<open>Every handler respects the contract\<close>

lemma step_record_simps [simp]:
  "state (buy_submitted env r o1) = BUY_SUBMITTED" "state (buy_filled env r x) = BUY_FILLED"
  "state (intent_record env r req) = BUY_SUBMITTED"
  "state (withdrawal_record env r w t a x) = WITHDRAW_SUBMITTED"
  "state (deposit_record env r t x) = DEPOSIT_DETECTED"
  "state (sell_submitted env r o1 x) = SELL_SUBMITTED" "state (completed_record env r) = COMPLETED"
  by (simp_all add: buy_submitted_def buy_filled_def intent_record_def withdrawal_record_def
      deposit_record_def sell_submitted_def completed_record_def)

lemma step_record_buy_order [simp]:
  "buy_order (buy_submitted env r o1) = Some (JOrder o1)" "buy_order (buy_filled env r x) = buy_order r"
  "buy_order (withdrawal_record env r w t a x) = buy_order r"
  "buy_order (deposit_record env r t x) = buy_order r"
  "buy_order (sell_submitted env r o1 x) = buy_order r" "buy_order (completed_record env r) = buy_order r"
  "buy_order (intent_record env r req) \<noteq> None"
  by (simp_all add: buy_submitted_def buy_filled_def intent_record_def withdrawal_record_def
      deposit_record_def sell_submitted_def completed_record_def order_to_json_def)

lemma step_record_plan [simp]:
  "plan (buy_submitted env r o1) = plan r" "plan (buy_filled env r x) = plan r"
  "plan (intent_record env r req) = plan r" "plan (withdrawal_record env r w t a x) = plan r"
  "plan (deposit_record env r t x) = plan r" "plan (sell_submitted env r o1 x) = plan r"
  "plan (completed_record env r) = plan r"
  by (simp_all add: buy_submitted_def buy_filled_def intent_record_def withdrawal_record_def
      deposit_record_def sell_submitted_def completed_record_def)

lemma step_record_created [simp]:
  "created_at (buy_submitted env r o1) = created_at r" "created_at (buy_filled env r x) = created_at r"
  "created_at (intent_record env r req) = created_at r"
  "created_at (withdrawal_record env r w t a x) = created_at r"
  "created_at (deposit_record env r t x) = created_at r"
  "created_at (sell_submitted env r o1 x) = created_at r"
  "created_at (completed_record env r) = created_at r"
  by (simp_all add: buy_submitted_def buy_filled_def intent_record_def withdrawal_record_def
      deposit_record_def sell_submitted_def completed_record_def)

lemma step_record_id [simp]:
  "tr_id (buy_submitted env r o1) = tr_id r" "tr_id (buy_filled env r x) = tr_id r"
  "tr_id (intent_record env r req) = tr_id r" "tr_id (withdrawal_record env r w t a x) = tr_id r"
  "tr_id (deposit_record env r t x) = tr_id r" "tr_id (sell_submitted env r o1 x) = tr_id r"
  "tr_id (completed_record env r) = tr_id r"
  by (simp_all add: buy_submitted_def buy_filled_def intent_record_def withdrawal_record_def
      deposit_record_def sell_submitted_def completed_record_def)

lemma forward_review [simp]:
  "forward r (with_state r now STATE_MANUAL_REVIEW e) \<longleftrightarrow> state_is_open (state r)"
  by (cases "state r") (auto simp: forward_def state_defs)

lemma forward_failed:
  "forward r (with_state r now FAILED e) \<longleftrightarrow> state_rank (state r) \<le> 1 \<and> nothing_bought r"
  by (cases "state r") (auto simp: forward_def state_defs nothing_bought_def)

lemma nothing_bought_submitted [simp]:
  "nothing_bought (buy_submitted env r o1) \<longleftrightarrow> \<not> is_confirmed_fill o1"
  by (simp add: nothing_bought_def)

lemma nothing_bought_with_state [simp]: "nothing_bought (with_state r now st e) = nothing_bought r"
  by (simp add: nothing_bought_def)

lemma early_open: "state_rank st \<le> 1 \<Longrightarrow> state_is_open st"
  by (cases st) (auto simp: state_defs)

lemma open_states [simp]:
  "state_is_open BUY_SUBMITTED" "state_is_open BUY_FILLED" "state_is_open WITHDRAW_SUBMITTED"
  "state_is_open SELL_SUBMITTED" "state_is_open DEPOSIT_DETECTED" "state_is_open TRANSFER_IN_PROGRESS"
  "state_is_open WITHDRAW_PENDING" "state_is_open CREATED"
  by (simp_all add: state_defs)

lemma settle_buy_good:
  assumes "state_rank (state r) \<le> 1"
  shows "good_run r n k (settle_buy env m r f o1)"
proof -
  have s: "forward r (buy_submitted env r o1)"
    using assms early_open by (simp add: forward_def)
  have filled: "0 < filled_amount o1" if "\<not> confirmed_not_filled o1" "\<not> outcome_unconfirmed o1"
    using outcome_cases [of o1] that by (auto simp: is_confirmed_fill_def)
  show ?thesis
    using s filled confirmed_fill_not_unfilled [of o1]
    by (auto simp: settle_buy_def Let_def forward_failed forward_def)
qed

lemma resolve_buy_good:
  assumes "state_rank (state r) \<le> 1" "buy_order r \<noteq> None"
  shows "good_run r n k (resolve_existing_buy env m r)"
proof (cases "order_from_json (buy_order r)")
  case None
  then show ?thesis using assms early_open by (simp add: resolve_existing_buy_def)
next
  case (Some o1)
  have fwd: "forward r (buy_filled env r x)" "forward r (buy_submitted env r o2)" for x o2
    using assms early_open by (auto simp: forward_def)
  have nb: "nothing_bought r \<longleftrightarrow> \<not> is_confirmed_fill o1" using Some by (simp add: nothing_bought_def)
  show ?thesis
  proof (cases "env_adapter env (plan_source (plan r))")
    case (Inl e)
    then show ?thesis using Some fwd nb assms early_open confirmed_fill_not_unfilled [of o1]
      by (auto simp: resolve_existing_buy_def forward_failed Let_def)
  next
    case (Inr ad)
    let ?rec = "recover (order_queries ad) (env_now env) o1"
    show ?thesis using Some Inr fwd nb assms early_open confirmed_fill_not_unfilled [of ?rec]
        confirmed_fill_not_unfilled [of o1]
      by (auto simp: resolve_existing_buy_def forward_failed Let_def forward_def)
  qed
qed

text \<open>The leg itself: nothing is submitted without a callback's save coming first.\<close>

lemma fill_leg_cases:
  assumes "fill_leg s env m tid venue symb sd base_amount quote_amount on_submit = ((res, m', es), noted)"
  obtains (quiet) "es = []" "noted = None"
  | (placed) req f order where "res = Inr (f, order)" "req_side req = sd" "req_exchange_id req = venue"
      "noted = map_option (\<lambda>g. g req) on_submit" "base_amount \<noteq> None \<longrightarrow> base_amount = Some (req_amount req)"
      "es = (case noted of None \<Rightarrow> [] | Some r \<Rightarrow> [ESave r]) @ [EOrder tid req]"
proof -
  obtain bk m1 where bk: "fresh_book s env m venue symb = (bk, m1)" by (cases "fresh_book s env m venue symb")
  show thesis
  proof (cases bk)
    case (Inl e)
    then show thesis using assms bk quiet by (simp add: fill_leg_def)
  next
    case (Inr book)
    show thesis
    proof (cases "leg_is_simulated s m1 venue sd")
      case True
      obtain res' m2 where "simulated_leg s env m1 book venue symb sd base_amount quote_amount = (res', m2)"
        by fastforce
      then show thesis using assms bk Inr True quiet by (simp add: fill_leg_def)
    next
      case venue_leg: False
      show thesis
      proof (cases "venue_amount book base_amount quote_amount")
        case (Inl e)
        then show thesis using assms bk Inr venue_leg quiet by (simp add: fill_leg_def)
      next
        case amt: (Inr amt)
        show thesis
        proof (cases "env_adapter env venue")
          case (Inl e)
          then show thesis using assms bk Inr venue_leg amt quiet by (simp add: fill_leg_def Let_def)
        next
          case ad: (Inr ad)
          let ?req = "\<lparr>req_exchange_id = venue, req_symbol = symb, req_side = sd,
            req_order_type = MARKET, req_amount = amt, req_price = None,
            req_client_order_id = env_client_id env\<rparr>"
          have "base_amount \<noteq> None \<longrightarrow> base_amount = Some amt"
            using amt by (auto simp: venue_amount_def)
          then show thesis
            using assms bk Inr venue_leg amt ad
            by (intro placed [of None "placed_order env ad ?req" ?req])
              (auto simp: fill_leg_def Let_def)
        qed
      qed
    qed
  qed
qed

lemma buy_intent_record:
  "req_exchange_id req = plan_source (plan r) \<Longrightarrow> buy_intent (intent_record env r req) req"
  by (simp add: buy_intent_def intent_record_def order_to_json_def leg_order_def new_order_def)

lemma execute_buy_good:
  assumes "state_rank (state r) \<le> 1" "buy_order r = None \<longrightarrow> n = 0"
  shows "good_run r n k (execute_buy s env m r)"
proof (cases "ensure_can_trade (env_guard env)")
  case (Inl e)
  then show ?thesis using assms early_open by (simp add: execute_buy_def)
next
  case can: (Inr u)
  show ?thesis
  proof (cases "mk_symbol (plan_asset (plan r)) (base_currency s) None")
    case (Inl e)
    then show ?thesis using can assms early_open by (simp add: execute_buy_def)
  next
    case symb: (Inr symb)
    show ?thesis
    proof (cases "buy_order r = None")
      case False
      then show ?thesis using can symb resolve_buy_good [OF assms(1)] by (simp add: execute_buy_def)
    next
      case new: True
      obtain res m1 es noted where fl: "fill_leg s env m (tr_id r) (plan_source (plan r)) symb BUY None
          (Some (buy_cost_quote (plan r))) (Some (intent_record env r)) = ((res, m1, es), noted)"
        by (metis prod.exhaust)
      from fl show ?thesis
      proof (cases rule: fill_leg_cases)
        case quiet
        then show ?thesis using can symb new fl assms settle_buy_good [OF assms(1)]
          by (auto simp: execute_buy_def early_open forward_failed nothing_bought_def
              split: sum.splits exn.splits prod.splits)
      next
        case (placed req f order)
        let ?r = "intent_record env r req"
        have "forward r ?r" using assms(1) early_open new by (simp add: forward_def)
        moreover have "buy_intent ?r req" using placed(3) by (rule buy_intent_record)
        moreover have "good_run ?r 1 k (settle_buy env m1 ?r f order)" by (rule settle_buy_good) simp
        ultimately show ?thesis
          using can symb new fl placed assms(2) by (simp add: execute_buy_def)
      qed
    qed
  qed
qed

lemma withdrawal_allowed_intent:
  assumes "0 < amt" "\<not> memo_missing (plan_asset (plan r)) mm"
  shows "withdrawal_allowed (withdrawal_intent env r addr amt) (plan_source (plan r))
    (plan_asset (plan r)) amt addr mm (plan_network (plan r))"
  using assms by (simp add: withdrawal_allowed_def withdrawal_intent_def withdrawal_record_def)

lemma withdrawal_intent_simps [simp]:
  "state (withdrawal_intent env r a x) = WITHDRAW_SUBMITTED" "plan (withdrawal_intent env r a x) = plan r"
  "tr_id (withdrawal_intent env r a x) = tr_id r" "buy_order (withdrawal_intent env r a x) = buy_order r"
  "created_at (withdrawal_intent env r a x) = created_at r"
  by (simp_all add: withdrawal_intent_def)

lemma perform_withdrawal_good:
  assumes "state r = BUY_FILLED" "0 < amt" "\<not> memo_missing (plan_asset (plan r)) (memo addr)"
  shows "good_run r n 0 (perform_withdrawal s env m ad r addr amt)"
proof -
  let ?r = "withdrawal_intent env r (address addr) amt"
  have f1: "forward r ?r" using assms(1) by (simp add: forward_def)
  have f2: "forward ?r (withdrawal_record env ?r w t (address addr) amt)" for w t
    by (simp add: forward_def)
  have ok: "withdrawal_allowed ?r (plan_source (plan r)) (plan_asset (plan r)) amt (address addr)
      (memo addr) (plan_network (plan r))"
    using assms by (intro withdrawal_allowed_intent)
  obtain res es where sw: "send_withdrawal s ad ?r addr amt = (res, es)" by fastforce
  have rest: "good_run ?r n k'
      (case res of
         Inl (ExecutionDisabledError x) \<Rightarrow> (Inl (ExecutionDisabledError x), m, [])
       | Inl _ \<Rightarrow> fail_record env m ?r STATE_MANUAL_REVIEW ''withdrawal failed''
       | Inr (wid, txid) \<Rightarrow>
           (case (if os_mode s = PAPER
                  then debit_wallet m (plan_source (plan r)) (plan_asset (plan r)) (buy_filled_amount ?r)
                  else Inr m) of
              Inl e \<Rightarrow> (Inl e, m, [])
            | Inr m1 \<Rightarrow>
                (let r2 = withdrawal_record env ?r wid txid (address addr) amt
                 in (Inr r2, m1,
                     [ESave r2, EAudit ''TRANSFER_WITHDRAW_SUBMITTED'' (plan_asset (plan r))]))))" for k'
    using f2 by (auto simp: Let_def split: sum.splits exn.splits prod.splits)
  show ?thesis
  proof (cases "os_mode s = DEMO")
    case True
    then have "es = []" using sw by (simp add: send_withdrawal_def Let_def)
    then show ?thesis using f1 rest sw by (simp add: perform_withdrawal_def Let_def)
  next
    case False
    then have "es = [EWithdraw (tr_id r) (plan_source (plan r)) (plan_asset (plan r)) amt
        (address addr) (memo addr) (plan_network (plan r))]"
      using sw by (auto simp: send_withdrawal_def Let_def)
    then show ?thesis using f1 ok rest sw by (simp add: perform_withdrawal_def Let_def)
  qed
qed

lemma send_to_address_good:
  "state r = BUY_FILLED \<Longrightarrow> good_run r n 0 (send_to_address s env m ad r route addr)"
  using perform_withdrawal_good by (auto simp: send_to_address_def Let_def not_le)

lemma submit_withdrawal_good:
  assumes "state r = BUY_FILLED"
  shows "good_run r n 0 (submit_withdrawal s env m r)"
  using assms send_to_address_good
  by (auto simp: submit_withdrawal_def split: sum.splits exn.splits prod.splits)

lemma timeout_guard_good:
  "state_is_open (state r) \<Longrightarrow> state r \<noteq> BUY_FILLED \<Longrightarrow> good_run r n k (timeout_guard s env m r)"
  by (simp add: timeout_guard_def Let_def)

lemma check_withdrawal_good:
  assumes "state r = WITHDRAW_SUBMITTED \<or> state r = WITHDRAW_PENDING"
  shows "good_run r n k (check_withdrawal s env m r)"
proof -
  have f: "forward r (with_state r now TRANSFER_IN_PROGRESS None)"
    "state r = WITHDRAW_SUBMITTED \<Longrightarrow> forward r (with_state r now WITHDRAW_PENDING None)" for now
    using assms by (auto simp: forward_def)
  have o: "state_is_open (state r)" "state r \<noteq> BUY_FILLED" "state r \<noteq> COMPLETED" using assms by auto
  show ?thesis
    using f o timeout_guard_good [OF o(1,2)]
    by (auto simp: check_withdrawal_def Let_def split: sum.splits option.splits)
qed

lemma await_deposit_good:
  assumes "state r = TRANSFER_IN_PROGRESS"
  shows "good_run r n k (await_deposit s env m r)"
proof -
  have f: "forward r (deposit_record env r t x)" for t x using assms by (simp add: forward_def)
  have o: "state_is_open (state r)" "state r \<noteq> BUY_FILLED" using assms by auto
  show ?thesis
    using f o timeout_guard_good [OF o]
    by (auto simp: await_deposit_def Let_def split: sum.splits option.splits)
qed

lemma finish_good:
  assumes "state r = SELL_SUBMITTED"
  shows "good_run r n k (finish s env m r)"
proof -
  have "forward r (completed_record env r)" using assms by (simp add: forward_def)
  then show ?thesis using assms by (auto simp: finish_def Let_def split: sum.splits)
qed

lemma execute_sell_good:
  assumes "state r = DEPOSIT_DETECTED"
  shows "good_run r n k (execute_sell s env m r)"
proof (cases "ensure_can_trade (env_guard env)")
  case (Inl e)
  then show ?thesis using assms by (simp add: execute_sell_def)
next
  case can: (Inr u)
  show ?thesis
  proof (cases "mk_symbol (plan_asset (plan r)) (base_currency s) None")
    case (Inl e)
    then show ?thesis using can assms by (simp add: execute_sell_def)
  next
    case symb: (Inr symb)
    show ?thesis
    proof (cases "deposit_amount r \<le> 0")
      case True
      then show ?thesis using can symb assms by (simp add: execute_sell_def)
    next
      case pos: False
      obtain res m1 es noted where fl: "fill_leg s env (top_up_wallet s m r) (tr_id r)
          (plan_dest (plan r)) symb SELL (Some (deposit_amount r)) None None = ((res, m1, es), noted)"
        by (metis prod.exhaust)
      let ?s = "\<lambda>f o1. sell_submitted env r o1 (leg_proceeds symb f o1)"
      have fwd: "forward r (?s f o1)" for f o1 using assms by (simp add: forward_def)
      have rest: "good_run (?s f o1) n k
          (if outcome_unconfirmed o1
           then fail_record env m1 (?s f o1) STATE_MANUAL_REVIEW ''sell leg outcome unconfirmed''
           else if filled_amount o1 \<le> 0
           then fail_record env m1 (?s f o1) STATE_MANUAL_REVIEW ''sell leg rejected''
           else finish s env m1 (?s f o1))" for f o1
        by (simp add: finish_good)
      from fl show ?thesis
      proof (cases rule: fill_leg_cases)
        case quiet
        then show ?thesis using can symb pos fl assms fwd rest
          by (auto simp: execute_sell_def Let_def split: sum.splits exn.splits prod.splits)
      next
        case (placed req f order)
        then have "sell_allowed r req" using assms pos by (auto simp: sell_allowed_def)
        then show ?thesis using can symb pos fl placed fwd rest
          by (simp add: execute_sell_def Let_def)
      qed
    qed
  qed
qed

lemma advance_good:
  assumes "buy_order r = None \<longrightarrow> n = 0" "state_rank (state r) \<le> 2 \<longrightarrow> k = 0" "state_is_open (state r)"
  shows "good_run r n k (advance s env m r)"
  using assms
  by (cases "state r")
    (auto simp: advance_def execute_buy_good submit_withdrawal_good check_withdrawal_good
      await_deposit_good execute_sell_good finish_good state_defs)

lemma rank_le: "state_rank st \<le> 8"
  by (cases st) simp_all

lemma trace_ok_append:
  "trace_ok r n k es \<Longrightarrow> tr_id u = tr_id (trace_end r es) \<Longrightarrow> forward (trace_end r es) u \<Longrightarrow>
   trace_ok r n k (es @ [ESave u])"
  by (induction r n k es rule: trace_ok.induct) (auto split: if_splits)

lemma trace_end_keeps:
  "trace_ok r n k es \<Longrightarrow> tr_id (trace_end r es) = tr_id r \<and> plan (trace_end r es) = plan r \<and>
     created_at (trace_end r es) = created_at r"
  by (induction r n k es rule: trace_ok.induct) (auto dest: forward_simps split: if_splits)

lemma tick_record_ok:
  assumes "buy_order r = None \<longrightarrow> n = 0" "state_rank (state r) \<le> 2 \<longrightarrow> k = 0" "state_is_open (state r)"
    "tick_record s env m r = (u, m', es)"
  shows "trace_ok r n k es"
proof (cases "advance s env m r")
  case (fields res m1 fs)
  note good = advance_good [OF assms(1-3), of s env m, unfolded fields]
  show ?thesis
  proof (cases res)
    case (Inr v)
    then show ?thesis using assms(4) fields good by (simp add: tick_record_def)
  next
    case (Inl e)
    then have es: "es = fs @ [ESave u]" and u: "u = with_state r (env_now env) STATE_MANUAL_REVIEW
        (Some (take 500 (''tick error: '' @ exn_text e)))"
      using assms(4) fields by (auto simp: tick_record_def Let_def)
    have t: "trace_ok r n k fs" "state_is_open (state (trace_end r fs))" using good Inl by simp_all
    note keeps = trace_end_keeps [OF t(1)]
    have "forward (trace_end r fs) u"
      using t(2) keeps rank_le by (simp add: u forward_def state_defs)
    then show ?thesis unfolding es using t(1) keeps u by (intro trace_ok_append) auto
  qed
qed


subsection \<open>Every reachable log respects the contract\<close>

lemma tick_log_ok:
  assumes "log_ok s hist" "r \<in> set (list_open (store_of hist))" "tick_record s env m r = (u, m', es)"
  shows "log_ok s (hist @ es)"
proof -
  have get: "get_record (store_of hist) (tr_id r) = Some r" and op: "state_is_open (state r)"
    using assms(2) transfer_repo.opened_iff [OF store_of_ok] by blast+
  have "record_counts hist (tr_id r)" by (rule log_ok_counts [OF assms(1)])
  then have c: "buy_order r = None \<longrightarrow> buys (tr_id r) hist = 0"
    "state_rank (state r) \<le> 2 \<longrightarrow> withdrawals (tr_id r) hist = 0"
    using get op by (auto simp: record_counts_def)
  show ?thesis
    by (rule trace_ok_log [OF tick_record_ok [OF c op assms(3)] assms(1) get refl refl])
qed

lemma trace_end_store:
  "trace_ok r n k es \<Longrightarrow> get_record (store_of hist) (tr_id r) = Some r \<Longrightarrow>
   get_record (store_of (hist @ es)) (tr_id r) = Some (trace_end r es)"
proof (induction r n k es arbitrary: hist rule: trace_ok.induct)
  case (2 r n k r' es)
  then show ?case using "2.IH" [of "hist @ [ESave r']"] by (simp add: get_store_snoc)
next
  case (3 r n k tid req es)
  then show ?case
    using "3.IH"(1) [of "hist @ [EOrder tid req]"] "3.IH"(2) [of "hist @ [EOrder tid req]"]
    by (simp add: get_store_snoc split: if_splits)
next
  case (4 r n k tid venue asset amt addr mm net es)
  then show ?case
    using "4.IH" [of "hist @ [EWithdraw tid venue asset amt addr mm net]"] by (simp add: get_store_snoc)
next
  case (5 r n k a b es)
  then show ?case using "5.IH" [of "hist @ [EAudit a b]"] by (simp add: get_store_snoc)
qed simp

lemma start_log_ok:
  assumes "log_ok s hist" "get_record (store_of hist) tid = None"
    "start s env risk tid m (store_of hist) p = (res, m', es)"
  shows "log_ok s (hist @ es)"
proof (cases "es = []")
  case False
  let ?r = "new_record tid p (os_mode s) (env_now env)"
  let ?pre = "[ESave ?r, EAudit ''TRANSFER_STARTED'' (plan_asset p)]"
  let ?h = "hist @ ?pre"
  have id: "tr_id ?r = tid" "state ?r = CREATED" "buy_order ?r = None" by (simp_all add: new_record_def)
  obtain repo' where claim: "try_claim_new_open_slot (store_of hist) ?r (os_max_open_transfers s) =
      Inr (True, repo')"
    using assms(3) False by (auto simp: start_def Let_def after_effects_def
        split: sum.splits if_splits prod.splits bool.splits)
  have cnt: "count_open (store_of hist) < os_max_open_transfers s"
    using transfer_repo.claim_put [OF claim] by (simp add: count_open_def)
  have "log_ok s (hist @ [ESave ?r])" using assms(1,2) cnt id by simp
  then have "log_ok s ((hist @ [ESave ?r]) @ [EAudit ''TRANSFER_STARTED'' (plan_asset p)])"
    by (simp only: log_ok_snoc effect_ok.simps)
  then have hok: "log_ok s ?h" by simp
  have get: "get_record (store_of ?h) (tr_id ?r) = Some ?r"
    using get_store_snoc [of "hist @ [ESave ?r]" "EAudit ''TRANSFER_STARTED'' (plan_asset p)"] id
    by (simp add: get_store_snoc)
  have z: "buys tid ?h = 0" "withdrawals tid ?h = 0"
    using log_ok_counts [OF assms(1), of tid] assms(2) by (simp_all add: record_counts_def buys_def withdrawals_def)
  obtain res1 m1 fs where buy: "execute_buy s env m ?r = (res1, m1, fs)" by (cases "execute_buy s env m ?r")
  have good: "good_run ?r 0 0 (res1, m1, fs)"
    using execute_buy_good [of ?r 0 0 s env m] id buy by simp
  then have t: "trace_ok ?r 0 0 fs" by (cases res1) simp_all
  have ok1: "log_ok s (?h @ fs)" by (rule trace_ok_log [OF t hok get]) (simp_all add: id z)
  have claim_split: "es = ?pre @ fs \<or>
      (\<exists>r1 res2 m2 gs. res1 = Inr r1 \<and> state r1 = BUY_FILLED \<and>
         submit_withdrawal s env m1 r1 = (res2, m2, gs) \<and> es = ?pre @ fs @ gs)"
    using assms(3) False claim buy
    by (auto simp: start_def Let_def after_effects_def
        split: sum.splits if_splits prod.splits)
  then show ?thesis
  proof (elim disjE exE conjE)
    fix r1 res2 m2 gs
    assume w: "res1 = Inr r1" "state r1 = BUY_FILLED" "submit_withdrawal s env m1 r1 = (res2, m2, gs)"
      "es = ?pre @ fs @ gs"
    have r1: "r1 = trace_end ?r fs" using good w by simp
    have g1: "get_record (store_of (?h @ fs)) (tr_id r1) = Some r1"
      using trace_end_store [OF t get] trace_end_keeps [OF t] r1 by simp
    have k1: "withdrawals (tr_id r1) (?h @ fs) = 0"
      using log_ok_counts [OF ok1, of "tr_id r1"] g1 w(2) by (simp add: record_counts_def)
    have "good_run r1 (buys (tr_id r1) (?h @ fs)) 0 (res2, m2, gs)"
      using submit_withdrawal_good [OF w(2)] w(3) by metis
    then have "trace_ok r1 (buys (tr_id r1) (?h @ fs)) 0 gs" by (cases res2) simp_all
    then have "log_ok s ((?h @ fs) @ gs)" by (rule trace_ok_log [OF _ ok1 g1 refl k1])
    then show ?thesis using w(4) by simp
  qed (use ok1 in simp)
qed (use assms in simp)

lemma step_log_ok: "log_ok s hist \<Longrightarrow> step s hist hist' \<Longrightarrow> log_ok s hist'"
  unfolding step_def
proof (elim disjE exE conjE)
  fix env risk tid m p res m' es fs
  assume "log_ok s hist" "get_record (store_of hist) tid = None"
    "start s env risk tid m (store_of hist) p = (res, m', es)" "prefix fs es" "hist' = hist @ fs"
  then show "log_ok s hist'" using start_log_ok log_ok_prefix by (metis append.assoc prefixE)
next
  fix env m r u m' es fs
  assume "log_ok s hist" "r \<in> set (list_open (store_of hist))" "tick_record s env m r = (u, m', es)"
    "prefix fs es" "hist' = hist @ fs"
  then show "log_ok s hist'" using tick_log_ok log_ok_prefix by (metis append.assoc prefixE)
qed

lemma reachable_log_ok: "reachable s hist \<Longrightarrow> log_ok s hist"
  by (induction rule: reachable.induct) (auto intro: step_log_ok)

lemma step_extends: "step s hist hist' \<Longrightarrow> \<exists>fs. hist' = hist @ fs"
  by (auto simp: step_def)

subsection \<open>Properties of the lifecycle\<close>

text \<open>C1 (never_submits_twice).
  In any run of the orchestrator, whatever the venues answer and wherever the process crashes
  and restarts, at most one buy order and at most one withdrawal is ever submitted for a
  transfer.\<close>

theorem never_submits_twice:
  assumes "reachable s hist"
  shows "buys tid hist \<le> 1 \<and> withdrawals tid hist \<le> 1"
  using log_ok_counts [OF reachable_log_ok [OF assms], of tid]
  by (cases "get_record (store_of hist) tid") (auto simp: record_counts_def)

text \<open>C3 (intent_persisted_before_submission).
  Whenever a buy order has been submitted, the table already held the transfer as
  BUY_SUBMITTED with a pending order carrying the same client order id; whenever a withdrawal
  has been submitted, the table already held the withdrawal intent with its address and
  amount. So a crash right after the submission always leaves something to resolve.\<close>

theorem intent_persisted_before_submission:
  assumes "reachable s (xs @ e # ys)"
  shows "(\<forall>tid req. e = EOrder tid req \<and> req_side req = BUY \<longrightarrow>
      (\<exists>r. get_record (store_of xs) tid = Some r \<and> buy_intent r req)) \<and>
    (\<forall>tid venue asset amt addr mm net. e = EWithdraw tid venue asset amt addr mm net \<longrightarrow>
      (\<exists>r. get_record (store_of xs) tid = Some r \<and> state r = WITHDRAW_SUBMITTED \<and>
         withdrawal_id r \<noteq> None \<and> deposit_address r = Some addr \<and>
         withdrawal_amount r = quantize 8 amt))"
proof -
  have "effect_ok s xs e"
    using reachable_log_ok [OF assms] unfolding log_ok_def by blast
  then show ?thesis by (auto simp: withdrawal_allowed_def split: option.splits)
qed


text \<open>C8 (open_transfers_capped).
  The number of open transfers in the table never exceeds the configured maximum in any run.\<close>

theorem open_transfers_capped:
  assumes "reachable s hist" "0 \<le> os_max_open_transfers s"
  shows "count_open (store_of hist) \<le> os_max_open_transfers s"
  using log_ok_capped [OF reachable_log_ok [OF assms(1)] assms(2)] .

text \<open>C6 (lifecycle_only_moves_forward).
  Later in a run a transfer is still in the table, at least as far along its lifecycle and with
  the plan it was started with; a closed transfer never changes again.\<close>

theorem lifecycle_only_moves_forward:
  assumes "reachable s (hist @ fs)" "get_record (store_of hist) tid = Some r"
  shows "\<exists>r'. get_record (store_of (hist @ fs)) tid = Some r' \<and>
    state_rank (state r) \<le> state_rank (state r') \<and> plan r' = plan r \<and>
    (\<not> state_is_open (state r) \<longrightarrow> r' = r)"
  using log_ok_extends [OF reachable_log_ok [OF assms(1)] assms(2)] by blast

lemma log_ok_failed:
  "log_ok s hist \<Longrightarrow> get_record (store_of hist) tid = Some r \<Longrightarrow> state r = FAILED \<Longrightarrow> nothing_bought r"
proof (induction hist arbitrary: r rule: rev_induct)
  case Nil
  then show ?case by (simp add: store_of_def get_record_def)
next
  case (snoc e hist)
  show ?case
  proof (cases "\<exists>q. e = ESave q \<and> tr_id q = tid")
    case True
    then have e: "e = ESave r" and id: "tr_id r = tid" using snoc.prems(2) by (auto simp: get_store_snoc)
    show ?thesis
      using snoc.prems e id forward_simps(6)
      by (cases "get_record (store_of hist) tid") (auto split: option.splits)
  next
    case False
    then have "get_record (store_of hist) tid = Some r"
      using snoc.prems(2) by (auto simp: get_store_snoc split: effect.splits if_splits)
    then show ?thesis using snoc by simp
  qed
qed

text \<open>C7 (bought_asset_never_abandoned).
  A transfer whose buy leg has filled never ends as FAILED: it can only complete or go to
  manual review. Conversely, a transfer that ended as FAILED has no confirmed buy.\<close>

theorem bought_asset_never_abandoned:
  assumes "reachable s (hist @ fs)" "get_record (store_of hist) tid = Some r"
    "get_record (store_of (hist @ fs)) tid = Some r'" "state r' = FAILED"
  shows "(state r = FAILED \<or> state r = CREATED \<or> state r = BUY_SUBMITTED) \<and> nothing_bought r'"
proof -
  note ok = reachable_log_ok [OF assms(1)]
  have "state_rank (state r) > 1 \<longrightarrow> state r = FAILED"
    using log_ok_extends [OF ok assms(2)] assms(3,4) by auto
  moreover have "state_rank (state r) \<le> 1 \<Longrightarrow> state r = CREATED \<or> state r = BUY_SUBMITTED"
    by (cases "state r") auto
  moreover have "nothing_bought r'" by (rule log_ok_failed [OF ok assms(3,4)])
  ultimately show ?thesis by fastforce
qed

subsection \<open>Interlocks\<close>

definition submits :: "effect \<Rightarrow> bool" where
  "submits e = (case e of EOrder _ _ \<Rightarrow> True | EWithdraw _ _ _ _ _ _ _ \<Rightarrow> True | _ \<Rightarrow> False)"

lemma fail_record_quiet [simp]:
  "fail_record env m r st reason = (res, m', es) \<Longrightarrow> e \<in> set es \<Longrightarrow> \<not> submits e"
  by (auto simp: fail_record_def Let_def submits_def)

lemma timeout_guard_quiet:
  "timeout_guard s env m r = (res, m', es) \<Longrightarrow> e \<in> set es \<Longrightarrow> \<not> submits e"
  by (auto simp: timeout_guard_def Let_def submits_def split: if_splits)

lemma polling_quiet:
  "check_withdrawal s env m r = (res, m', es) \<Longrightarrow> e \<in> set es \<Longrightarrow> \<not> submits e"
  "await_deposit s env m r = (res, m', es) \<Longrightarrow> e \<in> set es \<Longrightarrow> \<not> submits e"
  "finish s env m r = (res, m', es) \<Longrightarrow> e \<in> set es \<Longrightarrow> \<not> submits e"
  by (auto simp: check_withdrawal_def await_deposit_def finish_def Let_def submits_def
      dest: timeout_guard_quiet fail_record_quiet split: if_splits sum.splits option.splits)

text \<open>C9 (kill_switch_stops_submissions).
  While the kill switch is engaged nothing reaches a venue: a start raises and has no effect
  at all, and no tick submits an order or a withdrawal.\<close>

theorem kill_switch_stops_submissions:
  assumes "is_halted (env_guard env)"
  shows "start s env risk tid m repo p =
      (Inl (ExecutionDisabledError ''kill switch engaged''), m, []) \<and>
    (\<forall>e \<in> set (snd (snd (tick_record s env m r))). \<not> submits e)"
proof -
  have e: "ensure_can_trade (env_guard env) = Inl (ExecutionDisabledError ''kill switch engaged'')"
    using assms by (simp add: ensure_can_trade_def)
  obtain res m1 es where a: "advance s env m r = (res, m1, es)" by (cases "advance s env m r")
  have "\<forall>x \<in> set es. \<not> submits x"
    using a e polling_quiet
    by (cases "state r") (auto simp: advance_def execute_buy_def submit_withdrawal_def execute_sell_def)
  then have "\<forall>x \<in> set (snd (snd (tick_record s env m r))). \<not> submits x"
    using a by (cases res) (auto simp: tick_record_def Let_def submits_def)
  then show ?thesis using e by (simp add: start_def)
qed

text \<open>(refused_start_has_no_effect).
  A start that the risk check refuses, or for which no slot is free, raises and leaves table,
  wallets and venues untouched.\<close>

theorem refused_start_has_no_effect:
  assumes "\<not> is_halted (env_guard env)" "0 \<le> os_max_open_transfers s"
    "\<not> approved (chk p) \<or> os_max_open_transfers s \<le> count_open repo"
  shows "start s env (Some chk) tid m repo p =
    (Inl (ExecutionDisabledError ''transfer rejected by risk validation''), m, [])"
  using assms
  by (auto simp: start_def ensure_can_trade_def Let_def try_claim_new_open_slot_def)

subsection \<open>A whole tick\<close>

lemma trace_ok_other:
  "trace_ok r n k es \<Longrightarrow> tid \<noteq> tr_id r \<Longrightarrow>
   get_record (store_of (hist @ es)) tid = get_record (store_of hist) tid"
proof (induction r n k es arbitrary: hist rule: trace_ok.induct)
  case (2 r n k r' es)
  then show ?case using "2.IH" [of "hist @ [ESave r']"] by (simp add: get_store_snoc)
next
  case (3 r n k t req es)
  then show ?case
    using "3.IH"(1) [of "hist @ [EOrder t req]"] "3.IH"(2) [of "hist @ [EOrder t req]"]
    by (simp add: get_store_snoc split: if_splits)
next
  case (4 r n k t venue asset amt addr mm net es)
  then show ?case
    using "4.IH" [of "hist @ [EWithdraw t venue asset amt addr mm net]"] by (simp add: get_store_snoc)
next
  case (5 r n k a b es)
  then show ?case using "5.IH" [of "hist @ [EAudit a b]"] by (simp add: get_store_snoc)
qed simp

lemma tick_keeps_others:
  assumes "log_ok s hist" "r \<in> set (list_open (store_of hist))" "tick_record s env m r = (u, m', es)"
    "tid \<noteq> tr_id r"
  shows "get_record (store_of (hist @ es)) tid = get_record (store_of hist) tid"
proof -
  have get: "get_record (store_of hist) (tr_id r) = Some r" and op: "state_is_open (state r)"
    using assms(2) transfer_repo.opened_iff [OF store_of_ok] by blast+
  have "record_counts hist (tr_id r)" by (rule log_ok_counts [OF assms(1)])
  then have "trace_ok r (buys (tr_id r) hist) (withdrawals (tr_id r) hist) es"
    using get op by (intro tick_record_ok [OF _ _ op assms(3)]) (auto simp: record_counts_def)
  then show ?thesis by (rule trace_ok_other [OF _ assms(4)])
qed

lemma tick_loop_reachable:
  assumes "reachable s hist" "distinct (map tr_id rs)"
    "\<forall>r \<in> set rs. r \<in> set (list_open (store_of hist))" "tick_loop s envs i m rs = (adv, m', es)"
  shows "reachable s (hist @ es)"
  using assms
proof (induction rs arbitrary: hist i m adv es m')
  case (Cons r rs)
  obtain u m1 es1 where t: "tick_record s (envs i) m r = (u, m1, es1)" by (cases "tick_record s (envs i) m r")
  obtain adv2 m2 es2 where l: "tick_loop s envs (Suc i) m1 rs = (adv2, m2, es2)"
    by (cases "tick_loop s envs (Suc i) m1 rs")
  have op: "r \<in> set (list_open (store_of hist))" using Cons.prems(3) by simp
  then have "step s hist (hist @ es1)" unfolding step_def using t by blast
  then have reach: "reachable s (hist @ es1)" by (rule reachable_step [OF Cons.prems(1)])
  have "q \<in> set (list_open (store_of (hist @ es1)))" if q: "q \<in> set rs" for q
  proof -
    have "tr_id q \<noteq> tr_id r" using Cons.prems(2) q by (auto simp: image_iff)
    then have "get_record (store_of (hist @ es1)) (tr_id q) = get_record (store_of hist) (tr_id q)"
      by (rule tick_keeps_others [OF reachable_log_ok [OF Cons.prems(1)] op t])
    then show ?thesis
      using Cons.prems(3) q transfer_repo.opened_iff [OF store_of_ok] by auto
  qed
  then have "reachable s ((hist @ es1) @ es2)" using Cons.IH [OF reach _ _ l] Cons.prems(2) by simp
  moreover have "es = es1 @ es2" using Cons.prems(4) t l by simp
  ultimately show ?case by simp
qed simp

lemma distinct_open: "distinct (map tr_id (list_open (store_of hist)))"
proof -
  have ok: "distinct (map fst (store_of hist))" "\<forall>(k, r) \<in> set (store_of hist). tr_id r = k"
    using store_of_ok [of hist] by (auto simp: repo_ok_def dict_ok_def)
  have "map tr_id (map snd (store_of hist)) = map fst (store_of hist)"
    unfolding map_map using ok(2) by (intro map_cong) auto
  then have "distinct (map tr_id (open_rows (store_of hist)))"
    unfolding open_rows_def using ok(1) by (metis distinct_map_filter)
  then show ?thesis
    unfolding list_open_def by (simp add: distinct_map)
qed

text \<open>(whole_tick_is_a_run).
  A whole tick over all open transfers is a sequence of single-record steps: every record it
  processes is still the stored one when its turn comes, so what holds of all runs of single
  steps holds after every tick.\<close>

theorem whole_tick_is_a_run:
  assumes "reachable s hist" "tick s envs m (store_of hist) = (adv, m', es)"
  shows "reachable s (hist @ es)"
  using tick_loop_reachable [OF assms(1) distinct_open _ assms(2) [unfolded tick_def]] by simp

subsection \<open>Stuck transfers\<close>


subsection \<open>Paper settlement\<close>

lemma paper_fresh_book: "os_mode s = PAPER \<Longrightarrow> fresh_book s env m v symb = (res, m') \<Longrightarrow> m' = m"
  by (auto simp: fresh_book_def Let_def split: option.splits)

lemma asset_key_idem [simp]: "asset_key (asset_key a) = asset_key a"
  by (simp add: asset_key_def py_strip_upper)

lemma mk_symbol_keys:
  "mk_symbol b q None = Inr symb \<Longrightarrow> base symb = asset_key b \<and> quote symb = asset_key q"
  by (auto simp: mk_symbol_def normalise_def Let_def asset_key_def split: if_splits option.splits)

text \<open>A simulated sell that went through, with the wallet it moved.\<close>

lemma paper_sell_leg:
  assumes "os_mode s = PAPER" "dict_get (paper_wallets m) venue = Some w"
    "fill_leg s env m tid venue symb SELL (Some x) None None = ((Inr (f, order), m1, es), noted)"
    "0 < filled_amount order"
  obtains sf w1 where "f = Some sf" "filled_amount order = sf_filled_amount sf"
    "ord_status order = FILLED" "debit w (base symb) (sf_filled_amount sf) = Inr w1"
    "m1 = m\<lparr>paper_wallets := dict_set (paper_wallets m) venue (credit w1 (quote symb) (sf_quote_amount sf))\<rparr>"
proof -
  obtain bk m0 where bk: "fresh_book s env m venue symb = (bk, m0)" by (cases "fresh_book s env m venue symb")
  have m0: "m0 = m" by (rule paper_fresh_book [OF assms(1) bk])
  obtain book where book: "bk = Inr book" using assms(3) bk by (cases bk) (auto simp: fill_leg_def)
  have leg: "simulated_leg s env m book venue symb SELL (Some x) None = (Inr (f, order), m1)"
    using assms(1,3) bk m0 book by (auto simp: fill_leg_def leg_is_simulated_def split: prod.splits)
  obtain sf where sf: "simulate (os_sim s) book SELL (Some x) None = Inr sf"
    using leg by (auto simp: simulated_leg_def split: sum.splits)
  have acc: "\<not> sf_is_rejected sf"
    using leg sf assms(4) by (auto simp: simulated_leg_def leg_order_def new_order_def split: if_splits)
  obtain w1 where w1: "debit w (base symb) (sf_filled_amount sf) = Inr w1"
    using leg sf acc assms(2)
    by (cases "debit w (base symb) (sf_filled_amount sf)") (auto simp: simulated_leg_def apply_wallet_def)
  have "f = Some sf" "filled_amount order = sf_filled_amount sf" "ord_status order = FILLED"
    "m1 = m\<lparr>paper_wallets := dict_set (paper_wallets m) venue (credit w1 (quote symb) (sf_quote_amount sf))\<rparr>"
    using leg sf acc assms(2) w1
    by (auto simp: simulated_leg_def apply_wallet_def leg_order_def new_order_def)
  with w1 show thesis using that by blast
qed

lemma paper_finish:
  assumes "os_mode s = PAPER" "dict_get (paper_wallets m) (plan_dest (plan r)) = Some w"
    "finish s env m r = (Inr u, m', es)" "state u = COMPLETED"
  obtains w1 where "debit w (plan_asset (plan r)) (sell_filled_amount r) = Inr w1"
    "m' = m\<lparr>paper_wallets := dict_set (dict_set (paper_wallets m) (plan_dest (plan r)) w1)
       (plan_dest (plan r)) (credit w1 (base_currency s) (final_proceeds r))\<rparr>"
    "0 < final_proceeds r" "u = completed_record env r"
  using assms
  by (cases "debit w (plan_asset (plan r)) (sell_filled_amount r)")
    (auto simp: finish_def debit_wallet_def credit_wallet_def fail_record_def Let_def not_le split: if_splits)

text \<open>(paper_sell_settles_twice).
  In PAPER mode a completed sell is booked twice in the destination wallet: the asset that was
  sold is debited once by the simulated fill and once more when the transfer is finished, and
  the proceeds are credited both times.\<close>

theorem paper_sell_settles_twice:
  assumes "os_mode s = PAPER" "mk_symbol (plan_asset (plan r)) (base_currency s) None = Inr symb"
    "asset_key (plan_asset (plan r)) \<noteq> asset_key (base_currency s)"
    "dict_get (paper_wallets m) (plan_dest (plan r)) = Some w"
    "execute_sell s env m r = (Inr u, m', es)" "state u = COMPLETED"
  shows "\<exists>(sf :: SimulatedFill) w'. dict_get (paper_wallets m') (plan_dest (plan r)) = Some w' \<and>
    0 < sf_filled_amount sf \<and> sell_filled_amount u = sf_filled_amount sf \<and>
    free w' (plan_asset (plan r)) =
      dsub (dsub (free w (plan_asset (plan r))) (sf_filled_amount sf)) (sf_filled_amount sf) \<and>
    (0 < quantize 8 (sf_quote_amount sf) \<longrightarrow> free w' (base_currency s) =
      dadd (dadd (free w (base_currency s)) (sf_quote_amount sf)) (quantize 8 (sf_quote_amount sf)))"
proof -
  let ?a = "plan_asset (plan r)" and ?q = "base_currency s" and ?v = "plan_dest (plan r)"
  have keys: "asset_key (base symb) = asset_key ?a" "asset_key (quote symb) = asset_key ?q"
    using mk_symbol_keys [OF assms(2)] by simp_all
  have top: "top_up_wallet s m r = m" using assms(1,4) by (simp add: top_up_wallet_def)
  obtain res m1 es1 noted where leg: "fill_leg s env m (tr_id r) ?v symb SELL (Some (deposit_amount r))
      None None = ((res, m1, es1), noted)" by (metis prod.exhaust)
  obtain f order where fo: "res = Inr (f, order)"
    using assms(2,5,6) leg top
    by (auto simp: execute_sell_def fail_record_def after_effects_def Let_def
        split: sum.splits exn.splits if_splits)
  define r1 where "r1 = sell_submitted env r order (leg_proceeds symb f order)"
  have fin: "0 < filled_amount order" "\<exists>es2. finish s env m1 r1 = (Inr u, m', es2)"
    using assms(2,5,6) leg top fo
    by (auto simp: execute_sell_def fail_record_def after_effects_def Let_def r1_def not_le
        split: sum.splits exn.splits if_splits prod.splits)
  obtain sf w1 where sf: "f = Some sf" "filled_amount order = sf_filled_amount sf"
    "debit w (base symb) (sf_filled_amount sf) = Inr w1"
    "m1 = m\<lparr>paper_wallets := dict_set (paper_wallets m) ?v (credit w1 (quote symb) (sf_quote_amount sf))\<rparr>"
    using paper_sell_leg [OF assms(1,4) leg [unfolded fo] fin(1)] by metis
  let ?w = "credit w1 (quote symb) (sf_quote_amount sf)"
  have r1: "plan r1 = plan r" "sell_filled_amount r1 = sf_filled_amount sf"
    by (simp_all add: r1_def sf sell_submitted_def)
  have get1: "dict_get (paper_wallets m1) (plan_dest (plan r1)) = Some ?w" using sf(4) r1 by simp
  obtain w2 where w2: "debit ?w ?a (sf_filled_amount sf) = Inr w2"
    "dict_get (paper_wallets m') ?v = Some (credit w2 ?q (final_proceeds r1))"
    "0 < final_proceeds r1" "u = completed_record env r1"
    using fin(2) paper_finish [OF assms(1) get1 _ assms(6)] r1 by (metis (no_types, lifting)
        Mem.select_convs(1) Mem.surjective Mem.update_convs(1) dict_get_set)
  have pos: "0 < sf_filled_amount sf" using fin(1) sf(2) by simp
  have asset: "free (credit w2 ?q (final_proceeds r1)) ?a =
      dsub (dsub (free w ?a) (sf_filled_amount sf)) (sf_filled_amount sf)"
  proof -
    have "free w1 ?a = dsub (free w ?a) (sf_filled_amount sf)"
      using paper.bal_pay [OF sf(3), of ?a] keys pos by (simp add: free_def)
    then have "free ?w ?a = dsub (free w ?a) (sf_filled_amount sf)"
      using paper.bal_put [of w1 "quote symb" "sf_quote_amount sf" ?a] keys assms(3) by auto
    then have "free w2 ?a = dsub (dsub (free w ?a) (sf_filled_amount sf)) (sf_filled_amount sf)"
      using paper.bal_pay [OF w2(1), of ?a] pos by simp
    then show ?thesis using paper.bal_put [of w2 ?q "final_proceeds r1" ?a] assms(3) by auto
  qed
  have quot: "free (credit w2 ?q (final_proceeds r1)) ?q =
      dadd (dadd (free w ?q) (sf_quote_amount sf)) (quantize 8 (sf_quote_amount sf))"
    if q8: "0 < quantize 8 (sf_quote_amount sf)"
  proof -
    have q: "0 < sf_quote_amount sf"
      using q8 quantize_mono [of "sf_quote_amount sf" 0 8] by (auto simp: not_less [symmetric])
    have "free w1 ?q = free w ?q"
      using paper.bal_pay [OF sf(3), of ?q] keys assms(3) by auto
    then have "free ?w ?q = dadd (free w ?q) (sf_quote_amount sf)"
      using paper.bal_put [of w1 "quote symb" "sf_quote_amount sf" ?q] keys q by (simp add: free_def)
    then have "free w2 ?q = dadd (free w ?q) (sf_quote_amount sf)"
      using paper.bal_pay [OF w2(1), of ?q] assms(3) by auto
    moreover have "final_proceeds r1 = quantize 8 (sf_quote_amount sf)"
    proof -
      have "sell_proceeds_quote r1 = quantize 8 (sf_quote_amount sf)"
        using q by (simp add: r1_def sell_submitted_def leg_proceeds_def sf)
      then show ?thesis using q8 by (simp add: final_proceeds_def)
    qed
    ultimately show ?thesis
      using paper.bal_put [of w2 ?q "final_proceeds r1" ?q] w2(3) by simp
  qed
  have "sell_filled_amount u = sf_filled_amount sf"
    by (simp add: w2(4) completed_record_def r1)
  then show ?thesis using w2(2) pos asset quot
    by - (rule exI [of _ sf], rule exI [of _ "credit w2 ?q (final_proceeds r1)"], simp)
qed

end
