(* ===== verification/Trade_Models.thy ===== *)
theory Trade_Models
  imports Risk
begin

text \<open>
  Arbitrage opportunities and trade records (\<^verbatim>\<open>app/models/arbitrage.py\<close>,
  \<^verbatim>\<open>app/models/trade.py\<close>) and the trade table
  (\<^verbatim>\<open>TradeRepository\<close> of \<^verbatim>\<open>app/storage/repositories.py\<close>). Times
  are microseconds; the table is a dictionary of committed rows. The sum of realised results
  is computed by the database and is not modelled; an opportunity's generated id and its
  transport latency, which only reports read, are left out, and every leg is on a spot market.
\<close>

subsection \<open>Arbitrage models\<close>

datatype OpportunityStatus =
    DETECTED | VALIDATED | OPP_REJECTED | OPP_EXPIRED | OPP_EXECUTING | OPP_COMPLETED

record ArbitrageLeg =
  leg_exchange_id :: string
  leg_symbol :: Symbol
  leg_side :: OrderSide
  leg_price :: decimal
  leg_amount :: decimal
  leg_fee_bps :: decimal
  leg_estimate :: "ExecutionEstimate option"

definition leg_notional :: "ArbitrageLeg \<Rightarrow> decimal" where
  "leg_notional l = dmul (leg_price l) (leg_amount l)"

definition leg_slippage_bps :: "ArbitrageLeg \<Rightarrow> decimal" where
  "leg_slippage_bps l = (case leg_estimate l of Some e \<Rightarrow> est_slippage_bps e | None \<Rightarrow> 0)"

definition leg_fill_ratio :: "ArbitrageLeg \<Rightarrow> decimal" where
  "leg_fill_ratio l = (case leg_estimate l of Some e \<Rightarrow> estimate_fill_ratio e | None \<Rightarrow> 0)"

record ProfitBreakdown =
  pb_notional_quote :: decimal
  pb_gross_spread_bps :: decimal
  pb_trading_fees_bps :: decimal
  pb_slippage_bps :: decimal
  pb_transfer_bps :: decimal

definition pb_total_costs_bps :: "ProfitBreakdown \<Rightarrow> decimal" where
  "pb_total_costs_bps p =
     dadd (dadd (pb_trading_fees_bps p) (pb_slippage_bps p)) (pb_transfer_bps p)"

definition pb_net_profit_bps :: "ProfitBreakdown \<Rightarrow> decimal" where
  "pb_net_profit_bps p = dsub (pb_gross_spread_bps p) (pb_total_costs_bps p)"

definition pb_gross_profit_quote :: "ProfitBreakdown \<Rightarrow> decimal" where
  "pb_gross_profit_quote p = ddiv (dmul (pb_notional_quote p) (pb_gross_spread_bps p)) 10000"

definition pb_net_profit_quote :: "ProfitBreakdown \<Rightarrow> decimal" where
  "pb_net_profit_quote p = ddiv (dmul (pb_notional_quote p) (pb_net_profit_bps p)) 10000"

definition pb_is_profitable :: "ProfitBreakdown \<Rightarrow> bool" where
  "pb_is_profitable p \<longleftrightarrow> pb_net_profit_bps p > 0"

record ArbitrageOpportunity =
  opp_strategy :: ArbitrageStrategy
  opp_symbol :: Symbol
  buy_leg :: ArbitrageLeg
  sell_leg :: ArbitrageLeg
  opp_profit :: ProfitBreakdown
  opp_status :: OpportunityStatus
  opp_max_notional_quote :: decimal
  opp_data_age_ms :: rat
  detected_at :: int
  expires_at :: "int option"
  opp_notes :: "string list"
  opp_risk_violations :: "RiskViolation list"
  size_notional_quote :: decimal
  direction :: "string option"
  legs_route :: "ArbitrageLeg list"

definition opp_is_expired :: "ArbitrageOpportunity \<Rightarrow> int \<Rightarrow> bool" where
  "opp_is_expired x now = (case expires_at x of None \<Rightarrow> False | Some t \<Rightarrow> now \<ge> t)"

definition opp_is_actionable :: "ArbitrageOpportunity \<Rightarrow> int \<Rightarrow> bool" where
  "opp_is_actionable x now \<longleftrightarrow>
     pb_is_profitable (opp_profit x) \<and> \<not> opp_is_expired x now \<and>
     opp_status x \<in> set [DETECTED, VALIDATED]"

definition opp_exchange_ids :: "ArbitrageOpportunity \<Rightarrow> string list" where
  "opp_exchange_ids x =
     (if leg_exchange_id (buy_leg x) = leg_exchange_id (sell_leg x) then [leg_exchange_id (buy_leg x)]
      else [leg_exchange_id (buy_leg x), leg_exchange_id (sell_leg x)])"

definition opp_with_status ::
  "ArbitrageOpportunity \<Rightarrow> OpportunityStatus \<Rightarrow> string option \<Rightarrow> RiskViolation list \<Rightarrow>
   ArbitrageOpportunity" where
  "opp_with_status x status note vs =
     (let x1 = x\<lparr>opp_status := status,
                 opp_notes := (if truthy_str note then opp_notes x @ [the note] else opp_notes x)\<rparr>
      in if vs = [] then x1 else x1\<lparr>opp_risk_violations := vs\<rparr>)"

lemma opp_with_status_actionable:
  "opp_is_actionable (opp_with_status x VALIDATED note vs) now \<longleftrightarrow>
     pb_is_profitable (opp_profit x) \<and> \<not> opp_is_expired x now"
  "\<not> opp_is_actionable (opp_with_status x OPP_REJECTED note vs) now"
  by (simp_all add: opp_with_status_def opp_is_actionable_def opp_is_expired_def Let_def)

subsection \<open>Trade records\<close>

record TradeRecord =
  trd_id :: string
  trd_strategy :: ArbitrageStrategy
  trd_mode :: TradingMode
  trd_exchange_id :: string
  trd_route :: string
  trd_symbols :: "string list"
  input_amount :: decimal
  output_amount :: decimal
  trd_fees_quote :: decimal
  trd_slippage_bps :: decimal
  net_profit :: decimal
  trd_net_profit_bps :: decimal
  trd_status :: TradeStatus
  trd_orders :: "order_json list"
  trd_error :: "string option"
  trd_transfer_id :: "string option"
  trd_created_at :: int
  trd_updated_at :: int

definition new_trade ::
  "string \<Rightarrow> ArbitrageStrategy \<Rightarrow> TradingMode \<Rightarrow> string \<Rightarrow> string \<Rightarrow> TradeStatus \<Rightarrow> int \<Rightarrow> TradeRecord" where
  "new_trade tid strat md venue route st now =
     \<lparr>trd_id = tid, trd_strategy = strat, trd_mode = md, trd_exchange_id = venue, trd_route = route,
      trd_symbols = [], input_amount = 0, output_amount = 0, trd_fees_quote = 0,
      trd_slippage_bps = 0, net_profit = 0, trd_net_profit_bps = 0, trd_status = st,
      trd_orders = [], trd_error = None, trd_transfer_id = None, trd_created_at = now,
      trd_updated_at = now\<rparr>"

definition trade_is_terminal :: "TradeRecord \<Rightarrow> bool" where
  "trade_is_terminal t \<longleftrightarrow> trd_status t \<in> set [T_COMPLETED, T_FAILED, T_MANUAL_REVIEW]"

definition trade_with_status :: "TradeRecord \<Rightarrow> int \<Rightarrow> TradeStatus \<Rightarrow> TradeRecord" where
  "trade_with_status t now st = t\<lparr>trd_status := st, trd_updated_at := now\<rparr>"

lemma trade_with_status_simps [simp]:
  "trd_id (trade_with_status t now st) = trd_id t"
  "trd_status (trade_with_status t now st) = st"
  "trd_orders (trade_with_status t now st) = trd_orders t"
  "trd_exchange_id (trade_with_status t now st) = trd_exchange_id t"
  "input_amount (trade_with_status t now st) = input_amount t"
  by (simp_all add: trade_with_status_def)

lemma trade_is_terminal_iff: "trade_is_terminal t \<longleftrightarrow> trd_status t \<noteq> EXECUTING"
  by (cases "trd_status t") (auto simp: trade_is_terminal_def)

subsection \<open>The trade table\<close>

type_synonym trade_repo = "(string, TradeRecord) dict"

definition save_trade :: "trade_repo \<Rightarrow> TradeRecord \<Rightarrow> trade_repo" where
  "save_trade repo t = dict_set repo (trd_id t) t"

definition get_trade :: "trade_repo \<Rightarrow> string \<Rightarrow> TradeRecord option" where
  "get_trade repo tid = dict_get repo tid"

definition list_executing :: "trade_repo \<Rightarrow> TradeRecord list" where
  "list_executing repo =
     sort_key trd_created_at (filter (\<lambda>t. trd_status t = EXECUTING) (map snd repo))"

definition list_recent_trades :: "trade_repo \<Rightarrow> nat \<Rightarrow> TradeRecord list" where
  "list_recent_trades repo limit = take limit (sort_key (\<lambda>t. - trd_created_at t) (map snd repo))"

text \<open>Every trade is stored under its own id, once.\<close>

definition trades_ok :: "trade_repo \<Rightarrow> bool" where
  "trades_ok repo \<longleftrightarrow> dict_ok repo \<and> (\<forall>(k, t) \<in> set repo. trd_id t = k)"

lemma get_save_trade [simp]:
  "get_trade (save_trade repo t) k = (if k = trd_id t then Some t else get_trade repo k)"
  by (simp add: get_trade_def save_trade_def)

lemma trades_ok_save [simp]: "trades_ok repo \<Longrightarrow> trades_ok (save_trade repo t)"
  by (auto simp: trades_ok_def save_trade_def dest!: dict_set_mem)

lemma list_executing_iff:
  "trades_ok repo \<Longrightarrow> t \<in> set (list_executing repo) \<longleftrightarrow>
     get_trade repo (trd_id t) = Some t \<and> trd_status t = EXECUTING"
  by (force simp: list_executing_def trades_ok_def get_trade_def dict_get_in_iff)

end
