(* ===== verification/Precision_Filters.thy ===== *)
theory Precision_Filters
  imports Order_Models
begin

text \<open>
  \<^verbatim>\<open>app/execution/precision.py\<close>: rounding orders onto the instrument grid. The theory
  shows when \<open>round_step_down\<close> is the exact floor onto the step (steps and values with
  at most eight decimals), that it can exceed its argument for finer steps, and what an
  accepted order guarantees.
\<close>

record InstrumentFilters =
  amount_step :: "decimal option"
  price_tick :: "decimal option"
  min_amount :: "decimal option"
  min_cost :: "decimal option"
  contract_size :: "decimal option"

definition filters_from_market ::
  "MarketPrecision option \<Rightarrow> MarketLimits option \<Rightarrow> decimal option \<Rightarrow> InstrumentFilters" where
  "filters_from_market precision limits csize =
     (let p = opt_or precision
            \<lparr>prec_price = None, prec_amount = None, prec_price_tick = None, prec_amount_step = None\<rparr>;
          l = opt_or limits \<lparr>lim_min_amount = None, lim_min_cost = None\<rparr>
      in \<lparr>amount_step = resolved_amount_step p, price_tick = resolved_price_tick p,
          min_amount = lim_min_amount l, min_cost = lim_min_cost l, contract_size = csize\<rparr>)"

definition round_step_down :: "decimal \<Rightarrow> decimal option \<Rightarrow> decimal" where
  "round_step_down value step =
     (case step of None \<Rightarrow> value
      | Some s \<Rightarrow>
          if s \<le> 0 then value
          else let steps = to_integral_floor (ddiv value s) in quantize 8 (dmul steps s))"

record PrecisionProvider =
  by_venue :: "(string \<times> string, InstrumentFilters) dict"
  by_symbol :: "(string, InstrumentFilters) dict"

definition filters_for :: "PrecisionProvider \<Rightarrow> string \<Rightarrow> string \<Rightarrow> InstrumentFilters option" where
  "filters_for pp exchange_id sname =
     (case dict_get (by_venue pp) (py_lower exchange_id, sname) of
        Some f \<Rightarrow> Some f
      | None \<Rightarrow> dict_get (by_symbol pp) sname)"

text \<open>Whole contracts only.\<close>

definition whole_contracts :: "decimal \<Rightarrow> decimal option \<Rightarrow> decimal" where
  "whole_contracts amt csize =
     (case csize of None \<Rightarrow> amt
      | Some c \<Rightarrow>
          if c > 1 then let contracts = to_integral_floor (ddiv amt c) in quantize 8 (dmul contracts c)
          else amt)"

definition apply_filters ::
  "OrderRequest \<Rightarrow> InstrumentFilters option \<Rightarrow> decimal \<Rightarrow> OrderRequest \<times> string option" where
  "apply_filters request filters reference_price =
     (case filters of None \<Rightarrow> (request, None)
      | Some f \<Rightarrow>
          (let amt = round_step_down (whole_contracts (req_amount request) (contract_size f))
                       (amount_step f);
               notional = dmul amt reference_price
           in if (case min_amount f of None \<Rightarrow> False | Some m \<Rightarrow> amt < m)
              then (request, Some ''below_min_amount'')
              else if (case min_cost f of None \<Rightarrow> False | Some m \<Rightarrow> notional < m)
              then (request, Some ''below_min_notional'')
              else if amt \<le> 0 then (request, Some ''below_min_amount'')
              else
                (let updated = request\<lparr>req_amount := amt\<rparr>
                 in (case (req_price request, price_tick f) of
                       (Some p, Some t) \<Rightarrow> updated\<lparr>req_price := Some (round_step_down p (Some t))\<rparr>
                     | _ \<Rightarrow> updated, None))))"

subsection \<open>Rounding onto the step\<close>

lemma floor_times_grid:
  assumes "on_grid 8 v" "0 \<le> v" "v < 10 ^ 18" "on_grid 8 s" "0 < s"
  shows "quantize 8 (dmul (to_integral_floor (ddiv v s)) s) = of_int \<lfloor>v / s\<rfloor> * s"
proof -
  let ?n = "\<lfloor>v / s\<rfloor>"
  have n: "to_integral_floor (ddiv v s) = of_int ?n"
    using floor_ddiv_grid [OF assms] by (simp add: to_integral_floor_def)
  have n0: "0 \<le> ?n" using assms by simp
  have le: "of_int ?n * s \<le> v"
    using assms(5) by (metis floor_correct le_divide_eq of_int_floor_le not_less)
  have "on_grid 0 (of_int ?n)" by (simp add: on_grid_def)
  from on_grid_mult [OF this assms(4)] have g: "on_grid 8 (of_int ?n * s)" by simp
  have "dmul (of_int ?n) s = of_int ?n * s"
    unfolding dmul_def using g le n0 assms by (intro fix28_grid8) auto
  then show ?thesis using g by (simp add: n quantize_grid)
qed

lemma round_step_down_grid:
  assumes "on_grid 8 v" "0 \<le> v" "v < 10 ^ 18" "on_grid 8 s" "0 < s"
  shows "round_step_down v (Some s) = of_int \<lfloor>v / s\<rfloor> * s"
  using floor_times_grid [OF assms] assms(5) by (simp add: round_step_down_def Let_def)

lemma floor_times_bounds:
  assumes "0 < (s::rat)"
  shows "of_int \<lfloor>v / s\<rfloor> * s \<le> v" "v < of_int \<lfloor>v / s\<rfloor> * s + s"
proof -
  have "of_int \<lfloor>v / s\<rfloor> \<le> v / s" "v / s < of_int \<lfloor>v / s\<rfloor> + 1" by linarith+
  with assms show "of_int \<lfloor>v / s\<rfloor> * s \<le> v" "v < of_int \<lfloor>v / s\<rfloor> * s + s"
    by (simp_all add: le_divide_eq divide_less_eq distrib_right)
qed

definition step_grid :: "decimal option \<Rightarrow> bool" where
  "step_grid s = (case s of None \<Rightarrow> True | Some x \<Rightarrow> on_grid 8 x)"

lemma round_step_down_le:
  assumes "on_grid 8 v" "0 \<le> v" "v < 10 ^ 18" "step_grid s"
  shows "round_step_down v s \<le> v" "0 \<le> round_step_down v s" "on_grid 8 (round_step_down v s)"
proof -
  have "round_step_down v s \<le> v \<and> 0 \<le> round_step_down v s \<and> on_grid 8 (round_step_down v s)"
  proof (cases s)
    case None
    then show ?thesis using assms by (simp add: round_step_down_def)
  next
    case (Some x)
    show ?thesis
    proof (cases "x \<le> 0")
      case True
      then show ?thesis using Some assms by (simp add: round_step_down_def)
    next
      case False
      then have x: "0 < x" "on_grid 8 x" using Some assms by (auto simp: step_grid_def)
      have e: "round_step_down v s = of_int \<lfloor>v / x\<rfloor> * x"
        unfolding Some using assms x by (intro round_step_down_grid) auto
      have "on_grid 8 (round_step_down v s)"
        using x Some by (simp add: round_step_down_def Let_def)
      then show ?thesis using e floor_times_bounds(1) [OF x(1), of v] assms(2) x by simp
    qed
  qed
  then show "round_step_down v s \<le> v" "0 \<le> round_step_down v s" "on_grid 8 (round_step_down v s)"
    by auto
qed

lemma whole_contracts_le:
  assumes "on_grid 8 v" "0 \<le> v" "v < 10 ^ 18" "step_grid c"
  shows "whole_contracts v c \<le> v" "0 \<le> whole_contracts v c" "on_grid 8 (whole_contracts v c)"
proof -
  have "whole_contracts v c = v \<or> whole_contracts v c = round_step_down v c"
    by (auto simp: whole_contracts_def round_step_down_def split: option.splits)
  then show "whole_contracts v c \<le> v" "0 \<le> whole_contracts v c" "on_grid 8 (whole_contracts v c)"
    using round_step_down_le [OF assms] assms by auto
qed

text \<open>(round_step_down_floor).
  For values and steps with at most eight decimals (and values below \<open>10 ^ 18\<close>),
  \<open>round_step_down\<close> returns a multiple of the step that does not exceed the value and is
  less than one step below it.\<close>

theorem round_step_down_floor:
  assumes "on_grid 8 v" "0 \<le> v" "v < 10 ^ 18" "on_grid 8 s" "0 < s"
  shows "\<exists>n. round_step_down v (Some s) = of_int n * s \<and>
    round_step_down v (Some s) \<le> v \<and> v < round_step_down v (Some s) + s"
  using round_step_down_grid [OF assms] floor_times_bounds [OF assms(5), of v] by auto

theorem round_step_down_floor_witness:
  "\<exists>n. round_step_down (1234 / 1000) (Some (1 / 100)) = of_int n * (1 / 100) \<and>
    round_step_down (1234 / 1000) (Some (1 / 100)) \<le> 1234 / 1000 \<and>
    1234 / 1000 < round_step_down (1234 / 1000) (Some (1 / 100)) + 1 / 100"
  using round_step_down_floor [of "1234 / 1000" "1 / 100"] by (simp add: on_grid_def)

text \<open>(round_step_down_overshoots).
  With a step finer than the eight-place quantum the final quantisation rounds half to even,
  and the result exceeds the value it should not exceed.\<close>

theorem round_step_down_overshoots:
  "round_step_down (19 / 10 ^ 9) (Some (1 / 10 ^ 9)) = 2 / 10 ^ 8 \<and>
   19 / 10 ^ 9 < round_step_down (19 / 10 ^ 9) (Some (1 / 10 ^ 9))"
  by (simp add: round_step_down_def dec_eval)

lemma request_restore: "r\<lparr>req_amount := req_amount r, req_price := req_price r\<rparr> = r"
  by (cases r) simp

text \<open>(apply_filters_sound).
  An order accepted by the filters is no larger than requested, is positive, clears the
  venue minimums at the reference price and keeps every field but amount and price; a
  rejected order is returned unchanged.\<close>

theorem apply_filters_sound:
  assumes "apply_filters request (Some f) ref = (r, reason)"
    "on_grid 8 (req_amount request)" "0 \<le> req_amount request" "req_amount request < 10 ^ 18"
    "step_grid (amount_step f)" "step_grid (contract_size f)"
  shows "if reason = None
    then 0 < req_amount r \<and> req_amount r \<le> req_amount request \<and>
      (\<forall>m. min_amount f = Some m \<longrightarrow> m \<le> req_amount r) \<and>
      (\<forall>m. min_cost f = Some m \<longrightarrow> m \<le> dmul (req_amount r) ref) \<and>
      r\<lparr>req_amount := req_amount request, req_price := req_price request\<rparr> = request
    else r = request"
proof -
  define amt where "amt = round_step_down (whole_contracts (req_amount request) (contract_size f)) (amount_step f)"
  note w = whole_contracts_le [OF assms(2,3,4,6)]
  have "whole_contracts (req_amount request) (contract_size f) < 10 ^ 18"
    using w(1) assms(4) by linarith
  then have le: "amt \<le> req_amount request"
    using round_step_down_le(1) [OF w(3,2) _ assms(5)] w(1) unfolding amt_def by linarith
  show ?thesis
    using assms(1) [unfolded apply_filters_def option.case Let_def, folded amt_def] le
    by (auto simp: request_restore split: if_splits option.splits)
qed

definition sample_request :: OrderRequest where
  "sample_request = \<lparr>req_exchange_id = ''okx'',
     req_symbol = \<lparr>base = ''BTC'', quote = ''USDT'', settle = None\<rparr>, req_side = BUY,
     req_order_type = MARKET, req_amount = 1234 / 1000, req_price = None,
     req_client_order_id = ''cat1''\<rparr>"

definition sample_filters :: InstrumentFilters where
  "sample_filters = \<lparr>amount_step = Some (1 / 100), price_tick = None, min_amount = Some (1 / 10),
     min_cost = Some 5, contract_size = None\<rparr>"

theorem apply_filters_sound_witness:
  "apply_filters sample_request (Some sample_filters) 10 =
     (sample_request\<lparr>req_amount := 123 / 100\<rparr>, None) \<and>
   5 \<le> dmul (123 / 100) (10::rat)"
proof -
  have e: "apply_filters sample_request (Some sample_filters) 10 =
      (sample_request\<lparr>req_amount := 123 / 100\<rparr>, None)"
    by (simp add: apply_filters_def sample_request_def sample_filters_def whole_contracts_def
        round_step_down_def dec_eval)
  show ?thesis
    using apply_filters_sound [OF e] e
    by (simp add: sample_request_def sample_filters_def on_grid_def step_grid_def)
qed

end
