(* ===== verification/Triangle_Executor.thy ===== *)
theory Triangle_Executor
  imports Trade_Models Transfer_Orchestrator Precision_Filters
begin

text \<open>
  The triangle executor (\<^verbatim>\<open>app/strategies/triangular/executor.py\<close>): three market
  orders in sequence on one venue, with an unwind when a later leg fails, and the resolution of
  interrupted trades after a restart.

  As in the transfer orchestrator, a function returns its result or the exception it raises,
  the new memory and its effects in order. The execution of a cycle spans several calls to the
  venue, so the environment is indexed: \<open>envs 0\<close> for the preview and the capital check,
  \<open>envs 1\<close> to \<open>envs 3\<close> for the legs, \<open>envs 4\<close> for an unwind and
  \<open>envs 5\<close> for the end; the guard, the clock and the answers of the venue may differ
  between them. The settings extend those of the orchestrator, which reads the same settings
  object and shares the fill simulator, the market data and the paper wallets.
\<close>

subsection \<open>Settings and effects\<close>

record TriSettings = OrchSettings +
  min_net_at_execute_bps :: decimal
  tri_precision :: "PrecisionProvider option"

datatype trade_effect =
    TSave TradeRecord
  | TAudit string string
  | TOrder string OrderRequest

type_synonym 'a trun = "(exn, 'a) result \<times> Mem \<times> trade_effect list"

definition trun_bind :: "'a trun \<Rightarrow> ('a \<Rightarrow> Mem \<Rightarrow> 'b trun) \<Rightarrow> 'b trun" where
  "trun_bind x f =
     (case x of
        (Inl e, m, es) \<Rightarrow> (Inl e, m, es)
      | (Inr v, m, es) \<Rightarrow> (case f v m of (r, m', fs) \<Rightarrow> (r, m', es @ fs)))"

text \<open>\<^verbatim>\<open>xs[i]\<close> for a constant \<open>i\<close>.\<close>

definition py_index :: "'a list \<Rightarrow> nat \<Rightarrow> (exn, 'a) result" where
  "py_index xs i = (if i < length xs then Inr (xs ! i) else Inl (OtherError ''IndexError''))"

subsection \<open>Records of a trade\<close>

fun json_client_order_id :: "order_json \<Rightarrow> string option" where
  "json_client_order_id (JOrder ord1) = client_order_id ord1"
| "json_client_order_id (JBroken _) = None"

fun replace_first :: "('a \<Rightarrow> bool) \<Rightarrow> 'a \<Rightarrow> 'a list \<Rightarrow> 'a list" where
  "replace_first P y [] = [y]"
| "replace_first P y (x # xs) = (if P x then y # xs else x # replace_first P y xs)"

definition absorb_order :: "int \<Rightarrow> TradeRecord \<Rightarrow> Order \<Rightarrow> TradeRecord" where
  "absorb_order now t order =
     (let payload = order_to_json order;
          ords = (if truthy_str (client_order_id order)
                  then replace_first (\<lambda>x. json_client_order_id x = client_order_id order) payload
                         (trd_orders t)
                  else trd_orders t @ [payload])
      in t\<lparr>trd_orders := ords, trd_updated_at := now\<rparr>)"

definition placeholder_order :: "int \<Rightarrow> OrderRequest \<Rightarrow> Order" where
  "placeholder_order now req =
     (leg_order (req_exchange_id req) (req_symbol req) (req_side req) PENDING (req_amount req) now)
       \<lparr>ord_order_type := req_order_type req, client_order_id := Some (req_client_order_id req)\<rparr>"

definition noted_trade :: "Env \<Rightarrow> TradeRecord \<Rightarrow> OrderRequest \<Rightarrow> TradeRecord" where
  "noted_trade env t req = absorb_order (env_now env) t (placeholder_order (env_now env) req)"

text \<open>The orders whose fill is confirmed: the inventory held when the text is not empty.\<close>

definition held_inventory :: "order_json list \<Rightarrow> Order list" where
  "held_inventory payloads =
     filter is_confirmed_fill (List.map_filter (\<lambda>p. order_from_json (Some p)) payloads)"

definition fail_trade :: "Env \<Rightarrow> TradeRecord \<Rightarrow> string \<Rightarrow> TradeRecord" where
  "fail_trade env t reason = (trade_with_status t (env_now env) T_FAILED)\<lparr>trd_error := Some reason\<rparr>"

definition review_trade :: "Env \<Rightarrow> TradeRecord \<Rightarrow> string \<Rightarrow> TradeRecord" where
  "review_trade env t reason =
     (trade_with_status t (env_now env) T_MANUAL_REVIEW)\<lparr>trd_error := Some reason\<rparr>"

definition interrupted :: "Env \<Rightarrow> TradeRecord \<Rightarrow> string \<Rightarrow> TradeRecord" where
  "interrupted env t reason =
     (if held_inventory (trd_orders t) \<noteq> [] then review_trade env t reason
      else fail_trade env t reason)"

text \<open>A view of a confirmed venue order as a fill.\<close>

definition venue_fill_view :: "Order \<Rightarrow> SimulatedFill option" where
  "venue_fill_view order =
     (if filled_amount order \<le> 0 then None
      else if \<not> is_confirmed_fill order then None
      else (case average_price order of
              None \<Rightarrow> None
            | Some average \<Rightarrow>
                if average \<le> 0 then None
                else
                  (let filled = filled_amount order;
                       fee = fee_paid order;
                       fee_in_base = (if fee_currency order = Some (base (ord_symbol order)) then fee else 0);
                       fee_in_quote = (if fee_currency order = Some (quote (ord_symbol order)) then fee else 0);
                       report = dadd fee_in_quote (dmul fee_in_base average);
                       gross = dmul filled average;
                       ratio = quantize 6 (if ord_amount order > 0 then ddiv filled (ord_amount order) else 1)
                   in Some
                        \<lparr>sf_side = ord_side order, sf_symbol = ord_symbol order,
                         sf_filled_amount = (if ord_side order = BUY then quantize 8 (dsub filled fee_in_base)
                                             else filled),
                         sf_quote_amount = quantize 8 (if ord_side order = BUY then dadd gross fee_in_quote
                                                       else dsub gross fee_in_quote),
                         sf_average_price = average, sf_reference_price = average,
                         sf_fee = quantize 8 report, sf_slippage_bps = 0, sf_fill_ratio = ratio,
                         rejected_reason = None\<rparr>)))"

subsection \<open>One leg\<close>

text \<open>\<^verbatim>\<open>_fresh_book\<close> and \<^verbatim>\<open>_apply_paper_wallet\<close> repeat the orchestrator's.\<close>

definition tri_fresh_book ::
  "TriSettings \<Rightarrow> Env \<Rightarrow> Mem \<Rightarrow> string \<Rightarrow> Symbol \<Rightarrow> (exn, OrderBook) result \<times> Mem" where
  "tri_fresh_book s env m venue symb = fresh_book (OrchSettings.truncate s) env m venue symb"

definition tri_simulated_leg ::
  "TriSettings \<Rightarrow> Env \<Rightarrow> Mem \<Rightarrow> OrderBook \<Rightarrow> string \<Rightarrow> Symbol \<Rightarrow> OrderSide \<Rightarrow> decimal option \<Rightarrow>
   decimal option \<Rightarrow> (exn, SimulatedFill option \<times> Order) result \<times> Mem" where
  "tri_simulated_leg s env m book venue symb sd base_amount quote_amount =
     simulated_leg (OrchSettings.truncate s) env m book venue symb sd base_amount quote_amount"

text \<open>
  The size of a venue order. A size that is not positive builds an order without its required
  amount, which the model class rejects.
\<close>

definition tri_venue_amount ::
  "OrderBook \<Rightarrow> OrderSide \<Rightarrow> decimal option \<Rightarrow> decimal option \<Rightarrow> (exn, decimal) result" where
  "tri_venue_amount book sd base_amount quote_amount =
     (case base_amount of
        Some a \<Rightarrow> Inr a
      | None \<Rightarrow>
          res_bind
            (case (sd, asks book) of
               (BUY, l # _) \<Rightarrow>
                 (case quote_amount of
                    None \<Rightarrow> Inl (OtherError ''TypeError'')
                  | Some q \<Rightarrow>
                      if price l = 0 then Inl (OtherError ''DivisionByZero'')
                      else Inr (quantize 8 (ddiv q (price l))))
             | _ \<Rightarrow> Inr (quantize 8 0))
            (\<lambda>amt. if amt \<le> 0 then Inl (ValidationError ''amount: field required'') else Inr amt))"

definition reference_price :: "OrderBook \<Rightarrow> OrderSide \<Rightarrow> (exn, decimal) result" where
  "reference_price book sd =
     (case (sd, asks book) of
        (BUY, l # _) \<Rightarrow> Inr (price l)
      | _ \<Rightarrow> res_bind (py_index (bids book) 0) (\<lambda>l. Inr (price l)))"

text \<open>The request on the instrument grid, and the reason it is refused, if any.\<close>

definition filtered_request ::
  "TriSettings \<Rightarrow> OrderBook \<Rightarrow> OrderRequest \<Rightarrow> (exn, OrderRequest \<times> string option) result" where
  "filtered_request s book req =
     (case (case tri_precision s of
              Some pp \<Rightarrow> filters_for pp (req_exchange_id req) (symbol_name (req_symbol req))
            | None \<Rightarrow> None) of
        None \<Rightarrow> Inr (req, None)
      | Some f \<Rightarrow> res_bind (reference_price book (req_side req)) (\<lambda>p. Inr (apply_filters req (Some f) p)))"

definition venue_leg ::
  "TriSettings \<Rightarrow> Env \<Rightarrow> Mem \<Rightarrow> TradeRecord \<Rightarrow> OrderBook \<Rightarrow> string \<Rightarrow> Symbol \<Rightarrow> OrderSide \<Rightarrow>
   decimal option \<Rightarrow> decimal option \<Rightarrow> (SimulatedFill option \<times> Order) trun" where
  "venue_leg s env m t book venue symb sd base_amount quote_amount =
     (case tri_venue_amount book sd base_amount quote_amount of
        Inl e \<Rightarrow> (Inl e, m, [])
      | Inr amt \<Rightarrow>
          (case filtered_request s book
                  \<lparr>req_exchange_id = venue, req_symbol = symb, req_side = sd, req_order_type = MARKET,
                   req_amount = amt, req_price = None, req_client_order_id = env_client_id env\<rparr> of
             Inl e \<Rightarrow> (Inl e, m, [])
           | Inr (req, Some reason) \<Rightarrow>
               (Inr (None, (leg_order venue symb sd REJECTED amt (env_now env))
                             \<lparr>ord_error := Some (''precision filter: '' @ reason)\<rparr>), m, [])
           | Inr (req, None) \<Rightarrow>
               (case env_adapter env venue of
                  Inl e \<Rightarrow> (Inl e, m, [])
                | Inr ad \<Rightarrow>
                    (Inr (None, placed_order env ad req), m,
                     [TSave (noted_trade env t req), TOrder (trd_id t) req]))))"

definition tri_fill_leg ::
  "TriSettings \<Rightarrow> Env \<Rightarrow> Mem \<Rightarrow> TradeRecord \<Rightarrow> string \<Rightarrow> Symbol \<Rightarrow> OrderSide \<Rightarrow> decimal option \<Rightarrow>
   decimal option \<Rightarrow> (SimulatedFill option \<times> Order) trun" where
  "tri_fill_leg s env m t venue symb sd base_amount quote_amount =
     (case ensure_can_trade (env_guard env) of
        Inl e \<Rightarrow> (Inl e, m, [])
      | Inr _ \<Rightarrow>
          (case tri_fresh_book s env m venue symb of
             (Inl e, m1) \<Rightarrow> (Inl e, m1, [])
           | (Inr book, m1) \<Rightarrow>
               if os_mode s = PAPER
               then (case tri_simulated_leg s env m1 book venue symb sd base_amount quote_amount of
                       (res, m2) \<Rightarrow> (res, m2, []))
               else venue_leg s env m1 t book venue symb sd base_amount quote_amount))"

text \<open>A leg of a cycle: fill it, absorb its order into the trade and save the trade.\<close>

definition cycle_leg ::
  "TriSettings \<Rightarrow> Env \<Rightarrow> Mem \<Rightarrow> TradeRecord \<Rightarrow> string \<Rightarrow> Symbol \<Rightarrow> OrderSide \<Rightarrow> decimal option \<Rightarrow>
   decimal option \<Rightarrow> (TradeRecord \<times> SimulatedFill option \<times> Order) trun" where
  "cycle_leg s env m t venue symb sd base_amount quote_amount =
     trun_bind (tri_fill_leg s env m t venue symb sd base_amount quote_amount) (\<lambda>(f, order) m1.
       let t1 = absorb_order (env_now env) t order in (Inr (t1, f, order), m1, [TSave t1]))"

definition leg_view :: "SimulatedFill option \<Rightarrow> Order \<Rightarrow> SimulatedFill option" where
  "leg_view f order = (case f of Some sf \<Rightarrow> Some sf | None \<Rightarrow> venue_fill_view order)"

subsection \<open>Preview and capital\<close>

definition mem_bind ::
  "('e, 'a) result \<times> 'm \<Rightarrow> ('a \<Rightarrow> 'm \<Rightarrow> ('e, 'b) result \<times> 'm) \<Rightarrow> ('e, 'b) result \<times> 'm" where
  "mem_bind x f = (case x of (Inl e, m) \<Rightarrow> (Inl e, m) | (Inr v, m) \<Rightarrow> f v m)"

text \<open>One simulated leg of the preview: the fill unless it is rejected.\<close>

definition preview_leg ::
  "TriSettings \<Rightarrow> Env \<Rightarrow> Mem \<Rightarrow> string \<Rightarrow> Symbol \<Rightarrow> OrderSide \<Rightarrow> decimal option \<Rightarrow> decimal option \<Rightarrow>
   (exn, SimulatedFill option) result \<times> Mem" where
  "preview_leg s env m venue symb sd base_amount quote_amount =
     mem_bind (tri_fresh_book s env m venue symb) (\<lambda>book m1.
       (res_bind (simulate (os_sim s) book sd base_amount quote_amount)
          (\<lambda>f. Inr (if sf_is_rejected f then None else Some f)), m1))"

definition held_after_cross :: "OrderSide \<Rightarrow> SimulatedFill \<Rightarrow> decimal" where
  "held_after_cross sd f = (if sd = BUY then sf_filled_amount f else sf_quote_amount f)"

definition preview_walk ::
  "TriSettings \<Rightarrow> Env \<Rightarrow> Mem \<Rightarrow> string \<Rightarrow> ArbitrageLeg list \<Rightarrow> decimal \<Rightarrow>
   (exn, decimal option) result \<times> Mem" where
  "preview_walk s env m venue legs spend =
     mem_bind (py_index legs 0, m) (\<lambda>l0 m0.
     mem_bind (preview_leg s env m0 venue (leg_symbol l0) BUY None (Some spend)) (\<lambda>f1 m1.
       case f1 of None \<Rightarrow> (Inr None, m1) | Some fill1 \<Rightarrow>
     mem_bind (py_index legs 1, m1) (\<lambda>l1 m1.
     mem_bind (if leg_side l1 = BUY
               then preview_leg s env m1 venue (leg_symbol l1) BUY None (Some (sf_filled_amount fill1))
               else preview_leg s env m1 venue (leg_symbol l1) SELL (Some (sf_filled_amount fill1)) None)
       (\<lambda>f2 m2. case f2 of None \<Rightarrow> (Inr None, m2) | Some fill2 \<Rightarrow>
     mem_bind (py_index legs 2, m2) (\<lambda>l2 m2.
     mem_bind (preview_leg s env m2 venue (leg_symbol l2) SELL
                 (Some (held_after_cross (leg_side l1) fill2)) None)
       (\<lambda>f3 m3. (Inr (map_option sf_quote_amount f3), m3)))))))"

definition preview_cycle ::
  "TriSettings \<Rightarrow> Env \<Rightarrow> Mem \<Rightarrow> string \<Rightarrow> ArbitrageLeg list \<Rightarrow> decimal \<Rightarrow>
   (exn, decimal option) result \<times> Mem" where
  "preview_cycle s env m venue legs spend =
     (case preview_walk s env m venue legs spend of
        (Inl (ValueError _), m1) \<Rightarrow> (Inr None, m1)
      | x \<Rightarrow> x)"

definition check_capital :: "TriSettings \<Rightarrow> Env \<Rightarrow> Mem \<Rightarrow> string \<Rightarrow> decimal \<Rightarrow> (exn, Mem) result" where
  "check_capital s env m venue spend =
     (if os_mode s = PAPER then debit_wallet m venue ''USDT'' spend
      else res_bind (env_adapter env venue) (\<lambda>ad. res_bind (fetch_balances ad) (\<lambda>snap.
             if free_of snap (base_currency s) < spend then Inl (ValueError ''insufficient'')
             else Inr m)))"

subsection \<open>Unwinding\<close>

definition profit_bps :: "decimal \<Rightarrow> decimal \<Rightarrow> decimal" where
  "profit_bps net spend = (if spend > 0 then quantize 2 (dmul (ddiv net spend) 10000) else 0)"

definition unwound_trade ::
  "Env \<Rightarrow> TradeRecord \<Rightarrow> string \<Rightarrow> decimal \<Rightarrow> decimal \<Rightarrow> decimal \<Rightarrow> TradeRecord" where
  "unwound_trade env t reason recovered fees spend =
     (trade_with_status t (env_now env) T_COMPLETED)
       \<lparr>output_amount := quantize 8 recovered, trd_fees_quote := quantize 8 fees,
        net_profit := quantize 8 (dsub recovered spend),
        trd_net_profit_bps := profit_bps (dsub recovered spend) spend, trd_error := Some reason\<rparr>"

text \<open>An exception of the unwind, a disabled execution included, ends in manual review.\<close>

definition fail_with_unwind ::
  "TriSettings \<Rightarrow> Env \<Rightarrow> Mem \<Rightarrow> TradeRecord \<Rightarrow> string \<Rightarrow> Symbol \<Rightarrow> decimal \<Rightarrow> string \<Rightarrow> decimal \<Rightarrow>
   decimal \<Rightarrow> TradeRecord trun" where
  "fail_with_unwind s env m t venue symb amt reason fees spend =
     (case cycle_leg s env m t venue symb SELL (Some amt) None of
        (Inl e, m1, es) \<Rightarrow> (Inr (review_trade env t reason), m1, es)
      | (Inr (t1, f, order), m1, es) \<Rightarrow>
          (let recovered = (case f of Some sf \<Rightarrow> sf_quote_amount sf
                            | None \<Rightarrow> dmul (filled_amount order) (opt_or (average_price order) 0))
           in (Inr (if outcome_unconfirmed order then review_trade env t1 reason
                    else if recovered \<le> 0 then review_trade env t1 reason
                    else unwound_trade env t1 reason recovered fees spend), m1, es)))"

subsection \<open>The cycle\<close>

definition completed_trade ::
  "Env \<Rightarrow> TradeRecord \<Rightarrow> SimulatedFill \<Rightarrow> SimulatedFill \<Rightarrow> SimulatedFill \<Rightarrow> TradeRecord" where
  "completed_trade env t f1 f2 f3 =
     (let proceeds = sf_quote_amount f3; spend = sf_quote_amount f1; net = dsub proceeds spend;
          fees = dadd (dadd (sf_fee f1) (dmul (sf_fee f2) (sf_average_price f1))) (sf_fee f3);
          slip = dadd (dadd (sf_slippage_bps f1) (sf_slippage_bps f2)) (sf_slippage_bps f3)
      in (trade_with_status t (env_now env) T_COMPLETED)
           \<lparr>output_amount := quantize 8 proceeds, trd_fees_quote := quantize 8 fees,
            trd_slippage_bps := quantize 4 slip, net_profit := quantize 8 net,
            trd_net_profit_bps := profit_bps net spend\<rparr>)"

definition third_leg ::
  "TriSettings \<Rightarrow> (nat \<Rightarrow> Env) \<Rightarrow> Mem \<Rightarrow> TradeRecord \<Rightarrow> ArbitrageLeg list \<Rightarrow> SimulatedFill \<Rightarrow>
   SimulatedFill \<Rightarrow> TradeRecord trun" where
  "third_leg s envs m t legs f1 f2 =
     (let venue = trd_exchange_id t; symb = leg_symbol (legs ! 2);
          held_y = held_after_cross (leg_side (legs ! 1)) f2;
          fees = dadd (sf_fee f1) (dmul (sf_fee f2) (sf_average_price f1))
      in trun_bind (cycle_leg s (envs 3) m t venue symb SELL (Some held_y) None) (\<lambda>(t1, f, order) m1.
           if outcome_unconfirmed order
           then (Inr (review_trade (envs 3) t1 ''leg 3 outcome unconfirmed''), m1, [])
           else (case leg_view f order of
                   Some f3 \<Rightarrow>
                     if sf_filled_amount f3 \<le> 0 \<or> sf_quote_amount f3 \<le> 0
                     then fail_with_unwind s (envs 4) m1 t1 venue symb held_y
                            ''leg 3 (sell) rejected or empty fill'' fees (sf_quote_amount f1)
                     else (Inr (completed_trade (envs 3) t1 f1 f2 f3), m1, [])
                 | None \<Rightarrow>
                     fail_with_unwind s (envs 4) m1 t1 venue symb held_y
                       ''leg 3 (sell) rejected or empty fill'' fees (sf_quote_amount f1))))"

definition second_leg ::
  "TriSettings \<Rightarrow> (nat \<Rightarrow> Env) \<Rightarrow> Mem \<Rightarrow> TradeRecord \<Rightarrow> ArbitrageLeg list \<Rightarrow> SimulatedFill \<Rightarrow>
   TradeRecord trun" where
  "second_leg s envs m t legs f1 =
     (let venue = trd_exchange_id t; held = sf_filled_amount f1; sd = leg_side (legs ! 1)
      in trun_bind
           (if sd = BUY
            then cycle_leg s (envs 2) m t venue (leg_symbol (legs ! 1)) BUY None (Some held)
            else cycle_leg s (envs 2) m t venue (leg_symbol (legs ! 1)) SELL (Some held) None)
           (\<lambda>(t1, f, order) m1.
              if outcome_unconfirmed order
              then (Inr (review_trade (envs 2) t1 ''leg 2 outcome unconfirmed''), m1, [])
              else (case leg_view f order of
                      Some f2 \<Rightarrow>
                        if sf_filled_amount f2 \<le> 0
                        then fail_with_unwind s (envs 4) m1 t1 venue (leg_symbol (legs ! 0)) held
                               ''leg 2 (cross) rejected or empty fill'' (sf_fee f1) (sf_quote_amount f1)
                        else third_leg s envs m1 t1 legs f1 f2
                    | None \<Rightarrow>
                        fail_with_unwind s (envs 4) m1 t1 venue (leg_symbol (legs ! 0)) held
                          ''leg 2 (cross) rejected or empty fill'' (sf_fee f1) (sf_quote_amount f1))))"

definition first_leg ::
  "TriSettings \<Rightarrow> (nat \<Rightarrow> Env) \<Rightarrow> Mem \<Rightarrow> TradeRecord \<Rightarrow> ArbitrageLeg list \<Rightarrow> decimal \<Rightarrow> TradeRecord trun" where
  "first_leg s envs m t legs spend =
     trun_bind (cycle_leg s (envs 1) m t (trd_exchange_id t) (leg_symbol (legs ! 0)) BUY None (Some spend))
       (\<lambda>(t1, f, order) m1.
          if outcome_unconfirmed order
          then (Inr (review_trade (envs 1) t1 ''leg 1 outcome unconfirmed''), m1, [])
          else (case leg_view f order of
                  Some f1 \<Rightarrow>
                    if sf_filled_amount f1 \<le> 0
                    then (Inr (fail_trade (envs 1) t1 ''leg 1 (buy) rejected or empty fill''), m1, [])
                    else second_leg s envs m1 (t1\<lparr>input_amount := sf_quote_amount f1\<rparr>) legs f1
                | None \<Rightarrow>
                    (Inr (fail_trade (envs 1) t1 ''leg 1 (buy) rejected or empty fill''), m1, [])))"

text \<open>A preview that returns a value has read three legs, so the indices below exist.\<close>

definition run_cycle ::
  "TriSettings \<Rightarrow> (nat \<Rightarrow> Env) \<Rightarrow> Mem \<Rightarrow> TradeRecord \<Rightarrow> ArbitrageLeg list \<Rightarrow> decimal \<Rightarrow> TradeRecord trun" where
  "run_cycle s envs m t legs spend =
     (case preview_cycle s (envs 0) m (trd_exchange_id t) legs spend of
        (Inl e, m1) \<Rightarrow> (Inl e, m1, [])
      | (Inr None, m1) \<Rightarrow> (Inr (fail_trade (envs 0) t ''pre-trade preview failed''), m1, [])
      | (Inr (Some preview), m1) \<Rightarrow>
          if spend > 0 \<and>
             dmul (ddiv (dsub preview spend) spend) 10000 < min_net_at_execute_bps s
          then (Inr (fail_trade (envs 0) t ''pre-trade preview net below execution floor''), m1, [])
          else (case check_capital s (envs 0) m1 (trd_exchange_id t) spend of
                  Inl e \<Rightarrow> (Inl e, m1, [])
                | Inr m2 \<Rightarrow> first_leg s envs m2 t legs spend))"

text \<open>The trade as it was last saved, which is what the table holds for its id.\<close>

fun last_saved :: "TradeRecord \<Rightarrow> trade_effect list \<Rightarrow> TradeRecord" where
  "last_saved t [] = t"
| "last_saved t (TSave u # es) = last_saved u es"
| "last_saved t (e # es) = last_saved t es"

definition opening_trade ::
  "TriSettings \<Rightarrow> Env \<Rightarrow> string \<Rightarrow> ArbitrageOpportunity \<Rightarrow> TradeRecord" where
  "opening_trade s env tid opp =
     (new_trade tid TRIANGLE (os_mode s) (leg_exchange_id (buy_leg opp))
        (if truthy_str (direction opp) then the (direction opp) else ''USDT->?->?->USDT'') EXECUTING
        (env_now env))
       \<lparr>trd_symbols := map (\<lambda>l. symbol_name (leg_symbol l)) (legs_route opp),
        input_amount := size_notional_quote opp\<rparr>"

definition execute ::
  "TriSettings \<Rightarrow> (nat \<Rightarrow> Env) \<Rightarrow> Mem \<Rightarrow> string \<Rightarrow> ArbitrageOpportunity \<Rightarrow>
   TradeRecord \<times> Mem \<times> trade_effect list" where
  "execute s envs m tid opp =
     (let t0 = opening_trade s (envs 0) tid opp; route = trd_route t0 in
      case run_cycle s envs m t0 (legs_route opp) (size_notional_quote opp) of
        (res, m1, es) \<Rightarrow>
          (let persisted = last_saved t0 es;
               t1 = (case res of
                       Inr t \<Rightarrow> t
                     | Inl (ExecutionDisabledError x) \<Rightarrow>
                         interrupted (envs 5) persisted (''execution disabled: '' @ x)
                     | Inl e \<Rightarrow> interrupted (envs 5) persisted (exn_text e))
           in (t1, m1,
               [TSave t0, TAudit ''TRIANGLE_EXECUTE_STARTED'' route] @ es @
               [TSave t1, TAudit ''TRIANGLE_EXECUTE_FINISHED'' route])))"

subsection \<open>After a restart\<close>

fun resolve_orders :: "Env \<Rightarrow> Order list \<Rightarrow> (exn, Order list) result" where
  "resolve_orders env [] = Inr []"
| "resolve_orders env (ord1 # os) =
     res_bind
       (if outcome_unconfirmed ord1
        then res_bind (env_adapter env (ord_exchange_id ord1)) (\<lambda>ad.
               Inr (recover (order_queries ad) (env_now env) ord1))
        else Inr ord1)
       (\<lambda>o1. res_bind (resolve_orders env os) (\<lambda>os1. Inr (o1 # os1)))"

definition complete_from_orders :: "Env \<Rightarrow> TradeRecord \<Rightarrow> Order list \<Rightarrow> TradeRecord" where
  "complete_from_orders env t os =
     (case (venue_fill_view (os ! 0), venue_fill_view (os ! 1), venue_fill_view (os ! 2)) of
        (Some f1, Some f2, Some f3) \<Rightarrow>
          (let spend = sf_quote_amount f1; proceeds = sf_quote_amount f3; net = dsub proceeds spend;
               fees = dadd (dadd (sf_fee f1) (dmul (sf_fee f2) (sf_average_price f1))) (sf_fee f3)
           in (trade_with_status t (env_now env) T_COMPLETED)
                \<lparr>input_amount := spend, output_amount := quantize 8 proceeds,
                 trd_fees_quote := quantize 8 fees, net_profit := quantize 8 net,
                 trd_net_profit_bps := profit_bps net spend\<rparr>)
      | _ \<Rightarrow> review_trade env t ''resume: filled legs cannot be valued'')"

text \<open>The verdict on a trade whose orders have been resolved as far as possible.\<close>

definition resume_verdict :: "Env \<Rightarrow> TradeRecord \<Rightarrow> Order list \<Rightarrow> TradeRecord" where
  "resume_verdict env t os =
     (if filter outcome_unconfirmed os \<noteq> []
      then review_trade env t ''resume: leg outcome unconfirmed''
      else if filter is_confirmed_fill os = []
      then fail_trade env t ''resume: every submitted leg is confirmed not filled''
      else if length os = 3 \<and> length (filter is_confirmed_fill os) = 3
      then complete_from_orders env t os
      else review_trade env t ''resume: cycle incomplete after crash'')"

definition resume_one :: "Env \<Rightarrow> TradeRecord \<Rightarrow> (exn, TradeRecord) result" where
  "resume_one env t =
     (let parsed = map (\<lambda>p. order_from_json (Some p)) (trd_orders t) in
      if None \<in> set parsed
      then Inr (review_trade env t ''resume: an order record could not be parsed'')
      else if parsed = []
      then Inr (fail_trade env t ''interrupted before leg 1 was submitted'')
      else
        res_bind (resolve_orders env (map the parsed)) (\<lambda>os.
          Inr (resume_verdict env
                 (t\<lparr>trd_orders := map order_to_json os, trd_updated_at := env_now env\<rparr>) os)))"

definition resume_open_trades ::
  "(nat \<Rightarrow> Env) \<Rightarrow> trade_repo \<Rightarrow> TradeRecord list \<times> trade_effect list" where
  "resume_open_trades envs repo =
     (let resumed = map (\<lambda>(i, t).
            case resume_one (envs i) t of
              Inr u \<Rightarrow> u
            | Inl e \<Rightarrow> review_trade (envs i) t (''resume failed ('' @ exn_text e @ '')''))
            (enumerate 0 (list_executing repo))
      in (resumed, map TSave resumed))"

end
