(* ===== verification/Triangle_Safety.thy ===== *)
theory Triangle_Safety
  imports Triangle_Executor "HOL-Library.Sublist"
begin

text \<open>
  What a run of the triangle executor guarantees, whatever the venue answers: every order is
  preceded by its persisted intent, the kill switch is obeyed before each leg, the trade always
  reaches a final persisted status, and an order of unknown outcome ends in manual review.
\<close>

subsection \<open>Effects of a leg\<close>

definition is_order :: "trade_effect \<Rightarrow> bool" where
  "is_order e = (case e of TOrder _ _ \<Rightarrow> True | _ \<Rightarrow> False)"

lemma is_order_simps [simp]: "is_order (TOrder k req)" "\<not> is_order (TSave t)" "\<not> is_order (TAudit a b)"
  by (simp_all add: is_order_def)

definition orders_in :: "trade_effect list \<Rightarrow> nat" where
  "orders_in es = length (filter is_order es)"

lemma orders_in_simps [simp]:
  "orders_in [] = 0" "orders_in (TOrder k req # es) = Suc (orders_in es)"
  "orders_in (TSave t # es) = orders_in es" "orders_in (TAudit a b # es) = orders_in es"
  "orders_in (es @ fs) = orders_in es + orders_in fs"
  by (simp_all add: orders_in_def)

text \<open>The trade lists an order of unknown outcome with the request's identity and size.\<close>

definition records :: "TradeRecord \<Rightarrow> OrderRequest \<Rightarrow> bool" where
  "records t req \<longleftrightarrow> (\<exists>o1. JOrder o1 \<in> set (trd_orders t) \<and> ord_status o1 = PENDING \<and>
     client_order_id o1 = Some (req_client_order_id req) \<and> ord_amount o1 = req_amount req \<and>
     ord_side o1 = req_side req \<and> ord_symbol o1 = req_symbol req)"

lemma set_replace_first: "y \<in> set (replace_first P y xs)" "set (replace_first P y xs) \<subseteq> insert y (set xs)"
  by (induction P y xs rule: replace_first.induct) auto

lemma absorb_order_simps [simp]:
  "trd_id (absorb_order now t order) = trd_id t"
  "trd_exchange_id (absorb_order now t order) = trd_exchange_id t"
  "trd_status (absorb_order now t order) = trd_status t"
  "input_amount (absorb_order now t order) = input_amount t"
  by (simp_all add: absorb_order_def Let_def)

lemma absorbed: "JOrder order \<in> set (trd_orders (absorb_order now t order))"
  by (simp add: absorb_order_def Let_def order_to_json_def set_replace_first(1))

lemma absorb_subset: "set (trd_orders (absorb_order now t order)) \<subseteq> insert (JOrder order) (set (trd_orders t))"
  by (auto simp: absorb_order_def Let_def order_to_json_def dest!: subsetD [OF set_replace_first(2)])

lemma noted_trade_records: "records (noted_trade env t req) req"
  unfolding records_def noted_trade_def
  by (rule exI [of _ "placeholder_order (env_now env) req"])
    (simp add: absorbed, simp add: placeholder_order_def leg_order_def new_order_def)

lemma noted_trade_id [simp]: "trd_id (noted_trade env t req) = trd_id t"
  by (simp add: noted_trade_def)

lemma venue_leg_effects:
  assumes "venue_leg s env m t book venue symb sd b q = (res, m1, es)"
  shows "es = [] \<or> (\<exists>req x. res = Inr x \<and> es = [TSave (noted_trade env t req), TOrder (trd_id t) req])"
  using assms by (auto simp: venue_leg_def split: sum.splits option.splits prod.splits)

lemma tri_fill_leg_effects:
  assumes "tri_fill_leg s env m t venue symb sd b q = (res, m1, es)"
  shows "es = [] \<or> (\<not> is_halted (env_guard env) \<and>
    (\<exists>req x. res = Inr x \<and> es = [TSave (noted_trade env t req), TOrder (trd_id t) req]))"
  using assms venue_leg_effects
  by (fastforce simp: tri_fill_leg_def ensure_can_trade_def split: sum.splits prod.splits if_splits)

lemma tri_fill_leg_fill:
  assumes "tri_fill_leg s env m t venue symb sd b q = (Inr (Some sf, order), m1, es)"
  shows "filled_amount order = sf_filled_amount sf"
  using assms
  by (auto simp: tri_fill_leg_def tri_simulated_leg_def simulated_leg_def venue_leg_def
      split: sum.splits prod.splits if_splits option.splits)

lemma cycle_leg_cases [consumes 1, case_names raised filled]:
  assumes "cycle_leg s env m t venue symb sd b q = (res, m1, es)"
  obtains e where "res = Inl e" "es = []"
    | f order where "res = Inr (absorb_order (env_now env) t order, f, order)"
      "es = [TSave (absorb_order (env_now env) t order)] \<or>
       (\<not> is_halted (env_guard env) \<and> (\<exists>req. es = [TSave (noted_trade env t req), TOrder (trd_id t) req,
          TSave (absorb_order (env_now env) t order)]))"
      "\<forall>sf. f = Some sf \<longrightarrow> filled_amount order = sf_filled_amount sf"
proof -
  obtain r1 m2 es1 where leg: "tri_fill_leg s env m t venue symb sd b q = (r1, m2, es1)"
    by (metis prod.exhaust)
  have fill: "\<forall>sf. f = Some sf \<longrightarrow> filled_amount order = sf_filled_amount sf"
    if "r1 = Inr (f, order)" for f order using leg that tri_fill_leg_fill by blast
  from tri_fill_leg_effects [OF leg] show thesis
    using assms leg that fill by (cases r1) (auto simp: cycle_leg_def trun_bind_def Let_def)
qed

subsection \<open>Traces that note every order\<close>

fun noted_trace :: "string \<Rightarrow> TradeRecord option \<Rightarrow> trade_effect list \<Rightarrow> bool" where
  "noted_trace tid p [] \<longleftrightarrow> True"
| "noted_trace tid p (TSave t # es) \<longleftrightarrow> trd_id t = tid \<and> noted_trace tid (Some t) es"
| "noted_trace tid p (TAudit a b # es) \<longleftrightarrow> noted_trace tid None es"
| "noted_trace tid p (TOrder k req # es) \<longleftrightarrow>
     k = tid \<and> (\<exists>t. p = Some t \<and> records t req) \<and> noted_trace tid None es"

lemma noted_trace_None: "noted_trace tid None es \<Longrightarrow> noted_trace tid p es"
  by (cases es; cases "hd es") auto

lemma noted_trace_append:
  "noted_trace tid p es \<Longrightarrow> noted_trace tid None fs \<Longrightarrow> noted_trace tid p (es @ fs)"
  by (induction tid p es rule: noted_trace.induct) (auto intro: noted_trace_None)

lemma noted_trace_ids: "noted_trace tid p es \<Longrightarrow> TSave t \<in> set es \<Longrightarrow> trd_id t = tid"
  by (induction tid p es rule: noted_trace.induct) auto

lemma noted_trace_order:
  "noted_trace tid p (xs @ TOrder k req # ys) \<Longrightarrow>
   k = tid \<and> (\<exists>t. records t req \<and> (xs = [] \<longrightarrow> p = Some t) \<and> (xs \<noteq> [] \<longrightarrow> last xs = TSave t))"
proof (induction xs arbitrary: p)
  case (Cons x xs)
  obtain p' where "noted_trace tid p' (xs @ TOrder k req # ys)" "\<And>t. p' = Some t \<Longrightarrow> x = TSave t"
    using Cons.prems by (cases x) auto
  with Cons.IH show ?case by fastforce
qed auto

lemma last_saved_append [simp]: "last_saved t (es @ fs) = last_saved (last_saved t es) fs"
  by (induction t es rule: last_saved.induct) auto

text \<open>Once a saved trade lists an order, every later save lists one.\<close>

fun growing :: "bool \<Rightarrow> trade_effect list \<Rightarrow> bool" where
  "growing seen [] \<longleftrightarrow> True"
| "growing seen (TSave t # es) \<longleftrightarrow> (seen \<longrightarrow> trd_orders t \<noteq> []) \<and> growing (trd_orders t \<noteq> []) es"
| "growing seen (e # es) \<longleftrightarrow> growing seen es"

lemma growing_append:
  "growing (trd_orders t \<noteq> []) (es @ fs) \<longleftrightarrow>
     growing (trd_orders t \<noteq> []) es \<and> growing (trd_orders (last_saved t es) \<noteq> []) fs"
  by (induction t es rule: last_saved.induct) auto

lemma absorb_not_empty [simp]: "trd_orders (absorb_order now t order) \<noteq> []"
  using absorbed [of order now t] by auto

lemma noted_not_empty [simp]: "trd_orders (noted_trade env t req) \<noteq> []"
  by (simp add: noted_trade_def)

subsection \<open>What a cycle guarantees\<close>

text \<open>No order of the trade has an unknown outcome.\<close>

definition settled :: "TradeRecord \<Rightarrow> bool" where
  "settled t \<longleftrightarrow> (\<forall>o1. JOrder o1 \<in> set (trd_orders t) \<longrightarrow> \<not> outcome_unconfirmed o1)"

text \<open>A confirmed fill that cannot be valued: no positive price, or nothing left of it after the fee.\<close>

definition unvalued :: "Order \<Rightarrow> bool" where
  "unvalued o1 \<longleftrightarrow> (case venue_fill_view o1 of None \<Rightarrow> True | Some f \<Rightarrow> sf_filled_amount f \<le> 0)"

definition outcome_ok :: "TradeRecord \<Rightarrow> bool" where
  "outcome_ok t \<longleftrightarrow> trade_is_terminal t \<and>
     (trd_status t \<noteq> T_MANUAL_REVIEW \<longrightarrow> settled t) \<and>
     (trd_status t = T_FAILED \<longrightarrow>
        (\<forall>o1. JOrder o1 \<in> set (trd_orders t) \<and> is_confirmed_fill o1 \<longrightarrow> unvalued o1))"

definition cycle_ok :: "nat \<Rightarrow> TradeRecord \<Rightarrow> TradeRecord trun \<Rightarrow> bool" where
  "cycle_ok n t x = (case x of (res, m, es) \<Rightarrow>
     noted_trace (trd_id t) None es \<and> orders_in es \<le> n \<and> growing (trd_orders t \<noteq> []) es \<and>
     (case res of
        Inr u \<Rightarrow> trd_id u = trd_id t \<and> outcome_ok u \<and> trd_orders u = trd_orders (last_saved t es)
      | Inl e \<Rightarrow> trd_id (last_saved t es) = trd_id t \<and> settled (last_saved t es)))"

definition allowed :: "Env \<Rightarrow> nat" where
  "allowed env = (if is_halted (env_guard env) then 0 else 1)"

lemma settled_absorb: "settled t \<Longrightarrow> \<not> outcome_unconfirmed order \<Longrightarrow> settled (absorb_order now t order)"
  using absorb_subset [of now t order] by (auto simp: settled_def)

lemma review_trade_ok [simp]: "outcome_ok (review_trade env t reason)"
  "trd_id (review_trade env t reason) = trd_id t" "trd_orders (review_trade env t reason) = trd_orders t"
  by (simp_all add: outcome_ok_def review_trade_def trade_is_terminal_def)

lemma completed_ok:
  "settled t \<Longrightarrow> outcome_ok (unwound_trade env t reason rec fees spend)"
  "settled t \<Longrightarrow> outcome_ok (completed_trade env t f1 f2 f3)"
  "trd_id (unwound_trade env t reason rec fees spend) = trd_id t"
  "trd_id (completed_trade env t f1 f2 f3) = trd_id t"
  "trd_orders (unwound_trade env t reason rec fees spend) = trd_orders t"
  "trd_orders (completed_trade env t f1 f2 f3) = trd_orders t"
  by (simp_all add: outcome_ok_def unwound_trade_def completed_trade_def trade_is_terminal_def settled_def Let_def)

lemma fail_trade_ok:
  assumes "settled t" "\<And>o1. JOrder o1 \<in> set (trd_orders t) \<Longrightarrow> is_confirmed_fill o1 \<Longrightarrow> unvalued o1"
  shows "outcome_ok (fail_trade env t reason)" "trd_id (fail_trade env t reason) = trd_id t"
  using assms by (auto simp: outcome_ok_def fail_trade_def trade_is_terminal_def settled_def)

text \<open>A leg followed by whatever the cycle does with its order.\<close>

lemma cycle_ok_leg:
  assumes "settled t"
    and "\<And>t1 f order m1. trd_id t1 = trd_id t \<Longrightarrow> t1 = absorb_order (env_now env) t order \<Longrightarrow>
      (\<not> outcome_unconfirmed order \<Longrightarrow> settled t1) \<Longrightarrow>
      (\<And>sf. f = Some sf \<Longrightarrow> filled_amount order = sf_filled_amount sf) \<Longrightarrow>
      cycle_ok n t1 (k (t1, f, order) m1)"
  shows "cycle_ok (allowed env + n) t (trun_bind (cycle_leg s env m t venue symb sd b q) k)"
proof -
  obtain res m1 es where leg: "cycle_leg s env m t venue symb sd b q = (res, m1, es)"
    by (metis prod.exhaust)
  then show ?thesis
  proof (cases rule: cycle_leg_cases)
    case (raised e)
    then show ?thesis using leg assms(1) by (simp add: cycle_ok_def trun_bind_def)
  next
    case (filled f order)
    let ?t1 = "absorb_order (env_now env) t order"
    obtain res2 m2 fs where k: "k (?t1, f, order) m1 = (res2, m2, fs)" by (metis prod.exhaust)
    have ok: "cycle_ok n ?t1 (res2, m2, fs)"
      using assms(2) [of ?t1 order f m1] settled_absorb [OF assms(1), of order] filled(3) k by simp
    have n: "noted_trace (trd_id t) None es" "orders_in es \<le> allowed env" "last_saved t es = ?t1"
      "growing (trd_orders t \<noteq> []) es"
      using filled(2) by (auto simp: noted_trade_records allowed_def)
    have "trun_bind (cycle_leg s env m t venue symb sd b q) k = (res2, m2, es @ fs)"
      using leg filled(1) k by (simp add: trun_bind_def)
    then show ?thesis using ok n by (auto simp: cycle_ok_def noted_trace_append growing_append split: sum.splits)
  qed
qed

lemma fail_with_unwind_ok:
  assumes "settled t"
  shows "cycle_ok (allowed env) t (fail_with_unwind s env m t venue symb amt reason fees spend)"
proof -
  obtain res m1 es where leg: "cycle_leg s env m t venue symb SELL (Some amt) None = (res, m1, es)"
    by (metis prod.exhaust)
  then show ?thesis
  proof (cases rule: cycle_leg_cases)
    case (raised e)
    then show ?thesis using leg by (simp add: cycle_ok_def fail_with_unwind_def)
  next
    case (filled f order)
    let ?t1 = "absorb_order (env_now env) t order"
    have n: "noted_trace (trd_id t) None es" "orders_in es \<le> allowed env" "last_saved t es = ?t1"
      "growing (trd_orders t \<noteq> []) es"
      using filled(2) by (auto simp: noted_trade_records allowed_def)
    have "outcome_ok (if outcome_unconfirmed order then review_trade env ?t1 reason
        else if rec \<le> 0 then review_trade env ?t1 reason
        else unwound_trade env ?t1 reason rec fees spend)" for rec
      using settled_absorb [OF assms] completed_ok(1) by simp
    then show ?thesis
      using leg filled(1) n completed_ok(3,5) by (simp add: cycle_ok_def fail_with_unwind_def Let_def)
  qed
qed

lemma cycle_ok_mono: "cycle_ok n t x \<Longrightarrow> n \<le> n' \<Longrightarrow> cycle_ok n' t x"
  by (auto simp: cycle_ok_def)

lemma cycle_ok_result:
  "outcome_ok u \<Longrightarrow> trd_id u = trd_id t \<Longrightarrow> trd_orders u = trd_orders t \<Longrightarrow> cycle_ok n t (Inr u, m, [])"
  by (simp add: cycle_ok_def)

lemma third_leg_ok:
  assumes "settled t"
  shows "cycle_ok (allowed (envs 3) + allowed (envs 4)) t (third_leg s envs m t legs f1 f2)"
  unfolding third_leg_def Let_def
  by (rule cycle_ok_leg [OF assms])
    (auto simp: cycle_ok_result completed_ok intro: fail_with_unwind_ok split: option.splits)

lemma second_leg_ok:
  assumes "settled t"
  shows "cycle_ok (allowed (envs 2) + (allowed (envs 3) + allowed (envs 4))) t (second_leg s envs m t legs f1)"
proof -
  let ?k = "\<lambda>(t1, f, order) m1.
      if outcome_unconfirmed order
      then (Inr (review_trade (envs 2) t1 ''leg 2 outcome unconfirmed''), m1, [])
      else (case leg_view f order of
              Some f2 \<Rightarrow>
                if sf_filled_amount f2 \<le> 0
                then fail_with_unwind s (envs 4) m1 t1 (trd_exchange_id t) (leg_symbol (legs ! 0))
                       (sf_filled_amount f1) ''leg 2 (cross) rejected or empty fill'' (sf_fee f1)
                       (sf_quote_amount f1)
                else third_leg s envs m1 t1 legs f1 f2
            | None \<Rightarrow>
                fail_with_unwind s (envs 4) m1 t1 (trd_exchange_id t) (leg_symbol (legs ! 0))
                  (sf_filled_amount f1) ''leg 2 (cross) rejected or empty fill'' (sf_fee f1)
                  (sf_quote_amount f1))"
  have "cycle_ok (allowed (envs 2) + (allowed (envs 3) + allowed (envs 4))) t
      (trun_bind (cycle_leg s (envs 2) m t (trd_exchange_id t) (leg_symbol (legs ! 1)) sd b q) ?k)" for sd b q
    by (rule cycle_ok_leg [OF assms])
      (auto simp: cycle_ok_result third_leg_ok split: option.splits
        intro: cycle_ok_mono [OF fail_with_unwind_ok])
  then show ?thesis unfolding second_leg_def Let_def by simp
qed

lemma settled_input [simp]: "settled (t\<lparr>input_amount := x\<rparr>) = settled t"
  by (simp add: settled_def)

lemma first_leg_failed:
  assumes "trd_orders t = []" "\<not> outcome_unconfirmed order"
    "\<And>sf. f = Some sf \<Longrightarrow> filled_amount order = sf_filled_amount sf"
    "\<And>f1. leg_view f order = Some f1 \<Longrightarrow> sf_filled_amount f1 \<le> 0"
  shows "outcome_ok (fail_trade env (absorb_order now t order) reason)"
proof (rule fail_trade_ok)
  have sub: "set (trd_orders (absorb_order now t order)) \<subseteq> {JOrder order}"
    using absorb_subset [of now t order] assms(1) by simp
  then show "settled (absorb_order now t order)" using assms(2) by (auto simp: settled_def)
  fix o1 assume "JOrder o1 \<in> set (trd_orders (absorb_order now t order))" "is_confirmed_fill o1"
  then have "o1 = order" "is_confirmed_fill order" using sub by auto
  then show "unvalued o1"
    using assms(3,4) by (cases f) (auto simp: leg_view_def unvalued_def is_confirmed_fill_def split: option.splits)
qed

lemma last_saved_cases: "(\<exists>u. \<forall>t. last_saved t es = u) \<or> (\<forall>t. last_saved t es = t)"
proof (induction es)
  case (Cons e es)
  then show ?case by (cases e) auto
qed simp

lemma cycle_ok_input:
  "cycle_ok n (t\<lparr>input_amount := x\<rparr>) y \<Longrightarrow> settled t \<Longrightarrow> cycle_ok n t y"
  using last_saved_cases [of "snd (snd y)"] by (auto simp: cycle_ok_def split: prod.splits sum.splits)

lemma fail_trade_id [simp]: "trd_id (fail_trade env t reason) = trd_id t"
  "trd_orders (fail_trade env t reason) = trd_orders t"
  by (simp_all add: fail_trade_def)

lemma first_leg_ok:
  assumes "trd_orders t = []"
  shows "cycle_ok (allowed (envs 1) + (allowed (envs 2) + (allowed (envs 3) + allowed (envs 4)))) t
    (first_leg s envs m t legs spend)"
  unfolding first_leg_def
proof (rule cycle_ok_leg)
  show "settled t" using assms by (simp add: settled_def)
  fix t1 and f :: "SimulatedFill option" and order m1
  assume t1: "trd_id t1 = trd_id t" "t1 = absorb_order (env_now (envs 1)) t order"
    and set1: "\<not> outcome_unconfirmed order \<Longrightarrow> settled t1"
    and f: "\<And>sf. f = Some sf \<Longrightarrow> filled_amount order = sf_filled_amount sf"
  have failed: "outcome_ok (fail_trade (envs 1) t1 reason)"
    if "\<not> outcome_unconfirmed order" "\<And>f1. leg_view f order = Some f1 \<Longrightarrow> sf_filled_amount f1 \<le> 0" for reason
    unfolding t1(2) using first_leg_failed [OF assms that(1) _ that(2)] f by blast
  have "cycle_ok (allowed (envs 2) + (allowed (envs 3) + allowed (envs 4))) t1
      (second_leg s envs m1 (t1\<lparr>input_amount := x\<rparr>) legs f1)" if "\<not> outcome_unconfirmed order" for x f1
    using cycle_ok_input [OF second_leg_ok set1 [OF that]] set1 [OF that] by simp
  then show "cycle_ok (allowed (envs 2) + (allowed (envs 3) + allowed (envs 4))) t1
      ((\<lambda>(t1, f, order) m1. if outcome_unconfirmed order
          then (Inr (review_trade (envs 1) t1 ''leg 1 outcome unconfirmed''), m1, [])
          else (case leg_view f order of
                  Some f1 \<Rightarrow>
                    if sf_filled_amount f1 \<le> 0
                    then (Inr (fail_trade (envs 1) t1 ''leg 1 (buy) rejected or empty fill''), m1, [])
                    else second_leg s envs m1 (t1\<lparr>input_amount := sf_quote_amount f1\<rparr>) legs f1
                | None \<Rightarrow>
                    (Inr (fail_trade (envs 1) t1 ''leg 1 (buy) rejected or empty fill''), m1, [])))
        (t1, f, order) m1)"
    using failed by (auto simp: cycle_ok_result fail_trade_id split: option.splits)
qed

lemma run_cycle_ok:
  assumes "trd_orders t = []"
  shows "cycle_ok (allowed (envs 1) + (allowed (envs 2) + (allowed (envs 3) + allowed (envs 4)))) t
    (run_cycle s envs m t legs spend)"
proof -
  have "settled t" "outcome_ok (fail_trade (envs 0) t reason)" for reason
    using assms by (auto simp: settled_def intro!: fail_trade_ok)
  moreover have "cycle_ok n t (Inl e, m1, [])" for n e m1
    using \<open>settled t\<close> by (simp add: cycle_ok_def)
  ultimately show ?thesis
    using first_leg_ok [OF assms]
    by (auto simp: run_cycle_def cycle_ok_result split: sum.splits option.splits prod.splits)
qed

lemma interrupted_ok:
  "settled t \<Longrightarrow> outcome_ok (interrupted env t reason)"
  "trd_id (interrupted env t reason) = trd_id t" "trd_orders (interrupted env t reason) = trd_orders t"
proof -
  show "outcome_ok (interrupted env t reason)" if "settled t"
  proof (cases "held_inventory (trd_orders t) = []")
    case True
    have "\<not> is_confirmed_fill o1" if "JOrder o1 \<in> set (trd_orders t)" for o1
      using True that unfolding held_inventory_def
      by (force simp: filter_empty_conv List.map_filter_def)
    then show ?thesis using True \<open>settled t\<close> by (auto simp: interrupted_def intro!: fail_trade_ok)
  qed (simp add: interrupted_def)
qed (simp_all add: interrupted_def)

lemma execute_ok:
  assumes "execute s envs m tid opp = (t, m', es)"
  shows "noted_trace tid None es"
    "orders_in es \<le> allowed (envs 1) + (allowed (envs 2) + (allowed (envs 3) + allowed (envs 4)))"
    "growing False es" "outcome_ok t" "trd_id t = tid" "\<exists>xs a b. es = xs @ [TSave t, TAudit a b]"
proof -
  let ?t0 = "opening_trade s (envs 0) tid opp"
  obtain res m1 fs where r: "run_cycle s envs m ?t0 (legs_route opp) (size_notional_quote opp) = (res, m1, fs)"
    by (metis prod.exhaust)
  have t0: "trd_id ?t0 = tid" "trd_orders ?t0 = []" by (simp_all add: opening_trade_def new_trade_def)
  have ok: "cycle_ok (allowed (envs 1) + (allowed (envs 2) + (allowed (envs 3) + allowed (envs 4)))) ?t0 (res, m1, fs)"
    using run_cycle_ok [OF t0(2), of envs s m "legs_route opp" "size_notional_quote opp"] r by simp
  obtain a b c d where es: "es = [TSave ?t0, TAudit a b] @ fs @ [TSave t, TAudit c d]"
    using assms r by (auto simp: execute_def Let_def)
  have "outcome_ok t \<and> trd_id t = tid \<and> trd_orders t = trd_orders (last_saved ?t0 fs)"
    using assms r ok t0 interrupted_ok
    by (auto simp: execute_def Let_def cycle_ok_def split: sum.splits exn.splits)
  moreover have "noted_trace tid None fs" "growing False fs" using ok t0 by (simp_all add: cycle_ok_def)
  ultimately show "noted_trace tid None es"
    "orders_in es \<le> allowed (envs 1) + (allowed (envs 2) + (allowed (envs 3) + allowed (envs 4)))"
    "growing False es" "outcome_ok t" "trd_id t = tid" "\<exists>xs a b. es = xs @ [TSave t, TAudit a b]"
    using es ok t0 growing_append [of ?t0 fs "[TSave t, TAudit c d]"]
    by (auto simp: noted_trace_append noted_trace_None cycle_ok_def)
qed

subsection \<open>The properties of an execution\<close>

text \<open>C19 (triangle_intent_first).
  Whenever the executor submits an order, the effect right before it is the save of this very
  trade with a PENDING entry that carries the order's client id, size, side and symbol.\<close>

theorem triangle_intent_first:
  assumes "execute s envs m tid opp = (t, m', es)" "es = xs @ TOrder k req # ys"
  shows "k = tid \<and> (\<exists>u. xs \<noteq> [] \<and> last xs = TSave u \<and> trd_id u = tid \<and> records u req)"
proof -
  have n: "noted_trace tid None (xs @ TOrder k req # ys)" using execute_ok(1) [OF assms(1)] assms(2) by simp
  obtain u where u: "k = tid" "records u req" "xs \<noteq> []" "last xs = TSave u"
    using noted_trace_order [OF n] by auto
  then have "TSave u \<in> set (xs @ TOrder k req # ys)" by (metis UnI1 last_in_set set_append)
  with u show ?thesis using noted_trace_ids [OF n] by blast
qed

text \<open>C20 (triangle_obeys_kill_switch).
  The kill switch is read again before every leg and before an unwind: an execution submits at
  most one order for each of these four moments at which the switch is released, so never more
  than four, and none while it is engaged.\<close>

theorem triangle_obeys_kill_switch:
  "orders_in (snd (snd (execute s envs m tid opp))) \<le>
     length (filter (\<lambda>i. \<not> is_halted (env_guard (envs i))) [1, 2, 3, 4])"
proof -
  obtain t m' es where "execute s envs m tid opp = (t, m', es)" by (metis prod.exhaust)
  then show ?thesis
    using execute_ok(2) [of s envs m tid opp t m' es] by (auto simp: allowed_def split: if_splits)
qed

text \<open>C22 (triangle_always_settles).
  Whatever the venue answers, an execution ends with a saved record that is final, and a trade
  with an order of unknown outcome is never reported as completed or failed: it goes to manual
  review.\<close>

theorem triangle_always_settles:
  assumes "execute s envs m tid opp = (t, m', es)"
  shows "trade_is_terminal t \<and> trd_id t = tid \<and> last_saved u es = t \<and>
    (\<forall>o1. JOrder o1 \<in> set (trd_orders t) \<and> outcome_unconfirmed o1 \<longrightarrow> trd_status t = T_MANUAL_REVIEW)"
proof -
  obtain xs a b where es: "es = xs @ [TSave t, TAudit a b]" using execute_ok(6) [OF assms] by blast
  show ?thesis
    using execute_ok(4,5) [OF assms] by (auto simp: es outcome_ok_def settled_def)
qed

text \<open>C21 (failed_triangle_holds_nothing).
  A trade that ends as FAILED holds inventory only if its first leg filled without a usable
  price: every confirmed fill among its orders has no positive average price, or its fee
  consumed it.\<close>

theorem failed_triangle_holds_nothing:
  assumes "execute s envs m tid opp = (t, m', es)" "trd_status t = T_FAILED"
    "JOrder o1 \<in> set (trd_orders t)" "is_confirmed_fill o1"
  shows "average_price o1 = None \<or> the (average_price o1) \<le> 0 \<or>
    (\<exists>f. venue_fill_view o1 = Some f \<and> sf_filled_amount f \<le> 0)"
proof -
  have "unvalued o1" using execute_ok(4) [OF assms(1)] assms(2-4) by (auto simp: outcome_ok_def)
  moreover have "filled_amount o1 > 0" using assms(4) by (simp add: is_confirmed_fill_def)
  ultimately show ?thesis
    using assms(4) by (auto simp: unvalued_def venue_fill_view_def Let_def split: option.splits if_splits)
qed

text \<open>(unpriced_fill_is_abandoned).
  The exception in the previous property is real: when the venue confirms the fill of the first
  leg but reports no average price, the trade ends as FAILED although it holds the asset, and
  no unwind is attempted.\<close>

theorem unpriced_fill_is_abandoned:
  assumes "tri_fill_leg s (envs 1) m t (trd_exchange_id t) (leg_symbol (legs ! 0)) BUY None (Some spend) =
      (Inr (None, order), m1, es)"
    "is_confirmed_fill order" "average_price order = None"
  shows "\<exists>u fs. first_leg s envs m t legs spend = (Inr u, m1, es @ fs) \<and> orders_in fs = 0 \<and>
    trd_status u = T_FAILED \<and> order \<in> set (held_inventory (trd_orders u))"
proof -
  let ?t1 = "absorb_order (env_now (envs 1)) t order"
  let ?u = "fail_trade (envs 1) ?t1 ''leg 1 (buy) rejected or empty fill''"
  have "leg_view None order = None" using assms(3) by (simp add: leg_view_def venue_fill_view_def)
  then have "first_leg s envs m t legs spend = (Inr ?u, m1, es @ [TSave ?t1])"
    using assms confirmed_fill_not_unconfirmed [OF assms(2)]
    by (simp add: first_leg_def cycle_leg_def trun_bind_def Let_def)
  moreover have "order \<in> set (held_inventory (trd_orders ?u))"
    using absorbed [of order "env_now (envs 1)" t] assms(2)
    by (force simp: held_inventory_def List.map_filter_def)
  ultimately show ?thesis
    by (intro exI [of _ ?u] exI [of _ "[TSave ?t1]"]) (simp add: fail_trade_def)
qed

subsection \<open>The paper wallet in a cycle\<close>

text \<open>(paper_triangle_pays_twice).
  In PAPER mode the capital check already takes the whole budget out of the wallet, and the
  simulated first leg takes its cost out again: after the first leg the quote balance is lower
  by the budget plus the cost.\<close>

theorem paper_triangle_pays_twice:
  assumes "os_mode s = PAPER" "dict_get (paper_wallets m) venue = Some w" "quote symb = ''USDT''"
    "asset_key (base symb) \<noteq> asset_key ''USDT''" "0 < spend"
    "check_capital s env m venue spend = Inr m1"
    "tri_fill_leg s env1 m1 t venue symb BUY None (Some spend) = (Inr (Some f, order), m2, es)"
    "0 < sf_quote_amount f"
  shows "\<exists>w2. dict_get (paper_wallets m2) venue = Some w2 \<and>
    free w2 ''USDT'' = dsub (dsub (free w ''USDT'') spend) (sf_quote_amount f)"
proof -
  obtain w1 where w1: "debit w ''USDT'' spend = Inr w1"
    "m1 = m\<lparr>paper_wallets := dict_set (paper_wallets m) venue w1\<rparr>"
    using assms(1,2,6) by (auto simp: check_capital_def debit_wallet_def res_bind_Inr_iff)
  have b1: "free w1 ''USDT'' = dsub (free w ''USDT'') spend"
    using paper.bal_pay [OF w1(1), of "''USDT''"] assms(5) by simp
  obtain book m1' where fb: "fresh_book (OrchSettings.truncate s) env1 m1 venue symb = (Inr book, m1')"
    and sl: "simulated_leg (OrchSettings.truncate s) env1 m1' book venue symb BUY None (Some spend) =
      (Inr (Some f, order), m2)"
    using assms(1,7)
    by (auto simp: tri_fill_leg_def tri_fresh_book_def tri_simulated_leg_def split: sum.splits prod.splits)
  have "os_mode (OrchSettings.truncate s) = PAPER" using assms(1) by (simp add: OrchSettings.truncate_def)
  then have "m1' = m1" using fb by (auto simp: fresh_book_def Let_def split: option.splits if_splits)
  then have "apply_wallet m1 venue BUY symb f = Inr m2"
    using sl by (auto simp: simulated_leg_def split: sum.splits if_splits)
  then obtain w2 where w2: "debit w1 ''USDT'' (sf_quote_amount f) = Inr w2"
    "dict_get (paper_wallets m2) venue = Some (credit w2 (base symb) (sf_filled_amount f))"
    using w1(2) assms(3) by (auto simp: apply_wallet_def res_bind_Inr_iff)
  have "free w2 ''USDT'' = dsub (free w1 ''USDT'') (sf_quote_amount f)"
    using paper.bal_pay [OF w2(1), of "''USDT''"] assms(8) by simp
  then have "free (credit w2 (base symb) (sf_filled_amount f)) ''USDT'' =
      dsub (dsub (free w ''USDT'') spend) (sf_quote_amount f)"
    using paper.bal_put [of w2 "base symb" "sf_filled_amount f" "''USDT''"] assms(4) b1 by auto
  then show ?thesis using w2(2) by blast
qed

subsection \<open>Crash and restart\<close>

fun apply_trade_effect :: "trade_repo \<Rightarrow> trade_effect \<Rightarrow> trade_repo" where
  "apply_trade_effect repo (TSave t) = save_trade repo t"
| "apply_trade_effect repo _ = repo"

definition trades_after :: "trade_repo \<Rightarrow> trade_effect list \<Rightarrow> trade_repo" where
  "trades_after repo es = foldl apply_trade_effect repo es"

lemma trades_after_simps [simp]:
  "trades_after repo [] = repo" "trades_after repo (e # es) = trades_after (apply_trade_effect repo e) es"
  "trades_after repo (es @ fs) = trades_after (trades_after repo es) fs"
  by (simp_all add: trades_after_def)

lemma trades_after_last:
  "noted_trace tid p es \<Longrightarrow> get_trade repo tid = Some t \<Longrightarrow>
   get_trade (trades_after repo es) tid = Some (last_saved t es)"
  by (induction tid p es arbitrary: repo t rule: noted_trace.induct) auto

lemma noted_trace_prefix: "noted_trace tid p (es @ fs) \<Longrightarrow> noted_trace tid p es"
  by (induction tid p es rule: noted_trace.induct) auto

lemma growing_prefix: "growing b (es @ fs) \<Longrightarrow> growing b es"
  by (induction b es rule: growing.induct) auto

lemma growing_last:
  "growing (trd_orders t \<noteq> []) es \<Longrightarrow> noted_trace tid p es \<Longrightarrow> (p = None \<or> p = Some t) \<Longrightarrow>
   orders_in es > 0 \<or> trd_orders t \<noteq> [] \<Longrightarrow> trd_orders (last_saved t es) \<noteq> []"
proof (induction es arbitrary: p t)
  case (Cons e es)
  show ?case
  proof (cases e)
    case (TOrder k req)
    then have "trd_orders t \<noteq> []" using Cons.prems by (auto simp: records_def)
    then show ?thesis using Cons.IH [of t None] Cons.prems TOrder by auto
  next
    case (TSave u)
    then show ?thesis using Cons.IH [of u "Some u"] Cons.prems by auto
  next
    case (TAudit a b)
    then show ?thesis using Cons.IH [of t None] Cons.prems by auto
  qed
qed simp

text \<open>(crash_leaves_the_order_on_record).
  If the process dies at any point of an execution after an order was submitted, the table
  holds the trade with at least one order entry, so the restart resolves it against the venue
  instead of treating the trade as never submitted.\<close>

theorem crash_leaves_the_order_on_record:
  assumes "prefix ps (snd (snd (execute s envs m tid opp)))" "0 < orders_in ps"
  shows "\<exists>t. get_trade (trades_after repo ps) tid = Some t \<and> trd_orders t \<noteq> []"
proof -
  obtain t m' es where ex: "execute s envs m tid opp = (t, m', es)" by (metis prod.exhaust)
  obtain rest where es: "es = ps @ rest" using assms(1) ex by (auto elim: prefixE)
  let ?t0 = "opening_trade s (envs 0) tid opp"
  obtain xs where xs: "es = TSave ?t0 # xs"
    using ex by (auto simp: execute_def Let_def split: prod.splits)
  then obtain qs where qs: "ps = TSave ?t0 # qs" using es assms(2) by (cases ps) auto
  have t0: "trd_id ?t0 = tid" by (simp add: opening_trade_def new_trade_def)
  have n: "noted_trace tid None ps" "growing False ps"
    using execute_ok(1,3) [OF ex] noted_trace_prefix growing_prefix unfolding es by blast+
  have "get_trade (trades_after repo ps) tid = Some (last_saved ?t0 qs)"
    using trades_after_last [of tid "Some ?t0" qs "save_trade repo ?t0"] n(1) t0 qs by simp
  moreover have "trd_orders (last_saved ?t0 qs) \<noteq> []"
    using growing_last [of ?t0 qs tid "Some ?t0"] n assms(2) qs by auto
  ultimately show ?thesis by blast
qed

lemma resolve_orders_length: "resolve_orders env os = Inr os' \<Longrightarrow> length os' = length os"
  by (induction env os arbitrary: os' rule: resolve_orders.induct) (auto simp: res_bind_Inr_iff)

lemma final_statuses [simp]:
  "trd_status (fail_trade env t reason) = T_FAILED" "trd_status (review_trade env t reason) = T_MANUAL_REVIEW"
  by (simp_all add: fail_trade_def review_trade_def)

lemma complete_from_orders_cases:
  "complete_from_orders env t os = review_trade env t ''resume: filled legs cannot be valued'' \<or>
   (trd_status (complete_from_orders env t os) = T_COMPLETED \<and>
    trd_orders (complete_from_orders env t os) = trd_orders t \<and> trd_id (complete_from_orders env t os) = trd_id t \<and>
    venue_fill_view (os ! 0) \<noteq> None \<and> venue_fill_view (os ! 1) \<noteq> None \<and> venue_fill_view (os ! 2) \<noteq> None)"
  by (simp add: complete_from_orders_def Let_def split: option.splits)

lemma resume_verdict_final:
  "trd_status (resume_verdict env t os) \<noteq> EXECUTING \<and> trd_id (resume_verdict env t os) = trd_id t \<and>
   trd_orders (resume_verdict env t os) = trd_orders t"
  using complete_from_orders_cases [of env t os] by (auto simp: resume_verdict_def)

lemma resume_verdict_failed:
  "trd_status (resume_verdict env t os) = T_FAILED \<Longrightarrow> o1 \<in> set os \<Longrightarrow> confirmed_not_filled o1"
  using complete_from_orders_cases [of env t os] outcome_cases [of o1]
  by (auto simp: resume_verdict_def filter_empty_conv split: if_splits)

lemma resume_verdict_completed:
  assumes "trd_status (resume_verdict env t os) = T_COMPLETED"
  shows "length os = 3 \<and> (\<forall>o1 \<in> set os. is_confirmed_fill o1 \<and> venue_fill_view o1 \<noteq> None)"
proof -
  have c: "length os = 3" "length (filter is_confirmed_fill os) = 3"
    "venue_fill_view (os ! 0) \<noteq> None" "venue_fill_view (os ! 1) \<noteq> None" "venue_fill_view (os ! 2) \<noteq> None"
    using assms complete_from_orders_cases [of env t os] by (auto simp: resume_verdict_def split: if_splits)
  obtain a b d where os: "os = [a, b, d]" using c(1) by (auto simp: length_Suc_conv numeral_3_eq_3)
  show ?thesis using c(2-5) by (auto simp: os split: if_splits)
qed

lemma resume_one_cases [consumes 1, case_names review nothing verdict]:
  assumes "resume_one env t = Inr u"
  obtains reason where "u = review_trade env t reason"
    | reason where "u = fail_trade env t reason" "trd_orders t = []"
    | os where "u = resume_verdict env
        (t\<lparr>trd_orders := map order_to_json os, trd_updated_at := env_now env\<rparr>) os"
  using assms unfolding resume_one_def Let_def by (auto simp: res_bind_Inr_iff split: if_splits)

text \<open>(resume_verdicts_are_sound).
  The restart reports FAILED only for a trade without any order or all of whose orders are
  confirmed as not filled, and COMPLETED only for a trade whose exactly three orders are
  confirmed fills with a known price; everything else goes to manual review.\<close>

theorem resume_verdicts_are_sound:
  assumes "resume_one env t = Inr u"
  shows "(trd_status u = T_FAILED \<longrightarrow>
      (\<forall>p \<in> set (trd_orders u). \<exists>o1. p = JOrder o1 \<and> confirmed_not_filled o1)) \<and>
    (trd_status u = T_COMPLETED \<longrightarrow> length (trd_orders u) = 3 \<and>
      (\<forall>p \<in> set (trd_orders u). \<exists>o1. p = JOrder o1 \<and> is_confirmed_fill o1 \<and> venue_fill_view o1 \<noteq> None)) \<and>
    trd_status u \<noteq> EXECUTING"
  using assms
proof (cases rule: resume_one_cases)
  case (verdict os)
  let ?t1 = "t\<lparr>trd_orders := map order_to_json os, trd_updated_at := env_now env\<rparr>"
  have o: "trd_orders u = map order_to_json os" "trd_status u \<noteq> EXECUTING"
    using resume_verdict_final [of env ?t1 os] verdict by simp_all
  show ?thesis
    using o resume_verdict_failed [of env ?t1 os] resume_verdict_completed [of env ?t1 os] verdict
    by (auto simp: order_to_json_def)
qed auto

lemma get_trades_after_saves:
  "get_trade (trades_after repo (map TSave ts)) k =
     (case List.find (\<lambda>t. trd_id t = k) (rev ts) of Some t \<Rightarrow> Some t | None \<Rightarrow> get_trade repo k)"
  by (induction ts rule: rev_induct) auto

lemma trades_ok_after: "trades_ok repo \<Longrightarrow> trades_ok (trades_after repo es)"
proof (induction es arbitrary: repo)
  case (Cons e es)
  then show ?case by (cases e) auto
qed simp

lemma resumed_final:
  assumes "resume_open_trades envs repo = (ts, es)"
  shows "es = map TSave ts" "\<forall>t \<in> set ts. trd_status t \<noteq> EXECUTING"
    "trd_id ` set ts = trd_id ` set (list_executing repo)"
proof -
  define one where "one i t = (case resume_one (envs i) t of Inr u \<Rightarrow> u
      | Inl e \<Rightarrow> review_trade (envs i) t (''resume failed ('' @ exn_text e @ '')''))" for i t
  have ts: "ts = map (\<lambda>(i, t). one i t) (enumerate 0 (list_executing repo))" "es = map TSave ts"
    using assms by (auto simp: resume_open_trades_def Let_def one_def)
  have f: "trd_status (one i t) \<noteq> EXECUTING" "trd_id (one i t) = trd_id t" for i t
  proof -
    have "trd_status (one i t) \<noteq> EXECUTING \<and> trd_id (one i t) = trd_id t"
    proof (cases "resume_one (envs i) t")
      case (Inr u)
      from this have "trd_status u \<noteq> EXECUTING \<and> trd_id u = trd_id t"
        using resume_verdict_final by (cases rule: resume_one_cases) auto
      then show ?thesis using Inr by (simp add: one_def)
    qed (simp add: one_def)
    then show "trd_status (one i t) \<noteq> EXECUTING" "trd_id (one i t) = trd_id t" by simp_all
  qed
  show "es = map TSave ts" by (rule ts(2))
  show "\<forall>t \<in> set ts. trd_status t \<noteq> EXECUTING" unfolding ts(1) using f(1) by auto
  have "map trd_id ts = map (\<lambda>x. trd_id (snd x)) (enumerate 0 (list_executing repo))"
    unfolding ts(1) by (simp add: f(2) case_prod_beta)
  also have "\<dots> = map trd_id (list_executing repo)"
    using map_map [of trd_id snd] map_snd_enumerate by (metis comp_apply map_cong)
  finally show "trd_id ` set ts = trd_id ` set (list_executing repo)" by (metis set_map)
qed

text \<open>(resume_leaves_nothing_executing).
  After the restart routine no trade is left in the state EXECUTING, and the routine submits
  no order: it only saves records.\<close>

theorem resume_leaves_nothing_executing:
  assumes "trades_ok repo"
  shows "list_executing (trades_after repo (snd (resume_open_trades envs repo))) = [] \<and>
    orders_in (snd (resume_open_trades envs repo)) = 0"
proof -
  obtain ts es where r: "resume_open_trades envs repo = (ts, es)" by (metis prod.exhaust)
  note res = resumed_final [OF r]
  let ?after = "trades_after repo es"
  have "t \<notin> set (list_executing ?after)" for t
  proof
    assume t: "t \<in> set (list_executing ?after)"
    then have g: "get_trade ?after (trd_id t) = Some t" "trd_status t = EXECUTING"
      using list_executing_iff [OF trades_ok_after [OF assms]] by auto
    show False
    proof (cases "List.find (\<lambda>u. trd_id u = trd_id t) (rev ts)")
      case None
      then have "trd_id t \<notin> trd_id ` set ts" by (auto simp: find_None_iff)
      moreover have "get_trade repo (trd_id t) = Some t"
        using g(1) None by (simp add: res(1) get_trades_after_saves)
      ultimately show False using res(3) g(2) list_executing_iff [OF assms] by blast
    next
      case (Some u)
      then have "u \<in> set ts" by (metis find_Some_iff nth_mem set_rev)
      moreover have "t = u" using g(1) Some by (simp add: res(1) get_trades_after_saves)
      ultimately show False using res(2) g(2) by blast
    qed
  qed
  then have "list_executing ?after = []" by (cases "list_executing ?after") auto
  moreover have "orders_in (map TSave ts) = 0" by (induction ts) auto
  ultimately show ?thesis by (simp add: r res(1))
qed

end
