(* ===== verification/Triangle_Scanner.thy ===== *)
theory Triangle_Scanner
  imports Trade_Models Order_Book_Math Market_Store Precision_Filters
begin

text \<open>
  The triangle scanner (\<^verbatim>\<open>app/strategies/triangular/scanner.py\<close>, \<^verbatim>\<open>fees.py\<close>):
  rings USDT - X - Y - USDT inside one venue, priced by walking the books in trade direction.
  The clock reading \<open>now\<close> is an argument; milliseconds are exact rationals where the code
  uses floats. The theory shows what a reported opportunity guarantees.
\<close>

subsection \<open>Fees and requests\<close>

record StaticFeeProvider =
  sfp_taker_bps :: decimal
  sfp_maker_bps :: decimal
  fee_overrides :: "(string, MarketFees) dict"

definition fees_for :: "StaticFeeProvider \<Rightarrow> string \<Rightarrow> MarketFees" where
  "fees_for p venue =
     (case dict_get (fee_overrides p) (py_lower (py_strip venue)) of
        Some f \<Rightarrow> f
      | None \<Rightarrow> \<lparr>maker_bps = sfp_maker_bps p, taker_bps = sfp_taker_bps p\<rparr>)"

record ScanRequest =
  scan_symbols :: "Symbol list"
  scan_notional_quote :: decimal
  scan_min_net_bps :: "decimal option"
  require_fresh_data :: bool
  max_results :: int
  ttl_ms :: int

record ScanSettings =
  triangle_max_notional_quote :: decimal
  triangle_min_net_bps :: decimal
  triangle_max_leg_slippage_bps :: decimal
  scan_stale_after_ms :: int
  scan_fees :: StaticFeeProvider
  scan_precision :: PrecisionProvider

subsection \<open>Rings\<close>

record TriangleRoute =
  route_exchange_id :: string
  route_symbols :: "Symbol \<times> Symbol \<times> Symbol"
  route_side2 :: OrderSide
  leg2_book :: OrderBook

record CycleWalk =
  walk_est1 :: ExecutionEstimate
  walk_amt1 :: decimal
  walk_est2 :: ExecutionEstimate
  walk_amt2 :: decimal
  walk_est3 :: ExecutionEstimate
  walk_proceeds :: decimal

text \<open>A pass over the ring either finds the factor to shrink the start by, or succeeds.\<close>

datatype walk_outcome = Shrink decimal | Walked CycleWalk

definition full_fill :: decimal where
  "full_fill = 999 / 1000"

definition max_sizing_passes :: nat where
  "max_sizing_passes = 8"

text \<open>The two outer sides are fixed, BUY and SELL; the middle one depends on the cross book.\<close>

definition middle_edge ::
  "string \<Rightarrow> string \<Rightarrow> (string \<times> string, OrderBook) dict \<Rightarrow> (exn, TriangleRoute option) result" where
  "middle_edge first second crosses =
     res_bind (mk_symbol first ''USDT'' None) (\<lambda>s1.
     res_bind (mk_symbol second ''USDT'' None) (\<lambda>s3.
       let route = (\<lambda>book sd. \<lparr>route_exchange_id = book_exchange_id book,
             route_symbols = (s1, book_symbol book, s3), route_side2 = sd, leg2_book = book\<rparr>)
       in Inr (case dict_get crosses (second, first) of
                 Some book \<Rightarrow> Some (route book BUY)
               | None \<Rightarrow> map_option (\<lambda>book. route book SELL) (dict_get crosses (first, second)))))"

definition side_notional :: "OrderBook \<Rightarrow> OrderSide \<Rightarrow> decimal" where
  "side_notional book sd = dsum (map level_notional (book_side book sd))"

definition shrink_to :: "decimal \<Rightarrow> decimal \<Rightarrow> walk_outcome" where
  "shrink_to supported needed = Shrink (if needed > 0 then ddiv supported needed else 0)"

definition after_fee :: "decimal \<Rightarrow> decimal \<Rightarrow> decimal" where
  "after_fee x taker = dmul x (dsub 1 taker)"

definition walk_cycle ::
  "OrderSide \<Rightarrow> OrderBook \<times> OrderBook \<times> OrderBook \<Rightarrow> decimal \<Rightarrow> decimal \<times> decimal \<times> decimal \<Rightarrow>
   decimal option \<times> decimal option \<Rightarrow> (exn, walk_outcome) result" where
  "walk_cycle sd2 bks q0 takers steps =
     (case (bks, takers, steps) of ((book1, book2, book3), (taker1, taker2, taker3), (step1, step2)) \<Rightarrow>
      res_bind (estimate_for_quote_amount book1 BUY q0) (\<lambda>est1.
        if estimate_fill_ratio est1 < full_fill
        then Inr (shrink_to (dsum (map level_notional (asks book1))) q0)
        else
          let amt1 = round_step_down (after_fee (est_filled_amount est1) taker1) step1 in
          if amt1 \<le> 0 then Inr (Shrink 0)
          else
            res_bind (if sd2 = BUY then estimate_for_quote_amount book2 BUY amt1
                      else estimate_for_base_amount book2 SELL amt1) (\<lambda>est2.
              let supported2 = (if sd2 = BUY then dsum (map level_notional (asks book2))
                                else dsum (map amount (bids book2))) in
              if estimate_fill_ratio est2 < full_fill then Inr (shrink_to supported2 amt1)
              else
                let held_y = after_fee (if sd2 = BUY then est_filled_amount est2 else est_quote_amount est2) taker2;
                    amt2 = round_step_down held_y step2 in
                if amt2 \<le> 0 then Inr (Shrink 0)
                else
                  res_bind (estimate_for_base_amount book3 SELL amt2) (\<lambda>est3.
                    if estimate_fill_ratio est3 < full_fill
                    then Inr (shrink_to (dsum (map amount (bids book3))) amt2)
                    else Inr (Walked \<lparr>walk_est1 = est1, walk_amt1 = amt1, walk_est2 = est2,
                           walk_amt2 = amt2, walk_est3 = est3,
                           walk_proceeds = quantize 8 (after_fee (est_quote_amount est3) taker3)\<rparr>)))))"

fun sizing_loop ::
  "nat \<Rightarrow> decimal option \<Rightarrow> (decimal \<Rightarrow> (exn, walk_outcome) result) \<Rightarrow> decimal \<Rightarrow>
   (exn, CycleWalk option) result" where
  "sizing_loop 0 entry_floor walk q0 = Inr None"
| "sizing_loop (Suc n) entry_floor walk q0 =
     (if (case entry_floor of None \<Rightarrow> False | Some f \<Rightarrow> q0 < f) then Inr None
      else res_bind (walk q0) (\<lambda>outcome.
        case outcome of
          Walked w \<Rightarrow> Inr (Some w)
        | Shrink x \<Rightarrow>
            if x \<le> 0 then Inr None
            else sizing_loop n entry_floor walk (quantize 8 (dmul (dmul q0 x) (999 / 1000)))))"

definition raw_age_ms :: "int \<Rightarrow> OrderBook \<Rightarrow> rat" where
  "raw_age_ms now book = of_int (now - book_timestamp book) / 1000"

definition ring_leg ::
  "string \<Rightarrow> Symbol \<Rightarrow> OrderSide \<Rightarrow> decimal \<Rightarrow> decimal \<Rightarrow> ExecutionEstimate \<Rightarrow> ArbitrageLeg" where
  "ring_leg venue symb sd amt taker est =
     \<lparr>leg_exchange_id = venue, leg_symbol = symb, leg_side = sd, leg_price = est_average_price est,
      leg_amount = amt, leg_fee_bps = dmul taker 10000, leg_estimate = Some est\<rparr>"

definition ring_profit :: "CycleWalk \<Rightarrow> decimal \<times> decimal \<times> decimal \<Rightarrow> ProfitBreakdown" where
  "ring_profit w takers =
     (case takers of (taker1, taker2, taker3) \<Rightarrow>
      let spend = est_quote_amount (walk_est1 w);
          slippage_total = quantize 4 (dadd (dadd (est_slippage_bps (walk_est1 w)) (est_slippage_bps (walk_est2 w)))
            (est_slippage_bps (walk_est3 w)));
          net_bps = quantize 4 (dmul (dsub (ddiv (walk_proceeds w) spend) 1) 10000);
          fees_bps = quantize 4 (dmul (dadd (dadd taker1 taker2) taker3) 10000)
      in \<lparr>pb_notional_quote = quantize 8 spend,
          pb_gross_spread_bps = quantize 4 (dadd (dadd net_bps fees_bps) slippage_total),
          pb_trading_fees_bps = fees_bps, pb_slippage_bps = slippage_total, pb_transfer_bps = 0\<rparr>)"

text \<open>The opportunity for a walked ring, when every leg stays within the slippage bound.\<close>

definition ring_opportunity_of ::
  "ScanSettings \<Rightarrow> int \<Rightarrow> string \<Rightarrow> TriangleRoute \<Rightarrow> OrderBook \<times> OrderBook \<times> OrderBook \<Rightarrow>
   decimal \<times> decimal \<times> decimal \<Rightarrow> int \<Rightarrow> CycleWalk \<Rightarrow> ArbitrageOpportunity option" where
  "ring_opportunity_of s now venue route bks takers ttl w =
     (case (bks, takers, route_symbols route) of ((book1, book2, book3), (taker1, taker2, taker3), (s1, s2, s3)) \<Rightarrow>
      let slips = map est_slippage_bps [walk_est1 w, walk_est2 w, walk_est3 w];
          legs = [ring_leg venue s1 BUY (walk_amt1 w) taker1 (walk_est1 w),
                  ring_leg venue s2 (route_side2 route) (walk_amt2 w) taker2 (walk_est2 w),
                  ring_leg venue s3 SELL (walk_amt2 w) taker3 (walk_est3 w)];
          route_text = ''USDT->'' @ base s1 @ ''->'' @ base s3 @ ''->USDT @ '' @ venue
      in if est_quote_amount (walk_est3 w) \<le> 0 then None
         else if list_ex (\<lambda>x. x > triangle_max_leg_slippage_bps s) slips then None
         else if est_quote_amount (walk_est1 w) \<le> 0 then None
         else Some
           \<lparr>opp_strategy = TRIANGLE, opp_symbol = s1, buy_leg = legs ! 0, sell_leg = legs ! 2, opp_profit = ring_profit w takers,
            opp_status = DETECTED,
            opp_max_notional_quote = min (min (side_notional book1 BUY) (side_notional book2 (route_side2 route)))
              (side_notional book3 SELL),
            opp_data_age_ms = max (max (raw_age_ms now book1) (raw_age_ms now book2)) (raw_age_ms now book3),
            detected_at = now, expires_at = Some (now + ttl * 1000), opp_notes = [route_text],
            opp_risk_violations = [],
            size_notional_quote = quantize 8 (est_quote_amount (walk_est1 w)),
            direction = Some route_text,
            legs_route = legs\<rparr>)"

definition evaluate_ring ::
  "ScanSettings \<Rightarrow> int \<Rightarrow> string \<Rightarrow> TriangleRoute \<Rightarrow> OrderBook \<Rightarrow> OrderBook \<Rightarrow> decimal \<Rightarrow> int \<Rightarrow> bool \<Rightarrow>
   (exn, ArbitrageOpportunity option) result" where
  "evaluate_ring s now venue route leg1_book leg3_book notional ttl require_fresh =
     (let bks = (leg1_book, leg2_book route, leg3_book);
          taker = ddiv (taker_bps (fees_for (scan_fees s) venue)) 10000;
          takers = (taker, taker, taker);
          filters = (\<lambda>symb. filters_for (scan_precision s) venue (symbol_name symb));
          step = (\<lambda>symb. Option.bind (filters symb) amount_step)
      in if require_fresh \<and>
            list_ex (\<lambda>b. raw_age_ms now b > of_int (scan_stale_after_ms s)) [leg1_book, leg2_book route, leg3_book]
         then Inr None
         else (case route_symbols route of (s1, s2, s3) \<Rightarrow>
           res_bind (sizing_loop max_sizing_passes (Option.bind (filters s1) min_cost)
                       (\<lambda>q0. walk_cycle (route_side2 route) bks q0 takers (step s1, step s2)) notional)
             (\<lambda>found. Inr (Option.bind found (ring_opportunity_of s now venue route bks takers ttl)))))"

subsection \<open>One venue\<close>

definition venue_spot_books :: "MarketDataStore \<Rightarrow> int \<Rightarrow> string \<Rightarrow> bool \<Rightarrow> (string, OrderBook) dict" where
  "venue_spot_books st now venue fresh_only =
     filter (\<lambda>(_, b). \<not> (fresh_only \<and> is_stale st (age_ms now (book_timestamp b)))) (books st (Some venue))"

text \<open>The books against USDT by asset, and the cross books by pair.\<close>

definition file_book ::
  "string list \<Rightarrow> (string, OrderBook) dict \<times> (string \<times> string, OrderBook) dict \<Rightarrow> string \<times> OrderBook \<Rightarrow>
   (string, OrderBook) dict \<times> (string \<times> string, OrderBook) dict" where
  "file_book wanted acc entry =
     (case (acc, entry) of ((usdt, crosses), (name, book)) \<Rightarrow>
      let symb = book_symbol book; unwanted = (wanted \<noteq> [] \<and> name \<notin> set wanted) in
      if quote symb = ''USDT''
      then (if unwanted then usdt else dict_set usdt (base symb) book, crosses)
      else if base symb = ''USDT''
      then (if unwanted then usdt else dict_set usdt (quote symb) book, crosses)
      else (usdt, dict_set crosses (base symb, quote symb) book))"

definition sort_books ::
  "string list \<Rightarrow> (string, OrderBook) dict \<Rightarrow>
   (string, OrderBook) dict \<times> (string \<times> string, OrderBook) dict" where
  "sort_books wanted cached = foldl (file_book wanted) ([], []) cached"

definition ring_found ::
  "ScanSettings \<Rightarrow> ScanRequest \<Rightarrow> int \<Rightarrow> string \<Rightarrow> (string \<times> string, OrderBook) dict \<Rightarrow>
   (string \<times> OrderBook) \<times> (string \<times> OrderBook) \<Rightarrow> (exn, ArbitrageOpportunity list) result" where
  "ring_found s req now venue crosses pair =
     (case pair of ((first_base, leg1_book), (second_base, leg3_book)) \<Rightarrow>
      let notional = min (scan_notional_quote req) (triangle_max_notional_quote s);
          min_net = (case scan_min_net_bps req of Some x \<Rightarrow> x | None \<Rightarrow> triangle_min_net_bps s)
      in if first_base = second_base then Inr []
         else res_bind (middle_edge first_base second_base crosses) (\<lambda>route.
           Inr (case route of
                  None \<Rightarrow> []
                | Some r \<Rightarrow>
                    (case evaluate_ring s now venue r leg1_book leg3_book notional (ttl_ms req)
                            (require_fresh_data req) of
                       Inr (Some x) \<Rightarrow> if pb_net_profit_bps (opp_profit x) \<ge> min_net then [x] else []
                     | _ \<Rightarrow> []))))"

fun collect :: "('a \<Rightarrow> (exn, 'b list) result) \<Rightarrow> 'a list \<Rightarrow> (exn, 'b list) result" where
  "collect f [] = Inr []"
| "collect f (x # xs) = res_bind (f x) (\<lambda>ys. res_bind (collect f xs) (\<lambda>zs. Inr (ys @ zs)))"

text \<open>\<^verbatim>\<open>sort(key=..., reverse=True)\<close> is stable.\<close>

definition best_first :: "ArbitrageOpportunity list \<Rightarrow> ArbitrageOpportunity list" where
  "best_first xs = sort_key (\<lambda>x. - pb_net_profit_bps (opp_profit x)) xs"

definition scan_venue ::
  "ScanSettings \<Rightarrow> MarketDataStore \<Rightarrow> ScanRequest \<Rightarrow> int \<Rightarrow> string list \<Rightarrow> string \<Rightarrow>
   (exn, ArbitrageOpportunity list) result" where
  "scan_venue s st req now wanted venue =
     (let cached = venue_spot_books st now venue (require_fresh_data req) in
      if length cached < 2 then Inr []
      else (case sort_books wanted cached of (usdt, crosses) \<Rightarrow>
        if usdt = [] then Inr []
        else res_bind (collect (ring_found s req now venue crosses) (List.product usdt usdt))
               (\<lambda>found. Inr (best_first found))))"

subsection \<open>All venues\<close>

definition scan ::
  "ScanSettings \<Rightarrow> MarketDataStore \<Rightarrow> string list \<Rightarrow> ScanRequest \<Rightarrow> int \<Rightarrow> ArbitrageOpportunity list" where
  "scan s st venues req now =
     (let wanted = map symbol_name (scan_symbols req);
          found = concat (map (\<lambda>v. case scan_venue s st req now wanted v of Inr xs \<Rightarrow> xs | Inl _ \<Rightarrow> [])
                    (dedup (map py_lower venues)))
      in py_slice_to (Some (max_results req)) (best_first found))"

subsection \<open>What a reported ring guarantees\<close>

lemma collect_mem: "collect f xs = Inr ys \<Longrightarrow> y \<in> set ys \<Longrightarrow> \<exists>x \<in> set xs. \<exists>zs. f x = Inr zs \<and> y \<in> set zs"
  by (induction f xs arbitrary: ys rule: collect.induct) (fastforce simp: res_bind_Inr_iff)+

definition crosses_ok :: "(string \<times> string, OrderBook) dict \<Rightarrow> bool" where
  "crosses_ok crosses \<longleftrightarrow> (\<forall>k b. dict_get crosses k = Some b \<longrightarrow> k = (base (book_symbol b), quote (book_symbol b)))"

lemma file_book_crosses: "crosses_ok (snd acc) \<Longrightarrow> crosses_ok (snd (file_book wanted acc entry))"
  by (auto simp: file_book_def Let_def crosses_ok_def split: prod.splits if_splits)

lemma crosses_ok_empty: "crosses_ok []"
  by (simp add: crosses_ok_def)

lemma sort_books_crosses: "crosses_ok (snd (sort_books wanted cached))"
proof -
  have "crosses_ok (snd acc) \<Longrightarrow> crosses_ok (snd (foldl (file_book wanted) acc cached))" for acc
    by (induction cached arbitrary: acc) (simp_all add: file_book_crosses)
  from this [of "([], [])"] show ?thesis by (simp add: sort_books_def crosses_ok_empty)
qed

definition linked :: "Symbol \<Rightarrow> OrderSide \<Rightarrow> Symbol \<Rightarrow> Symbol \<Rightarrow> bool" where
  "linked s1 sd s2 s3 \<longleftrightarrow>
     (if sd = BUY
      then normalise (quote s2) = Some (base s1) \<and> normalise (base s2) = Some (base s3)
      else normalise (base s2) = Some (base s1) \<and> normalise (quote s2) = Some (base s3)) \<and>
     quote s1 = ''USDT'' \<and> quote s3 = ''USDT''"

lemma usdt_symbol: "mk_symbol a ''USDT'' None = Inr s \<Longrightarrow> normalise a = Some (base s) \<and> quote s = ''USDT''"
proof -
  have "normalise ''USDT'' = Some ''USDT''" by code_simp
  then show "mk_symbol a ''USDT'' None = Inr s \<Longrightarrow> normalise a = Some (base s) \<and> quote s = ''USDT''"
    by (auto simp: mk_symbol_def split: option.splits)
qed

lemma middle_edge_linked:
  assumes "middle_edge a b crosses = Inr (Some r)" "crosses_ok crosses"
  shows "case route_symbols r of (s1, s2, s3) \<Rightarrow> linked s1 (route_side2 r) s2 s3"
proof -
  obtain s1 s3 where s: "mk_symbol a ''USDT'' None = Inr s1" "mk_symbol b ''USDT'' None = Inr s3"
    using assms(1) by (auto simp: middle_edge_def res_bind_Inr_iff Let_def)
  show ?thesis
    using assms s usdt_symbol [OF s(1)] usdt_symbol [OF s(2)]
    by (auto simp: middle_edge_def Let_def linked_def crosses_ok_def split: option.splits)
qed

lemma walk_cycle_full:
  assumes "walk_cycle sd2 bks q0 takers steps = Inr (Walked w)"
  shows "full_fill \<le> estimate_fill_ratio (walk_est1 w)" "full_fill \<le> estimate_fill_ratio (walk_est2 w)"
    "full_fill \<le> estimate_fill_ratio (walk_est3 w)"
  using assms by (auto simp: walk_cycle_def Let_def res_bind_Inr_iff shrink_to_def split: prod.splits if_splits)

lemma sizing_loop_walk:
  "sizing_loop n entry_floor walk q0 = Inr (Some w) \<Longrightarrow> \<exists>q. walk q = Inr (Walked w)"
proof (induction n entry_floor walk q0 rule: sizing_loop.induct)
  case (2 n entry_floor walk q0)
  obtain outcome where o: "walk q0 = Inr outcome"
    using "2.prems" by (cases "walk q0") (auto split: if_splits)
  show ?case
  proof (cases outcome)
    case (Walked v)
    then show ?thesis using "2.prems" o by (auto split: if_splits)
  next
    case (Shrink x)
    then show ?thesis using "2.prems" "2.IH" [of x] o by (auto split: if_splits)
  qed
qed simp

text \<open>The legs of a ring as reported for a venue.\<close>

definition ring_legs_ok :: "ScanSettings \<Rightarrow> string \<Rightarrow> ArbitrageLeg list \<Rightarrow> bool" where
  "ring_legs_ok s venue legs \<longleftrightarrow>
     (\<exists>l1 l2 l3. legs = [l1, l2, l3] \<and> leg_side l1 = BUY \<and> leg_side l3 = SELL \<and>
        linked (leg_symbol l1) (leg_side l2) (leg_symbol l2) (leg_symbol l3)) \<and>
     (\<forall>l \<in> set legs. leg_exchange_id l = venue \<and> leg_slippage_bps l \<le> triangle_max_leg_slippage_bps s \<and>
        full_fill \<le> leg_fill_ratio l)"

lemma ring_opportunity_of_ok:
  assumes "ring_opportunity_of s now venue route bks takers ttl w = Some x"
    "case route_symbols route of (s1, s2, s3) \<Rightarrow> linked s1 (route_side2 route) s2 s3"
    "full_fill \<le> estimate_fill_ratio (walk_est1 w)" "full_fill \<le> estimate_fill_ratio (walk_est2 w)"
    "full_fill \<le> estimate_fill_ratio (walk_est3 w)"
  shows "ring_legs_ok s venue (legs_route x)" "opp_profit x = ring_profit w takers"
    "opp_data_age_ms x = (case bks of (b1, b2, b3) \<Rightarrow>
       max (max (raw_age_ms now b1) (raw_age_ms now b2)) (raw_age_ms now b3))"
    "0 < est_quote_amount (walk_est1 w)"
  using assms
  by (auto simp: ring_opportunity_of_def Let_def ring_legs_ok_def ring_leg_def leg_slippage_bps_def
      leg_fill_ratio_def split: prod.splits if_splits)

lemma evaluate_ring_ok:
  assumes "evaluate_ring s now venue route b1 b3 notional ttl fresh = Inr (Some x)"
    "case route_symbols route of (s1, s2, s3) \<Rightarrow> linked s1 (route_side2 route) s2 s3"
  shows "ring_legs_ok s venue (legs_route x) \<and> (fresh \<longrightarrow> opp_data_age_ms x \<le> of_int (scan_stale_after_ms s)) \<and>
    (\<exists>w. opp_profit x = ring_profit w (let t = ddiv (taker_bps (fees_for (scan_fees s) venue)) 10000 in (t, t, t)) \<and>
      0 < est_quote_amount (walk_est1 w))"
proof -
  define t where "t = ddiv (taker_bps (fees_for (scan_fees s) venue)) 10000"
  obtain w q steps where w: "walk_cycle (route_side2 route) (b1, leg2_book route, b3) q (t, t, t) steps = Inr (Walked w)"
    "ring_opportunity_of s now venue route (b1, leg2_book route, b3) (t, t, t) ttl w = Some x"
    "fresh \<longrightarrow> \<not> list_ex (\<lambda>b. raw_age_ms now b > of_int (scan_stale_after_ms s)) [b1, leg2_book route, b3]"
    using assms(1) unfolding evaluate_ring_def t_def [symmetric] Let_def
    by (auto simp: res_bind_Inr_iff Option.bind_eq_Some_conv split: if_splits prod.splits dest!: sizing_loop_walk)
  note ok = ring_opportunity_of_ok [OF w(2) assms(2) walk_cycle_full [OF w(1)]]
  have "fresh \<longrightarrow> opp_data_age_ms x \<le> of_int (scan_stale_after_ms s)" using ok(3) w(3) by auto
  then show ?thesis using ok by (auto simp: t_def Let_def)
qed

lemma set_best_first [simp]: "set (best_first xs) = set xs"
  by (simp add: best_first_def)

lemma set_dedup [simp]: "set (dedup xs) = set xs"
  by (simp add: dedup_def)

lemma set_slice: "set (py_slice_to n xs) \<subseteq> set xs"
  by (auto simp: py_slice_to_def dest: in_set_takeD split: option.splits if_splits)

lemma scan_venue_mem:
  assumes "scan_venue s st req now wanted venue = Inr xs" "x \<in> set xs"
  obtains r b1 b3 where "case route_symbols r of (s1, s2, s3) \<Rightarrow> linked s1 (route_side2 r) s2 s3"
    "evaluate_ring s now venue r b1 b3 (min (scan_notional_quote req) (triangle_max_notional_quote s)) (ttl_ms req)
       (require_fresh_data req) = Inr (Some x)"
    "(case scan_min_net_bps req of Some m \<Rightarrow> m | None \<Rightarrow> triangle_min_net_bps s) \<le> pb_net_profit_bps (opp_profit x)"
proof -
  let ?cached = "venue_spot_books st now venue (require_fresh_data req)"
  obtain usdt crosses where sb: "sort_books wanted ?cached = (usdt, crosses)" by (cases "sort_books wanted ?cached")
  then have cr: "crosses_ok crosses" using sort_books_crosses [of wanted ?cached] by simp
  obtain found where found: "collect (ring_found s req now venue crosses) (List.product usdt usdt) = Inr found" "x \<in> set found"
    using assms sb by (auto simp: scan_venue_def Let_def res_bind_Inr_iff split: if_splits)
  obtain pair zs where z: "ring_found s req now venue crosses pair = Inr zs" "x \<in> set zs"
    using collect_mem [OF found] by blast
  obtain a b1 c b3 where pair: "pair = ((a, b1), (c, b3))" by (metis prod.exhaust)
  obtain route where edge: "middle_edge a c crosses = Inr route"
    using z unfolding ring_found_def pair by (auto simp: Let_def res_bind_Inr_iff split: if_splits)
  obtain r where r: "route = Some r"
    using z edge unfolding ring_found_def pair by (cases route) (auto simp: Let_def split: if_splits)
  let ?ev = "evaluate_ring s now venue r b1 b3 (min (scan_notional_quote req) (triangle_max_notional_quote s))
      (ttl_ms req) (require_fresh_data req)"
  have zs: "zs = (case ?ev of
      Inr (Some x) \<Rightarrow> if pb_net_profit_bps (opp_profit x) \<ge>
          (case scan_min_net_bps req of Some m \<Rightarrow> m | None \<Rightarrow> triangle_min_net_bps s) then [x] else [] | _ \<Rightarrow> [])"
    using z edge r unfolding ring_found_def pair by (auto simp: Let_def split: if_splits)
  obtain y where y: "?ev = Inr (Some y)" using z(2) zs by (cases ?ev) (auto split: option.splits)
  show thesis
    using that [of r b1 b3] middle_edge_linked [OF edge [unfolded r] cr] y zs z(2) by (auto split: if_splits)
qed

text \<open>C36 (scan_reports_sound_rings).
  Every opportunity a scan reports is a closed ring on one of the scanned venues: it buys an
  asset with USDT, crosses it into a second one over a book that connects the two, and sells
  that for USDT; every leg fills essentially completely within the slippage bound, the net
  clears the floor, and with the freshness filter no book is older than the bound.\<close>

theorem scan_reports_sound_rings:
  assumes "x \<in> set (scan s st venues req now)"
  shows "(\<exists>v \<in> set venues. ring_legs_ok s (py_lower v) (legs_route x)) \<and>
    (case scan_min_net_bps req of Some m \<Rightarrow> m | None \<Rightarrow> triangle_min_net_bps s) \<le> pb_net_profit_bps (opp_profit x) \<and>
    (require_fresh_data req \<longrightarrow> opp_data_age_ms x \<le> of_int (scan_stale_after_ms s))"
proof -
  let ?wanted = "map symbol_name (scan_symbols req)"
  have "x \<in> set (concat (map (\<lambda>v. case scan_venue s st req now ?wanted v of Inr xs \<Rightarrow> xs | Inl _ \<Rightarrow> [])
      (dedup (map py_lower venues))))"
    using assms set_slice [of "Some (max_results req)"] unfolding scan_def Let_def by fastforce
  then obtain v where v: "v \<in> set venues"
    "x \<in> set (case scan_venue s st req now ?wanted (py_lower v) of Inr xs \<Rightarrow> xs | Inl _ \<Rightarrow> [])"
    by auto
  then obtain xs where xs: "scan_venue s st req now ?wanted (py_lower v) = Inr xs" "x \<in> set xs"
    by (cases "scan_venue s st req now ?wanted (py_lower v)") auto
  obtain r b1 b3 where r: "case route_symbols r of (s1, s2, s3) \<Rightarrow> linked s1 (route_side2 r) s2 s3"
    "evaluate_ring s now (py_lower v) r b1 b3 (min (scan_notional_quote req) (triangle_max_notional_quote s)) (ttl_ms req)
       (require_fresh_data req) = Inr (Some x)"
    "(case scan_min_net_bps req of Some m \<Rightarrow> m | None \<Rightarrow> triangle_min_net_bps s) \<le> pb_net_profit_bps (opp_profit x)"
    by (rule scan_venue_mem [OF xs])
  show ?thesis using evaluate_ring_ok [OF r(2,1)] r(3) v(1) by blast
qed

lemma sorted_best_first:
  "sorted_wrt (\<lambda>x y. pb_net_profit_bps (opp_profit y) \<le> pb_net_profit_bps (opp_profit x)) (best_first xs)"
proof -
  have "sorted (map (\<lambda>x. - pb_net_profit_bps (opp_profit x)) (best_first xs))" by (simp add: best_first_def)
  then show ?thesis by (simp add: sorted_map sorted_wrt_map) 
qed

lemma sorted_wrt_slice: "sorted_wrt P xs \<Longrightarrow> sorted_wrt P (py_slice_to n xs)"
  by (auto simp: py_slice_to_def sorted_wrt_take split: option.splits)

text \<open>(scan_is_ranked).
  The scan returns at most the requested number of opportunities, best net profit first.\<close>

theorem scan_is_ranked:
  assumes "0 \<le> max_results req"
  shows "sorted_wrt (\<lambda>x y. pb_net_profit_bps (opp_profit y) \<le> pb_net_profit_bps (opp_profit x)) (scan s st venues req now) \<and>
    int (length (scan s st venues req now)) \<le> max_results req"
proof
  show "sorted_wrt (\<lambda>x y. pb_net_profit_bps (opp_profit y) \<le> pb_net_profit_bps (opp_profit x)) (scan s st venues req now)"
    unfolding scan_def Let_def by (intro sorted_wrt_slice sorted_best_first)
  show "int (length (scan s st venues req now)) \<le> max_results req"
    using assms by (simp add: scan_def Let_def py_slice_to_def)
qed

lemma grid4_sum:
  "on_grid 4 x \<Longrightarrow> on_grid 4 y \<Longrightarrow> \<bar>x + y\<bar> < 10 ^ 20 \<Longrightarrow> dadd x y = x + y"
  "on_grid 4 x \<Longrightarrow> on_grid 4 y \<Longrightarrow> \<bar>x - y\<bar> < 10 ^ 20 \<Longrightarrow> dsub x y = x - y"
  unfolding dadd_def dsub_def
  by (rule fix28_grid8; auto intro: on_grid_le [of 4])+

text \<open>(reported_net_is_measured).
  The breakdown is consistent: the net profit it derives (gross minus fees and slippage) is
  exactly the net measured by walking the ring, so no cost is counted twice.\<close>

theorem reported_net_is_measured:
  assumes "\<bar>pb_trading_fees_bps (ring_profit w takers)\<bar> < 10 ^ 18" "\<bar>pb_slippage_bps (ring_profit w takers)\<bar> < 10 ^ 18"
    "\<bar>quantize 4 (dmul (dsub (ddiv (walk_proceeds w) (est_quote_amount (walk_est1 w))) 1) 10000)\<bar> < 10 ^ 18"
  shows "pb_net_profit_bps (ring_profit w takers) =
    quantize 4 (dmul (dsub (ddiv (walk_proceeds w) (est_quote_amount (walk_est1 w))) 1) 10000)"
proof -
  define N where "N = quantize 4 (dmul (dsub (ddiv (walk_proceeds w) (est_quote_amount (walk_est1 w))) 1) 10000)"
  define F where "F = pb_trading_fees_bps (ring_profit w takers)"
  define S where "S = pb_slippage_bps (ring_profit w takers)"
  have g: "on_grid 4 N" "on_grid 4 F" "on_grid 4 S"
    by (auto simp: N_def F_def S_def ring_profit_def Let_def split: prod.splits)
  have b: "\<bar>N\<bar> < 10 ^ 18" "\<bar>F\<bar> < 10 ^ 18" "\<bar>S\<bar> < 10 ^ 18" using assms by (simp_all add: N_def F_def S_def)
  have big: "\<bar>N + F\<bar> < 10 ^ 20" "\<bar>N + F + S\<bar> < 10 ^ 20" "\<bar>F + S\<bar> < 10 ^ 20" using b by (simp_all add: abs_if split: if_splits)
  have "pb_gross_spread_bps (ring_profit w takers) = quantize 4 (dadd (dadd N F) S)"
    by (simp add: N_def F_def S_def ring_profit_def Let_def split: prod.splits)
  also have "\<dots> = N + F + S"
    using g big by (simp add: grid4_sum quantize_grid on_grid_add)
  finally have gross: "pb_gross_spread_bps (ring_profit w takers) = N + F + S" .
  have "pb_transfer_bps (ring_profit w takers) = 0" by (simp add: ring_profit_def Let_def split: prod.splits)
  then have "pb_total_costs_bps (ring_profit w takers) = dadd (dadd F S) 0"
    by (simp add: pb_total_costs_bps_def F_def S_def)
  also have "\<dots> = F + S" using g big grid4_sum(1) [of "F + S" 0] by (simp add: grid4_sum(1) on_grid_add)
  finally have costs: "pb_total_costs_bps (ring_profit w takers) = F + S" .
  have "dsub (N + F + S) (F + S) = N"
    using g b grid4_sum(2) [of "N + F + S" "F + S"] by (simp add: on_grid_add)
  then show ?thesis by (simp add: pb_net_profit_bps_def gross costs N_def)
qed

end
