(* ===== verification/Exchange_Manager.thy ===== *)
theory Exchange_Manager
  imports Execution_Guard
begin

text \<open>
  The owner of the venues (\<^verbatim>\<open>app/exchanges/manager.py\<close>) with the venue models
  (\<^verbatim>\<open>app/models/exchange.py\<close>) and profiles (\<^verbatim>\<open>app/exchanges/profiles.py\<close>):
  which adapter is built for a venue in which mode, the network circuit breaker and the
  gate that stops private calls after rejected keys.

  Readings of the monotonic clock are milliseconds as exact rationals. What an adapter answers
  when it is opened or probed is an argument; an adapter itself is described by how it was
  built. The redaction of secrets in error texts (regular expressions) is an argument too.
\<close>

subsection \<open>Venues\<close>

datatype ExchangeStatus =
  ONLINE | EX_DEGRADED | OFFLINE | MAINTENANCE | EX_DISABLED | EX_UNKNOWN | DATA_ONLY

record ExchangeCapabilities =
  cap_spot :: bool
  cap_fetch_markets :: bool
  cap_fetch_ticker :: bool
  cap_fetch_order_book :: bool
  cap_fetch_trading_fees :: bool
  cap_fetch_balance :: bool
  cap_create_order :: bool
  cap_cancel_order :: bool
  cap_withdraw :: bool
  cap_deposit_address :: bool
  cap_fetch_deposits :: bool
  cap_fetch_withdrawals :: bool
  cap_fetch_withdrawal_networks :: bool
  cap_watch_ticker :: bool
  cap_watch_order_book :: bool

definition no_capabilities :: ExchangeCapabilities where
  "no_capabilities =
     \<lparr>cap_spot = False, cap_fetch_markets = False, cap_fetch_ticker = False, cap_fetch_order_book = False,
      cap_fetch_trading_fees = False, cap_fetch_balance = False, cap_create_order = False,
      cap_cancel_order = False, cap_withdraw = False, cap_deposit_address = False,
      cap_fetch_deposits = False, cap_fetch_withdrawals = False, cap_fetch_withdrawal_networks = False,
      cap_watch_ticker = False, cap_watch_order_book = False\<rparr>"

definition is_market_data_ready :: "ExchangeCapabilities \<Rightarrow> bool" where
  "is_market_data_ready c \<longleftrightarrow> cap_fetch_markets c \<and> cap_fetch_order_book c \<and> cap_fetch_ticker c"

definition is_trading_ready :: "ExchangeCapabilities \<Rightarrow> bool" where
  "is_trading_ready c \<longleftrightarrow> cap_create_order c \<and> cap_cancel_order c \<and> cap_fetch_balance c"

definition is_transfer_ready :: "ExchangeCapabilities \<Rightarrow> bool" where
  "is_transfer_ready c \<longleftrightarrow> cap_fetch_withdrawal_networks c \<and> cap_deposit_address c"

record Exchange =
  ex_id :: string
  ex_name :: string
  ex_adapter :: string
  ex_enabled :: bool
  ex_status :: ExchangeStatus
  ex_capabilities :: ExchangeCapabilities
  ex_has_credentials :: bool
  ex_updated_at :: int

definition is_usable :: "Exchange \<Rightarrow> bool" where
  "is_usable x \<longleftrightarrow> ex_enabled x \<and> ex_status x \<notin> set [OFFLINE, EX_DISABLED, MAINTENANCE]"

definition ex_with_status :: "Exchange \<Rightarrow> int \<Rightarrow> ExchangeStatus \<Rightarrow> Exchange" where
  "ex_with_status x now st = x\<lparr>ex_status := st, ex_updated_at := now\<rparr>"

definition ex_with_enabled :: "Exchange \<Rightarrow> int \<Rightarrow> bool \<Rightarrow> Exchange" where
  "ex_with_enabled x now b = x\<lparr>ex_enabled := b, ex_updated_at := now\<rparr>"

definition ex_with_capabilities :: "Exchange \<Rightarrow> int \<Rightarrow> ExchangeCapabilities \<Rightarrow> Exchange" where
  "ex_with_capabilities x now c = x\<lparr>ex_capabilities := c, ex_updated_at := now\<rparr>"

record ExchangeHealth =
  eh_exchange_id :: string
  eh_status :: ExchangeStatus
  eh_consecutive_failures :: int
  eh_last_error :: "string option"

definition accepts_new_trades :: "ExchangeHealth \<Rightarrow> bool" where
  "accepts_new_trades h \<longleftrightarrow> eh_status h \<in> set [ONLINE, EX_DEGRADED]"

text \<open>
  A profile: the id, the id of the client class, the display name, and how the demo environment
  of the venue is reached. No profile has aliases.
\<close>

record VenueProfile =
  profile_id :: string
  ccxt_id :: string
  display_name :: string
  profile_aliases :: "string list"
  demo_base_url :: "string option"
  demo_private_only :: bool
  demo_replaces_sandbox :: bool
  demo_has_url_section :: bool
  demo_headers :: "(string \<times> string) list"
  demo_no_load_markets :: bool

definition plain_profile :: "string \<Rightarrow> string \<Rightarrow> string \<Rightarrow> VenueProfile" where
  "plain_profile v c n =
     \<lparr>profile_id = v, ccxt_id = c, display_name = n, profile_aliases = [], demo_base_url = None,
      demo_private_only = False, demo_replaces_sandbox = False, demo_has_url_section = False,
      demo_headers = [], demo_no_load_markets = False\<rparr>"

definition venue_profiles :: "VenueProfile list" where
  "venue_profiles =
     [(plain_profile ''binance'' ''binance'' ''Binance'')
        \<lparr>demo_replaces_sandbox := True, demo_has_url_section := True, demo_no_load_markets := True\<rparr>,
      (plain_profile ''okx'' ''okx'' ''OKX'')\<lparr>demo_headers := [(''x-simulated-trading'', ''1'')]\<rparr>,
      (plain_profile ''bybit'' ''bybit'' ''Bybit'')
        \<lparr>demo_base_url := Some ''https://api-demo.bybit.com'', demo_private_only := True\<rparr>]"

definition profiles_by_key :: "(string, VenueProfile) dict" where
  "profiles_by_key =
     fold (\<lambda>p d. fold (\<lambda>k d. dict_set d k p) (profile_id p # ccxt_id p # profile_aliases p) d) venue_profiles []"

definition resolve_profile :: "string \<Rightarrow> (exn, VenueProfile) result" where
  "resolve_profile venue =
     (case dict_get profiles_by_key (py_lower (py_strip venue)) of
        Some p \<Rightarrow> Inr p
      | None \<Rightarrow> Inl (ConfigurationError ''unknown exchange id''))"

definition ccxt_candidate_ids :: "VenueProfile \<Rightarrow> string list" where
  "ccxt_candidate_ids p = ccxt_id p # profile_aliases p"

subsection \<open>The manager\<close>

record ManagerSettings =
  ms_mode :: TradingMode
  ms_enabled :: "string list"
  simulate_in_paper :: bool
  breaker_failure_threshold :: int
  breaker_cooldown_seconds :: rat
  allow_live_withdrawals :: bool

text \<open>How an adapter was built.\<close>

datatype adapter_class = SimulatedExchangeAdapter | CCXTAdapter

record BuiltAdapter =
  adapter_class :: adapter_class
  adapter_sandbox :: bool
  adapter_allow_withdrawals :: bool

record ExchangeManager =
  mgr_settings :: ManagerSettings
  mgr_exchanges :: "(string, Exchange) dict"
  mgr_adapters :: "(string, BuiltAdapter) dict"
  mgr_health :: "(string, ExchangeHealth) dict"
  breaker_failures :: "(string, int) dict"
  breaker_opened_at_ms :: "(string, rat) dict"
  auth_blocked :: "(string, string) dict"

definition venue_key :: "string \<Rightarrow> string" where
  "venue_key venue = py_lower (py_strip venue)"

definition use_simulated :: "ManagerSettings \<Rightarrow> bool" where
  "use_simulated s \<longleftrightarrow> ms_mode s = PAPER \<and> simulate_in_paper s"

definition venue_entry :: "ManagerSettings \<Rightarrow> (string \<Rightarrow> bool) \<Rightarrow> int \<Rightarrow> VenueProfile \<Rightarrow> Exchange" where
  "venue_entry s has_keys now p =
     \<lparr>ex_id = py_lower (py_strip (profile_id p)), ex_name = display_name p,
      ex_adapter = (if use_simulated s then ''simulated'' else ''ccxt''), ex_enabled = True,
      ex_status = EX_UNKNOWN, ex_capabilities = no_capabilities,
      ex_has_credentials = (if use_simulated s then True else has_keys (profile_id p)), ex_updated_at = now\<rparr>"

text \<open>The constructor: an unknown venue in the settings raises.\<close>

fun enabled_exchanges ::
  "ManagerSettings \<Rightarrow> (string \<Rightarrow> bool) \<Rightarrow> int \<Rightarrow> string list \<Rightarrow> (string, Exchange) dict \<Rightarrow>
   (exn, (string, Exchange) dict) result" where
  "enabled_exchanges s has_keys now [] d = Inr d"
| "enabled_exchanges s has_keys now (v # vs) d =
     res_bind (resolve_profile v) (\<lambda>p.
       enabled_exchanges s has_keys now vs (dict_set d (profile_id p) (venue_entry s has_keys now p)))"

definition new_manager :: "ManagerSettings \<Rightarrow> (string \<Rightarrow> bool) \<Rightarrow> int \<Rightarrow> (exn, ExchangeManager) result" where
  "new_manager s has_keys now =
     res_bind (enabled_exchanges s has_keys now (ms_enabled s) []) (\<lambda>d.
       Inr \<lparr>mgr_settings = s, mgr_exchanges = d, mgr_adapters = [], mgr_health = [],
            breaker_failures = [], breaker_opened_at_ms = [], auth_blocked = []\<rparr>)"

definition enabled_ids :: "ExchangeManager \<Rightarrow> string list" where
  "enabled_ids mg = dict_keys (mgr_exchanges mg)"

definition mgr_exchange :: "ExchangeManager \<Rightarrow> string \<Rightarrow> Exchange option" where
  "mgr_exchange mg venue = dict_get (mgr_exchanges mg) (venue_key venue)"

definition build_adapter :: "ExchangeManager \<Rightarrow> string \<Rightarrow> BuiltAdapter \<times> ExchangeManager" where
  "build_adapter mg key =
     (let s = mgr_settings mg;
          ad = (if use_simulated s
                then \<lparr>adapter_class = SimulatedExchangeAdapter, adapter_sandbox = (ms_mode s = DEMO),
                      adapter_allow_withdrawals = False\<rparr>
                else \<lparr>adapter_class = CCXTAdapter, adapter_sandbox = (ms_mode s = DEMO),
                      adapter_allow_withdrawals = (ms_mode s = LIVE \<and> allow_live_withdrawals s)\<rparr>)
      in (ad, mg\<lparr>mgr_adapters := dict_set (mgr_adapters mg) key ad\<rparr>))"

definition mgr_adapter :: "ExchangeManager \<Rightarrow> string \<Rightarrow> (exn, BuiltAdapter) result \<times> ExchangeManager" where
  "mgr_adapter mg venue =
     (let key = venue_key venue in
      if dict_get (mgr_exchanges mg) key = None
      then (Inl (ConfigurationError ''exchange is not enabled''), mg)
      else (case dict_get (mgr_adapters mg) key of
              Some ad \<Rightarrow> (Inr ad, mg)
            | None \<Rightarrow> (case build_adapter mg key of (ad, mg1) \<Rightarrow> (Inr ad, mg1))))"

subsection \<open>Circuit breaker\<close>

definition record_success :: "ExchangeManager \<Rightarrow> string \<Rightarrow> ExchangeManager" where
  "record_success mg venue =
     (let key = venue_key venue in
      mg\<lparr>breaker_failures := dict_pop (breaker_failures mg) key,
         breaker_opened_at_ms := dict_pop (breaker_opened_at_ms mg) key\<rparr>)"

definition record_failure :: "ExchangeManager \<Rightarrow> rat \<Rightarrow> string \<Rightarrow> ExchangeManager" where
  "record_failure mg now venue =
     (let key = venue_key venue;
          n = opt_or (dict_get (breaker_failures mg) key) 0 + 1;
          mg1 = mg\<lparr>breaker_failures := dict_set (breaker_failures mg) key n\<rparr>
      in if n \<ge> breaker_failure_threshold (mgr_settings mg)
         then mg1\<lparr>breaker_opened_at_ms := dict_set (breaker_opened_at_ms mg) key now\<rparr>
         else mg1)"

text \<open>The wait \<open>max(cooldown, Retry-After)\<close> is computed for the log line only.\<close>

definition record_rate_limit :: "ExchangeManager \<Rightarrow> rat \<Rightarrow> string \<Rightarrow> rat option \<Rightarrow> ExchangeManager" where
  "record_rate_limit mg now venue retry_after_seconds =
     (let key = venue_key venue in
      mg\<lparr>breaker_opened_at_ms := dict_set (breaker_opened_at_ms mg) key now,
         breaker_failures := dict_set (breaker_failures mg) key
           (max (breaker_failure_threshold (mgr_settings mg) - 1) 1)\<rparr>)"

definition cooldown_ms :: "ManagerSettings \<Rightarrow> int" where
  "cooldown_ms s = floor (breaker_cooldown_seconds s * 1000)"

definition is_breaker_open :: "ExchangeManager \<Rightarrow> rat \<Rightarrow> string \<Rightarrow> bool \<times> ExchangeManager" where
  "is_breaker_open mg now venue =
     (let key = venue_key venue in
      case dict_get (breaker_opened_at_ms mg) key of
        None \<Rightarrow> (False, mg)
      | Some opened_at \<Rightarrow>
          if now - opened_at \<ge> of_int (cooldown_ms (mgr_settings mg))
          then (False, mg\<lparr>breaker_opened_at_ms := dict_pop (breaker_opened_at_ms mg) key\<rparr>)
          else (True, mg))"

subsection \<open>Private calls\<close>

definition set_status :: "ExchangeManager \<Rightarrow> int \<Rightarrow> string \<Rightarrow> ExchangeStatus \<Rightarrow> ExchangeManager" where
  "set_status mg now key st =
     (case dict_get (mgr_exchanges mg) key of
        None \<Rightarrow> mg
      | Some x \<Rightarrow> mg\<lparr>mgr_exchanges := dict_set (mgr_exchanges mg) key (ex_with_status x now st)\<rparr>)"

definition record_auth_failure :: "ExchangeManager \<Rightarrow> int \<Rightarrow> string \<Rightarrow> string \<Rightarrow> ExchangeManager" where
  "record_auth_failure mg now venue reason =
     (let key = venue_key venue;
          mg1 = mg\<lparr>auth_blocked := dict_set (auth_blocked mg) key reason,
                   breaker_failures := dict_pop (breaker_failures mg) key\<rparr>
      in set_status mg1 now key DATA_ONLY)"

definition record_private_success :: "ExchangeManager \<Rightarrow> int \<Rightarrow> string \<Rightarrow> ExchangeManager" where
  "record_private_success mg now venue =
     (let key = venue_key venue in
      if dict_get (auth_blocked mg) key = None then mg
      else
        (let mg1 = mg\<lparr>auth_blocked := dict_pop (auth_blocked mg) key\<rparr> in
         if map_option ex_status (dict_get (mgr_exchanges mg) key) = Some DATA_ONLY
         then set_status mg1 now key ONLINE else mg1))"

definition is_private_blocked :: "ExchangeManager \<Rightarrow> string \<Rightarrow> bool" where
  "is_private_blocked mg venue \<longleftrightarrow> dict_get (auth_blocked mg) (venue_key venue) \<noteq> None"

subsection \<open>Opening, closing, probing\<close>

definition mark_offline ::
  "(string \<Rightarrow> string) \<Rightarrow> ExchangeManager \<Rightarrow> int \<Rightarrow> Exchange \<Rightarrow> string \<Rightarrow> ExchangeManager" where
  "mark_offline redact mg now x err =
     mg\<lparr>mgr_exchanges := dict_set (mgr_exchanges mg) (ex_id x) (ex_with_status x now OFFLINE),
        mgr_health := dict_set (mgr_health mg) (ex_id x)
          \<lparr>eh_exchange_id = ex_id x, eh_status = OFFLINE,
           eh_consecutive_failures = (case dict_get (mgr_health mg) (ex_id x) of
             Some h \<Rightarrow> eh_consecutive_failures h + 1 | None \<Rightarrow> 1),
           eh_last_error = Some (take 300 (redact err))\<rparr>\<rparr>"

text \<open>\<open>opened v\<close> is what opening the adapter of \<open>v\<close> answers: its capabilities, or an error text.\<close>

definition open_one ::
  "(string \<Rightarrow> string) \<Rightarrow> (string \<Rightarrow> string + ExchangeCapabilities) \<Rightarrow> int \<Rightarrow> string \<Rightarrow> ExchangeManager \<Rightarrow> ExchangeManager" where
  "open_one redact opened now v mg =
     (case mgr_adapter mg v of (_, mg1) \<Rightarrow>
        case dict_get (mgr_exchanges mg1) v of
          None \<Rightarrow> mg1
        | Some x \<Rightarrow>
            (case opened v of
               Inr caps \<Rightarrow> mg1\<lparr>mgr_exchanges := dict_set (mgr_exchanges mg1) v
                 (ex_with_status (ex_with_capabilities x now caps) now ONLINE)\<rparr>
             | Inl err \<Rightarrow> mark_offline redact mg1 now x err))"

definition open_all ::
  "(string \<Rightarrow> string) \<Rightarrow> (string \<Rightarrow> string + ExchangeCapabilities) \<Rightarrow> int \<Rightarrow> ExchangeManager \<Rightarrow> ExchangeManager" where
  "open_all redact opened now mg = fold (open_one redact opened now) (enabled_ids mg) mg"

definition close_all :: "ExchangeManager \<Rightarrow> ExchangeManager" where
  "close_all mg = mg\<lparr>mgr_adapters := []\<rparr>"

definition health_one ::
  "(string \<Rightarrow> string) \<Rightarrow> (string \<Rightarrow> string + ExchangeHealth) \<Rightarrow> string \<Rightarrow> ExchangeManager \<Rightarrow> ExchangeManager" where
  "health_one redact probe v mg =
     (case dict_get (mgr_adapters mg) v of
        None \<Rightarrow> mg
      | Some _ \<Rightarrow>
          mg\<lparr>mgr_health := dict_set (mgr_health mg) v
            (case probe v of
               Inr h \<Rightarrow> h
             | Inl err \<Rightarrow> \<lparr>eh_exchange_id = v, eh_status = OFFLINE, eh_consecutive_failures = 0,
                 eh_last_error = Some (take 300 (redact err))\<rparr>)\<rparr>)"

definition health_all ::
  "(string \<Rightarrow> string) \<Rightarrow> (string \<Rightarrow> string + ExchangeHealth) \<Rightarrow> ExchangeManager \<Rightarrow> ExchangeManager" where
  "health_all redact probe mg = fold (health_one redact probe) (enabled_ids mg) mg"

subsection \<open>Histories\<close>

text \<open>Every operation that changes the manager, with the reading of the monotonic clock it makes.\<close>

datatype manager_event =
    Succeeded rat string
  | Failed rat string
  | Limited rat string "rat option"
  | AuthFailed rat int string string
  | PrivateSucceeded rat int string
  | Asked rat string
  | Requested rat string
  | Opened rat int "string \<Rightarrow> string" "string \<Rightarrow> string + ExchangeCapabilities"
  | Probed rat "string \<Rightarrow> string" "string \<Rightarrow> string + ExchangeHealth"
  | Closed rat

fun event_ms :: "manager_event \<Rightarrow> rat" where
  "event_ms (Succeeded t _) = t"
| "event_ms (Failed t _) = t"
| "event_ms (Limited t _ _) = t"
| "event_ms (AuthFailed t _ _ _) = t"
| "event_ms (PrivateSucceeded t _ _) = t"
| "event_ms (Asked t _) = t"
| "event_ms (Requested t _) = t"
| "event_ms (Opened t _ _ _) = t"
| "event_ms (Probed t _ _) = t"
| "event_ms (Closed t) = t"

fun apply_event :: "manager_event \<Rightarrow> ExchangeManager \<Rightarrow> ExchangeManager" where
  "apply_event (Succeeded t v) mg = record_success mg v"
| "apply_event (Failed t v) mg = record_failure mg t v"
| "apply_event (Limited t v r) mg = record_rate_limit mg t v r"
| "apply_event (AuthFailed t now v reason) mg = record_auth_failure mg now v reason"
| "apply_event (PrivateSucceeded t now v) mg = record_private_success mg now v"
| "apply_event (Asked t v) mg = snd (is_breaker_open mg t v)"
| "apply_event (Requested t v) mg = snd (mgr_adapter mg v)"
| "apply_event (Opened t now redact opened) mg = open_all redact opened now mg"
| "apply_event (Probed t redact probe) mg = health_all redact probe mg"
| "apply_event (Closed t) mg = close_all mg"

text \<open>
  What the breaker should remember of the venue with key \<open>k\<close>, read off the history, newest
  event first: the number of consecutive failures, and when it was opened last.
\<close>

fun streak :: "int \<Rightarrow> string \<Rightarrow> manager_event list \<Rightarrow> int" where
  "streak thr k [] = 0"
| "streak thr k (Succeeded t v # es) = (if venue_key v = k then 0 else streak thr k es)"
| "streak thr k (Failed t v # es) = (if venue_key v = k then streak thr k es + 1 else streak thr k es)"
| "streak thr k (Limited t v r # es) = (if venue_key v = k then max (thr - 1) 1 else streak thr k es)"
| "streak thr k (AuthFailed t now v reason # es) = (if venue_key v = k then 0 else streak thr k es)"
| "streak thr k (e # es) = streak thr k es"

fun last_opened :: "int \<Rightarrow> string \<Rightarrow> manager_event list \<Rightarrow> rat option" where
  "last_opened thr k [] = None"
| "last_opened thr k (Succeeded t v # es) = (if venue_key v = k then None else last_opened thr k es)"
| "last_opened thr k (Failed t v # es) =
     (if venue_key v = k \<and> streak thr k (Failed t v # es) \<ge> thr then Some t else last_opened thr k es)"
| "last_opened thr k (Limited t v r # es) = (if venue_key v = k then Some t else last_opened thr k es)"
| "last_opened thr k (e # es) = last_opened thr k es"

text \<open>Whether the venue's keys are currently known to be rejected.\<close>

fun keys_rejected :: "string \<Rightarrow> manager_event list \<Rightarrow> bool" where
  "keys_rejected k [] = False"
| "keys_rejected k (AuthFailed t now v reason # es) = (venue_key v = k \<or> keys_rejected k es)"
| "keys_rejected k (PrivateSucceeded t now v # es) = (venue_key v \<noteq> k \<and> keys_rejected k es)"
| "keys_rejected k (e # es) = keys_rejected k es"

subsection \<open>The breaker follows the history\<close>

definition breaker_agrees :: "rat \<Rightarrow> manager_event list \<Rightarrow> ExchangeManager \<Rightarrow> bool" where
  "breaker_agrees now es mg \<longleftrightarrow>
     (let thr = breaker_failure_threshold (mgr_settings mg) in
      \<forall>k. opt_or (dict_get (breaker_failures mg) k) 0 = streak thr k es \<and>
        (dict_get (breaker_opened_at_ms mg) k = last_opened thr k es \<or>
         (dict_get (breaker_opened_at_ms mg) k = None \<and>
          (\<exists>t. last_opened thr k es = Some t \<and> of_int (cooldown_ms (mgr_settings mg)) \<le> now - t))))"

lemma set_status_frame [simp]:
  "mgr_settings (set_status mg now k st) = mgr_settings mg"
  "mgr_adapters (set_status mg now k st) = mgr_adapters mg"
  "breaker_failures (set_status mg now k st) = breaker_failures mg"
  "breaker_opened_at_ms (set_status mg now k st) = breaker_opened_at_ms mg"
  "auth_blocked (set_status mg now k st) = auth_blocked mg"
  by (simp_all add: set_status_def split: option.splits)

lemma mgr_adapter_frame [simp]:
  "mgr_settings (snd (mgr_adapter mg v)) = mgr_settings mg"
  "breaker_failures (snd (mgr_adapter mg v)) = breaker_failures mg"
  "breaker_opened_at_ms (snd (mgr_adapter mg v)) = breaker_opened_at_ms mg"
  "auth_blocked (snd (mgr_adapter mg v)) = auth_blocked mg"
  by (simp_all add: mgr_adapter_def build_adapter_def Let_def split: option.splits)

lemma mark_offline_frame [simp]:
  "mgr_settings (mark_offline redact mg now x err) = mgr_settings mg"
  "mgr_adapters (mark_offline redact mg now x err) = mgr_adapters mg"
  "breaker_failures (mark_offline redact mg now x err) = breaker_failures mg"
  "breaker_opened_at_ms (mark_offline redact mg now x err) = breaker_opened_at_ms mg"
  "auth_blocked (mark_offline redact mg now x err) = auth_blocked mg"
  by (simp_all add: mark_offline_def)

lemma open_one_frame [simp]:
  "mgr_settings (open_one redact opened now v mg) = mgr_settings mg"
  "breaker_failures (open_one redact opened now v mg) = breaker_failures mg"
  "breaker_opened_at_ms (open_one redact opened now v mg) = breaker_opened_at_ms mg"
  "auth_blocked (open_one redact opened now v mg) = auth_blocked mg"
  "mgr_adapters (open_one redact opened now v mg) = mgr_adapters (snd (mgr_adapter mg v))"
  unfolding open_one_def case_prod_beta by (simp_all split: option.split sum.split)

lemma health_one_frame [simp]:
  "mgr_settings (health_one redact probe v mg) = mgr_settings mg"
  "mgr_adapters (health_one redact probe v mg) = mgr_adapters mg"
  "breaker_failures (health_one redact probe v mg) = breaker_failures mg"
  "breaker_opened_at_ms (health_one redact probe v mg) = breaker_opened_at_ms mg"
  "auth_blocked (health_one redact probe v mg) = auth_blocked mg"
  by (simp_all add: health_one_def split: option.splits)

lemma fold_frame: "(\<And>x s. f (g x s) = f s) \<Longrightarrow> f (fold g xs s) = f s"
  by (induction xs arbitrary: s) auto

lemma open_health_frame [simp]:
  "mgr_settings (open_all redact opened now mg) = mgr_settings mg"
  "breaker_failures (open_all redact opened now mg) = breaker_failures mg"
  "breaker_opened_at_ms (open_all redact opened now mg) = breaker_opened_at_ms mg"
  "auth_blocked (open_all redact opened now mg) = auth_blocked mg"
  "mgr_settings (health_all redact probe mg) = mgr_settings mg"
  "mgr_adapters (health_all redact probe mg) = mgr_adapters mg"
  "breaker_failures (health_all redact probe mg) = breaker_failures mg"
  "breaker_opened_at_ms (health_all redact probe mg) = breaker_opened_at_ms mg"
  "auth_blocked (health_all redact probe mg) = auth_blocked mg"
  by (simp_all add: open_all_def health_all_def fold_frame)

lemma apply_event_settings [simp]: "mgr_settings (apply_event e mg) = mgr_settings mg"
  by (cases e) (auto simp: record_success_def record_failure_def record_rate_limit_def record_auth_failure_def
      record_private_success_def is_breaker_open_def close_all_def Let_def split: option.splits)

lemma breaker_agrees_later: "breaker_agrees now es mg \<Longrightarrow> now \<le> now' \<Longrightarrow> breaker_agrees now' es mg"
  unfolding breaker_agrees_def Let_def by fastforce

lemma breaker_step:
  assumes "breaker_agrees (event_ms e) es mg"
  shows "breaker_agrees (event_ms e) (e # es) (apply_event e mg)"
proof (cases e)
  case (Succeeded t v)
  then show ?thesis using assms by (auto simp: breaker_agrees_def record_success_def Let_def)
next
  case (Failed t v)
  let ?mg = "record_failure mg t v"
  have n: "opt_or (dict_get (breaker_failures mg) (venue_key v)) 0 =
      streak (breaker_failure_threshold (mgr_settings mg)) (venue_key v) es"
    using assms by (auto simp: breaker_agrees_def Let_def)
  then show ?thesis using assms Failed by (auto simp: breaker_agrees_def record_failure_def Let_def)
next
  case (Limited t v r)
  then show ?thesis using assms by (auto simp: breaker_agrees_def record_rate_limit_def Let_def)
next
  case (AuthFailed t now v reason)
  then show ?thesis using assms by (auto simp: breaker_agrees_def record_auth_failure_def Let_def)
next
  case (PrivateSucceeded t now v)
  then show ?thesis using assms by (auto simp: breaker_agrees_def record_private_success_def Let_def)
next
  case (Asked t v)
  have "dict_get (breaker_opened_at_ms mg) k = Some x \<Longrightarrow>
      last_opened (breaker_failure_threshold (mgr_settings mg)) k es = Some x" for k x
    using assms unfolding breaker_agrees_def Let_def by (metis option.distinct(1))
  then show ?thesis
    using assms Asked by (auto simp: breaker_agrees_def is_breaker_open_def Let_def split: option.split)
qed (use assms in \<open>auto simp: breaker_agrees_def close_all_def Let_def\<close>)

lemma breaker_run:
  assumes "breaker_agrees t0 h mg" "sorted (t0 # map event_ms es)"
  shows "breaker_agrees (last (t0 # map event_ms es)) (rev es @ h) (fold apply_event es mg)"
  using assms
proof (induction es arbitrary: t0 h mg)
  case (Cons e es)
  have "breaker_agrees (event_ms e) h mg"
    by (rule breaker_agrees_later [OF Cons.prems(1)]) (use Cons.prems(2) in simp)
  from Cons.IH [OF breaker_step [OF this]] show ?case using Cons.prems(2) by (cases es) auto
qed simp


text \<open>(auth_gate_follows_history).
  Private calls of a venue are stopped exactly from the moment its keys are rejected until a
  private call succeeds, whatever else happens to the manager.\<close>

theorem auth_gate_follows_history:
  assumes "new_manager s keys t = Inr mg"
  shows "is_private_blocked (fold apply_event es mg) v \<longleftrightarrow> keys_rejected (venue_key v) (rev es)"
proof (induction es rule: rev_induct)
  case Nil
  then show ?case using assms by (auto simp: new_manager_def res_bind_Inr_iff is_private_blocked_def)
next
  case (snoc e es)
  then show ?case
    by (cases e) (auto simp: is_private_blocked_def record_success_def record_failure_def record_rate_limit_def
        record_auth_failure_def record_private_success_def is_breaker_open_def close_all_def Let_def
        split: option.splits if_splits)
qed

subsection \<open>What the manager hands out\<close>

definition adapter_safe :: "ManagerSettings \<Rightarrow> BuiltAdapter \<Rightarrow> bool" where
  "adapter_safe s ad \<longleftrightarrow>
     (adapter_allow_withdrawals ad \<longrightarrow> ms_mode s = LIVE \<and> allow_live_withdrawals s) \<and>
     (ms_mode s = DEMO \<longrightarrow> adapter_sandbox ad) \<and>
     (adapter_class ad = SimulatedExchangeAdapter \<longleftrightarrow> ms_mode s = PAPER \<and> simulate_in_paper s)"

definition adapters_safe :: "ExchangeManager \<Rightarrow> bool" where
  "adapters_safe mg \<longleftrightarrow> (\<forall>k ad. dict_get (mgr_adapters mg) k = Some ad \<longrightarrow> adapter_safe (mgr_settings mg) ad)"

lemma built_safe: "adapter_safe (mgr_settings mg) (fst (build_adapter mg k))"
  by (simp add: build_adapter_def adapter_safe_def use_simulated_def Let_def)

lemma mgr_adapter_safe: "adapters_safe mg \<Longrightarrow> adapters_safe (snd (mgr_adapter mg v))"
  using built_safe [of mg "venue_key v"]
  by (auto simp: adapters_safe_def mgr_adapter_def build_adapter_def Let_def split: option.splits if_splits)

lemma open_all_safe:
  assumes "adapters_safe mg" shows "adapters_safe (open_all redact opened now mg)"
proof -
  have "adapters_safe mg' \<Longrightarrow> adapters_safe (open_one redact opened now v mg')" for v mg'
    using mgr_adapter_safe [of mg' v] by (simp add: adapters_safe_def)
  then have "adapters_safe mg' \<Longrightarrow> adapters_safe (fold (open_one redact opened now) vs mg')" for vs mg'
    by (induction vs arbitrary: mg') auto
  then show ?thesis using assms by (simp add: open_all_def)
qed

lemma apply_event_safe: "adapters_safe mg \<Longrightarrow> adapters_safe (apply_event e mg)"
proof (cases e)
  case (Requested t v)
  then show "adapters_safe mg \<Longrightarrow> ?thesis" using mgr_adapter_safe by simp
next
  case (Opened t now redact opened)
  then show "adapters_safe mg \<Longrightarrow> ?thesis" using open_all_safe by simp
qed (auto simp: adapters_safe_def record_success_def record_failure_def record_rate_limit_def record_auth_failure_def
    record_private_success_def is_breaker_open_def close_all_def Let_def split: option.splits)

text \<open>(handed_out_adapters_are_safe).
  Over the whole life of a manager every adapter it hands out may withdraw only in LIVE mode
  with withdrawals allowed, is routed to the venue's demo environment in DEMO mode, and is the
  simulated one exactly in PAPER mode with simulation on; a venue that is not enabled has none.\<close>

theorem handed_out_adapters_are_safe:
  assumes "new_manager s keys t = Inr mg" "mgr_adapter (fold apply_event es mg) v = (Inr ad, mg')"
  shows "adapter_safe s ad \<and> dict_get (mgr_exchanges (fold apply_event es mg)) (venue_key v) \<noteq> None"
proof -
  let ?mg = "fold apply_event es mg"
  have mg: "mgr_settings mg = s" "mgr_adapters mg = []" using assms(1) by (auto simp: new_manager_def res_bind_Inr_iff)
  have "adapters_safe ?mg" using mg(2)
    by (induction es rule: rev_induct) (simp_all add: apply_event_safe, simp add: adapters_safe_def)
  moreover have "mgr_settings ?mg = s" using mg fold_frame [of mgr_settings apply_event] by simp
  ultimately show ?thesis
    using assms(2) built_safe [of ?mg "venue_key v"]
    by (auto simp: mgr_adapter_def adapters_safe_def Let_def split: option.splits if_splits prod.splits)
qed

subsection \<open>Rate limits\<close>

text \<open>(rate_limit_ignores_retry_after).
  The breaker is documented to stay open for the longer of the cooldown and the venue's
  Retry-After. It does not: once the cooldown has passed the venue is called again, however
  long it asked to be left alone.\<close>

theorem rate_limit_ignores_retry_after:
  assumes "t + of_int (cooldown_ms (mgr_settings mg)) \<le> now"
  shows "\<not> fst (is_breaker_open (record_rate_limit mg t v retry_after) now v)"
  using assms by (simp add: is_breaker_open_def record_rate_limit_def Let_def)

subsection \<open>A manager at work\<close>

definition one_venue :: ManagerSettings where
  "one_venue = \<lparr>ms_mode = DEMO, ms_enabled = [''Binance''], simulate_in_paper = True,
     breaker_failure_threshold = 2, breaker_cooldown_seconds = 60, allow_live_withdrawals = False\<rparr>"

definition one_manager :: ExchangeManager where
  "one_manager =
     \<lparr>mgr_settings = one_venue,
      mgr_exchanges = [(''binance'', \<lparr>ex_id = ''binance'', ex_name = ''Binance'', ex_adapter = ''ccxt'', ex_enabled = True,
        ex_status = EX_UNKNOWN, ex_capabilities = no_capabilities, ex_has_credentials = True, ex_updated_at = 0\<rparr>)],
      mgr_adapters = [], mgr_health = [], breaker_failures = [], breaker_opened_at_ms = [], auth_blocked = []\<rparr>"

lemma one_manager_built: "new_manager one_venue (\<lambda>_. True) 0 = Inr one_manager"
proof -
  have "resolve_profile ''Binance'' = Inr (hd venue_profiles)" "py_lower (py_strip ''binance'') = ''binance''"
    by code_simp+
  then show ?thesis
    by (simp add: new_manager_def one_venue_def one_manager_def venue_entry_def use_simulated_def venue_profiles_def plain_profile_def)
qed

lemma venue_keys: "venue_key ''binance'' = ''binance''" "venue_key ''okx'' = ''okx''" "venue_key ''BINANCE'' = ''binance''"
  by code_simp+

lemma one_venue_simps: "breaker_failure_threshold one_venue = 2" "cooldown_ms one_venue = 60000"
  "ms_mode one_venue = DEMO"
  by (simp_all add: one_venue_def cooldown_ms_def)

text \<open>Two failures in a row open the breaker; a failure elsewhere and questions do not matter.\<close>

definition two_failures :: "manager_event list" where
  "two_failures = [Failed 0 ''binance'', Asked 1 ''binance'', Failed 2 ''okx'', Failed 3 ''BINANCE'', Asked 4 ''okx'']"


theorem auth_gate_follows_history_witness:
  "is_private_blocked (fold apply_event [AuthFailed 0 0 ''binance'' ''bad key'', Succeeded 1 ''binance''] one_manager) ''BINANCE'' \<and>
   \<not> is_private_blocked (fold apply_event [AuthFailed 0 0 ''binance'' ''bad key'', PrivateSucceeded 1 0 ''binance''] one_manager) ''BINANCE''"
  unfolding auth_gate_follows_history [OF one_manager_built] by (simp add: venue_keys)

theorem handed_out_adapters_are_safe_witness:
  "\<exists>ad mg. mgr_adapter (fold apply_event [Requested 0 ''binance''] one_manager) ''binance'' = (Inr ad, mg) \<and>
     adapter_sandbox ad \<and> \<not> adapter_allow_withdrawals ad"
proof -
  have "\<exists>ad mg. mgr_adapter (fold apply_event [Requested 0 ''binance''] one_manager) ''binance'' = (Inr ad, mg)"
    by (simp add: mgr_adapter_def build_adapter_def venue_keys one_manager_def Let_def)
  then obtain ad mg where m: "mgr_adapter (fold apply_event [Requested 0 ''binance''] one_manager) ''binance'' = (Inr ad, mg)"
    by blast
  show ?thesis
    using m handed_out_adapters_are_safe [OF one_manager_built m] by (auto simp: adapter_safe_def one_venue_simps)
qed

theorem rate_limit_ignores_retry_after_witness:
  "\<not> fst (is_breaker_open (record_rate_limit one_manager 0 ''binance'' (Some 3600)) 60000 ''binance'')"
  using rate_limit_ignores_retry_after [of 0 one_manager 60000 "''binance''" "Some 3600"]
  by (simp add: one_manager_def one_venue_simps)

end
