(* ===== verification/Stream_Supervisor.thy ===== *)
theory Stream_Supervisor
  imports Domain_Models
begin

text \<open>
  The supervision of market-data streams (\<^verbatim>\<open>app/market_data/streams.py\<close>): each
  stream takes a global permit and a permit of its venue, delivers events until it fails, gives
  both back, backs off and tries again, until it is stopped or quarantined.

  The task of a stream is cut at its await points into the phases of a state machine, and an
  event of the machine is what happens up to the next await point; the scheduler may choose the
  order. The two semaphores are the counters the code decrements and increments. An exception
  is described by the class names of its type, its text, its cause and its context. Seconds and
  milliseconds of the clocks are exact rationals, the random draw of the jitter is an argument.
\<close>

subsection \<open>Streams\<close>

datatype StreamKind = TICKER | ORDER_BOOK

fun kind_value :: "StreamKind \<Rightarrow> string" where
  "kind_value TICKER = ''ticker''"
| "kind_value ORDER_BOOK = ''order_book''"

record StreamSpec =
  spec_exchange_id :: string
  spec_symbol :: string
  spec_kind :: StreamKind
  spec_market_type :: string

definition stream_key :: "StreamSpec \<Rightarrow> string" where
  "stream_key sp = spec_exchange_id sp @ '':'' @ spec_symbol sp @ '':'' @ kind_value (spec_kind sp) @ '':'' @ spec_market_type sp"

subsection \<open>Errors of a stream\<close>

datatype py_exc = PyExc (mro_names: "string list") (exc_message: string) (exc_cause: "py_exc option") (exc_context: "py_exc option")

definition permanent_stream_error_names :: "string list" where
  "permanent_stream_error_names = [''BadSymbol'', ''NotSupported'', ''ArgumentsRequired'']"

definition own_permanent :: "string list \<Rightarrow> string \<Rightarrow> bool" where
  "own_permanent names msg =
     (list_ex (\<lambda>n. n \<in> set permanent_stream_error_names) names \<or>
      (let m = py_lower msg in
       py_contains ''does not have market symbol'' m \<or> py_contains ''symbol not found'' m \<or>
       py_contains (''doesn'' @ [CHR 39] @ ''t exist'') m \<or> py_contains ''does not exist'' m \<or>
       (py_contains ''subscribe failed'' m \<and> py_contains ''wrong url or channel'' m)))"

fun is_permanent_stream_error :: "py_exc \<Rightarrow> bool" where
  "is_permanent_stream_error (PyExc names msg cause ctx) =
     (own_permanent names msg \<or>
      (case cause of Some e \<Rightarrow> is_permanent_stream_error e | None \<Rightarrow> False) \<or>
      (case ctx of Some e \<Rightarrow> is_permanent_stream_error e | None \<Rightarrow> False))"

definition is_alnum :: "char \<Rightarrow> bool" where
  "is_alnum c = (let n = of_char c :: nat in
     (48 \<le> n \<and> n \<le> 57) \<or> (65 \<le> n \<and> n \<le> 90) \<or> (97 \<le> n \<and> n \<le> 122))"

text \<open>A match of \<^verbatim>\<open>instId\s*:\s*([A-Za-z0-9]+)-([A-Za-z0-9]+)\<close>, case ignored, at the start of a text.\<close>

definition inst_at :: "string \<Rightarrow> string option" where
  "inst_at s =
     (if py_lower (take 6 s) \<noteq> ''instid'' then None
      else (case dropWhile is_space (drop 6 s) of
              [] \<Rightarrow> None
            | c # r \<Rightarrow>
                if c \<noteq> CHR '':'' then None
                else (let r1 = dropWhile is_space r; b = takeWhile is_alnum r1 in
                      case dropWhile is_alnum r1 of
                        [] \<Rightarrow> None
                      | d # r2 \<Rightarrow>
                          (let q = takeWhile is_alnum r2 in
                           if b = [] \<or> d \<noteq> CHR ''-'' \<or> q = [] then None
                           else Some (py_upper b @ ''/'' @ py_upper q)))))"

fun inst_search :: "string \<Rightarrow> string option" where
  "inst_search [] = None"
| "inst_search (c # s) = (case inst_at (c # s) of Some x \<Rightarrow> Some x | None \<Rightarrow> inst_search s)"

text \<open>The search pops the context before the cause.\<close>

fun extract_ws_culprit_symbol :: "py_exc \<Rightarrow> string option" where
  "extract_ws_culprit_symbol (PyExc names msg cause ctx) =
     (case inst_search msg of
        Some x \<Rightarrow> Some x
      | None \<Rightarrow>
          (case (case ctx of Some e \<Rightarrow> extract_ws_culprit_symbol e | None \<Rightarrow> None) of
             Some x \<Rightarrow> Some x
           | None \<Rightarrow> (case cause of Some e \<Rightarrow> extract_ws_culprit_symbol e | None \<Rightarrow> None)))"

subsection \<open>The state of a stream\<close>

text \<open>Waiting for the global permit; holding it and waiting for the venue's; holding both; waiting to restart; done.\<close>

datatype stream_phase = WaitGlobal | WaitVenue | Streaming | Sleeping | Ended

record StreamTask =
  st_spec :: StreamSpec
  st_phase :: stream_phase
  backoff_seconds :: rat
  consecutive_failures :: int
  total_restarts :: int
  last_event_at :: "int option"
  last_error :: "string option"
  st_status :: HealthStatus
  restarted_at :: "int option"
  ever_delivered :: bool
  suspended :: bool
  started_at_ms :: rat

definition new_task :: "StreamSpec \<Rightarrow> rat \<Rightarrow> StreamTask" where
  "new_task sp ms =
     \<lparr>st_spec = sp, st_phase = WaitGlobal, backoff_seconds = 0, consecutive_failures = 0, total_restarts = 0,
      last_event_at = None, last_error = None, st_status = H_UNKNOWN, restarted_at = None,
      ever_delivered = False, suspended = False, started_at_ms = ms\<rparr>"

record StreamConfig =
  backoff_base :: rat
  backoff_max :: rat
  backoff_jitter :: rat
  max_per_exchange :: int
  max_parallel :: int
  quarantine_restarts :: int
  quarantine_after_ms :: rat

text \<open>\<open>u\<close> is the draw from \<^verbatim>\<open>random.uniform(-1, 1)\<close>.\<close>

definition next_backoff :: "StreamConfig \<Rightarrow> rat \<Rightarrow> rat \<Rightarrow> rat" where
  "next_backoff cfg current u =
     (let next_val = (if current \<le> 0 then backoff_base cfg else min (current * 2) (backoff_max cfg));
          jitter = next_val * backoff_jitter cfg * u
      in min (max (next_val + jitter) (backoff_base cfg)) (backoff_max cfg))"

definition delivered :: "int \<Rightarrow> StreamTask \<Rightarrow> StreamTask" where
  "delivered now st = st\<lparr>last_event_at := Some now, ever_delivered := True, consecutive_failures := 0\<rparr>"

text \<open>An event whose handler raises: the event counts, the failures are not reset.\<close>

definition mishandled :: "int \<Rightarrow> StreamTask \<Rightarrow> StreamTask" where
  "mishandled now st = st\<lparr>last_event_at := Some now, ever_delivered := True\<rparr>"

definition failing_status :: "int \<Rightarrow> HealthStatus" where
  "failing_status n = (if n < 3 then DEGRADED else UNHEALTHY)"

definition stream_failed :: "py_exc \<Rightarrow> StreamTask \<Rightarrow> StreamTask" where
  "stream_failed e st =
     (let n = consecutive_failures st + 1; st1 = st\<lparr>consecutive_failures := n\<rparr> in
      if is_permanent_stream_error e
      then (case extract_ws_culprit_symbol e of
              Some c \<Rightarrow>
                if c \<noteq> spec_symbol (st_spec st)
                then st1\<lparr>last_error := Some (take 300 (exc_message e)), st_status := failing_status n\<rparr>
                else st1\<lparr>last_error := Some (take 300 (exc_message e)), suspended := True, st_status := H_UNKNOWN,
                         st_phase := Ended\<rparr>
            | None \<Rightarrow>
                st1\<lparr>last_error := Some (take 300 (exc_message e)), suspended := True, st_status := H_UNKNOWN,
                    st_phase := Ended\<rparr>)
      else st1\<lparr>last_error := Some (exc_message e), st_status := failing_status n\<rparr>)"

definition quarantined :: "StreamConfig \<Rightarrow> rat \<Rightarrow> StreamTask \<Rightarrow> bool" where
  "quarantined cfg ms st \<longleftrightarrow>
     quarantine_restarts cfg > 0 \<and> \<not> ever_delivered st \<and> total_restarts st \<ge> quarantine_restarts cfg \<and>
     ms - started_at_ms st \<ge> quarantine_after_ms cfg"

text \<open>After a life of the stream: back off, or give up on a stream that never delivered.\<close>

definition after_life :: "StreamConfig \<Rightarrow> int \<Rightarrow> rat \<Rightarrow> rat \<Rightarrow> StreamTask \<Rightarrow> StreamTask" where
  "after_life cfg now ms u st =
     (if st_phase st = Ended then st
      else
        (let st1 = st\<lparr>backoff_seconds := next_backoff cfg (backoff_seconds st) u,
                      total_restarts := total_restarts st + 1, restarted_at := Some now,
                      st_status := DEGRADED\<rparr>
         in if quarantined cfg ms st1
            then st1\<lparr>suspended := True, st_status := H_UNKNOWN, st_phase := Ended\<rparr>
            else st1\<lparr>st_phase := Sleeping\<rparr>))"

subsection \<open>The supervisor\<close>

record StreamSupervisor =
  sup_streams :: "(string, StreamTask) dict"
  global_permits :: int
  venue_permits :: "(string, int) dict"

definition new_supervisor :: "StreamConfig \<Rightarrow> StreamSupervisor" where
  "new_supervisor cfg = \<lparr>sup_streams = [], global_permits = max_parallel cfg, venue_permits = []\<rparr>"

definition exchange_permits :: "StreamConfig \<Rightarrow> StreamSupervisor \<Rightarrow> string \<Rightarrow> int" where
  "exchange_permits cfg sv v = opt_or (dict_get (venue_permits sv) v) (max_per_exchange cfg)"

definition put_task :: "StreamSupervisor \<Rightarrow> string \<Rightarrow> StreamTask \<Rightarrow> StreamSupervisor" where
  "put_task sv k st = sv\<lparr>sup_streams := dict_set (sup_streams sv) k st\<rparr>"

definition start_stream :: "StreamSupervisor \<Rightarrow> StreamSpec \<Rightarrow> rat \<Rightarrow> StreamSupervisor" where
  "start_stream sv sp ms =
     (let k = stream_key sp in
      case dict_get (sup_streams sv) k of
        Some existing \<Rightarrow>
          if suspended existing
          then sv\<lparr>sup_streams := dict_set (dict_pop (sup_streams sv) k) k (new_task sp ms)\<rparr>
          else sv
      | None \<Rightarrow> put_task sv k (new_task sp ms))"

definition release_venue :: "StreamConfig \<Rightarrow> StreamSupervisor \<Rightarrow> string \<Rightarrow> StreamSupervisor" where
  "release_venue cfg sv v = sv\<lparr>venue_permits := dict_set (venue_permits sv) v (exchange_permits cfg sv v + 1)\<rparr>"

definition release_global :: "StreamSupervisor \<Rightarrow> StreamSupervisor" where
  "release_global sv = sv\<lparr>global_permits := global_permits sv + 1\<rparr>"

text \<open>A task that is cancelled gives back what it holds at its await point.\<close>

definition release_held :: "StreamConfig \<Rightarrow> StreamTask \<Rightarrow> StreamSupervisor \<Rightarrow> StreamSupervisor" where
  "release_held cfg st sv =
     (case st_phase st of
        WaitVenue \<Rightarrow> release_global sv
      | Streaming \<Rightarrow> release_global (release_venue cfg sv (spec_exchange_id (st_spec st)))
      | _ \<Rightarrow> sv)"

definition stop_stream :: "StreamConfig \<Rightarrow> StreamSupervisor \<Rightarrow> StreamSpec \<Rightarrow> StreamSupervisor" where
  "stop_stream cfg sv sp =
     (let k = stream_key sp in
      case dict_get (sup_streams sv) k of
        None \<Rightarrow> sv
      | Some st \<Rightarrow> release_held cfg st (sv\<lparr>sup_streams := dict_pop (sup_streams sv) k\<rparr>))"

text \<open>All streams are stopped one by one, then both tables are emptied.\<close>

definition stop_all :: "StreamConfig \<Rightarrow> StreamSupervisor \<Rightarrow> StreamSupervisor" where
  "stop_all cfg sv =
     (fold (\<lambda>k s. case dict_get (sup_streams s) k of
              None \<Rightarrow> s | Some st \<Rightarrow> stop_stream cfg s (st_spec st)) (dict_keys (sup_streams sv)) sv)
       \<lparr>sup_streams := [], venue_permits := []\<rparr>"

subsection \<open>What happens to a stream\<close>

datatype stream_event =
    Start StreamSpec rat
  | GetGlobal string
  | GetVenue string
  | Deliver string int
  | Mishandle string int py_exc int rat rat
  | Break string py_exc int rat rat
  | Exhaust string int rat rat
  | Wake string
  | Stop StreamSpec
  | StopAll

definition task_at :: "StreamSupervisor \<Rightarrow> string \<Rightarrow> stream_phase \<Rightarrow> StreamTask option" where
  "task_at sv k ph =
     (case dict_get (sup_streams sv) k of
        Some st \<Rightarrow> if st_phase st = ph then Some st else None
      | None \<Rightarrow> None)"

text \<open>The end of a life: the task as it goes on, both permits given back.\<close>

definition end_life :: "StreamConfig \<Rightarrow> StreamSupervisor \<Rightarrow> string \<Rightarrow> StreamTask \<Rightarrow> StreamSupervisor" where
  "end_life cfg sv k st =
     release_global (release_venue cfg (put_task sv k st) (spec_exchange_id (st_spec st)))"

text \<open>One event, \<open>None\<close> when it cannot happen in this state.\<close>

fun sup_step :: "StreamConfig \<Rightarrow> stream_event \<Rightarrow> StreamSupervisor \<Rightarrow> StreamSupervisor option" where
  "sup_step cfg (Start sp ms) sv = Some (start_stream sv sp ms)"
| "sup_step cfg (GetGlobal k) sv =
     (case task_at sv k WaitGlobal of
        Some st \<Rightarrow>
          if global_permits sv > 0
          then Some ((put_task sv k (st\<lparr>st_phase := WaitVenue\<rparr>))\<lparr>global_permits := global_permits sv - 1\<rparr>)
          else None
      | None \<Rightarrow> None)"
| "sup_step cfg (GetVenue k) sv =
     (case task_at sv k WaitVenue of
        Some st \<Rightarrow>
          (let v = spec_exchange_id (st_spec st) in
           if exchange_permits cfg sv v > 0
           then Some ((put_task sv k (st\<lparr>st_phase := Streaming, st_status := HEALTHY\<rparr>))
                  \<lparr>venue_permits := dict_set (venue_permits sv) v (exchange_permits cfg sv v - 1)\<rparr>)
           else None)
      | None \<Rightarrow> None)"
| "sup_step cfg (Deliver k now) sv =
     (case task_at sv k Streaming of Some st \<Rightarrow> Some (put_task sv k (delivered now st)) | None \<Rightarrow> None)"
| "sup_step cfg (Mishandle k now e later ms u) sv =
     (case task_at sv k Streaming of
        Some st \<Rightarrow> Some (end_life cfg sv k (after_life cfg later ms u (stream_failed e (mishandled now st))))
      | None \<Rightarrow> None)"
| "sup_step cfg (Break k e now ms u) sv =
     (case task_at sv k Streaming of
        Some st \<Rightarrow> Some (end_life cfg sv k (after_life cfg now ms u (stream_failed e st)))
      | None \<Rightarrow> None)"
| "sup_step cfg (Exhaust k now ms u) sv =
     (case task_at sv k Streaming of
        Some st \<Rightarrow> Some (end_life cfg sv k (after_life cfg now ms u st))
      | None \<Rightarrow> None)"
| "sup_step cfg (Wake k) sv =
     (case task_at sv k Sleeping of Some st \<Rightarrow> Some (put_task sv k (st\<lparr>st_phase := WaitGlobal\<rparr>)) | None \<Rightarrow> None)"
| "sup_step cfg (Stop sp) sv = Some (stop_stream cfg sv sp)"
| "sup_step cfg StopAll sv = Some (stop_all cfg sv)"

inductive supervised :: "StreamConfig \<Rightarrow> StreamSupervisor \<Rightarrow> bool" for cfg where
  supervised_init: "supervised cfg (new_supervisor cfg)"
| supervised_step: "supervised cfg sv \<Longrightarrow> sup_step cfg ev sv = Some sv' \<Longrightarrow> supervised cfg sv'"

inductive_cases supervised_cases: "supervised cfg sv"

subsection \<open>Queries\<close>

record StreamStatus =
  ss_exchange_id :: string
  ss_symbol :: string
  ss_kind :: StreamKind
  ss_market_type :: string
  ss_status :: HealthStatus
  ss_consecutive_failures :: int
  ss_last_event_at :: "int option"
  ss_last_error :: "string option"
  ss_restarted_at :: "int option"
  ss_total_restarts :: int

definition status_of :: "StreamTask \<Rightarrow> StreamStatus" where
  "status_of st =
     \<lparr>ss_exchange_id = spec_exchange_id (st_spec st), ss_symbol = spec_symbol (st_spec st), ss_kind = spec_kind (st_spec st),
      ss_market_type = spec_market_type (st_spec st), ss_status = st_status st,
      ss_consecutive_failures = consecutive_failures st, ss_last_event_at = last_event_at st,
      ss_last_error = last_error st, ss_restarted_at = restarted_at st, ss_total_restarts = total_restarts st\<rparr>"

definition get_status :: "StreamSupervisor \<Rightarrow> StreamSpec \<Rightarrow> StreamStatus option" where
  "get_status sv sp = map_option status_of (dict_get (sup_streams sv) (stream_key sp))"

definition all_statuses :: "StreamSupervisor \<Rightarrow> StreamStatus list" where
  "all_statuses sv = map (status_of \<circ> snd) (sup_streams sv)"

text \<open>A stopped stream has left the table.\<close>

definition is_running :: "StreamSupervisor \<Rightarrow> StreamSpec \<Rightarrow> bool" where
  "is_running sv sp =
     (case dict_get (sup_streams sv) (stream_key sp) of None \<Rightarrow> False | Some st \<Rightarrow> \<not> suspended st)"

definition registered_count :: "StreamSupervisor \<Rightarrow> string option \<Rightarrow> int" where
  "registered_count sv venue =
     int (length (filter (\<lambda>(_, st). \<not> suspended st \<and>
       (case venue of None \<Rightarrow> True | Some v \<Rightarrow> spec_exchange_id (st_spec st) = v)) (sup_streams sv)))"

subsection \<open>Permits\<close>

definition holds_global :: "StreamTask \<Rightarrow> bool" where
  "holds_global st \<longleftrightarrow> st_phase st = WaitVenue \<or> st_phase st = Streaming"

definition holds_venue :: "string \<Rightarrow> StreamTask \<Rightarrow> bool" where
  "holds_venue v st \<longleftrightarrow> st_phase st = Streaming \<and> spec_exchange_id (st_spec st) = v"

definition permits_ok :: "StreamConfig \<Rightarrow> StreamSupervisor \<Rightarrow> bool" where
  "permits_ok cfg sv \<longleftrightarrow>
     dict_ok (sup_streams sv) \<and>
     (\<forall>k st. dict_get (sup_streams sv) k = Some st \<longrightarrow> k = stream_key (st_spec st)) \<and>
     0 \<le> global_permits sv \<and> global_permits sv + dict_count holds_global (sup_streams sv) = max_parallel cfg \<and>
     (\<forall>v. 0 \<le> exchange_permits cfg sv v \<and>
       exchange_permits cfg sv v + dict_count (holds_venue v) (sup_streams sv) = max_per_exchange cfg)"

text \<open>The four ways a task is updated: holding on to, taking or giving back permits.\<close>

lemma permits_keep:
  assumes "permits_ok cfg sv" "dict_get (sup_streams sv) k = Some st" "st_spec st' = st_spec st"
    "holds_global st' = holds_global st" "st_phase st' = Streaming \<longleftrightarrow> st_phase st = Streaming"
  shows "permits_ok cfg (put_task sv k st')"
  using assms by (auto simp: permits_ok_def put_task_def dict_count_set exchange_permits_def holds_venue_def)

lemma permits_take_global:
  assumes "permits_ok cfg sv" "dict_get (sup_streams sv) k = Some st" "st_phase st = WaitGlobal" "0 < global_permits sv"
  shows "permits_ok cfg ((put_task sv k (st\<lparr>st_phase := WaitVenue\<rparr>))\<lparr>global_permits := global_permits sv - 1\<rparr>)"
  using assms
  by (auto simp: permits_ok_def put_task_def dict_count_set exchange_permits_def holds_venue_def holds_global_def)

lemma permits_take_venue:
  assumes "permits_ok cfg sv" "dict_get (sup_streams sv) k = Some st" "st_phase st = WaitVenue"
    "0 < exchange_permits cfg sv (spec_exchange_id (st_spec st))"
  shows "permits_ok cfg ((put_task sv k (st\<lparr>st_phase := Streaming, st_status := HEALTHY\<rparr>))
    \<lparr>venue_permits := dict_set (venue_permits sv) (spec_exchange_id (st_spec st))
       (exchange_permits cfg sv (spec_exchange_id (st_spec st)) - 1)\<rparr>)"
  using assms
  by (auto simp: permits_ok_def put_task_def dict_count_set exchange_permits_def holds_venue_def holds_global_def)

lemma permits_end_life:
  assumes "permits_ok cfg sv" "dict_get (sup_streams sv) k = Some st" "st_phase st = Streaming"
    "st_spec st' = st_spec st" "\<not> holds_global st'"
  shows "permits_ok cfg (end_life cfg sv k st')"
proof -
  have "st_phase st' \<noteq> Streaming" using assms(5) by (auto simp: holds_global_def)
  then show ?thesis
    using assms
    by (auto simp: permits_ok_def end_life_def release_global_def release_venue_def put_task_def dict_count_set
        exchange_permits_def holds_venue_def holds_global_def)
qed

lemma permits_stop: "permits_ok cfg sv \<Longrightarrow> permits_ok cfg (stop_stream cfg sv sp)"
  by (auto simp: permits_ok_def stop_stream_def release_held_def release_global_def release_venue_def dict_count_pop
      exchange_permits_def holds_venue_def holds_global_def Let_def split: option.splits stream_phase.split)


lemma permits_start: "permits_ok cfg sv \<Longrightarrow> (\<And>k st. dict_get (sup_streams sv) k = Some st \<Longrightarrow> suspended st \<Longrightarrow> st_phase st = Ended) \<Longrightarrow>
  permits_ok cfg (start_stream sv sp ms)"
  by (auto simp: permits_ok_def start_stream_def put_task_def new_task_def dict_count_set dict_count_pop
      exchange_permits_def holds_venue_def holds_global_def Let_def split: option.splits)

definition stop_key :: "StreamConfig \<Rightarrow> string \<Rightarrow> StreamSupervisor \<Rightarrow> StreamSupervisor" where
  "stop_key cfg k s = (case dict_get (sup_streams s) k of None \<Rightarrow> s | Some st \<Rightarrow> stop_stream cfg s (st_spec st))"

lemma permits_stop_key: "permits_ok cfg sv \<Longrightarrow> permits_ok cfg (stop_key cfg k sv)"
  by (simp add: stop_key_def permits_stop split: option.split)

lemma release_held_streams [simp]: "sup_streams (release_held cfg st sv) = sup_streams sv"
  by (simp add: release_held_def release_global_def release_venue_def split: stream_phase.split)

lemma stop_key_streams:
  assumes "permits_ok cfg sv"
  shows "sup_streams (stop_key cfg k sv) = dict_pop (sup_streams sv) k"
proof (cases "dict_get (sup_streams sv) k")
  case None
  have "k \<notin> fst ` set (sup_streams sv)" using None by (simp add: dict_get_None_iff)
  then show ?thesis using None dict_pop_absent [of k "sup_streams sv"] by (simp add: stop_key_def)
next
  case (Some st)
  then have "k = stream_key (st_spec st)" using assms by (auto simp: permits_ok_def)
  then show ?thesis using Some by (simp add: stop_key_def stop_stream_def)
qed

lemma stop_keys:
  assumes "permits_ok cfg sv"
  shows "permits_ok cfg (fold (stop_key cfg) ks sv) \<and>
    fst ` set (sup_streams (fold (stop_key cfg) ks sv)) = fst ` set (sup_streams sv) - set ks"
  using assms
proof (induction ks arbitrary: sv)
  case (Cons k ks)
  have "fst ` set (dict_pop (sup_streams sv) k) = fst ` set (sup_streams sv) - {k}"
    by (auto simp: dict_pop_def image_iff)
  then show ?case
    using Cons.IH [OF permits_stop_key [OF Cons.prems]] stop_key_streams [OF Cons.prems] by auto
qed simp

lemma stop_all_state:
  assumes "permits_ok cfg sv" shows "stop_all cfg sv = new_supervisor cfg"
proof -
  let ?s = "fold (stop_key cfg) (dict_keys (sup_streams sv)) sv"
  have ok: "permits_ok cfg ?s" and "fst ` set (sup_streams ?s) = {}"
    using stop_keys [OF assms, of "dict_keys (sup_streams sv)"] by (auto simp: dict_keys_def)
  then have "sup_streams ?s = []" by simp
  then have "global_permits ?s = max_parallel cfg" using ok by (simp add: permits_ok_def)
  then show ?thesis
    by (simp add: stop_all_def new_supervisor_def flip: stop_key_def)
qed

subsection \<open>Tasks\<close>

text \<open>What is true of every task in the table.\<close>

definition task_ok :: "StreamConfig \<Rightarrow> StreamTask \<Rightarrow> bool" where
  "task_ok cfg st \<longleftrightarrow>
     (suspended st \<longleftrightarrow> st_phase st = Ended) \<and> (suspended st \<longrightarrow> st_status st = H_UNKNOWN) \<and>
     (ever_delivered st \<longleftrightarrow> last_event_at st \<noteq> None) \<and> 0 \<le> total_restarts st \<and> 0 \<le> consecutive_failures st \<and>
     (if total_restarts st = 0 then backoff_seconds st = 0
      else backoff_seconds st \<le> backoff_max cfg \<and> min (backoff_base cfg) (backoff_max cfg) \<le> backoff_seconds st)"

lemma next_backoff_bounds:
  "next_backoff cfg b u \<le> backoff_max cfg" "min (backoff_base cfg) (backoff_max cfg) \<le> next_backoff cfg b u"
  by (auto simp: next_backoff_def Let_def)

lemma stream_failed_keeps [simp]:
  "st_spec (stream_failed e st) = st_spec st" "ever_delivered (stream_failed e st) = ever_delivered st"
  "last_event_at (stream_failed e st) = last_event_at st" "total_restarts (stream_failed e st) = total_restarts st"
  "backoff_seconds (stream_failed e st) = backoff_seconds st"
  "consecutive_failures (stream_failed e st) = consecutive_failures st + 1"
  by (simp_all add: stream_failed_def Let_def split: option.split)

lemma stream_failed_suspends:
  "suspended (stream_failed e st) \<longleftrightarrow> suspended st \<or>
     is_permanent_stream_error e \<and> extract_ws_culprit_symbol e \<in> {None, Some (spec_symbol (st_spec st))}"
  by (auto simp: stream_failed_def Let_def split: option.split)

lemma stream_failed_phase:
  "st_phase st = Streaming \<Longrightarrow> \<not> suspended st \<Longrightarrow>
   (st_phase (stream_failed e st) = (if suspended (stream_failed e st) then Ended else Streaming)) \<and>
   (suspended (stream_failed e st) \<longrightarrow> st_status (stream_failed e st) = H_UNKNOWN)"
  by (auto simp: stream_failed_def Let_def split: option.split)

lemma after_life_spec [simp]: "st_spec (after_life cfg now ms u st) = st_spec st"
  "ever_delivered (after_life cfg now ms u st) = ever_delivered st"
  "last_event_at (after_life cfg now ms u st) = last_event_at st"
  by (simp_all add: after_life_def Let_def)

lemma after_life_ok:
  assumes "st_phase st \<in> {Streaming, Ended}" "suspended st \<longleftrightarrow> st_phase st = Ended" "suspended st \<longrightarrow> st_status st = H_UNKNOWN"
    "ever_delivered st \<longleftrightarrow> last_event_at st \<noteq> None" "0 \<le> total_restarts st" "0 \<le> consecutive_failures st"
    "if total_restarts st = 0 then backoff_seconds st = 0
      else backoff_seconds st \<le> backoff_max cfg \<and> min (backoff_base cfg) (backoff_max cfg) \<le> backoff_seconds st"
  shows "task_ok cfg (after_life cfg now ms u st) \<and> \<not> holds_global (after_life cfg now ms u st)"
  using assms next_backoff_bounds [of cfg "backoff_seconds st" u]
  by (auto simp: task_ok_def after_life_def holds_global_def Let_def)

lemma broken_ok:
  assumes "task_ok cfg st" "st_phase st = Streaming"
  shows "task_ok cfg (after_life cfg now ms u (stream_failed e st)) \<and>
    \<not> holds_global (after_life cfg now ms u (stream_failed e st))"
proof (rule after_life_ok)
  have ns: "\<not> suspended st" using assms by (simp add: task_ok_def)
  note ph = stream_failed_phase [OF assms(2) ns, of e]
  show "st_phase (stream_failed e st) \<in> {Streaming, Ended}" using ph by auto
  show "suspended (stream_failed e st) \<longleftrightarrow> st_phase (stream_failed e st) = Ended" using ph by auto
qed (use assms stream_failed_phase [OF assms(2)] in \<open>auto simp: task_ok_def split: if_splits\<close>)

definition tasks_ok :: "StreamConfig \<Rightarrow> StreamSupervisor \<Rightarrow> bool" where
  "tasks_ok cfg sv \<longleftrightarrow> (\<forall>k st. dict_get (sup_streams sv) k = Some st \<longrightarrow> task_ok cfg st)"

lemma tasks_put: "tasks_ok cfg sv \<Longrightarrow> task_ok cfg st \<Longrightarrow> tasks_ok cfg (put_task sv k st)"
  by (simp add: tasks_ok_def put_task_def)

lemma tasks_end_life: "tasks_ok cfg sv \<Longrightarrow> task_ok cfg st \<Longrightarrow> tasks_ok cfg (end_life cfg sv k st)"
  by (simp add: tasks_ok_def end_life_def put_task_def release_global_def release_venue_def)

lemma new_task_ok: "task_ok cfg (new_task sp ms)"
  by (simp add: task_ok_def new_task_def)

lemma task_at_Some: "task_at sv k ph = Some st \<longleftrightarrow> dict_get (sup_streams sv) k = Some st \<and> st_phase st = ph"
  by (auto simp: task_at_def split: option.splits)


lemma stop_stream_ok:
  "tasks_ok cfg sv \<Longrightarrow> tasks_ok cfg (stop_stream cfg sv sp)"
  by (auto simp: tasks_ok_def stop_stream_def Let_def split: option.split)

lemma start_stream_ok:
  "tasks_ok cfg sv \<Longrightarrow> tasks_ok cfg (start_stream sv sp ms)"
  by (auto simp: tasks_ok_def start_stream_def put_task_def new_task_ok Let_def split: option.split)

lemma new_supervisor_ok:
  "0 \<le> max_parallel cfg \<Longrightarrow> 0 \<le> max_per_exchange cfg \<Longrightarrow>
   permits_ok cfg (new_supervisor cfg) \<and> tasks_ok cfg (new_supervisor cfg)"
  by (simp add: new_supervisor_def permits_ok_def tasks_ok_def dict_ok_def exchange_permits_def)

lemma permits_ok_config: "permits_ok cfg sv \<Longrightarrow> 0 \<le> max_parallel cfg \<and> 0 \<le> max_per_exchange cfg"
  unfolding permits_ok_def by (metis add_nonneg_nonneg dict_count_nonneg)

lemma supervisor_step_ok:
  assumes "permits_ok cfg sv" "tasks_ok cfg sv" "sup_step cfg ev sv = Some sv'"
  shows "permits_ok cfg sv' \<and> tasks_ok cfg sv'"
proof (cases ev)
  case (Start sp ms)
  have "permits_ok cfg (start_stream sv sp ms)"
    using permits_start [OF assms(1)] assms(2) by (auto simp: tasks_ok_def task_ok_def)
  then show ?thesis using assms Start start_stream_ok by auto
next
  case (GetGlobal k)
  then obtain st where st: "dict_get (sup_streams sv) k = Some st" "st_phase st = WaitGlobal" "0 < global_permits sv"
    "sv' = (put_task sv k (st\<lparr>st_phase := WaitVenue\<rparr>))\<lparr>global_permits := global_permits sv - 1\<rparr>"
    using assms(3) by (auto simp: task_at_Some split: option.splits if_splits)
  have "task_ok cfg (st\<lparr>st_phase := WaitVenue\<rparr>)" using assms(2) st by (auto simp: tasks_ok_def task_ok_def)
  then show ?thesis
    using permits_take_global [OF assms(1) st(1-3)] assms(2) by (simp add: st(4) tasks_ok_def put_task_def)
next
  case (GetVenue k)
  then obtain st where st: "dict_get (sup_streams sv) k = Some st" "st_phase st = WaitVenue"
    "0 < exchange_permits cfg sv (spec_exchange_id (st_spec st))"
    "sv' = (put_task sv k (st\<lparr>st_phase := Streaming, st_status := HEALTHY\<rparr>))
       \<lparr>venue_permits := dict_set (venue_permits sv) (spec_exchange_id (st_spec st))
          (exchange_permits cfg sv (spec_exchange_id (st_spec st)) - 1)\<rparr>"
    using assms(3) by (auto simp: task_at_Some Let_def split: option.splits if_splits)
  have "task_ok cfg (st\<lparr>st_phase := Streaming, st_status := HEALTHY\<rparr>)"
    using assms(2) st by (auto simp: tasks_ok_def task_ok_def)
  then show ?thesis
    using permits_take_venue [OF assms(1) st(1-3)] assms(2) by (simp add: st(4) tasks_ok_def put_task_def)
next
  case (Deliver k now)
  then obtain st where st: "dict_get (sup_streams sv) k = Some st" "st_phase st = Streaming"
    "sv' = put_task sv k (delivered now st)"
    using assms(3) by (auto simp: task_at_Some split: option.splits)
  have "task_ok cfg (delivered now st)" using assms(2) st by (auto simp: tasks_ok_def task_ok_def delivered_def)
  then show ?thesis
    using permits_keep [OF assms(1) st(1), of "delivered now st"] tasks_put [OF assms(2)] st(2)
    by (simp add: st(3) delivered_def holds_global_def)
next
  case (Mishandle k now e later ms u)
  let ?st' = "\<lambda>st. after_life cfg later ms u (stream_failed e (mishandled now st))"
  obtain st where st: "dict_get (sup_streams sv) k = Some st" "st_phase st = Streaming" "sv' = end_life cfg sv k (?st' st)"
    using assms(3) Mishandle by (auto simp: task_at_Some split: option.splits)
  have "task_ok cfg (mishandled now st)" using assms(2) st by (auto simp: tasks_ok_def task_ok_def mishandled_def)
  from broken_ok [OF this] st(2) have ok: "task_ok cfg (?st' st)" "\<not> holds_global (?st' st)" by (auto simp: mishandled_def)
  show ?thesis
    using permits_end_life [OF assms(1) st(1,2) _ ok(2)] tasks_end_life [OF assms(2) ok(1)] by (simp add: st(3) mishandled_def)
next
  case (Break k e now ms u)
  let ?st' = "\<lambda>st. after_life cfg now ms u (stream_failed e st)"
  obtain st where st: "dict_get (sup_streams sv) k = Some st" "st_phase st = Streaming" "sv' = end_life cfg sv k (?st' st)"
    using assms(3) Break by (auto simp: task_at_Some split: option.splits)
  have ok: "task_ok cfg (?st' st)" "\<not> holds_global (?st' st)"
    using broken_ok [of cfg st] st assms(2) by (auto simp: tasks_ok_def)
  show ?thesis
    using permits_end_life [OF assms(1) st(1,2) _ ok(2)] tasks_end_life [OF assms(2) ok(1)] by (simp add: st(3))
next
  case (Exhaust k now ms u)
  then obtain st where st: "dict_get (sup_streams sv) k = Some st" "st_phase st = Streaming"
    "sv' = end_life cfg sv k (after_life cfg now ms u st)"
    using assms(3) by (auto simp: task_at_Some split: option.splits)
  have ok: "task_ok cfg (after_life cfg now ms u st)" "\<not> holds_global (after_life cfg now ms u st)"
    using after_life_ok [of st cfg] st assms(2) by (auto simp: tasks_ok_def task_ok_def)
  show ?thesis
    using permits_end_life [OF assms(1) st(1,2) _ ok(2)] tasks_end_life [OF assms(2) ok(1)] by (simp add: st(3))
next
  case (Wake k)
  then obtain st where st: "dict_get (sup_streams sv) k = Some st" "st_phase st = Sleeping"
    "sv' = put_task sv k (st\<lparr>st_phase := WaitGlobal\<rparr>)"
    using assms(3) by (auto simp: task_at_Some split: option.splits)
  have "task_ok cfg (st\<lparr>st_phase := WaitGlobal\<rparr>)" using assms(2) st by (auto simp: tasks_ok_def task_ok_def)
  then show ?thesis
    using permits_keep [OF assms(1) st(1), of "st\<lparr>st_phase := WaitGlobal\<rparr>"] tasks_put [OF assms(2)] st(2)
    by (simp add: st(3) holds_global_def)
next
  case (Stop sp)
  then show ?thesis using assms permits_stop stop_stream_ok by auto
next
  case StopAll
  then show ?thesis
    using assms stop_all_state [OF assms(1)] new_supervisor_ok permits_ok_config [OF assms(1)] by auto
qed

lemma supervised_ok:
  assumes "supervised cfg sv" "0 \<le> max_parallel cfg" "0 \<le> max_per_exchange cfg"
  shows "permits_ok cfg sv \<and> tasks_ok cfg sv"
  using assms(1)
proof induction
  case supervised_init
  then show ?case using assms(2,3) by (rule new_supervisor_ok)
next
  case (supervised_step sv ev sv')
  then show ?case using supervisor_step_ok by blast
qed


lemma suspension_step:
  assumes "sup_step cfg ev sv = Some sv'" "dict_get (sup_streams sv) k = Some st" "\<not> suspended st"
    "dict_get (sup_streams sv') k = Some st'" "suspended st'"
  shows "st_phase st = Streaming \<and> (\<exists>now ms u x. st' = after_life cfg now ms u x \<and>
    (x = st \<or> (\<exists>e later. x = stream_failed e st \<or> x = stream_failed e (mishandled later st))))"
  using assms
  by (cases ev; (auto simp: task_at_Some start_stream_def stop_stream_def stop_all_def end_life_def release_global_def
      release_venue_def put_task_def new_task_def delivered_def Let_def split: option.splits if_splits; blast))

text \<open>(quarantine_is_justified).
  A stream is given up only for one of two reasons: the venue reported a permanent error that
  names its symbol or none, or it never delivered anything through its whole budget of restarts
  and the grace period. A stream that has delivered is never given up for failing too often.\<close>

theorem quarantine_is_justified:
  assumes "sup_step cfg ev sv = Some sv'" "dict_get (sup_streams sv) k = Some st" "\<not> suspended st"
    "dict_get (sup_streams sv') k = Some st'" "suspended st'"
  shows "(\<exists>e. is_permanent_stream_error e \<and> last_error st' = Some (take 300 (exc_message e)) \<and>
      extract_ws_culprit_symbol e \<in> {None, Some (spec_symbol (st_spec st))}) \<or>
    (\<not> ever_delivered st \<and> 0 < quarantine_restarts cfg \<and> quarantine_restarts cfg \<le> total_restarts st' \<and>
     (\<exists>ms. quarantine_after_ms cfg \<le> ms - started_at_ms st))"
proof -
  obtain now ms u x where x: "st_phase st = Streaming" "st' = after_life cfg now ms u x"
    "x = st \<or> (\<exists>e later. x = stream_failed e st \<or> x = stream_failed e (mishandled later st))"
    using suspension_step [OF assms] by metis
  show ?thesis
  proof (cases "st_phase x = Ended")
    case True
    then have "st' = x" "x \<noteq> st" using x by (auto simp: after_life_def)
    then show ?thesis
      using x(3) assms(3,5) True
      by (auto simp: stream_failed_suspends mishandled_def) (auto simp: stream_failed_def Let_def split: option.splits)
  next
    case False
    have "\<not> suspended x"
      using False x(1,3) assms(3) stream_failed_phase [of st] stream_failed_phase [of "mishandled _ st"]
      by (auto simp: mishandled_def)
    then have q: "quarantined cfg ms (x\<lparr>total_restarts := total_restarts x + 1\<rparr>)" "total_restarts st' = total_restarts x + 1"
      using False x(2) assms(5) by (auto simp: after_life_def quarantined_def Let_def split: if_splits)
    moreover have "started_at_ms x = started_at_ms st"
      using x(3) by (auto simp: stream_failed_def mishandled_def Let_def split: option.split)
    moreover have "ever_delivered x \<or> ever_delivered x = ever_delivered st" using x(3) by (auto simp: mishandled_def)
    ultimately show ?thesis by (auto simp: quarantined_def)
  qed
qed


text \<open>(restarts_back_off).
  The wait before every restart lies between the smaller of the two configured bounds and the
  upper one, whatever the random jitter.\<close>

theorem restarts_back_off:
  assumes "supervised cfg sv" "0 \<le> max_parallel cfg" "0 \<le> max_per_exchange cfg"
    "dict_get (sup_streams sv) k = Some st" "0 < total_restarts st"
  shows "min (backoff_base cfg) (backoff_max cfg) \<le> backoff_seconds st \<and> backoff_seconds st \<le> backoff_max cfg"
  using supervised_ok [OF assms(1-3)] assms(4,5) by (auto simp: tasks_ok_def task_ok_def)

subsection \<open>A stream at work\<close>

fun sup_run :: "StreamConfig \<Rightarrow> stream_event list \<Rightarrow> StreamSupervisor \<Rightarrow> StreamSupervisor option" where
  "sup_run cfg [] sv = Some sv"
| "sup_run cfg (ev # evs) sv = Option.bind (sup_step cfg ev sv) (sup_run cfg evs)"

lemma supervised_run: "supervised cfg sv \<Longrightarrow> sup_run cfg evs sv = Some sv' \<Longrightarrow> supervised cfg sv'"
  by (induction evs arbitrary: sv) (auto simp: bind_eq_Some_conv intro: supervised_step)

definition btc_stream :: StreamSpec where
  "btc_stream = \<lparr>spec_exchange_id = ''okx'', spec_symbol = ''BTC/USDT'', spec_kind = ORDER_BOOK, spec_market_type = ''spot''\<rparr>"

definition small_config :: StreamConfig where
  "small_config = \<lparr>backoff_base = 1 / 2, backoff_max = 30, backoff_jitter = 1 / 4, max_per_exchange = 1,
     max_parallel = 2, quarantine_restarts = 5, quarantine_after_ms = 45000\<rparr>"

definition unlisted :: py_exc where
  "unlisted = PyExc [''ExchangeError''] ''okx does not have market symbol'' None (Some (PyExc [''Exception''] ''instId : eth-usdt'' None None))"

lemma unlisted_eval: "is_permanent_stream_error unlisted" "extract_ws_culprit_symbol unlisted = Some ''ETH/USDT''"
  unfolding unlisted_def by code_simp+

definition bad_symbol :: py_exc where
  "bad_symbol = PyExc [''BadSymbol''] ''no'' None None"

lemma bad_symbol_eval: "is_permanent_stream_error bad_symbol" "extract_ws_culprit_symbol bad_symbol = None"
  unfolding bad_symbol_def by code_simp+

definition btc_task :: "stream_phase \<Rightarrow> HealthStatus \<Rightarrow> StreamTask" where
  "btc_task ph h = (new_task btc_stream 0)\<lparr>st_phase := ph, st_status := h\<rparr>"

text \<open>One bad instrument on a shared connection does not cost an innocent stream its place.\<close>

lemma innocent_stream_survives: "\<not> suspended (stream_failed unlisted (btc_task Streaming HEALTHY))"
  by (simp add: stream_failed_suspends unlisted_eval btc_task_def new_task_def btc_stream_def)

definition btc_key :: string where
  "btc_key = ''okx:BTC/USDT:order_book:spot''"

lemma btc_key: "stream_key btc_stream = btc_key"
  by (simp add: stream_key_def btc_stream_def btc_key_def)

definition btc_streaming :: StreamSupervisor where
  "btc_streaming = \<lparr>sup_streams = [(btc_key, btc_task Streaming HEALTHY)], global_permits = 1, venue_permits = [(''okx'', 0)]\<rparr>"

lemma btc_run: "sup_run small_config [Start btc_stream 0, GetGlobal btc_key, GetVenue btc_key] (new_supervisor small_config) = Some btc_streaming"
proof -
  have "spec_exchange_id btc_stream = ''okx''" by (simp add: btc_stream_def)
  then show ?thesis
    by (simp add: new_supervisor_def start_stream_def put_task_def task_at_def btc_key small_config_def
        btc_task_def new_task_def exchange_permits_def btc_streaming_def Let_def)
qed

lemma btc_supervised: "supervised small_config btc_streaming"
  by (rule supervised_run [OF supervised_init btc_run])

lemma small_config_nonneg: "0 \<le> max_parallel small_config" "0 \<le> max_per_exchange small_config"
  by (simp_all add: small_config_def)


lemma btc_suspended:
  "\<exists>sv' st'. sup_step small_config (Break btc_key bad_symbol 0 0 0) btc_streaming = Some sv' \<and>
     dict_get (sup_streams sv') btc_key = Some st' \<and> suspended st'"
  by (simp add: task_at_def btc_streaming_def btc_task_def end_life_def release_global_def release_venue_def put_task_def
      after_life_def stream_failed_def bad_symbol_eval Let_def)

theorem quarantine_is_justified_witness:
  "\<exists>sv' st'. sup_step small_config (Break btc_key bad_symbol 0 0 0) btc_streaming = Some sv' \<and>
     dict_get (sup_streams sv') btc_key = Some st' \<and>
     ((\<exists>e. is_permanent_stream_error e \<and> last_error st' = Some (take 300 (exc_message e))) \<or> 5 \<le> total_restarts st')"
proof -
  have g: "dict_get (sup_streams btc_streaming) btc_key = Some (btc_task Streaming HEALTHY)"
    "\<not> suspended (btc_task Streaming HEALTHY)" "quarantine_restarts small_config = 5"
    by (simp_all add: btc_streaming_def btc_task_def new_task_def small_config_def)
  obtain sv' st' where s: "sup_step small_config (Break btc_key bad_symbol 0 0 0) btc_streaming = Some sv'"
    "dict_get (sup_streams sv') btc_key = Some st'" "suspended st'"
    using btc_suspended by blast
  have "(\<exists>e. is_permanent_stream_error e \<and> last_error st' = Some (take 300 (exc_message e))) \<or> 5 \<le> total_restarts st'"
    using quarantine_is_justified [OF s(1) g(1,2) s(2,3)] unfolding g(3) by blast
  then show ?thesis using s(1,2) by blast
qed

lemma btc_broken:
  "\<exists>sv st. sup_run small_config [Exhaust btc_key 0 1000 1] btc_streaming = Some sv \<and>
    dict_get (sup_streams sv) btc_key = Some st \<and> 0 < total_restarts st"
  by (simp add: task_at_def btc_streaming_def btc_task_def end_life_def release_global_def release_venue_def put_task_def
      after_life_def new_task_def quarantined_def small_config_def Let_def)

theorem restarts_back_off_witness:
  "\<exists>sv st. supervised small_config sv \<and> dict_get (sup_streams sv) btc_key = Some st \<and>
     1 / 2 \<le> backoff_seconds st \<and> backoff_seconds st \<le> 30"
proof -
  obtain sv st where sv: "sup_run small_config [Exhaust btc_key 0 1000 1] btc_streaming = Some sv"
    and st: "dict_get (sup_streams sv) btc_key = Some st" "0 < total_restarts st"
    using btc_broken by blast
  note ok = supervised_run [OF btc_supervised sv]
  have "min (backoff_base small_config) (backoff_max small_config) = 1 / 2" "backoff_max small_config = 30"
    by (simp_all add: small_config_def)
  then show ?thesis using restarts_back_off [OF ok small_config_nonneg st] ok st(1) by auto
qed

end
