(* ===== verification/Market_Data_Service.thy ===== *)
theory Market_Data_Service
  imports Exchange_Manager Market_Store Stream_Supervisor
begin

text \<open>
  The market-data service (\<^verbatim>\<open>app/market_data/service.py\<close>) over the venue manager,
  the store and the stream supervisor: which pairs a round of REST requests asks for, what each
  answer does, and which streams are admitted.

  The requests of a round run concurrently, and what follows an answer runs to its end without
  an await: a round is the sequence of its answers in the order they arrive, each with the
  reading of the monotonic clock, cut off where the round times out. The order is the
  scheduler's and the venues' choice, so the theorems quantify over it.
\<close>

subsection \<open>State\<close>

record MarketDataSettings =
  md_streams_enabled :: bool
  md_max_streams_per_exchange :: int
  md_max_parallel_streams :: int
  md_base_currency :: string

record MarketDataService =
  mds_manager :: ExchangeManager
  mds_store :: MarketDataStore
  mds_config :: MarketDataSettings
  mds_unsupported :: "(string \<times> string) list"
  mds_supervisor :: "StreamSupervisor option"

record RefreshOutcome =
  requested :: nat
  succeeded :: nat
  failures :: "(string \<times> string) list"

definition outcome_failed :: "RefreshOutcome \<Rightarrow> nat" where
  "outcome_failed x = length (failures x)"

definition is_complete :: "RefreshOutcome \<Rightarrow> bool" where
  "is_complete x \<longleftrightarrow> requested x = succeeded x"

definition stream_inactivity_us :: int where
  "stream_inactivity_us = 10 * 1000000"

definition add_pair :: "string \<times> string \<Rightarrow> MarketDataService \<Rightarrow> MarketDataService" where
  "add_pair p s = (if p \<in> set (mds_unsupported s) then s else s\<lparr>mds_unsupported := mds_unsupported s @ [p]\<rparr>)"

definition mark_unsupported :: "MarketDataService \<Rightarrow> string \<Rightarrow> string \<Rightarrow> MarketDataService" where
  "mark_unsupported s venue name = add_pair (venue_key venue, name) s"

definition remember_unsupported_pair :: "MarketDataService \<Rightarrow> string \<Rightarrow> string \<Rightarrow> MarketDataService" where
  "remember_unsupported_pair s venue name = add_pair (venue, name) s"

subsection \<open>Coverage by streams\<close>

definition covers :: "int \<Rightarrow> StreamKind option \<Rightarrow> StreamStatus \<Rightarrow> bool" where
  "covers now kind st \<longleftrightarrow>
     (case kind of None \<Rightarrow> True | Some k \<Rightarrow> ss_kind st = k) \<and> ss_status st \<noteq> H_UNKNOWN \<and>
     (case ss_last_event_at st of None \<Rightarrow> False | Some t \<Rightarrow> \<not> now - t > stream_inactivity_us)"

definition get_stream_covered_pairs :: "MarketDataService \<Rightarrow> int \<Rightarrow> StreamKind option \<Rightarrow> (string \<times> string) list" where
  "get_stream_covered_pairs s now kind =
     (case mds_supervisor s of
        None \<Rightarrow> []
      | Some sv \<Rightarrow> map (\<lambda>st. (ss_exchange_id st, ss_symbol st)) (filter (covers now kind) (all_statuses sv)))"

subsection \<open>A round of requests\<close>

text \<open>The venues whose breaker is closed; asking may close a breaker whose cooldown is over.\<close>

fun open_venues :: "rat \<Rightarrow> ExchangeManager \<Rightarrow> string list \<Rightarrow> string list \<times> ExchangeManager" where
  "open_venues ms mg [] = ([], mg)"
| "open_venues ms mg (v # vs) =
     (case is_breaker_open mg ms v of (tripped, mg1) \<Rightarrow>
        case open_venues ms mg1 vs of (rest, mg2) \<Rightarrow> ((if tripped then rest else v # rest), mg2))"

definition refresh_targets ::
  "MarketDataService \<Rightarrow> int \<Rightarrow> rat \<Rightarrow> Symbol list \<Rightarrow> string list option \<Rightarrow> StreamKind \<Rightarrow>
   (string \<times> Symbol) list \<times> MarketDataService" where
  "refresh_targets s now ms symbols venues kind =
     (let covered = get_stream_covered_pairs s now (Some kind);
          wanted = (case venues of Some (v # vs) \<Rightarrow> v # vs | _ \<Rightarrow> enabled_ids (mds_manager s))
      in case open_venues ms (mds_manager s) wanted of (vs, mg) \<Rightarrow>
           (filter (\<lambda>(v, y). (v, symbol_name y) \<notin> set covered \<and> (v, symbol_name y) \<notin> set (mds_unsupported s))
              (List.product vs symbols),
            s\<lparr>mds_manager := mg\<rparr>))"

text \<open>What a venue answers: a book or ticker, or an exception with its text.\<close>

datatype market_item = ItemTicker Ticker | ItemBook OrderBook

definition put_item :: "MarketDataStore \<Rightarrow> market_item \<Rightarrow> MarketDataStore" where
  "put_item st x = (case x of ItemTicker t \<Rightarrow> put_ticker st t | ItemBook b \<Rightarrow> put_order_book st b)"

record Answer =
  ans_venue :: string
  ans_symbol :: Symbol
  ans_ms :: rat
  ans_result :: "(exn, market_item) result"

fun exn_message :: "exn \<Rightarrow> string" where
  "exn_message (ExecutionDisabledError x) = x"
| "exn_message (NetworkMismatchError x) = x"
| "exn_message (ValidationError x) = x"
| "exn_message (ValueError x) = x"
| "exn_message TimeoutError = []"
| "exn_message (ConfigurationError x) = x"
| "exn_message (CapabilityNotSupportedError x) = x"
| "exn_message (VenueAuthError x) = x"
| "exn_message (RateLimitError x _) = x"
| "exn_message (OtherError x) = x"

definition fail_with :: "string \<Rightarrow> exn \<Rightarrow> RefreshOutcome \<Rightarrow> RefreshOutcome" where
  "fail_with v e out = out\<lparr>failures := failures out @ [(v, exn_message e)]\<rparr>"

text \<open>What follows one answer. The adapter of a target exists, its venue being enabled.\<close>

definition fetch :: "Answer \<Rightarrow> MarketDataService \<times> RefreshOutcome \<Rightarrow> MarketDataService \<times> RefreshOutcome" where
  "fetch a so =
     (case so of (s, out) \<Rightarrow>
      let v = ans_venue a; mg = snd (mgr_adapter (mds_manager s) v); s1 = s\<lparr>mds_manager := mg\<rparr> in
      case (case fst (mgr_adapter (mds_manager s) v) of Inl e \<Rightarrow> Inl e | Inr _ \<Rightarrow> ans_result a) of
        Inr x \<Rightarrow> (s1\<lparr>mds_store := put_item (mds_store s) x, mds_manager := record_success mg v\<rparr>,
                  out\<lparr>succeeded := succeeded out + 1\<rparr>)
      | Inl (CapabilityNotSupportedError x) \<Rightarrow> (remember_unsupported_pair s1 v (symbol_name (ans_symbol a)), out)
      | Inl (VenueAuthError x) \<Rightarrow> (s1, fail_with v (VenueAuthError x) out)
      | Inl (RateLimitError x r) \<Rightarrow>
          (s1\<lparr>mds_manager := record_rate_limit mg (ans_ms a) v r\<rparr>, fail_with v (RateLimitError x r) out)
      | Inl e \<Rightarrow> (s1\<lparr>mds_manager := record_failure mg (ans_ms a) v\<rparr>, fail_with v e out))"

definition refresh ::
  "MarketDataService \<Rightarrow> int \<Rightarrow> rat \<Rightarrow> Symbol list \<Rightarrow> string list option \<Rightarrow> StreamKind \<Rightarrow> Answer list \<Rightarrow>
   RefreshOutcome \<times> MarketDataService" where
  "refresh s now ms symbols venues kind answers =
     (case refresh_targets s now ms symbols venues kind of (targets, s1) \<Rightarrow>
      if targets = [] then (\<lparr>requested = 0, succeeded = 0, failures = []\<rparr>, s1)
      else (case fold fetch answers (s1, \<lparr>requested = length targets, succeeded = 0, failures = []\<rparr>) of
              (s2, out) \<Rightarrow> (out, s2)))"

text \<open>
  The answers a round can see: at most one per target, in any order, books for a round of books
  and tickers for a round of tickers.
\<close>

definition round_of :: "(string \<times> Symbol) list \<Rightarrow> Answer list \<Rightarrow> bool" where
  "round_of targets answers \<longleftrightarrow>
     distinct (map (\<lambda>a. (ans_venue a, ans_symbol a)) answers) \<and>
     (\<lambda>a. (ans_venue a, ans_symbol a)) ` set answers \<subseteq> set targets"

subsection \<open>Streams\<close>

text \<open>One pass over the symbols of a venue; \<open>None\<close> when the global budget is used up.\<close>

fun admit_pass ::
  "MarketDataService \<Rightarrow> rat \<Rightarrow> string \<Rightarrow> StreamKind \<Rightarrow> bool \<Rightarrow> Symbol list \<Rightarrow> StreamSupervisor \<Rightarrow>
   bool \<times> StreamSupervisor" where
  "admit_pass s ms venue kind capable [] sv = (True, sv)"
| "admit_pass s ms venue kind capable (y # ys) sv =
     (if (venue_key venue, symbol_name y) \<in> set (mds_unsupported s) then admit_pass s ms venue kind capable ys sv
      else if registered_count sv None \<ge> md_max_parallel_streams (mds_config s) then (False, sv)
      else if md_max_streams_per_exchange (mds_config s) - registered_count sv (Some venue) \<le> 0 then (True, sv)
      else
        let sp = \<lparr>spec_exchange_id = venue, spec_symbol = symbol_name y, spec_kind = kind, spec_market_type = ''spot''\<rparr> in
        admit_pass s ms venue kind capable ys
          (if capable \<and> \<not> is_running sv sp then start_stream sv sp ms else sv))"

text \<open>
  \<open>streams v\<close> are the capabilities of the adapter of \<open>v\<close> to watch tickers and books. Order
  books come first, tickers take what is left of the budget.
\<close>

fun admit_venues ::
  "MarketDataService \<Rightarrow> rat \<Rightarrow> (string \<Rightarrow> bool \<times> bool) \<Rightarrow> Symbol list \<Rightarrow> string list \<Rightarrow> StreamSupervisor \<Rightarrow>
   ExchangeManager \<Rightarrow> (exn, unit) result \<times> StreamSupervisor \<times> ExchangeManager" where
  "admit_venues s ms streams ys [] sv mg = (Inr (), sv, mg)"
| "admit_venues s ms streams ys (v # vs) sv mg =
     (case is_breaker_open mg ms v of
        (True, mg1) \<Rightarrow> admit_venues s ms streams ys vs sv mg1
      | (False, mg1) \<Rightarrow>
          (case mgr_adapter mg1 v of
             (Inl e, mg2) \<Rightarrow> (Inl e, sv, mg2)
           | (Inr _, mg2) \<Rightarrow>
               (case streams v of (has_ticker, has_book) \<Rightarrow>
                if \<not> has_ticker \<and> \<not> has_book then admit_venues s ms streams ys vs sv mg2
                else (case admit_pass s ms v ORDER_BOOK has_book ys sv of
                        (False, sv1) \<Rightarrow> (Inr (), sv1, mg2)
                      | (True, sv1) \<Rightarrow>
                          (case admit_pass s ms v TICKER has_ticker ys sv1 of
                             (False, sv2) \<Rightarrow> (Inr (), sv2, mg2)
                           | (True, sv2) \<Rightarrow> admit_venues s ms streams ys vs sv2 mg2)))))"

definition start_streams ::
  "MarketDataService \<Rightarrow> rat \<Rightarrow> (string \<Rightarrow> bool \<times> bool) \<Rightarrow> Symbol list \<Rightarrow> string list option \<Rightarrow>
   (exn, unit) result \<times> MarketDataService" where
  "start_streams s ms streams symbols venues =
     (case mds_supervisor s of
        None \<Rightarrow> (Inr (), s)
      | Some sv \<Rightarrow>
          (let vs = (case venues of Some (x # xs) \<Rightarrow> x # xs | _ \<Rightarrow> enabled_ids (mds_manager s));
               quoted = filter (\<lambda>y. quote y = md_base_currency (mds_config s)) symbols;
               ys = (if quoted = [] then symbols else quoted)
           in case admit_venues s ms streams ys vs sv (mds_manager s) of
                (res, sv1, mg) \<Rightarrow> (res, s\<lparr>mds_supervisor := Some sv1, mds_manager := mg\<rparr>)))"

text \<open>A stream event goes into the store.\<close>

definition stream_handler :: "MarketDataService \<Rightarrow> market_item \<Rightarrow> MarketDataService" where
  "stream_handler s x = s\<lparr>mds_store := put_item (mds_store s) x\<rparr>"

definition stop_streams :: "StreamConfig \<Rightarrow> MarketDataService \<Rightarrow> MarketDataService" where
  "stop_streams cfg s = s\<lparr>mds_supervisor := map_option (stop_all cfg) (mds_supervisor s)\<rparr>"

subsection \<open>What a round asks for\<close>

lemma ask_again: "fst (is_breaker_open (snd (is_breaker_open mg ms v)) ms w) = fst (is_breaker_open mg ms w)"
  by (auto simp: is_breaker_open_def Let_def split: option.splits)

lemma open_venues_filter: "fst (open_venues ms mg vs) = filter (\<lambda>v. \<not> fst (is_breaker_open mg ms v)) vs"
proof (induction vs arbitrary: mg)
  case (Cons v vs)
  have "fst (open_venues ms (snd (is_breaker_open mg ms v)) vs) = filter (\<lambda>w. \<not> fst (is_breaker_open mg ms w)) vs"
    using Cons.IH [of "snd (is_breaker_open mg ms v)"] by (simp add: ask_again)
  then show ?case by (simp add: case_prod_beta)
qed simp

lemma covered_by_live_stream:
  assumes "supervised cfg sv" "0 \<le> max_parallel cfg" "0 \<le> max_per_exchange cfg"
    "(v, n) \<in> set (get_stream_covered_pairs (s\<lparr>mds_supervisor := Some sv\<rparr>) now (Some kind))"
  shows "\<exists>k st t. dict_get (sup_streams sv) k = Some st \<and> \<not> suspended st \<and> spec_exchange_id (st_spec st) = v \<and>
    spec_symbol (st_spec st) = n \<and> spec_kind (st_spec st) = kind \<and> last_event_at st = Some t \<and> now - t \<le> 10000000"
proof -
  obtain k st where st: "(k, st) \<in> set (sup_streams sv)" "covers now (Some kind) (status_of st)"
    "v = spec_exchange_id (st_spec st)" "n = spec_symbol (st_spec st)"
    using assms(4) by (force simp: get_stream_covered_pairs_def all_statuses_def status_of_def)
  have "permits_ok cfg sv" "tasks_ok cfg sv" using supervised_ok [OF assms(1-3)] by auto
  then have "dict_get (sup_streams sv) k = Some st" "task_ok cfg st"
    using st(1) by (auto simp: permits_ok_def dict_get_in_iff tasks_ok_def)
  moreover obtain t where "last_event_at st = Some t" "now - t \<le> 10000000" "spec_kind (st_spec st) = kind" "st_status st \<noteq> H_UNKNOWN"
    using st(2) by (auto simp: covers_def status_of_def stream_inactivity_us_def split: option.splits)
  ultimately show ?thesis using st(3,4) by (intro exI [of _ k] exI [of _ st] exI [of _ t]) (auto simp: task_ok_def)
qed


subsection \<open>Answers\<close>

definition answered :: "ExchangeManager \<Rightarrow> Answer \<Rightarrow> (exn, market_item) result" where
  "answered mg a = (case fst (mgr_adapter mg (ans_venue a)) of Inl e \<Rightarrow> Inl e | Inr _ \<Rightarrow> ans_result a)"

lemma mgr_adapter_exchanges [simp]: "mgr_exchanges (snd (mgr_adapter mg v)) = mgr_exchanges mg"
  by (simp add: mgr_adapter_def build_adapter_def Let_def split: option.splits)

lemma record_exchanges [simp]:
  "mgr_exchanges (record_success mg v) = mgr_exchanges mg"
  "mgr_exchanges (record_failure mg t v) = mgr_exchanges mg"
  "mgr_exchanges (record_rate_limit mg t v r) = mgr_exchanges mg"
  "mgr_settings (record_success mg v) = mgr_settings mg"
  "mgr_settings (record_failure mg t v) = mgr_settings mg"
  "mgr_settings (record_rate_limit mg t v r) = mgr_settings mg"
  by (simp_all add: record_success_def record_failure_def record_rate_limit_def Let_def)

text \<open>How an answer counts, and what it does to the manager.\<close>

fun answer_kind :: "(exn, market_item) result \<Rightarrow> nat \<times> nat" where
  "answer_kind (Inr x) = (1, 0)"
| "answer_kind (Inl (CapabilityNotSupportedError x)) = (0, 0)"
| "answer_kind (Inl e) = (0, 1)"

fun answer_manager :: "ExchangeManager \<Rightarrow> rat \<Rightarrow> string \<Rightarrow> (exn, market_item) result \<Rightarrow> ExchangeManager" where
  "answer_manager mg ms v (Inr x) = record_success mg v"
| "answer_manager mg ms v (Inl (CapabilityNotSupportedError x)) = mg"
| "answer_manager mg ms v (Inl (VenueAuthError x)) = mg"
| "answer_manager mg ms v (Inl (RateLimitError x r)) = record_rate_limit mg ms v r"
| "answer_manager mg ms v (Inl e) = record_failure mg ms v"

lemma fetch_effect:
  fixes s out
  assumes "fetch a (s, out) = (s', out')"
  defines "r \<equiv> answered (mds_manager s) a"
  shows "mds_manager s' = answer_manager (snd (mgr_adapter (mds_manager s) (ans_venue a))) (ans_ms a) (ans_venue a) r"
    "requested out' = requested out" "succeeded out' = succeeded out + fst (answer_kind r)"
    "length (failures out') = length (failures out) + snd (answer_kind r)"
    "mds_store s' = (case r of Inr x \<Rightarrow> put_item (mds_store s) x | Inl _ \<Rightarrow> mds_store s)"
    "mds_config s' = mds_config s" "mds_supervisor s' = mds_supervisor s"
  using assms
  by (auto simp: fetch_def answered_def remember_unsupported_pair_def add_pair_def fail_with_def Let_def
      split: sum.splits exn.splits if_splits)


lemma answered_exchanges: "mgr_exchanges mg = mgr_exchanges mg' \<Longrightarrow> answered mg a = answered mg' a"
  by (auto simp: answered_def mgr_adapter_def build_adapter_def Let_def split: option.splits)

lemma answer_manager_frame [simp]:
  "mgr_exchanges (answer_manager mg ms v r) = mgr_exchanges mg" "mgr_settings (answer_manager mg ms v r) = mgr_settings mg"
  by (cases "(mg, ms, v, r)" rule: answer_manager.cases; simp)+

lemma answered_fold:
  "mgr_exchanges (mds_manager (fst (fold fetch as so))) = mgr_exchanges (mds_manager (fst so))"
proof (induction as arbitrary: so)
  case (Cons a as)
  obtain s out s' out' where e: "so = (s, out)" "fetch a so = (s', out')" by (metis prod.exhaust)
  have "mgr_exchanges (mds_manager s') = mgr_exchanges (mds_manager s)"
    using fetch_effect(1) [of a s out s' out'] e by simp
  then show ?case using Cons.IH [of "(s', out')"] e by simp
qed simp

definition ok_count :: "ExchangeManager \<Rightarrow> Answer list \<Rightarrow> nat" where
  "ok_count mg as = length (filter (\<lambda>a. \<exists>x. answered mg a = Inr x) as)"

lemma fold_fetch_counts:
  fixes s out
  assumes "fold fetch as (s, out) = (s', out')"
  shows "requested out' = requested out \<and> succeeded out' = succeeded out + ok_count (mds_manager s) as \<and>
    succeeded out' + length (failures out') \<le> succeeded out + length (failures out) + length as"
  using assms
proof (induction as arbitrary: s out)
  case (Cons a as)
  obtain s1 out1 where e: "fetch a (s, out) = (s1, out1)" by (metis prod.exhaust)
  note f = fetch_effect [OF e]
  have "mgr_exchanges (mds_manager s1) = mgr_exchanges (mds_manager s)" using f(1) by simp
  then have ok: "ok_count (mds_manager s1) as = ok_count (mds_manager s) as"
    unfolding ok_count_def using answered_exchanges by (metis (no_types, lifting))
  have k: "fst (answer_kind r) = of_bool (\<exists>x. r = Inr x)" "fst (answer_kind r) + snd (answer_kind r) \<le> 1" for r
    by (cases r rule: answer_kind.cases; simp)+
  show ?case
    using Cons.IH [of s1 out1] Cons.prems e f(2-4) ok k [of "answered (mds_manager s) a"]
    by (auto simp: ok_count_def)
qed (simp add: ok_count_def)

text \<open>(refresh_accounts_for_answers).
  In whatever order the answers of a round arrive, and wherever the timeout cuts it off, the
  successes and failures reported are at most the pairs asked for, and a round reported as
  complete had a successful answer for every one of them.\<close>

theorem refresh_accounts_for_answers:
  assumes "refresh s now ms symbols venues kind answers = (out, s')"
    "refresh_targets s now ms symbols venues kind = (targets, s1)" "round_of targets answers"
  shows "requested out = length targets \<and> succeeded out + outcome_failed out \<le> requested out \<and>
    (is_complete out \<longrightarrow> (\<forall>t \<in> set targets. \<exists>a \<in> set answers. (ans_venue a, ans_symbol a) = t \<and> (\<exists>x. ans_result a = Inr x)))"
proof (cases "targets = []")
  case True
  then show ?thesis using assms by (auto simp: refresh_def outcome_failed_def)
next
  case False
  let ?out0 = "\<lparr>requested = length targets, succeeded = 0, failures = []\<rparr>"
  let ?key = "\<lambda>a. (ans_venue a, ans_symbol a)"
  obtain s2 where "fold fetch answers (s1, ?out0) = (s2, out)"
    using assms False by (auto simp: refresh_def split: prod.splits)
  note c = fold_fetch_counts [OF this]
  have d: "distinct (map ?key answers)" "?key ` set answers \<subseteq> set targets" using assms(3) by (auto simp: round_of_def)
  then have "card (?key ` set answers) = length answers" by (metis distinct_card length_map set_map)
  then have len: "length answers \<le> card (set targets)" using card_mono [OF _ d(2)] by simp
  then have le: "length answers \<le> length targets" using card_length [of targets] by linarith
  have all: "\<exists>a \<in> set answers. ?key a = t \<and> (\<exists>x. ans_result a = Inr x)" if co: "is_complete out" and t: "t \<in> set targets" for t
  proof -
    have ok: "ok_count (mds_manager s1) answers = length targets" using co c by (simp add: is_complete_def)
    then have eq: "ok_count (mds_manager s1) answers = length answers" "length answers = length targets"
      using le length_filter_le [of _ answers] unfolding ok_count_def by (metis le_antisym)+
    have "card (?key ` set answers) = card (set targets)"
      using len eq(2) card_length [of targets] \<open>card (?key ` set answers) = length answers\<close> by linarith
    then have "?key ` set answers = set targets" using d(2) card_subset_eq by blast
    then have "t \<in> ?key ` set answers" using t by simp
    then obtain a where a: "a \<in> set answers" "?key a = t" by blast
    have "filter (\<lambda>a. \<exists>x. answered (mds_manager s1) a = Inr x) answers = answers"
      using eq(1) length_filter_less [of _ answers] unfolding ok_count_def by (metis filter_True less_irrefl)
    then have "\<exists>x. answered (mds_manager s1) a = Inr x" using a(1) by (simp only: filter_id_conv)
    then show ?thesis using a by (auto simp: answered_def split: sum.splits)
  qed
  show ?thesis using c le all by (auto simp: outcome_failed_def)
qed


subsection \<open>Venues are isolated\<close>

definition breaker_of :: "ExchangeManager \<Rightarrow> string \<Rightarrow> int option \<times> rat option" where
  "breaker_of mg k = (dict_get (breaker_failures mg) k, dict_get (breaker_opened_at_ms mg) k)"

definition same_venue :: "string \<Rightarrow> ExchangeManager \<Rightarrow> ExchangeManager \<Rightarrow> bool" where
  "same_venue k mg mg' \<longleftrightarrow>
     breaker_of mg k = breaker_of mg' k \<and> mgr_settings mg = mgr_settings mg' \<and> mgr_exchanges mg = mgr_exchanges mg'"

lemma same_venue_adapter [simp]:
  "same_venue k (snd (mgr_adapter mg v)) mg' \<longleftrightarrow> same_venue k mg mg'"
  "same_venue k mg (snd (mgr_adapter mg' v)) \<longleftrightarrow> same_venue k mg mg'"
  by (simp_all add: same_venue_def breaker_of_def)

lemma answer_manager_other:
  "venue_key v \<noteq> k \<Longrightarrow> same_venue k (answer_manager mg ms v r) mg' \<longleftrightarrow> same_venue k mg mg'"
  by (cases "(mg, ms, v, r)" rule: answer_manager.cases;
      simp add: same_venue_def breaker_of_def record_success_def record_failure_def record_rate_limit_def Let_def)

lemma answer_manager_same:
  "same_venue k mg mg' \<Longrightarrow> venue_key v = k \<Longrightarrow> same_venue k (answer_manager mg ms v r) (answer_manager mg' ms v r)"
  by (cases "(mg, ms, v, r)" rule: answer_manager.cases;
      auto simp: same_venue_def breaker_of_def record_success_def record_failure_def record_rate_limit_def Let_def)


lemma same_venue_answered: "same_venue k mg mg' \<Longrightarrow> answered mg a = answered mg' a"
  by (rule answered_exchanges) (simp add: same_venue_def)

lemma fetch_same_venue:
  assumes "same_venue k (mds_manager s) (mds_manager s')"
  shows "venue_key (ans_venue a) \<noteq> k \<Longrightarrow> same_venue k (mds_manager (fst (fetch a (s, out)))) (mds_manager s')"
    "venue_key (ans_venue a) = k \<Longrightarrow>
      same_venue k (mds_manager (fst (fetch a (s, out)))) (mds_manager (fst (fetch a (s', out'))))"
proof -
  obtain s1 o1 s2 o2 where e: "fetch a (s, out) = (s1, o1)" "fetch a (s', out') = (s2, o2)" by (metis prod.exhaust)
  show "venue_key (ans_venue a) \<noteq> k \<Longrightarrow> same_venue k (mds_manager (fst (fetch a (s, out)))) (mds_manager s')"
    using assms by (simp add: e(1) fetch_effect(1) [OF e(1)] answer_manager_other)
  show "venue_key (ans_venue a) = k \<Longrightarrow>
      same_venue k (mds_manager (fst (fetch a (s, out)))) (mds_manager (fst (fetch a (s', out'))))"
    using assms same_venue_answered [OF assms]
    by (simp add: e fetch_effect(1) [OF e(1)] fetch_effect(1) [OF e(2)] answer_manager_same)
qed

lemma fold_same_venue:
  assumes "same_venue k (mds_manager (fst so)) (mds_manager (fst so'))"
  shows "same_venue k (mds_manager (fst (fold fetch as so)))
    (mds_manager (fst (fold fetch (filter (\<lambda>a. venue_key (ans_venue a) = k) as) so')))"
  using assms
proof (induction as arbitrary: so so')
  case (Cons a as)
  then show ?case
    using fetch_same_venue(1) [OF Cons.prems, of a "snd so"]
      fetch_same_venue(2) [OF Cons.prems, of a "snd so" "snd so'"] by (cases "venue_key (ans_venue a) = k") auto
qed simp

lemma same_venue_open: "same_venue (venue_key v) mg mg' \<Longrightarrow> fst (is_breaker_open mg ms v) = fst (is_breaker_open mg' ms v)"
  by (auto simp: same_venue_def breaker_of_def is_breaker_open_def Let_def split: option.splits)

text \<open>C31 (venues_are_isolated).
  Whether a venue is skipped after a round depends only on the answers of that venue: the
  answers of the others, and where they fall in between, make no difference.\<close>

theorem venues_are_isolated:
  "fst (is_breaker_open (mds_manager (fst (fold fetch answers so))) ms v) =
   fst (is_breaker_open (mds_manager (fst (fold fetch
     (filter (\<lambda>a. venue_key (ans_venue a) = venue_key v) answers) so))) ms v)"
  by (rule same_venue_open, rule fold_same_venue) (simp add: same_venue_def)

text \<open>(success_lifts_rate_limit).
  A rate limit is forgotten as soon as any other request of the venue that was under way is
  answered: after a round whose last answer of a venue is a success, the venue is not skipped,
  even if it has just asked to be left alone.\<close>

theorem success_lifts_rate_limit:
  assumes "dict_get (mgr_exchanges (mds_manager s)) (venue_key v) \<noteq> None"
    "answers = xs @ \<lparr>ans_venue = v, ans_symbol = y1, ans_ms = t1, ans_result = Inl (RateLimitError msg (Some wait))\<rparr> # ys @
       \<lparr>ans_venue = v, ans_symbol = y2, ans_ms = t2, ans_result = Inr x\<rparr> # zs"
    "\<forall>a \<in> set zs. venue_key (ans_venue a) \<noteq> venue_key v"
  shows "\<not> fst (is_breaker_open (mds_manager (fst (fold fetch answers (s, out)))) ms v)"
proof -
  let ?ok = "\<lparr>ans_venue = v, ans_symbol = y2, ans_ms = t2, ans_result = Inr x\<rparr>"
  let ?pre = "filter (\<lambda>a. venue_key (ans_venue a) = venue_key v) (butlast (xs @ \<lparr>ans_venue = v, ans_symbol = y1, ans_ms = t1,
    ans_result = Inl (RateLimitError msg (Some wait))\<rparr> # ys @ [?ok]))"
  have f: "filter (\<lambda>a. venue_key (ans_venue a) = venue_key v) answers = ?pre @ [?ok]"
    using assms(3) by (simp add: assms(2) butlast_append filter_empty_conv)
  obtain s1 o1 where p: "fold fetch ?pre (s, out) = (s1, o1)" by (metis prod.exhaust)
  obtain s2 o2 where e: "fetch ?ok (s1, o1) = (s2, o2)" by (metis prod.exhaust)
  have "mgr_exchanges (mds_manager s1) = mgr_exchanges (mds_manager s)"
    using answered_fold [of ?pre "(s, out)"] p by simp
  then have "answered (mds_manager s1) ?ok = Inr x"
    using assms(1) by (auto simp: answered_def mgr_adapter_def build_adapter_def Let_def split: option.splits)
  then have "mds_manager s2 = record_success (snd (mgr_adapter (mds_manager s1) v)) v"
    using fetch_effect(1) [OF e] by simp
  then have "\<not> fst (is_breaker_open (mds_manager s2) ms v)"
    by (simp add: is_breaker_open_def record_success_def Let_def)
  then show ?thesis
    unfolding same_venue_open [OF fold_same_venue [of "venue_key v" "(s, out)" "(s, out)" answers], simplified same_venue_def, simplified]
    using f p e by simp
qed


subsection \<open>Fresher data only\<close>

lemma put_item_books:
  "\<exists>b'. order_book (put_item st x) v y = Some b' \<and> book_timestamp b \<le> book_timestamp b'"
  if "order_book st v y = Some b"
  using that
  by (cases x) (auto simp: put_item_def order_book_def put_ticker_def put_order_book_def Let_def split: option.split)

text \<open>(refresh_only_freshens).
  A round never loses a book and never replaces one by an older snapshot.\<close>

theorem refresh_only_freshens:
  assumes "order_book (mds_store (fst so)) v y = Some b"
  shows "\<exists>b'. order_book (mds_store (fst (fold fetch answers so))) v y = Some b' \<and> book_timestamp b \<le> book_timestamp b'"
  using assms
proof (induction answers arbitrary: so b)
  case (Cons a as)
  obtain s out s1 o1 where e: "so = (s, out)" "fetch a (s, out) = (s1, o1)" by (metis prod.exhaust)
  have "\<exists>b1. order_book (mds_store s1) v y = Some b1 \<and> book_timestamp b \<le> book_timestamp b1"
    using Cons.prems put_item_books by (auto simp: fetch_effect(5) [OF e(2)] e(1) split: sum.split)
  then obtain b1 where "order_book (mds_store (fst (s1, o1))) v y = Some b1" "book_timestamp b \<le> book_timestamp b1" by auto
  then show ?case using Cons.IH [of "(s1, o1)" b1] e by fastforce
qed auto

subsection \<open>Admission\<close>

lemma registered_count_eq:
  "registered_count sv None = dict_count (\<lambda>st. \<not> suspended st) (sup_streams sv)"
  "registered_count sv (Some v) = dict_count (\<lambda>st. \<not> suspended st \<and> spec_exchange_id (st_spec st) = v) (sup_streams sv)"
  by (simp_all add: registered_count_def dict_count_def comp_def case_prod_unfold)

lemma admitted:
  assumes "dict_ok (sup_streams sv)" "\<not> is_running sv sp"
  shows "registered_count (start_stream sv sp ms) None = registered_count sv None + 1"
    "registered_count (start_stream sv sp ms) (Some v) = registered_count sv (Some v) + of_bool (spec_exchange_id sp = v)"
  using assms
  by (auto simp: registered_count_eq start_stream_def is_running_def put_task_def new_task_def dict_count_set dict_count_pop
      Let_def split: option.splits)

definition within_budget :: "StreamConfig \<Rightarrow> MarketDataSettings \<Rightarrow> StreamSupervisor \<Rightarrow> bool" where
  "within_budget cfg c sv \<longleftrightarrow>
     supervised cfg sv \<and> registered_count sv None \<le> md_max_parallel_streams c \<and>
     (\<forall>v. registered_count sv (Some v) \<le> md_max_streams_per_exchange c)"

lemma admit_one:
  assumes "within_budget cfg c sv" "0 \<le> max_parallel cfg" "0 \<le> max_per_exchange cfg" "\<not> is_running sv sp"
    "registered_count sv None < md_max_parallel_streams c"
    "registered_count sv (Some (spec_exchange_id sp)) < md_max_streams_per_exchange c"
  shows "within_budget cfg c (start_stream sv sp ms)"
proof -
  have sv: "supervised cfg sv" using assms(1) by (simp add: within_budget_def)
  then have ok: "dict_ok (sup_streams sv)" using supervised_ok [OF sv assms(2,3)] by (simp add: permits_ok_def)
  have "supervised cfg (start_stream sv sp ms)" by (rule supervised_step [OF sv, of "Start sp ms"]) simp
  then show ?thesis
    using assms(1,5,6) admitted [OF ok assms(4)] by (auto simp: within_budget_def order_le_less)
qed

lemma admit_pass_within:
  assumes "within_budget cfg (mds_config s) sv" "0 \<le> max_parallel cfg" "0 \<le> max_per_exchange cfg"
  shows "within_budget cfg (mds_config s) (snd (admit_pass s ms venue kind capable ys sv))"
  using assms(1)
proof (induction s ms venue kind capable ys sv rule: admit_pass.induct)
  case (2 s ms venue kind capable y ys sv)
  let ?sp = "\<lparr>spec_exchange_id = venue, spec_symbol = symbol_name y, spec_kind = kind, spec_market_type = ''spot''\<rparr>"
  have "registered_count sv None < md_max_parallel_streams (mds_config s) \<Longrightarrow>
      registered_count sv (Some venue) < md_max_streams_per_exchange (mds_config s) \<Longrightarrow>
      within_budget cfg (mds_config s) (if capable \<and> \<not> is_running sv ?sp then start_stream sv ?sp ms else sv)"
    using admit_one [OF 2(3) assms(2,3), of ?sp] 2(3) by simp
  then show ?case using 2 by (simp add: Let_def not_le)
qed simp

lemma admit_venues_within:
  assumes "within_budget cfg (mds_config s) sv" "0 \<le> max_parallel cfg" "0 \<le> max_per_exchange cfg"
  shows "within_budget cfg (mds_config s) (fst (snd (admit_venues s ms streams ys vs sv mg)))"
  using assms(1)
proof (induction vs arbitrary: sv mg)
  case (Cons v vs)
  have p: "within_budget cfg (mds_config s) sv' \<Longrightarrow> within_budget cfg (mds_config s) (snd (admit_pass s ms v k c ys sv'))" for sv' k c
    by (rule admit_pass_within [OF _ assms(2,3)])
  obtain t mg1 where b: "is_breaker_open mg ms v = (t, mg1)" by (metis prod.exhaust)
  obtain ad mg2 where a: "mgr_adapter mg1 v = (ad, mg2)" by (metis prod.exhaust)
  obtain ht hb where c: "streams v = (ht, hb)" by (metis prod.exhaust)
  obtain go1 sv1 where p1: "admit_pass s ms v ORDER_BOOK hb ys sv = (go1, sv1)" by (metis prod.exhaust)
  obtain go2 sv2 where p2: "admit_pass s ms v TICKER ht ys sv1 = (go2, sv2)" by (metis prod.exhaust)
  have w: "within_budget cfg (mds_config s) sv1" "within_budget cfg (mds_config s) sv2"
    using p [OF Cons.prems, of ORDER_BOOK hb] p [of sv1 TICKER ht] p1 p2 by auto
  show ?case
    using Cons.IH Cons.prems w by (cases t; cases ad; cases go1; cases go2) (simp_all add: b a c p1 p2)
qed simp

text \<open>(streams_within_budget).
  Starting streams never takes the number of registered streams past the global budget or a
  venue past its own, and leaves the supervisor in a state its own guarantees cover; a stream
  that already runs is not started twice.\<close>

theorem streams_within_budget:
  assumes "mds_supervisor s = Some sv" "within_budget cfg (mds_config s) sv" "0 \<le> max_parallel cfg" "0 \<le> max_per_exchange cfg"
    "start_streams s ms streams symbols venues = (res, s')"
  shows "\<exists>sv'. mds_supervisor s' = Some sv' \<and> supervised cfg sv' \<and>
    registered_count sv' None \<le> md_max_parallel_streams (mds_config s) \<and>
    registered_count sv' (Some v) \<le> md_max_streams_per_exchange (mds_config s)"
  using assms(1,5) admit_venues_within [OF assms(2-4)]
  by (auto simp: start_streams_def within_budget_def Let_def case_prod_beta)

subsection \<open>A round at work\<close>

definition btc_usdt :: Symbol where
  "btc_usdt = \<lparr>base = ''BTC'', quote = ''USDT'', settle = None\<rparr>"

definition ltc_usdt :: Symbol where
  "ltc_usdt = \<lparr>base = ''LTC'', quote = ''USDT'', settle = None\<rparr>"

definition quiet_service :: MarketDataService where
  "quiet_service =
     \<lparr>mds_manager = one_manager, mds_store = new_store 2000,
      mds_config = \<lparr>md_streams_enabled = True, md_max_streams_per_exchange = 4, md_max_parallel_streams = 8,
        md_base_currency = ''USDT''\<rparr>,
      mds_unsupported = [], mds_supervisor = None\<rparr>"

definition fresh_book_of :: "Symbol \<Rightarrow> int \<Rightarrow> OrderBook" where
  "fresh_book_of y t = \<lparr>book_exchange_id = ''binance'', book_symbol = y, book_timestamp = t, bids = [], asks = []\<rparr>"

definition ok_answer :: "Symbol \<Rightarrow> rat \<Rightarrow> Answer" where
  "ok_answer y ms = \<lparr>ans_venue = ''binance'', ans_symbol = y, ans_ms = ms, ans_result = Inr (ItemBook (fresh_book_of y 0))\<rparr>"

definition limited_answer :: "Symbol \<Rightarrow> rat \<Rightarrow> Answer" where
  "limited_answer y ms = \<lparr>ans_venue = ''binance'', ans_symbol = y, ans_ms = ms,
     ans_result = Inl (RateLimitError ''429'' (Some 3600))\<rparr>"

lemma quiet_targets:
  "refresh_targets quiet_service 0 0 [btc_usdt, ltc_usdt] None ORDER_BOOK =
     ([(''binance'', btc_usdt), (''binance'', ltc_usdt)], quiet_service)"
  by (simp add: refresh_targets_def get_stream_covered_pairs_def quiet_service_def enabled_ids_def dict_keys_def
      one_manager_def is_breaker_open_def Let_def)

theorem refresh_accounts_for_answers_witness:
  "\<exists>out s'. refresh quiet_service 0 0 [btc_usdt, ltc_usdt] None ORDER_BOOK [limited_answer ltc_usdt 1, ok_answer btc_usdt 2] = (out, s') \<and>
     requested out = 2 \<and> succeeded out + outcome_failed out \<le> 2"
proof -
  obtain out s' where r: "refresh quiet_service 0 0 [btc_usdt, ltc_usdt] None ORDER_BOOK
      [limited_answer ltc_usdt 1, ok_answer btc_usdt 2] = (out, s')" by (metis prod.exhaust)
  have "round_of [(''binance'', btc_usdt), (''binance'', ltc_usdt)] [limited_answer ltc_usdt 1, ok_answer btc_usdt 2]"
    by (simp add: round_of_def limited_answer_def ok_answer_def btc_usdt_def ltc_usdt_def)
  from refresh_accounts_for_answers [OF r quiet_targets this] r show ?thesis by auto
qed

theorem success_lifts_rate_limit_witness:
  "\<not> fst (is_breaker_open (mds_manager (fst (fold fetch [limited_answer ltc_usdt 1, ok_answer btc_usdt 2]
     (quiet_service, \<lparr>requested = 2, succeeded = 0, failures = []\<rparr>)))) 3 ''binance'')"
proof (rule success_lifts_rate_limit [where xs = "[]" and ys = "[]" and zs = "[]"])
  show "dict_get (mgr_exchanges (mds_manager quiet_service)) (venue_key ''binance'') \<noteq> None"
    by (simp add: quiet_service_def one_manager_def venue_keys)
qed (simp_all add: limited_answer_def ok_answer_def)

theorem refresh_only_freshens_witness:
  "\<exists>b. order_book (mds_store (fst (fold fetch [ok_answer btc_usdt 2]
     (quiet_service\<lparr>mds_store := put_order_book (new_store 2000) (fresh_book_of btc_usdt 5)\<rparr>,
      \<lparr>requested = 1, succeeded = 0, failures = []\<rparr>)))) ''binance'' btc_usdt = Some b \<and> 5 \<le> book_timestamp b"
proof -
  have "order_book (put_order_book (new_store 2000) (fresh_book_of btc_usdt 5)) ''binance'' btc_usdt = Some (fresh_book_of btc_usdt 5)"
    by (simp add: order_book_def put_order_book_def new_store_def book_key_def fresh_book_of_def Let_def)
  then show ?thesis
    using refresh_only_freshens [of "(quiet_service\<lparr>mds_store := put_order_book (new_store 2000) (fresh_book_of btc_usdt 5)\<rparr>,
        \<lparr>requested = 1, succeeded = 0, failures = []\<rparr>)" "''binance''" btc_usdt "fresh_book_of btc_usdt 5" "[ok_answer btc_usdt 2]"]
    by (simp add: fresh_book_of_def)
qed


theorem streams_within_budget_witness:
  "\<exists>sv. mds_supervisor (snd (start_streams (quiet_service\<lparr>mds_supervisor := Some btc_streaming\<rparr>) 0 (\<lambda>_. (True, True))
       [btc_usdt, ltc_usdt] None)) = Some sv \<and> registered_count sv None \<le> 8 \<and> registered_count sv (Some ''binance'') \<le> 4"
proof -
  let ?s = "quiet_service\<lparr>mds_supervisor := Some btc_streaming\<rparr>"
  have c: "md_max_parallel_streams (mds_config ?s) = 8" "md_max_streams_per_exchange (mds_config ?s) = 4"
    by (simp_all add: quiet_service_def)
  have "registered_count btc_streaming None \<le> 8" "registered_count btc_streaming (Some v) \<le> 4" for v
    by (simp_all add: registered_count_def btc_streaming_def)
  then have w: "within_budget small_config (mds_config ?s) btc_streaming"
    using btc_supervised c by (simp add: within_budget_def)
  obtain res s' where "start_streams ?s 0 (\<lambda>_. (True, True)) [btc_usdt, ltc_usdt] None = (res, s')" by (metis prod.exhaust)
  then show ?thesis
    using streams_within_budget [of ?s btc_streaming small_config 0 _ _ None res s' "''binance''", OF _ w small_config_nonneg] c by auto
qed

end
