(* ===== verification/App_Services.thy ===== *)
theory App_Services
  imports Transfer_Lifecycle Triangle_Safety Triangle_Scanner Market_Data_Service
begin

text \<open>
  The application services (\<^verbatim>\<open>app/services.py\<close>) that put the components together, and
  the automatic trading loop over them (\<^verbatim>\<open>app/auto.py\<close>): validation and execution of
  triangles, start and advancement of transfers with their risk state and trade records, the
  choice of books to refresh, and one cycle of the loop.

  An operation returns its result or exception, the new state and its effects in order. The
  guard is read when the environment says so: \<open>env_guard\<close> of the environment of a call is
  the shared guard as it is at that moment. The transfer and trade tables change by the effects
  of the operations, in order.
\<close>

subsection \<open>State\<close>

record App =
  app_risk :: RiskServices
  app_trades :: trade_repo
  app_transfers :: repo
  app_mem :: Mem

datatype app_effect =
    XTransfer effect
  | XTrade trade_effect
  | XBooked TradeRecord
  | XAudit string string

definition app_refresh :: "App \<Rightarrow> App" where
  "app_refresh a = a\<lparr>app_risk := refresh_risk_exposure (app_risk a) (list_open (app_transfers a))\<rparr>"

subsection \<open>Triangles\<close>

definition triangle_context :: "ArbitrageOpportunity \<Rightarrow> RiskEnvironment \<Rightarrow> RiskContext" where
  "triangle_context x env =
     \<lparr>ctx_strategy = TRIANGLE, ctx_notional_quote = size_notional_quote x,
      ctx_net_profit_bps = pb_net_profit_bps (opp_profit x), ctx_slippage_bps = pb_slippage_bps (opp_profit x),
      ctx_data_age_ms = Some (opp_data_age_ms x), ctx_daily_pnl = env_daily_pnl env,
      ctx_open_transfers = env_open_transfers env,
      ctx_exchange_exposure = Some (env_exchange_exposure env),
      ctx_asset_exposure = Some (env_asset_exposure env),
      ctx_kill_switch_engaged = env_kill_switch_engaged env\<rparr>"

definition validate_triangle ::
  "RiskServices \<Rightarrow> ExecutionGuard \<Rightarrow> int \<Rightarrow> ArbitrageOpportunity \<Rightarrow> RiskServices \<times> RiskAssessment" where
  "validate_triangle s g now x =
     (case risk_environment s g now of
        (s', env) \<Rightarrow> (s', evaluate (svc_limits s) DEFAULT_RISK_RULES (triangle_context x env)))"

fun py_join :: "string \<Rightarrow> string list \<Rightarrow> string" where
  "py_join sep [] = []"
| "py_join sep [x] = x"
| "py_join sep (x # xs) = x @ sep @ py_join sep xs"

text \<open>The record returned for a rejected opportunity; it is not saved.\<close>

definition rejected_trade ::
  "TriSettings \<Rightarrow> string \<Rightarrow> int \<Rightarrow> ArbitrageOpportunity \<Rightarrow> RiskAssessment \<Rightarrow> TradeRecord" where
  "rejected_trade s tid now x ra =
     (new_trade tid TRIANGLE (os_mode s) (leg_exchange_id (buy_leg x)) (opt_or (direction x) []) T_FAILED now)
       \<lparr>input_amount := size_notional_quote x, trd_net_profit_bps := pb_net_profit_bps (opp_profit x),
        trd_error := Some (py_join ''; '' (reasons ra))\<rparr>"

definition execute_triangle ::
  "TriSettings \<Rightarrow> (nat \<Rightarrow> Env) \<Rightarrow> string \<Rightarrow> App \<Rightarrow> ArbitrageOpportunity \<Rightarrow>
   (exn, TradeRecord \<times> RiskAssessment) result \<times> App \<times> app_effect list" where
  "execute_triangle s envs tid a x =
     (let g = env_guard (envs 0); now = env_now (envs 0) in
      case ensure_can_trade g of
        Inl e \<Rightarrow> (Inl e, a, [])
      | Inr _ \<Rightarrow>
          (case validate_triangle (app_risk a) g now x of (risk1, ra) \<Rightarrow>
             if \<not> approved ra
             then (Inr (rejected_trade s tid now x ra, ra), a\<lparr>app_risk := risk1\<rparr>,
                   [XAudit ''TRIANGLE_RISK_REJECTED'' (py_join ''; '' (reasons ra))])
             else
               (case execute s envs (app_mem a) tid x of (t, m1, es) \<Rightarrow>
                  let risk2 = (if trd_status t = T_COMPLETED
                               then risk1\<lparr>svc_tracker := register_realized_pnl (svc_tracker risk1) (env_now (envs 5)) (net_profit t)\<rparr>
                               else risk1)
                  in (Inr (t, ra),
                      app_refresh (a\<lparr>app_risk := risk2, app_mem := m1, app_trades := trades_after (app_trades a) es\<rparr>),
                      map XTrade es))))"

subsection \<open>Transfers\<close>

definition transfers_after :: "repo \<Rightarrow> effect list \<Rightarrow> repo" where
  "transfers_after r es = fold apply_effect es r"

text \<open>
  A start, under the lock: the exposure and the open transfers are read from the table before
  the risk check sees them. An exception leaves the lock at once, without the second refresh.
\<close>

definition start_transfer ::
  "OrchSettings \<Rightarrow> Env \<Rightarrow> string \<Rightarrow> App \<Rightarrow> TransferPlan \<Rightarrow>
   (exn, TransferRecord) result \<times> App \<times> app_effect list" where
  "start_transfer s env tid a p =
     (let a1 = app_refresh a;
          check = (\<lambda>q. snd (validate_transfer (app_risk a1) (env_guard env) (env_now env) q));
          risk1 = (case ensure_can_trade (env_guard env) of
                     Inl _ \<Rightarrow> app_risk a1
                   | Inr _ \<Rightarrow> fst (validate_transfer (app_risk a1) (env_guard env) (env_now env) p))
      in case start s env (Some check) tid (app_mem a1) (app_transfers a1) p of (res, m1, es) \<Rightarrow>
           (let a2 = a1\<lparr>app_risk := risk1, app_mem := m1, app_transfers := transfers_after (app_transfers a1) es\<rparr>
            in (res, (case res of Inl _ \<Rightarrow> a2 | Inr _ \<Rightarrow> app_refresh a2), map XTransfer es)))"

text \<open>The trade record of a completed transfer.\<close>

definition transfer_trade :: "OrchSettings \<Rightarrow> string \<Rightarrow> int \<Rightarrow> TransferRecord \<Rightarrow> TradeRecord" where
  "transfer_trade s tid now r =
     (new_trade tid TRANSFER (os_mode s) (source_exchange r @ ''->'' @ dest_exchange r)
        (''USDT->'' @ tr_asset r @ ''->'' @ tr_network r @ ''->'' @ tr_asset r @ ''/USDT'') T_COMPLETED now)
       \<lparr>trd_symbols := [tr_asset r @ ''/'' @ base_currency s], input_amount := buy_cost_quote (plan r),
        output_amount := sell_proceeds_quote r, trd_fees_quote := fees_quote r,
        net_profit := realized_profit_quote r,
        trd_net_profit_bps := (if buy_cost_quote (plan r) > 0
          then dmul (ddiv (realized_profit_quote r) (buy_cost_quote (plan r))) 10000 else 0),
        trd_transfer_id := Some (tr_id r)\<rparr>"

text \<open>\<open>tids\<close> are the fresh ids of the trade records.\<close>

fun book_completed ::
  "OrchSettings \<Rightarrow> (nat \<Rightarrow> string) \<Rightarrow> int \<Rightarrow> TransferRecord list \<Rightarrow> RiskServices \<Rightarrow> trade_repo \<Rightarrow>
   RiskServices \<times> trade_repo \<times> TradeRecord list" where
  "book_completed s tids now [] risk trades = (risk, trades, [])"
| "book_completed s tids now (r # rs) risk trades =
     (if state r = COMPLETED
      then (let t = transfer_trade s (tids (length rs)) now r;
                risk1 = risk\<lparr>svc_tracker := register_transfer_closed (svc_tracker risk) now (realized_profit_quote r)\<rparr>
            in case book_completed s tids now rs risk1 (save_trade trades t) of
                 (risk2, trades2, ts) \<Rightarrow> (risk2, trades2, t # ts))
      else book_completed s tids now rs risk trades)"

definition tick_transfers ::
  "OrchSettings \<Rightarrow> (nat \<Rightarrow> Env) \<Rightarrow> (nat \<Rightarrow> string) \<Rightarrow> int \<Rightarrow> App \<Rightarrow>
   TransferRecord list \<times> App \<times> app_effect list" where
  "tick_transfers s envs tids now a =
     (case tick s envs (app_mem a) (app_transfers a) of (advanced, m1, es) \<Rightarrow>
      case book_completed s tids now advanced (app_risk a) (app_trades a) of (risk1, trades1, ts) \<Rightarrow>
        (advanced,
         app_refresh (a\<lparr>app_risk := risk1, app_trades := trades1, app_mem := m1,
           app_transfers := transfers_after (app_transfers a) es\<rparr>),
         map XTransfer es @ map XBooked ts))"

subsection \<open>Market data\<close>

text \<open>The symbols a call refreshes; \<open>vs\<close> are the enabled venues.\<close>

definition symbols_to_refresh :: "MarketDataStore \<Rightarrow> int \<Rightarrow> string list \<Rightarrow> Symbol list \<Rightarrow> Symbol list" where
  "symbols_to_refresh st now vs watch =
     (if list_ex (\<lambda>y. \<not> list_ex (\<lambda>v. order_book st v y \<noteq> None) vs) watch then watch
      else dedup (concat (map (\<lambda>y. concat (map (\<lambda>v.
             case order_book st v y of
               None \<Rightarrow> [y]
             | Some b \<Rightarrow> if is_stale st (age_ms now (book_timestamp b)) then [y] else []) vs)) watch)))"

definition ensure_market_data ::
  "MarketDataService \<Rightarrow> int \<Rightarrow> rat \<Rightarrow> Symbol list \<Rightarrow> Answer list \<Rightarrow> MarketDataService" where
  "ensure_market_data s now ms watch answers =
     (let ys = symbols_to_refresh (mds_store s) now (enabled_ids (mds_manager s)) watch in
      if watch = [] \<or> ys = [] then s
      else snd (refresh s now ms ys None ORDER_BOOK answers))"

text \<open>The venues the scanner walks: those whose breaker is closed.\<close>

definition scan_triangles ::
  "ScanSettings \<Rightarrow> ScanRequest \<Rightarrow> MarketDataService \<Rightarrow> int \<Rightarrow> rat \<Rightarrow> Symbol list \<Rightarrow> Answer list \<Rightarrow>
   ArbitrageOpportunity list \<times> MarketDataService" where
  "scan_triangles ss req s now ms watch answers =
     (let s1 = ensure_market_data s now ms watch answers in
      case open_venues ms (mds_manager s1) (enabled_ids (mds_manager s1)) of (vs, mg) \<Rightarrow>
        (scan ss (mds_store s1) vs req now, s1\<lparr>mds_manager := mg\<rparr>))"

subsection \<open>The automatic loop\<close>

text \<open>
  The opportunities of a cycle, at most \<open>budget\<close> of them, each executed in the environments
  \<open>envs i\<close>; \<open>i\<close> counts them. An exception ends the cycle.
\<close>

fun run_opportunities ::
  "TriSettings \<Rightarrow> (nat \<Rightarrow> nat \<Rightarrow> Env) \<Rightarrow> (nat \<Rightarrow> string) \<Rightarrow> int \<Rightarrow> nat \<Rightarrow> ArbitrageOpportunity list \<Rightarrow> App \<Rightarrow>
   (exn, unit) result \<times> App \<times> app_effect list" where
  "run_opportunities s envs tids budget i [] a = (Inr (), a, [])"
| "run_opportunities s envs tids budget i (x # xs) a =
     (if int i \<ge> budget then (Inr (), a, [])
      else if is_halted (env_guard (envs i 0)) then (Inr (), a, [])
      else (case execute_triangle s (envs i) (tids i) a x of
              (Inl e, a1, es) \<Rightarrow> (Inl e, a1, es)
            | (Inr _, a1, es) \<Rightarrow>
                (case run_opportunities s envs tids budget (Suc i) xs a1 of (res, a2, fs) \<Rightarrow> (res, a2, es @ fs))))"

text \<open>The plans of a cycle: the first that starts ends the search, one that raises is passed over.\<close>

fun run_plans ::
  "OrchSettings \<Rightarrow> (nat \<Rightarrow> Env) \<Rightarrow> (nat \<Rightarrow> string) \<Rightarrow> nat \<Rightarrow> TransferPlan list \<Rightarrow> App \<Rightarrow> App \<times> app_effect list" where
  "run_plans s envs tids i [] a = (a, [])"
| "run_plans s envs tids i (p # ps) a =
     (if is_halted (env_guard (envs i)) then (a, [])
      else (case start_transfer s (envs i) (tids i) a p of
              (Inr _, a1, es) \<Rightarrow> (a1, es)
            | (Inl _, a1, es) \<Rightarrow> (case run_plans s envs tids (Suc i) ps a1 of (a2, fs) \<Rightarrow> (a2, es @ fs))))"

text \<open>
  What a cycle meets: the guard at its start, the stored strategy, what the scan or the planning
  returns, and the environments of its calls.
\<close>

record CycleInputs =
  ci_guard :: ExecutionGuard
  ci_strategy :: "string option"
  ci_opportunities :: "(exn, ArbitrageOpportunity list) result"
  ci_plans :: "(exn, TransferPlan list) result"
  ci_tri_envs :: "nat \<Rightarrow> nat \<Rightarrow> Env"
  ci_plan_envs :: "nat \<Rightarrow> Env"
  ci_tick_envs :: "nat \<Rightarrow> Env"
  ci_ids :: "nat \<Rightarrow> string"
  ci_book_ids :: "nat \<Rightarrow> string"
  ci_now :: int

definition run_strategy ::
  "TriSettings \<Rightarrow> int \<Rightarrow> CycleInputs \<Rightarrow> App \<Rightarrow> (exn, unit) result \<times> App \<times> app_effect list" where
  "run_strategy s auto_max_per_cycle ci a =
     (let active = opt_or (ci_strategy ci) ''triangle'' in
      if active \<in> set [''triangle'', ''not_set'']
      then (case ci_opportunities ci of
              Inl e \<Rightarrow> (Inl e, a, [])
            | Inr xs \<Rightarrow> run_opportunities s (ci_tri_envs ci) (ci_ids ci) auto_max_per_cycle 0 xs a)
      else if active = ''transfer''
      then (case ci_plans ci of
              Inl _ \<Rightarrow> (Inr (), a, [])
            | Inr ps \<Rightarrow>
                (case run_plans (OrchSettings.truncate s) (ci_plan_envs ci) (ci_ids ci) 0
                        (py_slice_to (Some auto_max_per_cycle) ps) a of
                   (a1, es) \<Rightarrow> (Inr (), a1, es)))
      else (Inr (), a, []))"

definition auto_cycle ::
  "TriSettings \<Rightarrow> int \<Rightarrow> CycleInputs \<Rightarrow> App \<Rightarrow> (exn, unit) result \<times> App \<times> app_effect list" where
  "auto_cycle s auto_max_per_cycle ci a =
     (case ensure_auto_trading (ci_guard ci) of
        Inl e \<Rightarrow> (Inl e, a, [])
      | Inr _ \<Rightarrow>
          (case run_strategy s auto_max_per_cycle ci a of
             (Inl e, a1, es) \<Rightarrow> (Inl e, a1, es)
           | (Inr _, a1, es) \<Rightarrow>
               (case tick_transfers (OrchSettings.truncate s) (ci_tick_envs ci) (ci_book_ids ci) (ci_now ci) a1 of
                  (_, a2, fs) \<Rightarrow> (Inr (), a2, es @ fs))))"

text \<open>
  The loop: one reading of the flag, the kill switch and the stop event before each cycle, the
  inputs of the cycle if it goes ahead. An exception of a cycle is logged and the loop goes on.
  The result is whether the loop has ended, the guard, disarmed if it has, the state and the effects.
\<close>

record LoopTurn =
  lt_stop :: bool
  lt_flag :: bool
  lt_guard :: ExecutionGuard
  lt_cycle :: CycleInputs

fun run_forever ::
  "TriSettings \<Rightarrow> int \<Rightarrow> LoopTurn list \<Rightarrow> App \<Rightarrow> ExecutionGuard option \<times> App \<times> app_effect list" where
  "run_forever s k [] a = (None, a, [])"
| "run_forever s k (lt # lts) a =
     (if lt_stop lt \<or> \<not> lt_flag lt \<or> is_halted (lt_guard lt) then (Some (enable_trading (lt_guard lt) False), a, [])
      else (case auto_cycle s k (lt_cycle lt) a of (_, a1, es) \<Rightarrow>
              case run_forever s k lts a1 of (ended, a2, fs) \<Rightarrow> (ended, a2, es @ fs)))"

subsection \<open>Nothing is started beyond the limits\<close>

lemma refreshed_risk:
  "svc_limits (app_risk (app_refresh a)) = svc_limits (app_risk a)"
  "trk_open_transfers (svc_tracker (app_risk (app_refresh a))) = int (length (list_open (app_transfers a)))"
  "app_transfers (app_refresh a) = app_transfers a" "app_mem (app_refresh a) = app_mem a" "app_trades (app_refresh a) = app_trades a"
  "(cached_exchange_exposure (app_risk (app_refresh a)), cached_asset_exposure (app_risk (app_refresh a))) =
     exposure_maps_for_transfers (list_open (app_transfers a))"
  "trk_daily_pnl (svc_tracker (app_risk (app_refresh a))) = trk_daily_pnl (svc_tracker (app_risk a))"
  "trk_day (svc_tracker (app_risk (app_refresh a))) = trk_day (svc_tracker (app_risk a))"
  by (auto simp: app_refresh_def refresh_risk_exposure_def split: prod.splits)

lemma started_only_if:
  assumes "start s env (Some chk) tid m repo p = (res, m', es)" "es \<noteq> []"
  shows "\<not> is_halted (env_guard env) \<and> approved (chk p) \<and> count_open repo < os_max_open_transfers s"
proof -
  have "ensure_can_trade (env_guard env) = Inr ()" "approved (chk p)"
    using assms by (auto simp: start_def split: sum.splits if_splits)
  moreover have "count_open repo < os_max_open_transfers s"
    using assms calculation
    by (auto simp: start_def Let_def try_claim_new_open_slot_def after_effects_def split: sum.splits prod.splits if_splits)
  ultimately show ?thesis by (auto simp: ensure_can_trade_def split: if_splits)
qed

lemma started_within_limits:
  assumes "start_transfer s env tid a p = (res, a', es)" "es \<noteq> []"
    "exposure_maps_for_transfers (list_open (app_transfers a)) = (exchange, asset)"
  shows "\<not> is_halted (env_guard env) \<and>
    int (length (list_open (app_transfers a))) < max_open_transfers (svc_limits (app_risk a)) \<and>
    count_open (app_transfers a) < os_max_open_transfers s \<and>
    (\<forall>(_, v) \<in> set exchange. v \<le> max_exchange_exposure (svc_limits (app_risk a))) \<and>
    (\<forall>(_, v) \<in> set asset. v \<le> max_asset_exposure (svc_limits (app_risk a))) \<and>
    dneg (trk_daily_pnl (roll_day (svc_tracker (app_risk a)) (env_now env))) < max_daily_loss (svc_limits (app_risk a)) \<and>
    min_net_profit_bps (svc_limits (app_risk a)) \<le> net_profit_bps p \<and>
    buy_cost_quote p \<le> max_trade_size (svc_limits (app_risk a)) \<and>
    age_within (plan_data_age_ms p) (max_data_age_ms (svc_limits (app_risk a)))"
proof -
  let ?a = "app_refresh a"
  let ?chk = "\<lambda>q. snd (validate_transfer (app_risk ?a) (env_guard env) (env_now env) q)"
  obtain m1 fs where "start s env (Some ?chk) tid (app_mem ?a) (app_transfers ?a) p = (res, m1, fs)" "es = map XTransfer fs"
    using assms(1) by (auto simp: start_transfer_def Let_def split: prod.splits)
  note st = started_only_if [OF this(1)]
  have ok: "\<not> is_halted (env_guard env)" "approved (?chk p)" "count_open (app_transfers a) < os_max_open_transfers s"
    using st assms(2) \<open>es = map XTransfer fs\<close> by (simp_all add: refreshed_risk)
  have ex: "cached_exchange_exposure (app_risk ?a) = exchange" "cached_asset_exposure (app_risk ?a) = asset"
    using refreshed_risk(6) [of a] assms(3) by simp_all
  have roll: "trk_daily_pnl (roll_day (svc_tracker (app_risk ?a)) now) = trk_daily_pnl (roll_day (svc_tracker (app_risk a)) now)" for now
    by (simp add: roll_day_def refreshed_risk)
  have "within_limits (transfer_context p (snd (risk_environment (app_risk ?a) (env_guard env) (env_now env)))) (svc_limits (app_risk ?a))"
    using ok(2) by (simp add: approved_within)
  then show ?thesis
    using ok(1,3)
    by (auto simp: risk_environment_def snapshot_def Let_def transfer_context_def within_limits_def exposure_within_def
        list_all_iff ex roll refreshed_risk)
qed


lemma triangle_approved_within:
  "approved (snd (validate_triangle s g now x)) \<longleftrightarrow>
     within_limits (triangle_context x (snd (risk_environment s g now))) (svc_limits s)"
  by (simp add: validate_triangle_def defaults.approved_iff split: prod.splits)

text \<open>(execute_triangle_respects_limits).
  A triangle reaches the executor only while the kill switch is released and within the limits
  on size, margin, slippage, age of the data, today's loss and the exposures last computed; an
  opportunity over a limit is reported with the reasons and no trade is saved.\<close>

theorem execute_triangle_respects_limits:
  assumes "execute_triangle s envs tid a x = (res, a', es)" "XTrade e \<in> set es"
  shows "\<not> is_halted (env_guard (envs 0)) \<and>
    size_notional_quote x \<le> max_trade_size (svc_limits (app_risk a)) \<and>
    min_net_profit_bps (svc_limits (app_risk a)) \<le> pb_net_profit_bps (opp_profit x) \<and>
    pb_slippage_bps (opp_profit x) \<le> max_slippage_bps (svc_limits (app_risk a)) \<and>
    opp_data_age_ms x \<le> of_int (max_data_age_ms (svc_limits (app_risk a))) \<and>
    dneg (trk_daily_pnl (roll_day (svc_tracker (app_risk a)) (env_now (envs 0)))) < max_daily_loss (svc_limits (app_risk a))"
proof -
  have ok: "ensure_can_trade (env_guard (envs 0)) = Inr ()"
    "approved (snd (validate_triangle (app_risk a) (env_guard (envs 0)) (env_now (envs 0)) x))"
    using assms by (auto simp: execute_triangle_def Let_def split: sum.splits prod.splits if_splits)
  then show ?thesis
    by (auto simp: triangle_approved_within risk_environment_def snapshot_def Let_def triangle_context_def
        within_limits_def age_within_def ensure_can_trade_def split: if_splits)
qed

subsection \<open>The loop\<close>

text \<open>(disarmed_loop_is_quiet).
  The loop has no effect at all as long as at every turn it is stopped, the flag is off, the
  kill switch is engaged, or automatic trading is not armed when the cycle begins.\<close>

theorem disarmed_loop_is_quiet:
  assumes "\<forall>lt \<in> set lts. lt_stop lt \<or> \<not> lt_flag lt \<or> is_halted (lt_guard lt) \<or>
      is_halted (ci_guard (lt_cycle lt)) \<or> \<not> trading_enabled (ci_guard (lt_cycle lt))"
  shows "snd (run_forever s k lts a) = (a, [])"
  using assms
proof (induction lts)
  case (Cons lt lts)
  have "is_halted (ci_guard (lt_cycle lt)) \<or> \<not> trading_enabled (ci_guard (lt_cycle lt)) \<Longrightarrow>
      \<exists>e. auto_cycle s k (lt_cycle lt) a = (Inl e, a, [])"
    by (auto simp: auto_cycle_def ensure_auto_trading_def)
  then show ?case using Cons by (fastforce split: prod.splits)
qed simp

end
