(* ===== verification/App_Safety.thy ===== *)
theory App_Safety
  imports App_Services
begin

text \<open>
  What the services guarantee when the loop drives them: the transfers follow the lifecycle of
  \<^verbatim>\<open>Transfer_Lifecycle\<close>, every completed transfer is booked exactly once, and a cycle is
  bounded. A transfer table is what the effects on transfers, in order, leave behind.
\<close>

subsection \<open>Effects of the transfer table\<close>

lemma store_of_append: "store_of (hist @ es) = transfers_after (store_of hist) es"
  by (simp add: store_of_def transfers_after_def)

fun transfer_effects :: "app_effect list \<Rightarrow> effect list" where
  "transfer_effects [] = []"
| "transfer_effects (XTransfer e # es) = e # transfer_effects es"
| "transfer_effects (_ # es) = transfer_effects es"

lemma transfer_effects_append [simp]:
  "transfer_effects (es @ fs) = transfer_effects es @ transfer_effects fs"
  by (induction es rule: transfer_effects.induct) simp_all

lemma transfer_effects_map [simp]:
  "transfer_effects (map XTransfer es) = es"
  by (induction es) simp_all

lemma transfer_effects_none [simp]:
  "transfer_effects (map XTrade ts) = []" "transfer_effects (map XBooked us) = []"
proof -
  show "transfer_effects (map XTrade ts) = []" by (induction ts) simp_all
qed (induction us, simp_all)

text \<open>How often the transfer \<open>tid\<close> was booked as a trade.\<close>

definition booked :: "string \<Rightarrow> app_effect list \<Rightarrow> nat" where
  "booked tid es = length (filter (\<lambda>e. case e of XBooked t \<Rightarrow> trd_transfer_id t = Some tid | _ \<Rightarrow> False) es)"

lemma booked_simps [simp]:
  "booked tid [] = 0" "booked tid (es @ fs) = booked tid es + booked tid fs"
  "booked tid (map XTransfer xs) = 0" "booked tid (map XTrade ts) = 0" "booked tid [XAudit b c] = 0"
  by (simp_all add: booked_def filter_empty_conv)

definition completed :: "repo \<Rightarrow> string \<Rightarrow> bool" where
  "completed r tid = (case get_record r tid of None \<Rightarrow> False | Some u \<Rightarrow> state u = COMPLETED)"

subsection \<open>A start saves its own record and completes nothing\<close>

definition early_saves :: "string \<Rightarrow> 'a run \<Rightarrow> bool" where
  "early_saves tid rn \<longleftrightarrow> (\<forall>u. ESave u \<in> set (snd (snd rn)) \<longrightarrow> tr_id u = tid \<and> state u \<noteq> COMPLETED)"

lemma early_saves_simps [simp]:
  "early_saves tid (res, m, es) \<longleftrightarrow> (\<forall>u. ESave u \<in> set es \<longrightarrow> tr_id u = tid \<and> state u \<noteq> COMPLETED)"
  "early_saves tid (after_effects es rn) \<longleftrightarrow>
     (\<forall>u. ESave u \<in> set es \<longrightarrow> tr_id u = tid \<and> state u \<noteq> COMPLETED) \<and> early_saves tid rn"
  "early_saves tid (fail_record env m r st reason) \<longleftrightarrow> tr_id r = tid \<and> st \<noteq> COMPLETED"
  by (auto simp: early_saves_def after_effects_def fail_record_def Let_def split: prod.splits)

lemma submit_early: "early_saves (tr_id r) (submit_withdrawal s env m r)"
  by (auto simp: submit_withdrawal_def send_to_address_def perform_withdrawal_def send_withdrawal_def Let_def
      withdrawal_intent_def withdrawal_record_def split: sum.splits prod.splits exn.splits)

lemma resolve_early: "early_saves (tr_id r) (resolve_existing_buy env m r)"
  by (auto simp: resolve_existing_buy_def Let_def buy_submitted_def buy_filled_def split: sum.splits option.splits)

lemma settle_early: "tr_id r = tid \<Longrightarrow> early_saves tid (settle_buy env m r f o1)"
  by (auto simp: settle_buy_def Let_def)

lemma fill_leg_saves:
  assumes "fill_leg s env m tid venue symb sd ba qa (Some g) = ((res, m', es), noted)"
  shows "ESave u \<in> set es \<Longrightarrow> \<exists>req. u = g req" "noted = Some v \<Longrightarrow> \<exists>req. v = g req"
  using assms by (cases rule: fill_leg_cases; auto)+

lemma buy_early: "early_saves (tr_id r) (execute_buy s env m r)"
proof -
  have own: "tr_id u = tr_id r" "state u \<noteq> COMPLETED"
    if "fill_leg s env m' tid v symb sd ba qa (Some (intent_record env r)) = ((res, m1, es), noted)" "ESave u \<in> set es"
    for m' tid v symb sd ba qa res m1 es noted u
    using fill_leg_saves(1) [OF that] by auto
  have "tr_id (opt_or noted r) = tr_id r"
    if "fill_leg s env m' tid v symb sd ba qa (Some (intent_record env r)) = ((res, m1, es), noted)"
    for m' tid v symb sd ba qa res m1 es noted
    using fill_leg_saves(2) [OF that] by (cases noted) (auto simp: opt_or_def)
  then show ?thesis
    unfolding execute_buy_def
    by (auto simp: Let_def resolve_early settle_early own split: sum.splits option.splits prod.splits exn.splits)
qed

lemma start_early: "early_saves tid (start s env risk tid m repo p)"
proof -
  let ?r = "new_record tid p (os_mode s) (env_now env)"
  have new: "tr_id ?r = tid" "state ?r = CREATED" "buy_order ?r = None" by (simp_all add: new_record_def)
  have "tr_id r1 = tid" if "execute_buy s env m ?r = (Inr r1, m1, es)" "state r1 = BUY_FILLED" for r1 m1 es
    using execute_buy_good [of ?r 0 0 s env m] that new trace_end_keeps [of ?r 0 0 es] by auto
  then show ?thesis
    using buy_early [of ?r s env m] new submit_early
    by (auto simp: start_def Let_def split: sum.splits bool.splits prod.splits) 
qed

lemma early_saves_store:
  "\<forall>u. ESave u \<in> set es \<longrightarrow> tr_id u = tid \<and> state u \<noteq> COMPLETED \<Longrightarrow>
   (t \<noteq> tid \<longrightarrow> get_record (store_of (hist @ es)) t = get_record (store_of hist) t) \<and>
   (\<not> completed (store_of hist) tid \<longrightarrow> \<not> completed (store_of (hist @ es)) tid)"
proof (induction es rule: rev_induct)
  case (snoc e es)
  then show ?case
    using get_store_snoc [of "hist @ es" e]
    by (cases e) (auto simp: completed_def)
qed simp

lemma completed_start:
  assumes "start s env risk tid m repo p = (res, m', es)" "\<not> completed (store_of hist) tid"
  shows "completed (store_of (hist @ es)) t = completed (store_of hist) t"
    "t \<noteq> tid \<Longrightarrow> get_record (store_of (hist @ es)) t = get_record (store_of hist) t"
proof -
  have "\<forall>u. ESave u \<in> set es \<longrightarrow> tr_id u = tid \<and> state u \<noteq> COMPLETED"
    using start_early [of tid s env risk m repo p] assms(1) by simp
  note early = early_saves_store [OF this, of t hist]
  show "completed (store_of (hist @ es)) t = completed (store_of hist) t"
  proof (cases "t = tid")
    case True
    then show ?thesis using early assms(2) by blast
  next
    case False
    then show ?thesis using early by (simp add: completed_def)
  qed
  show "t \<noteq> tid \<Longrightarrow> get_record (store_of (hist @ es)) t = get_record (store_of hist) t" using early by blast
qed

subsection \<open>A tick books what it completes\<close>

lemma trace_end_snoc: "trace_end r (es @ [ESave u]) = u"
  by (induction r es rule: trace_end.induct) simp_all

lemma tick_record_settles:
  assumes "log_ok s hist" "r \<in> set (list_open (store_of hist))" "tick_record s env m r = (u, m', es)"
  shows "completed (store_of (hist @ es)) (tr_id r) \<longleftrightarrow> state u = COMPLETED"
    "state u = COMPLETED \<Longrightarrow> tr_id u = tr_id r \<and> u \<noteq> r"
proof -
  have get: "get_record (store_of hist) (tr_id r) = Some r" and op: "state_is_open (state r)"
    using assms(2) transfer_repo.opened_iff [OF store_of_ok] by blast+
  have "record_counts hist (tr_id r)" by (rule log_ok_counts [OF assms(1)])
  then have c: "buy_order r = None \<longrightarrow> buys (tr_id r) hist = 0"
    "state_rank (state r) \<le> 2 \<longrightarrow> withdrawals (tr_id r) hist = 0"
    using get op by (auto simp: record_counts_def)
  obtain res m1 fs where adv: "advance s env m r = (res, m1, fs)" by (metis prod.exhaust)
  note good = advance_good [OF c op, of s env m, unfolded adv]
  note tr = tick_record_ok [OF c op assms(3)]
  have st: "get_record (store_of (hist @ es)) (tr_id r) = Some (trace_end r es)" by (rule trace_end_store [OF tr get])
  have fin: "(state (trace_end r es) = COMPLETED \<longleftrightarrow> state u = COMPLETED) \<and> (state u = COMPLETED \<longrightarrow> u = trace_end r es)"
  proof (cases res)
    case (Inr v)
    then have "u = v" "es = fs" using assms(3) adv by (simp_all add: tick_record_def)
    moreover have "v = trace_end r fs" if "state v = COMPLETED" using good Inr that by simp
    moreover have "state v = COMPLETED" if "state (trace_end r fs) = COMPLETED" using good Inr that by simp
    ultimately show ?thesis by metis
  next
    case (Inl e)
    then have "es = fs @ [ESave u]" using assms(3) adv by (auto simp: tick_record_def Let_def)
    then show ?thesis by (simp add: trace_end_snoc)
  qed
  have "state r \<noteq> COMPLETED" using op by (auto simp: state_defs)
  then show "completed (store_of (hist @ es)) (tr_id r) \<longleftrightarrow> state u = COMPLETED"
    "state u = COMPLETED \<Longrightarrow> tr_id u = tr_id r \<and> u \<noteq> r"
    using fin st trace_end_keeps [OF tr] by (simp_all add: completed_def) metis
qed

definition completions :: "string \<Rightarrow> TransferRecord list \<Rightarrow> nat" where
  "completions tid us = length (filter (\<lambda>u. state u = COMPLETED \<and> tr_id u = tid) us)"

lemma completions_simps [simp]:
  "completions tid [] = 0"
  "completions tid (u # us) = (if state u = COMPLETED \<and> tr_id u = tid then Suc (completions tid us) else completions tid us)"
  by (simp_all add: completions_def)

lemma tick_loop_completions:
  assumes "reachable s hist" "distinct (map tr_id rs)"
    "\<forall>r \<in> set rs. r \<in> set (list_open (store_of hist))" "tick_loop s envs i m rs = (adv, m', es)"
  shows "completions tid adv = (if tid \<in> tr_id ` set rs \<and> completed (store_of (hist @ es)) tid then 1 else 0) \<and>
    (tid \<notin> tr_id ` set rs \<longrightarrow> get_record (store_of (hist @ es)) tid = get_record (store_of hist) tid)"
  using assms
proof (induction rs arbitrary: hist i m adv es m')
  case (Cons r rs)
  obtain u m1 es1 where t: "tick_record s (envs i) m r = (u, m1, es1)" by (cases "tick_record s (envs i) m r")
  obtain adv2 m2 es2 where l: "tick_loop s envs (Suc i) m1 rs = (adv2, m2, es2)"
    by (cases "tick_loop s envs (Suc i) m1 rs")
  have es: "es = es1 @ es2" "adv = (if u \<noteq> r then u # adv2 else adv2)" using Cons.prems(4) t l by auto
  have op: "r \<in> set (list_open (store_of hist))" using Cons.prems(3) by simp
  note ok = reachable_log_ok [OF Cons.prems(1)]
  have reach: "reachable s (hist @ es1)"
    using reachable_step [OF Cons.prems(1), of "hist @ es1"] op t unfolding step_def by blast
  have others: "get_record (store_of (hist @ es1)) t = get_record (store_of hist) t" if "t \<noteq> tr_id r" for t
    by (rule tick_keeps_others [OF ok op \<open>tick_record s (envs i) m r = (u, m1, es1)\<close> that])
  have still: "\<forall>q \<in> set rs. q \<in> set (list_open (store_of (hist @ es1)))"
  proof
    fix q assume q: "q \<in> set rs"
    then have "tr_id q \<noteq> tr_id r" using Cons.prems(2) by (auto simp: image_iff)
    then show "q \<in> set (list_open (store_of (hist @ es1)))"
      using others [of "tr_id q"] Cons.prems(3) q transfer_repo.opened_iff [OF store_of_ok] by auto
  qed
  note IH = Cons.IH [OF reach _ still l]
  note settles = tick_record_settles [OF ok op t]
  show ?case
  proof (cases "tid = tr_id r")
    case True
    then have "tid \<notin> tr_id ` set rs" using Cons.prems(2) by auto
    then have "completions tid adv2 = 0" "get_record (store_of ((hist @ es1) @ es2)) tid = get_record (store_of (hist @ es1)) tid"
      using IH Cons.prems(2) by auto
    then show ?thesis using True es settles by (auto simp: completed_def)
  next
    case False
    then have "state u = COMPLETED \<longrightarrow> tr_id u \<noteq> tid" using settles(2) by auto
    then have "completions tid adv = completions tid adv2" using es(2) by auto
    then show ?thesis using False IH Cons.prems(2) others [OF False] es(1) by auto
  qed
qed simp

lemma tick_completions:
  assumes "reachable s hist" "tick s envs m (store_of hist) = (adv, m', es)"
  shows "reachable s (hist @ es)"
    "completions tid adv = (if completed (store_of (hist @ es)) tid \<and> \<not> completed (store_of hist) tid then 1 else 0)"
    "completed (store_of hist) tid \<Longrightarrow> completed (store_of (hist @ es)) tid"
    "get_record (store_of hist) tid = None \<Longrightarrow> get_record (store_of (hist @ es)) tid = None"
proof -
  note tl = assms(2) [unfolded tick_def]
  show "reachable s (hist @ es)" using tick_loop_reachable [OF assms(1) distinct_open _ tl] by simp
  note c = tick_loop_completions [OF assms(1) distinct_open _ tl, of tid]
  have cases: "(\<exists>r. get_record (store_of hist) tid = Some r \<and> state_is_open (state r)) \<longleftrightarrow> tid \<in> tr_id ` set (list_open (store_of hist))"
    using transfer_repo.opened_iff [OF store_of_ok] get_store_id by (fastforce simp: image_iff)
  have "\<not> state_is_open COMPLETED" by (simp add: state_defs)
  then show "completions tid adv = (if completed (store_of (hist @ es)) tid \<and> \<not> completed (store_of hist) tid then 1 else 0)"
    "completed (store_of hist) tid \<Longrightarrow> completed (store_of (hist @ es)) tid"
    "get_record (store_of hist) tid = None \<Longrightarrow> get_record (store_of (hist @ es)) tid = None"
    using c cases by (auto simp: completed_def split: option.splits if_splits)
qed

subsection \<open>The services and the lifecycle\<close>

text \<open>
  How an operation of the services that turns \<open>a\<close> into \<open>a'\<close> with the effects \<open>es\<close> relates to
  the runs of the orchestrator: its effects on the transfers extend the run, the table is the
  one the longer run leaves, and a transfer is booked exactly when it becomes COMPLETED.
\<close>

definition extends_run ::
  "OrchSettings \<Rightarrow> effect list \<Rightarrow> string set \<Rightarrow> App \<Rightarrow> app_effect list \<Rightarrow> bool" where
  "extends_run s hist ids a' es \<longleftrightarrow>
     (let now = hist @ transfer_effects es in
      reachable s now \<and> app_transfers a' = store_of now \<and>
      (\<forall>tid. booked tid es = (if completed (store_of now) tid \<and> \<not> completed (store_of hist) tid then 1 else 0)) \<and>
      (\<forall>tid. completed (store_of hist) tid \<longrightarrow> completed (store_of now) tid) \<and>
      (\<forall>tid. get_record (store_of hist) tid = None \<and> tid \<notin> ids \<longrightarrow> get_record (store_of now) tid = None))"

lemma extends_run_trans:
  assumes "extends_run s hist ids a1 es" "extends_run s (hist @ transfer_effects es) ids' a2 fs"
  shows "extends_run s hist (ids \<union> ids') a2 (es @ fs)"
proof -
  let ?h1 = "hist @ transfer_effects es" let ?h2 = "?h1 @ transfer_effects fs"
  have b: "booked tid es = (if completed (store_of ?h1) tid \<and> \<not> completed (store_of hist) tid then 1 else 0)"
    "booked tid fs = (if completed (store_of ?h2) tid \<and> \<not> completed (store_of ?h1) tid then 1 else 0)"
    "completed (store_of hist) tid \<Longrightarrow> completed (store_of ?h1) tid"
    "completed (store_of ?h1) tid \<Longrightarrow> completed (store_of ?h2) tid" for tid
    using assms unfolding extends_run_def Let_def by blast+
  have "booked tid (es @ fs) = (if completed (store_of ?h2) tid \<and> \<not> completed (store_of hist) tid then 1 else 0)" for tid
    using b [of tid] by (cases "completed (store_of ?h1) tid") auto
  moreover have "completed (store_of ?h2) tid" if "completed (store_of hist) tid" for tid using b(3,4) that by blast
  ultimately show ?thesis using assms by (simp add: extends_run_def Let_def)
qed

lemma extends_run_mono: "extends_run s hist ids a' es \<Longrightarrow> ids \<subseteq> ids' \<Longrightarrow> extends_run s hist ids' a' es"
  by (auto simp: extends_run_def Let_def)

lemma extends_run_quiet:
  "reachable s hist \<Longrightarrow> transfer_effects es = [] \<Longrightarrow> (\<And>tid. booked tid es = 0) \<Longrightarrow>
   app_transfers a' = store_of hist \<Longrightarrow> extends_run s hist {} a' es"
  by (simp add: extends_run_def)

lemma execute_triangle_quiet:
  assumes "execute_triangle s envs tid a x = (res, a', es)"
  shows "transfer_effects es = []" "booked t es = 0" "app_transfers a' = app_transfers a"
  using assms by (auto simp: execute_triangle_def Let_def refreshed_risk split: sum.splits prod.splits if_splits)

lemma run_opportunities_quiet:
  assumes "run_opportunities s envs tids k i xs a = (res, a', es)"
  shows "transfer_effects es = [] \<and> booked t es = 0 \<and> app_transfers a' = app_transfers a"
  using assms
proof (induction xs arbitrary: i a es a' res)
  case (Cons x xs)
  obtain r1 a1 es1 where x: "execute_triangle s (envs i) (tids i) a x = (r1, a1, es1)" by (metis prod.exhaust)
  obtain r2 a2 es2 where xs: "run_opportunities s envs tids k (Suc i) xs a1 = (r2, a2, es2)" by (metis prod.exhaust)
  show ?case
    using Cons.prems Cons.IH [OF xs] x xs execute_triangle_quiet [OF x]
    by (auto split: if_splits sum.splits)
qed simp

lemma start_transfer_extends:
  assumes "reachable s hist" "app_transfers a = store_of hist" "get_record (store_of hist) tid = None"
    "start_transfer s env tid a p = (res, a', es)"
  shows "extends_run s hist {tid} a' es"
proof -
  let ?a = "app_refresh a"
  let ?chk = "\<lambda>q. snd (validate_transfer (app_risk ?a) (env_guard env) (env_now env) q)"
  obtain m1 fs where st: "start s env (Some ?chk) tid (app_mem ?a) (store_of hist) p = (res, m1, fs)" and es: "es = map XTransfer fs"
    and a': "app_transfers a' = transfers_after (store_of hist) fs"
    using assms(2,4) by (auto simp: start_transfer_def Let_def refreshed_risk split: prod.splits sum.splits)
  have nc: "\<not> completed (store_of hist) tid" using assms(3) by (simp add: completed_def)
  have "step s hist (hist @ fs)" unfolding step_def using st assms(3) by blast
  then have "reachable s (hist @ fs)" by (rule reachable_step [OF assms(1)])
  then show ?thesis
    using completed_start [OF st nc] a' es
    by (auto simp: extends_run_def store_of_append)
qed

lemma booked_completions:
  assumes "book_completed s tids now us risk trades = (risk', trades', ts)"
  shows "booked tid (map XBooked ts) = completions tid us"
  using assms
  by (induction us arbitrary: risk trades risk' trades' ts)
    (auto simp: Let_def transfer_trade_def booked_def split: if_splits prod.splits)

lemma tick_transfers_extends:
  assumes "reachable s hist" "app_transfers a = store_of hist" "tick_transfers s envs tids now a = (adv, a', es)"
  shows "extends_run s hist {} a' es"
proof -
  obtain m1 fs where t: "tick s envs (app_mem a) (store_of hist) = (adv, m1, fs)"
    using assms(2,3) by (auto simp: tick_transfers_def split: prod.splits)
  obtain risk1 trades1 ts where b: "book_completed s tids now adv (app_risk a) (app_trades a) = (risk1, trades1, ts)"
    by (metis prod.exhaust)
  have es: "es = map XTransfer fs @ map XBooked ts" "app_transfers a' = store_of (hist @ fs)"
    using assms(2,3) t b by (auto simp: tick_transfers_def refreshed_risk store_of_append)
  show ?thesis
    using tick_completions [OF assms(1) t] booked_completions [OF b] es by (simp add: extends_run_def)
qed

lemma run_plans_extends:
  assumes "reachable s hist" "app_transfers a = store_of hist" "inj tids"
    "\<forall>j \<ge> i. get_record (store_of hist) (tids j) = None" "run_plans s envs tids i ps a = (a', es)"
  shows "extends_run s hist (tids ` {i..<i + length ps}) a' es"
  using assms
proof (induction ps arbitrary: hist i a a' es)
  case Nil
  then show ?case using extends_run_mono [OF extends_run_quiet] by (simp add: extends_run_quiet)
next
  case (Cons p ps)
  obtain r1 a1 es1 where st: "start_transfer s (envs i) (tids i) a p = (r1, a1, es1)" by (metis prod.exhaust)
  have one: "extends_run s hist {tids i} a1 es1"
    by (rule start_transfer_extends [OF Cons.prems(1,2) _ st]) (use Cons.prems(4) in simp)
  let ?h = "hist @ transfer_effects es1"
  have reach: "reachable s ?h" "app_transfers a1 = store_of ?h" using one by (simp_all add: extends_run_def Let_def)
  have fresh: "\<forall>j \<ge> Suc i. get_record (store_of ?h) (tids j) = None"
  proof (intro allI impI)
    fix j assume j: "Suc i \<le> j"
    then have "tids j \<noteq> tids i" using Cons.prems(3) by (auto dest: injD)
    then show "get_record (store_of ?h) (tids j) = None" using one Cons.prems(4) j by (simp add: extends_run_def Let_def)
  qed
  obtain a2 es2 where rest: "run_plans s envs tids (Suc i) ps a1 = (a2, es2)" by (metis prod.exhaust)
  note two = extends_run_trans [OF one Cons.IH [OF reach Cons.prems(3) fresh rest]]
  have ids: "{tids i} \<union> tids ` {Suc i..<Suc i + length ps} \<subseteq> tids ` {i..<i + length (p # ps)}"
    "{tids i} \<subseteq> tids ` {i..<i + length (p # ps)}" by auto
  consider "is_halted (env_guard (envs i))" "a' = a" "es = []"
    | "a' = a1" "es = es1" | "a' = a2" "es = es1 @ es2"
    using Cons.prems(5) st rest by (auto split: if_splits sum.splits)
  then show ?case
  proof cases
    case 1
    then show ?thesis using extends_run_mono [OF extends_run_quiet [OF Cons.prems(1)]] Cons.prems(2) by simp
  next
    case 2
    then show ?thesis using extends_run_mono [OF one ids(2)] by simp
  next
    case 3
    then show ?thesis using extends_run_mono [OF two ids(1)] by simp
  qed
qed

subsection \<open>The cycle and the loop\<close>

definition fresh_ids :: "repo \<Rightarrow> (nat \<Rightarrow> string) \<Rightarrow> bool" where
  "fresh_ids r ids \<longleftrightarrow> inj ids \<and> (\<forall>j. get_record r (ids j) = None)"

lemma slice_length: "0 \<le> k \<Longrightarrow> length (py_slice_to (Some k) xs) \<le> nat k"
  by (simp add: py_slice_to_def)

lemma run_strategy_extends:
  assumes "reachable (OrchSettings.truncate s) hist" "app_transfers a = store_of hist"
    "fresh_ids (store_of hist) (ci_ids ci)" "run_strategy s k ci a = (res, a', es)"
  shows "\<exists>n. extends_run (OrchSettings.truncate s) hist (ci_ids ci ` {..<n}) a' es \<and> (0 \<le> k \<longrightarrow> n \<le> nat k)"
proof -
  let ?os = "OrchSettings.truncate s"
  have quiet: "\<exists>n. extends_run ?os hist (ci_ids ci ` {..<n}) b fs \<and> (0 \<le> k \<longrightarrow> n \<le> nat k)"
    if "transfer_effects fs = []" "\<And>t. booked t fs = 0" "app_transfers b = app_transfers a" for b fs
    using extends_run_quiet [OF assms(1) that(1,2)] that(3) assms(2) by (intro exI [of _ 0]) simp
  consider xs where "run_opportunities s (ci_tri_envs ci) (ci_ids ci) k 0 xs a = (res, a', es)"
    | ps where "run_plans ?os (ci_plan_envs ci) (ci_ids ci) 0 (py_slice_to (Some k) ps) a = (a', es)"
    | "a' = a" "es = []"
    using assms(4) by (auto simp: run_strategy_def Let_def split: if_splits sum.splits prod.splits)
  then show ?thesis
  proof cases
    case (1 xs)
    then show ?thesis using run_opportunities_quiet [OF 1] by (intro quiet) auto
  next
    case (2 ps)
    have "extends_run ?os hist (ci_ids ci ` {0..<0 + length (py_slice_to (Some k) ps)}) a' es"
      by (rule run_plans_extends [OF assms(1,2) _ _ 2]) (use assms(3) in \<open>simp_all add: fresh_ids_def\<close>)
    then show ?thesis using slice_length by (metis add_0 atLeast0LessThan)
  next
    case 3
    then show ?thesis by (intro quiet) simp_all
  qed
qed

lemma auto_cycle_extends:
  assumes "reachable (OrchSettings.truncate s) hist" "app_transfers a = store_of hist"
    "fresh_ids (store_of hist) (ci_ids ci)" "auto_cycle s k ci a = (res, a', es)"
  shows "\<exists>n. extends_run (OrchSettings.truncate s) hist (ci_ids ci ` {..<n}) a' es \<and> (0 \<le> k \<longrightarrow> n \<le> nat k)"
proof (cases "ensure_auto_trading (ci_guard ci)")
  case (Inl e)
  then show ?thesis using assms extends_run_quiet by (intro exI [of _ 0]) (simp add: auto_cycle_def extends_run_def)
next
  case (Inr x)
  obtain r1 a1 es1 where one: "run_strategy s k ci a = (r1, a1, es1)" by (metis prod.exhaust)
  obtain n where n: "extends_run (OrchSettings.truncate s) hist (ci_ids ci ` {..<n}) a1 es1" "0 \<le> k \<longrightarrow> n \<le> nat k"
    using run_strategy_extends [OF assms(1-3) one] by blast
  have reach: "reachable (OrchSettings.truncate s) (hist @ transfer_effects es1)"
    "app_transfers a1 = store_of (hist @ transfer_effects es1)"
    using n(1) by (simp_all add: extends_run_def Let_def)
  obtain adv a2 es2 where tick: "tick_transfers (OrchSettings.truncate s) (ci_tick_envs ci) (ci_book_ids ci) (ci_now ci) a1 = (adv, a2, es2)"
    by (metis prod.exhaust)
  note two = extends_run_trans [OF n(1) tick_transfers_extends [OF reach tick]]
  have "(a', es) = (a1, es1) \<or> (a', es) = (a2, es1 @ es2)"
    using assms(4) Inr one tick by (auto simp: auto_cycle_def split: sum.splits)
  then show ?thesis using n two by auto
qed

fun fresh_turns :: "repo \<Rightarrow> LoopTurn list \<Rightarrow> bool" where
  "fresh_turns r [] \<longleftrightarrow> True"
| "fresh_turns r (lt # lts) \<longleftrightarrow>
     fresh_ids r (ci_ids (lt_cycle lt)) \<and>
     (\<forall>lt' \<in> set lts. range (ci_ids (lt_cycle lt)) \<inter> range (ci_ids (lt_cycle lt')) = {}) \<and> fresh_turns r lts"

lemma fresh_turns_after:
  assumes "fresh_turns (store_of hist) lts" "extends_run s hist ids a' es"
    "\<forall>lt \<in> set lts. ids \<inter> range (ci_ids (lt_cycle lt)) = {}"
  shows "fresh_turns (store_of (hist @ transfer_effects es)) lts"
  using assms(1,3)
proof (induction lts)
  case (Cons lt lts)
  have "ci_ids (lt_cycle lt) j \<notin> ids" "get_record (store_of hist) (ci_ids (lt_cycle lt) j) = None" for j
    using Cons.prems by (auto simp: fresh_ids_def)
  then have "get_record (store_of (hist @ transfer_effects es)) (ci_ids (lt_cycle lt) j) = None" for j
    using assms(2) unfolding extends_run_def Let_def by blast
  then show ?case using Cons by (simp add: fresh_ids_def)
qed simp

lemma run_forever_extends:
  assumes "reachable (OrchSettings.truncate s) hist" "app_transfers a = store_of hist"
    "fresh_turns (store_of hist) lts" "run_forever s k lts a = (ended, a', es)"
  shows "extends_run (OrchSettings.truncate s) hist UNIV a' es"
  using assms
proof (induction lts arbitrary: hist a es)
  case Nil
  then show ?case using extends_run_mono [OF extends_run_quiet] by simp
next
  case (Cons lt lts)
  obtain r1 a1 es1 where cyc: "auto_cycle s k (lt_cycle lt) a = (r1, a1, es1)" by (metis prod.exhaust)
  obtain e2 a2 es2 where rest: "run_forever s k lts a1 = (e2, a2, es2)" by (metis prod.exhaust)
  obtain n where n: "extends_run (OrchSettings.truncate s) hist (ci_ids (lt_cycle lt) ` {..<n}) a1 es1"
    using auto_cycle_extends [OF Cons.prems(1,2) _ cyc] Cons.prems(3) by auto
  have reach: "reachable (OrchSettings.truncate s) (hist @ transfer_effects es1)"
    "app_transfers a1 = store_of (hist @ transfer_effects es1)"
    using n by (simp_all add: extends_run_def Let_def)
  have fresh: "fresh_turns (store_of (hist @ transfer_effects es1)) lts"
    using Cons.prems(3) by (intro fresh_turns_after [OF _ n]) auto
  consider "a' = a" "es = []" | "e2 = ended" "a2 = a'" "es = es1 @ es2"
    using Cons.prems(4) cyc rest by (auto split: if_splits)
  then show ?case
  proof cases
    case 1
    then show ?thesis using Cons.prems(1,2) extends_run_mono [OF extends_run_quiet] by simp
  next
    case 2
    then show ?thesis using extends_run_trans [OF n Cons.IH [OF reach fresh]] rest by simp
  qed
qed

text \<open>C11 (loop_books_each_transfer_once).
  Whatever the automatic loop meets over any number of turns, what it does to transfers is a run
  of the transfer lifecycle, so all that holds of such runs holds of the loop; and a transfer is
  booked as a trade exactly once if it becomes COMPLETED while the loop runs, and never otherwise.\<close>

theorem loop_books_each_transfer_once:
  assumes "reachable (OrchSettings.truncate s) hist" "app_transfers a = store_of hist"
    "fresh_turns (store_of hist) lts" "run_forever s k lts a = (ended, a', es)"
  shows "reachable (OrchSettings.truncate s) (hist @ transfer_effects es) \<and>
    app_transfers a' = store_of (hist @ transfer_effects es) \<and>
    booked tid es = (if completed (app_transfers a') tid \<and> \<not> completed (app_transfers a) tid then 1 else 0)"
  using run_forever_extends [OF assms] assms(2) by (simp add: extends_run_def Let_def)

subsection \<open>The size of a cycle\<close>

fun trade_effects :: "app_effect list \<Rightarrow> trade_effect list" where
  "trade_effects [] = []"
| "trade_effects (XTrade e # es) = e # trade_effects es"
| "trade_effects (_ # es) = trade_effects es"

lemma trade_effects_append [simp]: "trade_effects (es @ fs) = trade_effects es @ trade_effects fs"
  by (induction es rule: trade_effects.induct) simp_all

lemma trade_effects_map [simp]: "trade_effects (map XTrade es) = es"
  by (induction es) simp_all

lemma trade_effects_none [simp]: "trade_effects (map XTransfer ts) = []" "trade_effects (map XBooked us) = []"
proof -
  show "trade_effects (map XTransfer ts) = []" by (induction ts) simp_all
qed (induction us, simp_all)

lemma execute_triangle_orders:
  assumes "execute_triangle s envs tid a x = (res, a', es)"
  shows "orders_in (trade_effects es) \<le> 4"
proof -
  obtain t m1 fs where ex: "execute s envs (app_mem a) tid x = (t, m1, fs)" by (metis prod.exhaust)
  have "trade_effects es = [] \<or> es = map XTrade fs"
    using assms ex by (auto simp: execute_triangle_def Let_def split: sum.splits prod.splits if_splits)
  moreover have "orders_in fs \<le> 4" using execute_ok(2) [OF ex] by (simp add: allowed_def split: if_splits)
  ultimately show ?thesis by (auto simp: orders_in_def)
qed

lemma run_opportunities_orders:
  assumes "run_opportunities s envs tids k i xs a = (res, a', es)"
  shows "orders_in (trade_effects es) \<le> 4 * (nat k - i)"
  using assms
proof (induction xs arbitrary: i a es a' res)
  case Nil
  then show ?case by (simp add: orders_in_def)
next
  case (Cons x xs)
  obtain r1 a1 es1 where x: "execute_triangle s (envs i) (tids i) a x = (r1, a1, es1)" by (metis prod.exhaust)
  obtain r2 a2 es2 where xs: "run_opportunities s envs tids k (Suc i) xs a1 = (r2, a2, es2)" by (metis prod.exhaust)
  consider "es = []" | "int i < k" "es = es1" | "int i < k" "es = es1 @ es2"
    using Cons.prems x xs by (auto split: if_splits sum.splits)
  then show ?case
    using Cons.IH [OF xs] execute_triangle_orders [OF x] by cases (auto simp: orders_in_def)
qed

lemma run_plans_orders: "run_plans s envs tids i ps a = (a', es) \<Longrightarrow> trade_effects es = []"
proof (induction ps arbitrary: i a es)
  case (Cons p ps)
  obtain r1 a1 es1 where st: "start_transfer s (envs i) (tids i) a p = (r1, a1, es1)" by (metis prod.exhaust)
  obtain a2 es2 where rest: "run_plans s envs tids (Suc i) ps a1 = (a2, es2)" by (metis prod.exhaust)
  have "trade_effects es1 = []" using st by (auto simp: start_transfer_def Let_def split: prod.splits)
  then show ?case using Cons.prems Cons.IH st rest by (auto split: if_splits sum.splits)
qed simp

text \<open>C16 (auto_cycle_is_bounded).
  One cycle of the loop submits at most four orders for each of the \<open>auto_max_per_cycle\<close>
  triangles it may execute, and adds at most \<open>auto_max_per_cycle\<close> transfers to the table: the
  only new ids are the first ones drawn in this cycle.\<close>

theorem auto_cycle_is_bounded:
  assumes "0 \<le> k" "reachable (OrchSettings.truncate s) hist" "app_transfers a = store_of hist"
    "fresh_ids (app_transfers a) (ci_ids ci)" "auto_cycle s k ci a = (res, a', es)"
  shows "orders_in (trade_effects es) \<le> 4 * nat k \<and>
    (\<forall>tid. get_record (app_transfers a) tid = None \<and> get_record (app_transfers a') tid \<noteq> None \<longrightarrow>
       tid \<in> ci_ids ci ` {..<nat k})"
proof
  obtain n where n: "extends_run (OrchSettings.truncate s) hist (ci_ids ci ` {..<n}) a' es" "n \<le> nat k"
    using auto_cycle_extends [OF assms(2,3) _ assms(5)] assms(1,3,4) by auto
  have "ci_ids ci ` {..<n} \<subseteq> ci_ids ci ` {..<nat k}" using n(2) by auto
  with n(1) show "\<forall>tid. get_record (app_transfers a) tid = None \<and> get_record (app_transfers a') tid \<noteq> None \<longrightarrow>
       tid \<in> ci_ids ci ` {..<nat k}"
    using assms(3) by (fastforce simp: extends_run_def Let_def)
  obtain r1 a1 es1 where one: "run_strategy s k ci a = (r1, a1, es1)" by (metis prod.exhaust)
  have "orders_in (trade_effects es1) \<le> 4 * nat k"
    using one run_opportunities_orders [of s "ci_tri_envs ci" "ci_ids ci" k 0] run_plans_orders
    by (fastforce simp: run_strategy_def Let_def orders_in_def split: if_splits sum.splits prod.splits)
  moreover obtain adv a2 es2 where tick:
    "tick_transfers (OrchSettings.truncate s) (ci_tick_envs ci) (ci_book_ids ci) (ci_now ci) a1 = (adv, a2, es2)"
    by (metis prod.exhaust)
  moreover have "trade_effects es2 = []" using tick by (auto simp: tick_transfers_def split: prod.splits)
  ultimately show "orders_in (trade_effects es) \<le> 4 * nat k"
    using assms(5) one by (auto simp: auto_cycle_def orders_in_def split: sum.splits)
qed

subsection \<open>The end of the loop\<close>

text \<open>C17 (loop_ends_when_told).
  The loop ends at the first turn at which it is stopped, the flag is off or the kill switch is
  engaged: it leaves the guard disarmed, and nothing of what would come later has any effect.\<close>

theorem loop_ends_when_told:
  assumes "lt_stop lt \<or> \<not> lt_flag lt \<or> is_halted (lt_guard lt)"
  shows "\<exists>g a' es. run_forever s k (xs @ lt # ys) a = (Some g, a', es) \<and> \<not> trading_enabled g \<and>
    run_forever s k (xs @ [lt]) a = (Some g, a', es)"
proof (induction xs arbitrary: a)
  case Nil
  then show ?case using assms by auto
next
  case (Cons x xs)
  obtain r a1 es1 where cyc: "auto_cycle s k (lt_cycle x) a = (r, a1, es1)" by (metis prod.exhaust)
  obtain g a' es where "run_forever s k (xs @ lt # ys) a1 = (Some g, a', es)" "\<not> trading_enabled g"
    "run_forever s k (xs @ [lt]) a1 = (Some g, a', es)" using Cons by metis
  then show ?case using cyc by simp
qed

end
