(* ===== verification/Auto_Controller.thy ===== *)
theory Auto_Controller
  imports App_Safety
begin

text \<open>
  The controller that owns the background loop (\<^verbatim>\<open>app/auto_controller.py\<close>), over the operator
  interlocks of \<^verbatim>\<open>Execution_Guard\<close>. The tasks the process has created are numbered; the
  controller keeps a reference to one of them. A call runs to its end before the next one
  begins: \<open>start\<close> holds a lock, and the commands of the operator are handled one after the other.
  Between calls a loop may end by itself, in any way, and the operator may use the kill switch,
  the flag, or restart the process.
\<close>

datatype task_end = Returned | Raised string | Cancelled

record Controller =
  ctl_task :: "nat option"
  ctl_trader :: "nat option"
  task_done :: "(nat \<times> task_end) list"
  tasks_created :: nat
  stop_requested :: "nat list"
  ctl_locks :: Interlocks

definition new_controller :: "Interlocks \<Rightarrow> Controller" where
  "new_controller i = \<lparr>ctl_task = None, ctl_trader = None, task_done = [], tasks_created = 0,
     stop_requested = [], ctl_locks = i\<rparr>"

definition running :: "Controller \<Rightarrow> bool" where
  "running c = (case ctl_task c of None \<Rightarrow> False | Some n \<Rightarrow> dict_get (task_done c) n = None)"

definition ctl_set_auto :: "Controller \<Rightarrow> int \<Rightarrow> bool \<Rightarrow> Controller" where
  "ctl_set_auto c now b = c\<lparr>ctl_locks := set_auto_trading (ctl_locks c) now b\<rparr>"

text \<open>A finished task is dropped together with the flag it left behind.\<close>

definition drop_finished :: "Controller \<Rightarrow> int \<Rightarrow> Controller" where
  "drop_finished c now =
     (case ctl_task c of
        None \<Rightarrow> c
      | Some n \<Rightarrow>
          if dict_get (task_done c) n = None then c
          else ctl_set_auto (c\<lparr>ctl_task := None, ctl_trader := None\<rparr>) now False)"

definition ctl_is_running :: "Controller \<Rightarrow> int \<Rightarrow> bool \<times> Controller" where
  "ctl_is_running c now =
     (if \<not> running c then (False, drop_finished c now)
      else (auto_trading_enabled (bot_store (ctl_locks c)), c))"

definition ctl_start :: "Controller \<Rightarrow> int \<Rightarrow> (bool \<times> string) \<times> Controller" where
  "ctl_start c now =
     (if is_halted (guard (ctl_locks c)) then ((False, ''kill switch engaged''), c)
      else if running c then ((False, ''auto trading already running''), c)
      else (let c1 = ctl_set_auto (drop_finished c now) now True; n = tasks_created c1
            in ((True, ''auto trading started''),
                c1\<lparr>ctl_trader := Some n, ctl_task := Some n, tasks_created := Suc n\<rparr>)))"

text \<open>
  A loop ends: however it does, its \<^verbatim>\<open>finally\<close> clause disarms the guard. The flag in the
  database is left as it is.
\<close>

definition end_task :: "Controller \<Rightarrow> nat \<Rightarrow> task_end \<Rightarrow> Controller" where
  "end_task c n e =
     c\<lparr>task_done := dict_set (task_done c) n e,
       ctl_locks := (ctl_locks c)\<lparr>guard := enable_trading (guard (ctl_locks c)) False\<rparr>\<rparr>"

text \<open>
  A stop clears the flag, asks the trader to stop and waits for the task: \<open>e\<close> is how the loop
  ends, by itself within five seconds of the request or by cancellation after that.
\<close>

definition request_stop :: "Controller \<Rightarrow> int \<Rightarrow> Controller" where
  "request_stop c now =
     (let c1 = ctl_set_auto c now False in
      case ctl_trader c1 of None \<Rightarrow> c1 | Some n \<Rightarrow> c1\<lparr>stop_requested := n # stop_requested c1\<rparr>)"

definition await_task :: "Controller \<Rightarrow> task_end \<Rightarrow> Controller" where
  "await_task c e = (case ctl_task c of Some n \<Rightarrow> if running c then end_task c n e else c | None \<Rightarrow> c)"

definition ctl_stop :: "Controller \<Rightarrow> int \<Rightarrow> task_end \<Rightarrow> (bool \<times> string) \<times> Controller" where
  "ctl_stop c now e =
     (let was_running = running c \<or> auto_trading_enabled (bot_store (ctl_locks c));
          c1 = (await_task (request_stop c now) e)\<lparr>ctl_task := None, ctl_trader := None\<rparr>
      in ((if was_running then (True, ''auto trading stopped'') else (False, ''auto trading already stopped'')), c1))"

definition ctl_shutdown :: "Controller \<Rightarrow> int \<Rightarrow> task_end \<Rightarrow> Controller" where
  "ctl_shutdown c now e = snd (ctl_stop c now e)"

subsection \<open>Histories\<close>

definition live :: "Controller \<Rightarrow> nat \<Rightarrow> bool" where
  "live c n \<longleftrightarrow> n < tasks_created c \<and> dict_get (task_done c) n = None"

datatype ctl_event =
    CStart
  | CStop task_end
  | CIsRunning
  | CTaskEnds nat task_end
  | COperator command

text \<open>
  One event at time \<open>now\<close>. A restart ends the process and the loops in it: the new controller
  refers to none.
\<close>

fun ctl_step :: "TradingMode \<Rightarrow> int \<times> string \<Rightarrow> ctl_event \<Rightarrow> Controller \<Rightarrow> Controller" where
  "ctl_step m (now, stamp) CStart c = snd (ctl_start c now)"
| "ctl_step m (now, stamp) (CStop e) c = snd (ctl_stop c now e)"
| "ctl_step m (now, stamp) CIsRunning c = snd (ctl_is_running c now)"
| "ctl_step m (now, stamp) (CTaskEnds n e) c = (if live c n then end_task c n e else c)"
| "ctl_step m (now, stamp) (COperator Restart) c = new_controller (run_command m (now, stamp) Restart (ctl_locks c))"
| "ctl_step m (now, stamp) (COperator k) c = c\<lparr>ctl_locks := run_command m (now, stamp) k (ctl_locks c)\<rparr>"

inductive controlled :: "TradingMode \<Rightarrow> Controller \<Rightarrow> ctl_event list \<Rightarrow> Controller \<Rightarrow> bool"
  for m where
  controlled_new: "controlled m (new_controller i) [] (new_controller i)"
| controlled_step: "controlled m c0 es c \<Longrightarrow> controlled m c0 (es @ [e]) (ctl_step m t e c)"

subsection \<open>One loop at a time\<close>

definition ctl_ok :: "Controller \<Rightarrow> bool" where
  "ctl_ok c \<longleftrightarrow> (\<forall>n. live c n \<longrightarrow> ctl_task c = Some n) \<and>
     (\<forall>n. ctl_task c = Some n \<or> dict_get (task_done c) n \<noteq> None \<longrightarrow> n < tasks_created c) \<and> ctl_trader c = ctl_task c"

lemma set_auto_simps [simp]:
  "ctl_task (ctl_set_auto c now b) = ctl_task c" "ctl_trader (ctl_set_auto c now b) = ctl_trader c"
  "task_done (ctl_set_auto c now b) = task_done c" "tasks_created (ctl_set_auto c now b) = tasks_created c"
  "live (ctl_set_auto c now b) = live c" "running (ctl_set_auto c now b) = running c"
  "auto_trading_enabled (bot_store (ctl_locks (ctl_set_auto c now b))) = b"
  "trading_enabled (guard (ctl_locks (ctl_set_auto c now b))) = b"
  "is_halted (guard (ctl_locks (ctl_set_auto c now b))) = is_halted (guard (ctl_locks c))"
  by (simp_all add: ctl_set_auto_def live_def [abs_def] running_def set_auto_trading_def split: option.splits)

lemma drop_finished_simps [simp]:
  "task_done (drop_finished c now) = task_done c" "tasks_created (drop_finished c now) = tasks_created c"
  "live (drop_finished c now) = live c"
  "is_halted (guard (ctl_locks (drop_finished c now))) = is_halted (guard (ctl_locks c))"
  by (auto simp: drop_finished_def live_def ctl_set_auto_def set_auto_trading_def split: option.splits)

lemma drop_finished_task:
  "\<not> running c \<Longrightarrow> ctl_trader c = ctl_task c \<Longrightarrow>
   ctl_task (drop_finished c now) = None \<and> ctl_trader (drop_finished c now) = None"
  by (auto simp: drop_finished_def running_def split: option.splits)

lemma end_task_simps [simp]:
  "ctl_task (end_task c n e) = ctl_task c" "ctl_trader (end_task c n e) = ctl_trader c"
  "tasks_created (end_task c n e) = tasks_created c" "live (end_task c n e) k \<longleftrightarrow> live c k \<and> k \<noteq> n"
  "task_done (end_task c n e) = dict_set (task_done c) n e"
  "auto_trading_enabled (bot_store (ctl_locks (end_task c n e))) = auto_trading_enabled (bot_store (ctl_locks c))"
  "\<not> trading_enabled (guard (ctl_locks (end_task c n e)))"
  by (auto simp: end_task_def live_def)

lemma ctl_okD:
  assumes "ctl_ok c"
  shows "live c n \<Longrightarrow> ctl_task c = Some n" "ctl_task c = Some n \<Longrightarrow> n < tasks_created c"
    "dict_get (task_done c) n = Some e \<Longrightarrow> n < tasks_created c" "ctl_trader c = ctl_task c"
  using assms by (simp_all add: ctl_ok_def)

lemma ctl_okI:
  assumes "\<And>n. live c n \<Longrightarrow> ctl_task c = Some n" "\<And>n. ctl_task c = Some n \<Longrightarrow> n < tasks_created c"
    "\<And>n e. dict_get (task_done c) n = Some e \<Longrightarrow> n < tasks_created c" "ctl_trader c = ctl_task c"
  shows "ctl_ok c"
  using assms unfolding ctl_ok_def by blast

lemma running_iff:
  assumes "ctl_ok c"
  shows "running c \<longleftrightarrow> (\<exists>n. live c n)"
proof
  assume "running c"
  then obtain n where "ctl_task c = Some n" "dict_get (task_done c) n = None" by (auto simp: running_def split: option.splits)
  then show "\<exists>n. live c n" using ctl_okD(2) [OF assms] by (auto simp: live_def)
next
  assume "\<exists>n. live c n"
  then obtain n where "live c n" ..
  then show "running c" using ctl_okD(1) [OF assms] by (simp add: running_def live_def)
qed

lemma new_controller_simps [simp]:
  "\<not> live (new_controller i) n" "ctl_task (new_controller i) = None" "ctl_trader (new_controller i) = None"
  "task_done (new_controller i) = []" "tasks_created (new_controller i) = 0" "ctl_locks (new_controller i) = i"
  "ctl_ok (new_controller i)"
  by (simp_all add: new_controller_def live_def ctl_ok_def)

lemma start_result:
  assumes "ctl_ok c" "\<not> is_halted (guard (ctl_locks c))" "\<not> running c" "ctl_start c now = (r, c')"
  shows "fst r" "live c' n \<longleftrightarrow> n = tasks_created c" "ctl_task c' = Some (tasks_created c)" "ctl_trader c' = ctl_task c'"
    "tasks_created c' = Suc (tasks_created c)" "task_done c' = task_done c"
    "auto_trading_enabled (bot_store (ctl_locks c'))" "trading_enabled (guard (ctl_locks c'))"
proof -
  let ?d = "ctl_set_auto (drop_finished c now) now True"
  have c': "fst r" "c' = ?d\<lparr>ctl_trader := Some (tasks_created c), ctl_task := Some (tasks_created c), tasks_created := Suc (tasks_created c)\<rparr>"
    using assms(2-4) by (auto simp: ctl_start_def Let_def)
  have "dict_get (task_done c) (tasks_created c) = None" using assms(1) by (force simp: ctl_ok_def)
  moreover have "\<not> live c n" using running_iff [OF assms(1)] assms(3) by blast
  ultimately show "live c' n \<longleftrightarrow> n = tasks_created c"
    using c'(2) by (auto simp: live_def less_Suc_eq)
  show "fst r" "ctl_task c' = Some (tasks_created c)" "ctl_trader c' = ctl_task c'"
    "tasks_created c' = Suc (tasks_created c)" "task_done c' = task_done c"
    "auto_trading_enabled (bot_store (ctl_locks c'))" "trading_enabled (guard (ctl_locks c'))"
    using c' set_auto_simps(7,8) [of "drop_finished c now" now True] by simp_all
qed

lemma start_refused:
  "is_halted (guard (ctl_locks c)) \<or> running c \<Longrightarrow> fst (fst (ctl_start c now)) = False \<and> snd (ctl_start c now) = c"
  by (auto simp: ctl_start_def)

lemma start_ok: "ctl_ok c \<Longrightarrow> ctl_ok (snd (ctl_start c now))"
proof (cases "is_halted (guard (ctl_locks c)) \<or> running c")
  case True
  then show "ctl_ok c \<Longrightarrow> ?thesis" using start_refused by metis
next
  case False
  assume ok: "ctl_ok c"
  obtain r c' where "ctl_start c now = (r, c')" by fastforce
  note res = start_result [OF ok _ _ this]
  show ?thesis
    unfolding \<open>ctl_start c now = (r, c')\<close> snd_conv
    by (rule ctl_okI) (use False res ctl_okD(3) [OF ok] in \<open>auto intro: less_SucI\<close>)
qed

lemma request_stop_simps [simp]:
  "ctl_task (request_stop c now) = ctl_task c" "live (request_stop c now) = live c" "running (request_stop c now) = running c"
  "task_done (request_stop c now) = task_done c" "tasks_created (request_stop c now) = tasks_created c"
  "\<not> auto_trading_enabled (bot_store (ctl_locks (request_stop c now)))"
  "\<not> trading_enabled (guard (ctl_locks (request_stop c now)))"
  by (simp_all add: request_stop_def live_def [abs_def] running_def ctl_set_auto_def set_auto_trading_def Let_def
      split: option.splits)

lemma await_task_result:
  assumes "\<And>n. live c n \<Longrightarrow> ctl_task c = Some n"
  shows "\<not> live (await_task c e) n" "tasks_created (await_task c e) = tasks_created c"
    "auto_trading_enabled (bot_store (ctl_locks (await_task c e))) = auto_trading_enabled (bot_store (ctl_locks c))"
    "\<not> trading_enabled (guard (ctl_locks c)) \<Longrightarrow> \<not> trading_enabled (guard (ctl_locks (await_task c e)))"
    "dict_get (task_done (await_task c e)) k = Some x \<Longrightarrow> dict_get (task_done c) k = Some x \<or> ctl_task c = Some k"
proof -
  show "\<not> live (await_task c e) n"
  proof (cases "live c n")
    case True
    then have "ctl_task c = Some n" "running c" using assms by (auto simp: running_def live_def)
    then show ?thesis by (simp add: await_task_def)
  next
    case False
    then show ?thesis by (auto simp: await_task_def split: option.splits)
  qed
qed (auto simp: await_task_def split: option.splits if_splits)

lemma cleared_simps [simp]:
  "live (c\<lparr>ctl_task := a, ctl_trader := b\<rparr>) = live c"
  by (simp add: live_def [abs_def])

lemma stop_result:
  assumes "ctl_ok c"
  shows "\<not> live (snd (ctl_stop c now e)) n" "ctl_ok (snd (ctl_stop c now e))"
    "\<not> auto_trading_enabled (bot_store (ctl_locks (snd (ctl_stop c now e))))"
    "\<not> trading_enabled (guard (ctl_locks (snd (ctl_stop c now e))))"
proof -
  let ?c = "await_task (request_stop c now) e"
  have "\<And>n. live (request_stop c now) n \<Longrightarrow> ctl_task (request_stop c now) = Some n" using ctl_okD(1) [OF assms] by simp
  note aw = await_task_result [OF this, where e = e]
  have stop: "snd (ctl_stop c now e) = ?c\<lparr>ctl_task := None, ctl_trader := None\<rparr>" by (simp add: ctl_stop_def)
  show "\<not> live (snd (ctl_stop c now e)) n" using aw(1) by (simp add: stop)
  show "ctl_ok (snd (ctl_stop c now e))"
    unfolding stop by (rule ctl_okI) (use aw(1,2) aw(5) ctl_okD(2,3) [OF assms] in fastforce)+
  show "\<not> auto_trading_enabled (bot_store (ctl_locks (snd (ctl_stop c now e))))"
    "\<not> trading_enabled (guard (ctl_locks (snd (ctl_stop c now e))))"
    using aw(3,4) by (simp_all add: stop)
qed

lemma is_running_ok:
  assumes "ctl_ok c"
  shows "ctl_ok (snd (ctl_is_running c now))"
proof (cases "running c")
  case False
  have none: "\<not> live c n" for n using running_iff [OF assms] False by blast
  have "ctl_ok (drop_finished c now)"
    by (rule ctl_okI) (use none drop_finished_task [OF False, of now] ctl_okD(3,4) [OF assms] in auto)
  then show ?thesis using False by (simp add: ctl_is_running_def)
qed (use assms in \<open>simp add: ctl_is_running_def\<close>)

lemma end_task_ok:
  assumes "ctl_ok c" "n < tasks_created c"
  shows "ctl_ok (end_task c n e)"
  by (rule ctl_okI) (use assms(2) ctl_okD(3) [OF assms(1)] in \<open>auto simp: ctl_okD [OF assms(1)] split: if_splits\<close>)

lemma locks_ok: "ctl_ok c \<Longrightarrow> ctl_ok (c\<lparr>ctl_locks := i\<rparr>)"
  by (rule ctl_okI) (simp_all add: live_def, unfold ctl_ok_def live_def, blast+)

lemma ctl_step_simps:
  "ctl_step m t CStart c = snd (ctl_start c (fst t))" "ctl_step m t (CStop x) c = snd (ctl_stop c (fst t) x)"
  "ctl_step m t CIsRunning c = snd (ctl_is_running c (fst t))"
  "ctl_step m t (CTaskEnds n x) c = (if live c n then end_task c n x else c)"
  "ctl_step m t (COperator k) c =
     (if k = Restart then new_controller (run_command m t k (ctl_locks c)) else c\<lparr>ctl_locks := run_command m t k (ctl_locks c)\<rparr>)"
  by (cases t; simp; cases k; simp)+

lemma ctl_step_ok:
  assumes ok: "ctl_ok c"
  shows "ctl_ok (ctl_step m t e c)"
proof (cases e)
  case (CTaskEnds n x)
  have "ctl_ok (end_task c n x)" if "live c n" using end_task_ok [OF ok] that by (simp add: live_def)
  then show ?thesis using ok unfolding CTaskEnds ctl_step_simps by simp
next
  case (COperator k)
  show ?thesis using locks_ok [OF ok] unfolding COperator ctl_step_simps by simp
qed (use start_ok [OF ok] stop_result(2) [OF ok] is_running_ok [OF ok] in \<open>simp_all only: ctl_step_simps\<close>)

lemma controlled_ok: "controlled m c0 es c \<Longrightarrow> ctl_ok c"
  by (induction rule: controlled.induct) (simp_all add: ctl_step_ok)

text \<open>C18 (one_loop_at_a_time).
  However starts, stops, status queries, operator commands, restarts and ends of loops follow
  each other, at most one loop is alive in the process, and it is the one the controller
  refers to and can stop.\<close>

theorem one_loop_at_a_time:
  assumes "controlled m c0 es c"
  shows "card {n. live c n} \<le> 1 \<and> (live c n \<longrightarrow> ctl_task c = Some n \<and> ctl_trader c = Some n \<and> running c)"
proof -
  note ok = controlled_ok [OF assms]
  have "{n. live c n} \<subseteq> set_option (ctl_task c)" using ctl_okD(1) [OF ok] by auto
  then have "card {n. live c n} \<le> card (set_option (ctl_task c))" by (rule card_mono [rotated]) (cases "ctl_task c"; simp)
  moreover have "card (set_option (ctl_task c)) \<le> 1" by (cases "ctl_task c") simp_all
  ultimately show ?thesis using ctl_okD(1) [OF ok, of n] ctl_okD(4) [OF ok] running_iff [OF ok] by auto
qed

subsection \<open>Stopped means stopped\<close>

definition at_rest :: "Controller \<Rightarrow> bool" where
  "at_rest c \<longleftrightarrow> (\<forall>n. \<not> live c n) \<and> \<not> auto_trading_enabled (bot_store (ctl_locks c)) \<and>
     \<not> trading_enabled (guard (ctl_locks c))"

lemma stop_rests: "ctl_ok c \<Longrightarrow> at_rest (snd (ctl_stop c now e))"
  by (simp add: at_rest_def stop_result)

fun re_arms :: "ctl_event \<Rightarrow> bool" where
  "re_arms CStart = True"
| "re_arms (COperator (SetAuto b)) = b"
| "re_arms _ = False"

lemma locks_rest:
  assumes "at_rest c" "\<not> re_arms (COperator k)"
  shows "\<not> auto_trading_enabled (bot_store (run_command m t k (ctl_locks c)))"
    "\<not> trading_enabled (guard (run_command m t k (ctl_locks c)))"
  using assms by (cases t; cases k; simp add: at_rest_def set_auto_trading_def engage_kill_switch_def
      release_kill_switch_def set_active_strategy_def Let_def)+

lemma at_rest_step:
  assumes ok: "ctl_ok c" and rest: "at_rest c" and e: "\<not> re_arms e"
  shows "at_rest (ctl_step m t e c)"
proof (cases e)
  case (COperator k)
  then show ?thesis using rest locks_rest [OF rest, of k m t] e by (auto simp: ctl_step_simps at_rest_def live_def)
next
  case CIsRunning
  have "at_rest (drop_finished c now)" for now
    using rest by (auto simp: at_rest_def drop_finished_def ctl_set_auto_def set_auto_trading_def live_def split: option.splits)
  then show ?thesis using CIsRunning rest by (simp add: ctl_step_simps ctl_is_running_def)
qed (use rest e stop_rests [OF ok] in \<open>simp_all add: ctl_step_simps at_rest_def\<close>)

fun ctl_steps :: "TradingMode \<Rightarrow> (int \<times> string) \<Rightarrow> ctl_event list \<Rightarrow> Controller \<Rightarrow> Controller" where
  "ctl_steps m t [] c = c"
| "ctl_steps m t (e # es) c = ctl_steps m t es (ctl_step m t e c)"

lemma at_rest_steps:
  "ctl_ok c \<Longrightarrow> at_rest c \<Longrightarrow> \<forall>e \<in> set es. \<not> re_arms e \<Longrightarrow> at_rest (ctl_steps m t es c)"
  by (induction es arbitrary: c) (simp_all add: at_rest_step ctl_step_ok)

text \<open>(stop_is_lasting).
  After a stop no loop is alive, the stored flag is off and the guard is disarmed, and this
  stays so through restarts, status queries and uses of the kill switch, until the operator
  starts the loop or switches the flag on.\<close>

theorem stop_is_lasting:
  assumes "controlled m c0 es c" "\<forall>e \<in> set fs. \<not> re_arms e"
  shows "at_rest (ctl_steps m t fs (snd (ctl_stop c now e)))"
  using controlled_ok [OF assms(1)] stop_result(2) stop_rests assms(2) by (intro at_rest_steps) blast+

text \<open>(halted_start_is_refused).
  While the kill switch is engaged a start is refused and changes nothing; with the switch
  released a start is refused exactly when a loop is alive, and otherwise leaves exactly one
  new loop with the flag on and the guard armed.\<close>

theorem halted_start_is_refused:
  assumes "controlled m c0 es c"
  shows "(is_halted (guard (ctl_locks c)) \<or> (\<exists>n. live c n) \<longrightarrow> fst (fst (ctl_start c now)) = False \<and> snd (ctl_start c now) = c) \<and>
    (\<not> is_halted (guard (ctl_locks c)) \<and> (\<forall>n. \<not> live c n) \<longrightarrow>
       fst (fst (ctl_start c now)) \<and> {n. live (snd (ctl_start c now)) n} = {tasks_created c} \<and>
       auto_trading_enabled (bot_store (ctl_locks (snd (ctl_start c now)))) \<and>
       trading_enabled (guard (ctl_locks (snd (ctl_start c now)))))"
proof -
  note ok = controlled_ok [OF assms]
  obtain r c' where st: "ctl_start c now = (r, c')" by fastforce
  show ?thesis
    using start_refused [of c now] start_result [OF ok _ _ st] running_iff [OF ok] st by auto
qed

subsection \<open>Witnesses\<close>

definition fresh_bot :: Controller where
  "fresh_bot = new_controller (restart PAPER [])"

definition started_bot :: Controller where
  "started_bot = ctl_step PAPER (7, ''t'') CStart fresh_bot"

lemma started_bot_controlled: "controlled PAPER fresh_bot [CStart] started_bot"
  using controlled_step [OF controlled_new, of PAPER "restart PAPER []" CStart "(7, ''t'')"]
  by (simp add: fresh_bot_def started_bot_def)

lemma fresh_bot_controlled: "controlled PAPER fresh_bot [] fresh_bot"
  unfolding fresh_bot_def by (rule controlled_new)

lemma started_bot_live: "live started_bot 0"
  by code_simp

theorem one_loop_at_a_time_witness:
  "live started_bot 0 \<and> ctl_task started_bot = Some 0 \<and> card {n. live started_bot n} \<le> 1"
  using one_loop_at_a_time [OF started_bot_controlled, of 0] started_bot_live by simp

theorem stop_is_lasting_witness:
  "live started_bot 0 \<and>
   at_rest (ctl_steps PAPER (9, ''u'') [COperator (Engage ''x''), COperator Restart, CIsRunning, COperator Release]
     (snd (ctl_stop started_bot 8 Cancelled)))"
  using stop_is_lasting [OF started_bot_controlled,
      of "[COperator (Engage ''x''), COperator Restart, CIsRunning, COperator Release]"] started_bot_live
  by (simp del: ctl_step.simps)

theorem halted_start_is_refused_witness:
  "snd (ctl_start started_bot 8) = started_bot \<and>
   {n. live (snd (ctl_start fresh_bot 8)) n} = {0}"
proof -
  have "\<not> is_halted (guard (ctl_locks fresh_bot))" "\<forall>n. \<not> live fresh_bot n" "tasks_created fresh_bot = 0"
    by code_simp (simp add: fresh_bot_def, simp add: fresh_bot_def)
  then show ?thesis
    using halted_start_is_refused [OF started_bot_controlled, of 8] halted_start_is_refused [OF fresh_bot_controlled, of 8]
      started_bot_live by auto
qed

end
