(* ===== verification/Transfer_Scenarios.thy ===== *)
theory Transfer_Scenarios
  imports Transfer_Lifecycle
begin

text \<open>
  Concrete runs of the transfer orchestrator: a LIVE transfer from its start to the submitted
  withdrawal, and one that fails for want of a book. They show that the hypotheses of the
  lifecycle theorems are met by real runs.
\<close>

subsection \<open>A concrete run\<close>

definition sol :: Symbol where
  "sol = \<lparr>base = ''SOL'', quote = ''USDT'', settle = None\<rparr>"

definition live_settings :: OrchSettings where
  "live_settings =
     \<lparr>os_mode = LIVE, base_currency = ''USDT'', simulated_transfer_seconds = 30,
      deposit_timeout_seconds = 3600, os_max_open_transfers = 1,
      os_sim = \<lparr>sim_taker_fee_bps = 10, sim_max_slippage_bps = 50\<rparr>, min_notional_quote = 100,
      max_notional_quote = 500, os_max_amount = 10000, os_max_trade_size = 1000,
      max_transfer_gross_divergence_bps = 5000, os_min_net_profit_bps = 50\<rparr>"

definition live_book :: OrderBook where
  "live_book = mk_order_book ''okx'' sol 0 [\<lparr>price = 99, amount = 5\<rparr>] [\<lparr>price = 100, amount = 5\<rparr>]"

definition live_mem :: Mem where
  "live_mem = \<lparr>paper_wallets = [], market_store = put_order_book (new_store 2000) live_book\<rparr>"

definition sol_network :: WithdrawalNetwork where
  "sol_network =
     \<lparr>network = ''SOL'', network_code = Some ''SOL'', withdraw_enabled = True, deposit_enabled = True,
      withdrawal_fee = 1 / 100, withdrawal_min = 1 / 10, deposit_min = 0\<rparr>"

text \<open>A venue that fills every order in full and accepts every withdrawal.\<close>

definition live_adapter :: Adapter where
  "live_adapter =
     \<lparr>fetch_withdrawal_networks = (\<lambda>a. Inr [sol_network]),
      fetch_deposit_address = (\<lambda>a n. Inr \<lparr>address = ''addr'', memo = None, addr_network = Some n\<rparr>),
      create_order = (\<lambda>req. Inr
        ((leg_order (req_exchange_id req) (req_symbol req) (req_side req) FILLED (req_amount req) 0)
           \<lparr>filled_amount := req_amount req, average_price := Some 100\<rparr>)),
      withdraw = (\<lambda>a x ad mm n. Inr \<lparr>tx_direction = Withdrawal, tx_asset = a, tx_amount = x,
        tx_status = ''pending'', tx_txid = Some ''0xabc'', tx_address = Some ad\<rparr>),
      fetch_withdrawals = (\<lambda>a. Inr []), fetch_deposits = (\<lambda>a. Inr []),
      fetch_balances = Inl TimeoutError, fetch_trading_fees = (\<lambda>s. Inl TimeoutError),
      order_queries = dead_venue\<rparr>"

definition live_env :: "int \<Rightarrow> Env" where
  "live_env now =
     \<lparr>env_now = now, env_guard = new_guard (policy_for LIVE) True, env_client_id = ''cat-1'',
      env_adapter = (\<lambda>v. Inr live_adapter), env_refresh = None\<rparr>"

lemma live_symbol: "mk_symbol ''SOL'' ''USDT'' None = Inr sol"
proof -
  have "normalise ''SOL'' = Some ''SOL''" "normalise ''USDT'' = Some ''USDT''" by code_simp+
  then show ?thesis by (simp add: mk_symbol_def sol_def)
qed

lemma live_fresh: "fresh_book live_settings (live_env now) live_mem ''okx'' sol = (Inr live_book, live_mem)"
  if "0 \<le> now" "now \<le> 2000000"
proof -
  have "book_key live_book = quote_key ''okx'' sol SPOT" "book_timestamp live_book = 0"
    by (simp_all add: book_key_def live_book_def mk_order_book_def)
  moreover have "is_fresh (market_store live_mem) (age_ms now 0)"
    using that by (simp add: is_fresh_age_iff live_mem_def put_order_book_def new_store_def Let_def)
  ultimately have "cached_fresh (live_env now) live_mem ''okx'' sol = Some live_book"
    by (simp add: cached_fresh_def order_book_def live_mem_def put_order_book_def new_store_def Let_def
        is_stale_def live_env_def)
  then show ?thesis by (simp add: fresh_book_def)
qed

lemma live_asks: "asks live_book = [\<lparr>price = 100, amount = 5\<rparr>]"
  by (simp add: live_book_def mk_order_book_def sort_asks_def)

lemma live_size: "quantize 8 (ddiv 200 100) = 2"
  by (simp add: dec_eval)

definition live_request :: OrderRequest where
  "live_request =
     \<lparr>req_exchange_id = ''okx'', req_symbol = sol, req_side = BUY, req_order_type = MARKET,
      req_amount = 2, req_price = None, req_client_order_id = ''cat-1''\<rparr>"

definition live_record :: TransferRecord where
  "live_record = new_record ''trf-1'' sample_plan LIVE 0"

lemma live_plan: "plan live_record = sample_plan" "tr_id live_record = ''trf-1''"
  "buy_order live_record = None" "state live_record = CREATED" "withdrawal_id live_record = None"
  by (simp_all add: live_record_def new_record_def)

lemma sample_plan_route: "plan_source sample_plan = ''okx''" "plan_dest sample_plan = ''bybit''"
  "plan_asset sample_plan = ''SOL''" "plan_network sample_plan = ''SOL''"
  by (simp_all add: sample_plan_def)

lemma live_env_simps: "env_guard (live_env now) = new_guard (policy_for LIVE) True"
  "env_adapter (live_env now) v = Inr live_adapter" "env_now (live_env now) = now"
  "env_client_id (live_env now) = ''cat-1''"
  by (simp_all add: live_env_def)

lemma live_settings_simps: "os_mode live_settings = LIVE" "base_currency live_settings = ''USDT''"
  "os_max_open_transfers live_settings = 1"
  by (simp_all add: live_settings_def)

definition live_order :: Order where
  "live_order = placed_order (live_env 0) live_adapter live_request"

lemma live_buy_leg:
  "fill_leg live_settings (live_env 0) live_mem ''trf-1'' ''okx'' sol BUY None (Some 200)
     (Some (intent_record (live_env 0) live_record)) =
   ((Inr (None, live_order), live_mem,
     [ESave (intent_record (live_env 0) live_record live_request), EOrder ''trf-1'' live_request]),
    Some (intent_record (live_env 0) live_record live_request))"
  by (simp add: fill_leg_def live_fresh leg_is_simulated_def live_settings_simps venue_amount_def
      live_asks live_size Let_def live_env_simps live_request_def [symmetric] live_order_def)

lemma live_order_filled: "ord_status live_order = FILLED" "filled_amount live_order = 2"
  by (simp_all add: live_order_def placed_order_def live_adapter_def leg_order_def new_order_def Let_def
      live_request_def)

definition live_intent :: TransferRecord where
  "live_intent = intent_record (live_env 0) live_record live_request"

definition live_bought :: TransferRecord where
  "live_bought = buy_filled (live_env 0) (buy_submitted (live_env 0) live_intent live_order) 2"

lemma live_can_trade: "ensure_can_trade (new_guard p b) = Inr ()"
  by (simp add: ensure_can_trade_def)

lemma live_buy:
  "execute_buy live_settings (live_env 0) live_mem live_record =
   (Inr live_bought, live_mem,
    [ESave live_intent, EOrder ''trf-1'' live_request,
     ESave (buy_submitted (live_env 0) live_intent live_order), ESave live_bought])"
proof -
  have o: "\<not> confirmed_not_filled live_order" "\<not> outcome_unconfirmed live_order"
    using live_order_filled by (simp_all add: outcome_defs)
  have "settle_buy (live_env 0) live_mem live_intent None live_order =
      (Inr live_bought, live_mem,
       [ESave (buy_submitted (live_env 0) live_intent live_order), ESave live_bought])"
    by (simp add: settle_buy_def Let_def o live_order_filled after_effects_def live_bought_def)
  then show ?thesis
    by (simp add: execute_buy_def live_env_simps live_can_trade live_plan sample_plan_route
        live_settings_simps live_symbol sample_plan_numbers(1) live_buy_leg after_effects_def
        live_intent_def)
qed

lemma live_route:
  "select [sol_network] [sol_network] =
     Inr \<lparr>rn_network = ''SOL'', rn_code = ''SOL'', rn_withdrawal_fee = 1 / 100,
          rn_withdrawal_min = 1 / 10, rn_deposit_min = 0\<rparr>"
proof -
  have "py_upper (py_strip ''SOL'') = ''SOL''" by code_simp
  then have "code_of sol_network = ''SOL''" by (simp add: code_of_def sol_network_def str_or_def)
  then have "by_code [sol_network] = [(''SOL'', sol_network)]" by (simp add: by_code_def)
  moreover have "withdraw_enabled sol_network" "deposit_enabled sol_network"
    by (simp_all add: sol_network_def)
  ultimately show ?thesis
    by (simp add: select_def Let_def dict_keys_def) (simp add: sol_network_def)
qed

lemma live_memo: "\<not> memo_missing ''SOL'' mm"
proof -
  have "py_upper ''SOL'' = ''SOL''" by code_simp
  then show ?thesis by (simp add: memo_missing_def memo_required_assets_def)
qed

definition live_sent :: decimal where
  "live_sent = dsub 2 (1 / 100)"

definition live_withdrawal_intent :: TransferRecord where
  "live_withdrawal_intent = withdrawal_intent (live_env 0) live_bought ''addr'' live_sent"

definition live_withdrawn :: TransferRecord where
  "live_withdrawn = withdrawal_record (live_env 0) live_withdrawal_intent (Some ''0xabc'')
     (Some ''0xabc'') ''addr'' live_sent"

definition live_withdrawal :: effect where
  "live_withdrawal = EWithdraw ''trf-1'' ''okx'' ''SOL'' live_sent ''addr'' None ''SOL''"

lemma live_bought_simps: "plan live_bought = sample_plan" "tr_id live_bought = ''trf-1''"
  "state live_bought = BUY_FILLED" "withdrawal_id live_bought = None" "buy_filled_amount live_bought = 2"
proof -
  show "plan live_bought = sample_plan" "tr_id live_bought = ''trf-1''" "state live_bought = BUY_FILLED"
    by (simp_all add: live_bought_def live_intent_def live_plan)
  show "withdrawal_id live_bought = None"
    by (simp add: live_bought_def live_intent_def buy_filled_def buy_submitted_def intent_record_def live_plan)
  show "buy_filled_amount live_bought = 2"
    by (simp add: live_bought_def buy_filled_def quantize_grid on_grid_def)
qed

lemma live_submit:
  "submit_withdrawal live_settings (live_env 0) live_mem live_bought =
   (Inr live_withdrawn, live_mem,
    [ESave live_withdrawal_intent, live_withdrawal, ESave live_withdrawn,
     EAudit ''TRANSFER_WITHDRAW_SUBMITTED'' ''SOL''])"
proof -
  have pos: "\<not> live_sent \<le> 0" by (simp add: live_sent_def)
  have ad: "fetch_withdrawal_networks live_adapter a = Inr [sol_network]"
    "fetch_deposit_address live_adapter a n = Inr \<lparr>address = ''addr'', memo = None, addr_network = Some n\<rparr>"
    "withdraw live_adapter a x ad mm n = Inr \<lparr>tx_direction = Withdrawal, tx_asset = a, tx_amount = x,
        tx_status = ''pending'', tx_txid = Some ''0xabc'', tx_address = Some ad\<rparr>" for a n x ad mm
    by (simp_all add: live_adapter_def)
  have w: "perform_withdrawal live_settings (live_env 0) live_mem live_adapter live_bought
      \<lparr>address = ''addr'', memo = None, addr_network = Some ''SOL''\<rparr> live_sent =
     (Inr live_withdrawn, live_mem,
      [ESave live_withdrawal_intent, live_withdrawal, ESave live_withdrawn,
       EAudit ''TRANSFER_WITHDRAW_SUBMITTED'' ''SOL''])"
    by (simp add: perform_withdrawal_def send_withdrawal_def live_settings_simps ad Let_def
        after_effects_def live_bought_simps sample_plan_route live_withdrawal_intent_def
        live_withdrawn_def live_withdrawal_def)
  show ?thesis
    by (simp add: submit_withdrawal_def live_env_simps live_can_trade live_bought_simps
        sample_plan_route ad live_route network_changed_def send_to_address_def live_memo Let_def
        live_sent_def [symmetric] pos w)
qed

definition live_log :: "effect list" where
  "live_log =
     [ESave live_record, EAudit ''TRANSFER_STARTED'' ''SOL'', ESave live_intent,
      EOrder ''trf-1'' live_request, ESave (buy_submitted (live_env 0) live_intent live_order),
      ESave live_bought, ESave live_withdrawal_intent, live_withdrawal, ESave live_withdrawn,
      EAudit ''TRANSFER_WITHDRAW_SUBMITTED'' ''SOL'']"

lemma live_start:
  "start live_settings (live_env 0) None ''trf-1'' live_mem (store_of []) sample_plan =
   (Inr live_withdrawn, live_mem, live_log)"
proof -
  have "try_claim_new_open_slot (store_of []) live_record 1 = Inr (True, [(''trf-1'', live_record)])"
    by (simp add: try_claim_new_open_slot_def store_of_def count_open_def live_plan)
  then show ?thesis
    by (simp add: start_def live_env_simps live_can_trade live_settings_simps live_record_def [symmetric]
        Let_def live_buy live_bought_simps live_submit after_effects_def live_log_def sample_plan_route)
qed

lemma live_reachable:
  assumes "prefix hist live_log"
  shows "reachable live_settings hist"
proof -
  have "get_record (store_of []) ''trf-1'' = None" by (simp add: store_of_def get_record_def)
  then have "step live_settings [] hist"
    unfolding step_def using live_start assms by (metis append_Nil)
  then show ?thesis using reachable_step [OF reachable_init] by blast
qed

lemma live_log_reachable: "reachable live_settings live_log"
  by (rule live_reachable) simp

theorem never_submits_twice_witness:
  "buys ''trf-1'' live_log \<le> 1 \<and> withdrawals ''trf-1'' live_log \<le> 1 \<and> live_withdrawal \<in> set live_log"
  using never_submits_twice [OF live_log_reachable, of "''trf-1''"] by (simp add: live_log_def)

theorem intent_persisted_before_submission_witness:
  "\<exists>r. get_record (store_of (take 3 live_log)) ''trf-1'' = Some r \<and> buy_intent r live_request"
proof -
  have "live_log = take 3 live_log @ EOrder ''trf-1'' live_request # drop 4 live_log"
    by (simp add: live_log_def)
  then have "reachable live_settings (take 3 live_log @ EOrder ''trf-1'' live_request # drop 4 live_log)"
    using live_log_reachable by simp
  from intent_persisted_before_submission [OF this] show ?thesis by (simp add: live_request_def)
qed


theorem open_transfers_capped_witness: "count_open (store_of live_log) \<le> 1"
  using open_transfers_capped [OF live_log_reachable] by (simp add: live_settings_simps)

lemma live_created: "get_record (store_of [ESave live_record]) ''trf-1'' = Some live_record"
  by (simp add: store_of_def apply_effect_def get_record_def save_def live_plan)

theorem lifecycle_only_moves_forward_witness:
  "\<exists>r'. get_record (store_of live_log) ''trf-1'' = Some r' \<and> plan r' = sample_plan"
proof -
  have l: "[ESave live_record] @ tl live_log = live_log" by (simp add: live_log_def)
  then have "reachable live_settings ([ESave live_record] @ tl live_log)"
    using live_log_reachable by simp
  from lifecycle_only_moves_forward [OF this live_created] show ?thesis
    unfolding l by (auto simp: live_plan)
qed


text \<open>A start without a cached book: the buy leg fails before anything is submitted.\<close>

definition empty_mem :: Mem where
  "empty_mem = \<lparr>paper_wallets = [], market_store = new_store 2000\<rparr>"

definition failed_record :: TransferRecord where
  "failed_record = with_state live_record 0 FAILED (Some ''buy leg error'')"

definition failed_log :: "effect list" where
  "failed_log =
     [ESave live_record, EAudit ''TRANSFER_STARTED'' ''SOL'', ESave failed_record,
      EAudit ''TRANSFER_FAILED'' ''buy leg error'']"

lemma failed_start:
  "start live_settings (live_env 0) None ''trf-1'' empty_mem (store_of []) sample_plan =
   (Inr failed_record, empty_mem, failed_log)"
proof -
  have "cached_fresh (live_env 0) empty_mem ''okx'' sol = None"
    "order_book (market_store empty_mem) ''okx'' sol = None"
    by (simp_all add: cached_fresh_def order_book_def empty_mem_def new_store_def)
  then have "fresh_book live_settings (live_env 0) empty_mem ''okx'' sol =
      (Inl (ValueError ''no order book cached''), empty_mem)"
    by (simp add: fresh_book_def live_settings_simps)
  then have b: "execute_buy live_settings (live_env 0) empty_mem live_record =
      (Inr failed_record, empty_mem, [ESave failed_record, EAudit ''TRANSFER_FAILED'' ''buy leg error''])"
    by (simp add: execute_buy_def live_env_simps live_can_trade live_plan sample_plan_route
        live_settings_simps live_symbol fill_leg_def after_effects_def fail_record_def Let_def
        failed_record_def)
  have "try_claim_new_open_slot (store_of []) live_record 1 = Inr (True, [(''trf-1'', live_record)])"
    by (simp add: try_claim_new_open_slot_def store_of_def count_open_def live_plan)
  then show ?thesis
    by (simp add: start_def live_env_simps live_can_trade live_settings_simps live_record_def [symmetric]
        Let_def b after_effects_def failed_log_def sample_plan_route)
      (simp add: failed_record_def)
qed

lemma failed_reachable: "reachable live_settings failed_log"
proof -
  have "get_record (store_of []) ''trf-1'' = None" by (simp add: store_of_def get_record_def)
  then have "step live_settings [] failed_log"
    unfolding step_def using failed_start by (metis append_Nil prefix_order.order_refl)
  then show ?thesis using reachable_step [OF reachable_init] by blast
qed

theorem bought_asset_never_abandoned_witness:
  "\<exists>r'. get_record (store_of failed_log) ''trf-1'' = Some r' \<and> nothing_bought r'"
proof -
  have l: "[ESave live_record] @ tl failed_log = failed_log" by (simp add: failed_log_def)
  have reach: "reachable live_settings ([ESave live_record] @ tl failed_log)"
    using failed_reachable unfolding l .
  have "tr_id failed_record = ''trf-1''" by (simp add: failed_record_def live_plan)
  then have g: "get_record (store_of ([ESave live_record] @ tl failed_log)) ''trf-1'' = Some failed_record"
    unfolding l by (simp add: failed_log_def store_of_def apply_effect_def get_record_def save_def live_plan)
  have "state failed_record = FAILED" by (simp add: failed_record_def)
  from bought_asset_never_abandoned [OF reach live_created g this] g show ?thesis unfolding l by blast
qed

definition halted_env :: Env where
  "halted_env = (live_env 0)\<lparr>env_guard := guard_engage (new_guard (policy_for LIVE) True) ''t'' ''stop''\<rparr>"

theorem kill_switch_stops_submissions_witness:
  "start live_settings halted_env None ''trf-1'' live_mem [] sample_plan =
     (Inl (ExecutionDisabledError ''kill switch engaged''), live_mem, []) \<and>
   \<not> list_ex submits (snd (snd (tick_record live_settings halted_env live_mem live_record)))"
proof -
  have "is_halted (env_guard halted_env)" by (simp add: halted_env_def)
  from kill_switch_stops_submissions [OF this, of live_settings None "''trf-1''" live_mem "[]"
      sample_plan live_record]
  show ?thesis by (simp add: list_ex_iff)
qed

definition rejecting :: "TransferPlan \<Rightarrow> RiskAssessment" where
  "rejecting p = evaluate default_limits [broken_rule] sample_context"

theorem refused_start_has_no_effect_witness:
  "start live_settings (live_env 0) (Some rejecting) ''trf-1'' live_mem [] sample_plan =
     (Inl (ExecutionDisabledError ''transfer rejected by risk validation''), live_mem, [])"
proof -
  have "\<not> approved (rejecting sample_plan)"
    by (simp add: rejecting_def approved_iff_all broken_rule_def)
  then show ?thesis
    using refused_start_has_no_effect [of "live_env 0" live_settings rejecting sample_plan "[]"
        "''trf-1''" live_mem]
    by (simp add: live_env_simps live_settings_simps)
qed

theorem whole_tick_is_a_run_witness:
  "reachable live_settings (live_log @ snd (snd (tick live_settings (\<lambda>i. live_env 1000) live_mem (store_of live_log))))"
  using whole_tick_is_a_run [OF live_log_reachable, of "\<lambda>i. live_env 1000" live_mem]
  by (metis prod.collapse)

definition dark_env :: Env where
  "dark_env = (live_env 4000000000)\<lparr>env_adapter := (\<lambda>v. Inl TimeoutError)\<rparr>"


subsection \<open>The sell leg submits without an intent\<close>

definition book_mem :: "string \<Rightarrow> Symbol \<Rightarrow> Mem" where
  "book_mem venue symb =
     \<lparr>paper_wallets = [],
      market_store = put_order_book (new_store 2000) (mk_order_book venue symb 0 [] [])\<rparr>"

lemma book_mem_fresh:
  "fresh_book s (live_env 0) (book_mem venue symb) venue symb =
     (Inr (mk_order_book venue symb 0 [] []), book_mem venue symb)"
proof -
  have "book_key (mk_order_book venue symb 0 [] []) = quote_key venue symb SPOT"
    "book_timestamp (mk_order_book venue symb 0 [] []) = 0"
    by (simp_all add: book_key_def mk_order_book_def)
  moreover have "is_fresh (market_store (book_mem venue symb)) (age_ms 0 0)"
    by (simp add: is_fresh_age_iff book_mem_def put_order_book_def new_store_def Let_def)
  ultimately have "cached_fresh (live_env 0) (book_mem venue symb) venue symb =
      Some (mk_order_book venue symb 0 [] [])"
    by (simp add: cached_fresh_def order_book_def book_mem_def put_order_book_def new_store_def Let_def
        is_stale_def live_env_def)
  then show ?thesis by (simp add: fresh_book_def)
qed

definition sell_request :: "string \<Rightarrow> Symbol \<Rightarrow> decimal \<Rightarrow> OrderRequest" where
  "sell_request venue symb x =
     \<lparr>req_exchange_id = venue, req_symbol = symb, req_side = SELL, req_order_type = MARKET,
      req_amount = x, req_price = None, req_client_order_id = ''cat-1''\<rparr>"

lemma after_effects_starts: "\<exists>res m fs. after_effects (x # es) rn = (res, m, x # fs)"
  by (cases rn) (simp add: after_effects_def)

lemma sell_crash_step:
  assumes "os_mode s = LIVE" "r \<in> set (list_open (store_of hist))" "state r = DEPOSIT_DETECTED"
    "0 < deposit_amount r" "mk_symbol (plan_asset (plan r)) (base_currency s) None = Inr symb"
  shows "step s hist (hist @ [EOrder (tr_id r) (sell_request (plan_dest (plan r)) symb (deposit_amount r))])"
proof -
  let ?v = "plan_dest (plan r)"
  let ?m = "book_mem ?v symb" and ?req = "sell_request ?v symb (deposit_amount r)"
  have top: "top_up_wallet s ?m r = ?m" by (simp add: top_up_wallet_def book_mem_def)
  have leg: "fill_leg s (live_env 0) ?m (tr_id r) ?v symb SELL (Some (deposit_amount r)) None None =
      ((Inr (None, placed_order (live_env 0) live_adapter ?req), ?m, [EOrder (tr_id r) ?req]), None)"
    using assms(1)
    by (simp add: fill_leg_def book_mem_fresh leg_is_simulated_def venue_amount_def live_env_simps Let_def
        sell_request_def)
  have "\<exists>rn. execute_sell s (live_env 0) ?m r = after_effects [EOrder (tr_id r) ?req] rn"
    unfolding execute_sell_def using assms(4,5) leg top
    by (simp add: live_env_simps live_can_trade Let_def del: split_paired_Ex split del: if_split)
      (rule exI, rule refl)
  then obtain res m1 fs where ex: "execute_sell s (live_env 0) ?m r = (res, m1, EOrder (tr_id r) ?req # fs)"
    using after_effects_starts by metis
  obtain u m2 gs where "tick_record s (live_env 0) ?m r = (u, m2, EOrder (tr_id r) ?req # gs)"
    using ex assms(3) by (cases res) (auto simp: tick_record_def advance_def Let_def)
  moreover have "prefix [EOrder (tr_id r) ?req] (EOrder (tr_id r) ?req # gs)" by simp
  ultimately show ?thesis unfolding step_def using assms(2) by blast
qed

text \<open>(sell_leg_can_repeat).
  Unlike the buy leg and the withdrawal, the sell leg persists no intent before it submits: in
  LIVE mode a crash right after its order was submitted leaves the transfer in
  DEPOSIT_DETECTED, and the next tick submits a second sell order for the whole deposit.\<close>

theorem sell_leg_can_repeat:
  assumes "os_mode s = LIVE" "r \<in> set (list_open (store_of hist))" "state r = DEPOSIT_DETECTED"
    "0 < deposit_amount r" "mk_symbol (plan_asset (plan r)) (base_currency s) None = Inr symb"
  shows "\<exists>req. req_side req = SELL \<and> req_amount req = deposit_amount r \<and>
    step s hist (hist @ [EOrder (tr_id r) req]) \<and>
    step s (hist @ [EOrder (tr_id r) req]) (hist @ [EOrder (tr_id r) req, EOrder (tr_id r) req])"
proof -
  let ?req = "sell_request (plan_dest (plan r)) symb (deposit_amount r)"
  have "r \<in> set (list_open (store_of (hist @ [EOrder (tr_id r) ?req])))"
    using assms(2) by (simp add: store_of_snoc apply_effect_def)
  then have "step s (hist @ [EOrder (tr_id r) ?req]) ((hist @ [EOrder (tr_id r) ?req]) @ [EOrder (tr_id r) ?req])"
    by (rule sell_crash_step [OF assms(1) _ assms(3-5)])
  then show ?thesis
    using sell_crash_step [OF assms] by (intro exI [of _ ?req]) (simp add: sell_request_def)
qed

definition deposited_record :: TransferRecord where
  "deposited_record = live_record\<lparr>state := DEPOSIT_DETECTED, deposit_amount := 1\<rparr>"

theorem sell_leg_can_repeat_witness:
  "\<exists>req. step live_settings [ESave deposited_record, EOrder ''trf-1'' req]
     [ESave deposited_record, EOrder ''trf-1'' req, EOrder ''trf-1'' req]"
proof -
  have id: "tr_id deposited_record = ''trf-1''" "state deposited_record = DEPOSIT_DETECTED"
    "deposit_amount deposited_record = 1" "plan deposited_record = sample_plan"
    by (simp_all add: deposited_record_def live_plan)
  have mem: "deposited_record \<in> set (list_open (store_of [ESave deposited_record]))"
    by (simp add: store_of_def apply_effect_def save_def id)
  have symb: "mk_symbol (plan_asset (plan deposited_record)) (base_currency live_settings) None = Inr sol"
    by (simp add: id sample_plan_route live_settings_simps live_symbol)
  have pos: "0 < deposit_amount deposited_record" by (simp add: id)
  show ?thesis
    using sell_leg_can_repeat [OF live_settings_simps(1) mem id(2) pos symb] by (auto simp: id)
qed

subsection \<open>A PAPER sell\<close>

definition paper_settings :: OrchSettings where
  "paper_settings = live_settings\<lparr>os_mode := PAPER,
     os_sim := \<lparr>sim_taker_fee_bps = 0, sim_max_slippage_bps = 50\<rparr>\<rparr>"

definition paper_book :: OrderBook where
  "paper_book = mk_order_book ''bybit'' sol 0 [\<lparr>price = 100, amount = 5\<rparr>] []"

definition paper_mem :: Mem where
  "paper_mem = \<lparr>paper_wallets = [(''bybit'', [(''SOL'', 10)])],
     market_store = put_order_book (new_store 2000) paper_book\<rparr>"

lemma paper_fresh: "fresh_book paper_settings (live_env 0) paper_mem ''bybit'' sol = (Inr paper_book, paper_mem)"
proof -
  have "book_key paper_book = quote_key ''bybit'' sol SPOT" "book_timestamp paper_book = 0"
    by (simp_all add: book_key_def paper_book_def mk_order_book_def)
  moreover have "is_fresh (market_store paper_mem) (age_ms 0 0)"
    by (simp add: is_fresh_age_iff paper_mem_def put_order_book_def new_store_def Let_def)
  ultimately have "cached_fresh (live_env 0) paper_mem ''bybit'' sol = Some paper_book"
    by (simp add: cached_fresh_def order_book_def paper_mem_def put_order_book_def new_store_def Let_def
        is_stale_def live_env_def)
  then show ?thesis by (simp add: fresh_book_def)
qed

definition paper_fill :: SimulatedFill where
  "paper_fill = settle_fill \<lparr>sim_taker_fee_bps = 0, sim_max_slippage_bps = 50\<rparr> paper_book SELL True 1 100 1 100"

lemma paper_bids: "book_side paper_book SELL = [\<lparr>price = 100, amount = 5\<rparr>]"
  by (simp add: book_side_def paper_book_def mk_order_book_def sort_bids_def)

lemma paper_simulate:
  "simulate \<lparr>sim_taker_fee_bps = 0, sim_max_slippage_bps = 50\<rparr> paper_book SELL (Some 1) None = Inr paper_fill"
proof -
  have a: "dmul (-1) 50 = (-50 :: rat)" "ddiv (-50) 10000 = (- (1 / 200) :: rat)"
    "dadd 1 (- (1 / 200)) = (199 / 200 :: rat)" "dmul 100 (199 / 200) = (199 / 2 :: rat)"
    "quantize 8 (199 / 2) = 199 / 2"
    by (simp_all add: dec_eval)
  have cap: "price_cap \<lparr>sim_taker_fee_bps = 0, sim_max_slippage_bps = 50\<rparr> SELL 100 = 199 / 2"
    unfolding price_cap_def Let_def by (simp add: a)
  show ?thesis by (simp add: simulate_def paper_bids cap past_cap_def paper_fill_def dec_eval)
qed

lemma paper_fill_simps: "sf_filled_amount paper_fill = 1" "sf_quote_amount paper_fill = 100"
  "rejected_reason paper_fill = None"
proof -
  have n: "ddiv 0 10000 = (0 :: rat)" "dmul 100 0 = (0 :: rat)" "quantize 8 0 = 0" "dsub 100 0 = (100 :: rat)"
    "quantize 8 100 = 100" "quantize 8 1 = 1"
    by (simp_all add: dec_eval)
  show "sf_filled_amount paper_fill = 1" "sf_quote_amount paper_fill = 100" "rejected_reason paper_fill = None"
    unfolding paper_fill_def settle_fill_def Let_def by (simp_all add: n)
qed

lemma asset_keys: "asset_key ''SOL'' = ''SOL''" "asset_key ''USDT'' = ''USDT''"
  by code_simp+

definition paper_order :: Order where
  "paper_order = (leg_order ''bybit'' sol SELL FILLED 1 0)
     \<lparr>filled_amount := 1, average_price := Some (sf_average_price paper_fill),
      fee_paid := sf_fee paper_fill, fee_currency := Some ''USDT''\<rparr>"

definition paper_mem' :: Mem where
  "paper_mem' = paper_mem\<lparr>paper_wallets := [(''bybit'', [(''SOL'', 9), (''USDT'', 100)])]\<rparr>"

lemma paper_leg:
  "fill_leg paper_settings (live_env 0) paper_mem ''trf-1'' ''bybit'' sol SELL (Some 1) None None =
     ((Inr (Some paper_fill, paper_order), paper_mem', []), None)"
proof -
  have n: "dsub 10 1 = (9 :: rat)" "fix28 100 = (100 :: rat)" by (simp_all add: dec_eval)
  have q: "quote sol = ''USDT''" "base sol = ''SOL''" by (simp_all add: sol_def)
  have "apply_wallet paper_mem ''bybit'' SELL sol paper_fill = Inr paper_mem'"
    by (simp add: apply_wallet_def paper_mem_def paper_mem'_def q debit_def credit_def asset_keys
        paper_fill_simps Let_def n)
  moreover have "sf_is_rejected paper_fill \<longleftrightarrow> False" by (simp add: sf_is_rejected_def paper_fill_simps)
  moreover have "os_mode paper_settings = PAPER"
    "os_sim paper_settings = \<lparr>sim_taker_fee_bps = 0, sim_max_slippage_bps = 50\<rparr>"
    by (simp_all add: paper_settings_def)
  ultimately show ?thesis
    by (simp add: fill_leg_def paper_fresh leg_is_simulated_def simulated_leg_def
        paper_simulate paper_fill_simps paper_order_def q live_env_simps)
qed


lemma paper_sell:
  "\<exists>m' es. execute_sell paper_settings (live_env 0) paper_mem deposited_record =
     (Inr (completed_record (live_env 0) (sell_submitted (live_env 0) deposited_record paper_order 100)), m', es)"
proof -
  have d: "tr_id deposited_record = ''trf-1''" "deposit_amount deposited_record = 1"
    "plan deposited_record = sample_plan" by (simp_all add: deposited_record_def live_plan)
  have s: "base_currency paper_settings = ''USDT''" "os_mode paper_settings = PAPER"
    by (simp_all add: paper_settings_def live_settings_simps)
  have top: "top_up_wallet paper_settings paper_mem deposited_record = paper_mem"
    by (simp add: top_up_wallet_def s split: option.split)
  have o: "\<not> outcome_unconfirmed paper_order" "filled_amount paper_order = 1"
    by (simp_all add: paper_order_def outcome_defs leg_order_def new_order_def)
  let ?r = "sell_submitted (live_env 0) deposited_record paper_order 100"
  have q: "quantize 8 100 = 100" by (simp add: dec_eval)
  have r: "final_proceeds ?r = 100" "plan ?r = sample_plan" "sell_filled_amount ?r = 1"
    by (simp_all add: sell_submitted_def final_proceeds_def q d o)
  have n: "dsub 9 1 = (8 :: rat)" "dadd 100 100 = (200 :: rat)" by (simp_all add: dec_eval)
  have "debit_wallet paper_mem' ''bybit'' ''SOL'' 1 =
      Inr (paper_mem'\<lparr>paper_wallets := [(''bybit'', [(''SOL'', 8), (''USDT'', 100)])]\<rparr>)"
    by (simp add: debit_wallet_def debit_def asset_keys paper_mem'_def n)
  then have "\<exists>m' es. finish paper_settings (live_env 0) paper_mem' ?r = (Inr (completed_record (live_env 0) ?r), m', es)"
    by (simp add: finish_def r s d sample_plan_route Let_def)
  then show ?thesis
    by (auto simp: execute_sell_def live_env_simps live_can_trade d s sample_plan_route live_symbol top
        paper_leg after_effects_def leg_proceeds_def paper_fill_simps o Let_def)
qed

theorem paper_sell_settles_twice_witness:
  "\<exists>u m' es w'. execute_sell paper_settings (live_env 0) paper_mem deposited_record = (Inr u, m', es) \<and>
     state u = COMPLETED \<and> dict_get (paper_wallets m') ''bybit'' = Some w' \<and>
     free w' ''SOL'' = dsub (dsub 10 (sell_filled_amount u)) (sell_filled_amount u)"
proof -
  obtain m' es where e: "execute_sell paper_settings (live_env 0) paper_mem deposited_record =
      (Inr (completed_record (live_env 0) (sell_submitted (live_env 0) deposited_record paper_order 100)), m', es)"
    (is "_ = (Inr ?u, _, _)") using paper_sell by blast
  have d: "plan deposited_record = sample_plan" by (simp add: deposited_record_def live_plan)
  have s: "base_currency paper_settings = ''USDT''" "os_mode paper_settings = PAPER"
    by (simp_all add: paper_settings_def live_settings_simps)
  have symb: "mk_symbol (plan_asset (plan deposited_record)) (base_currency paper_settings) None = Inr sol"
    by (simp add: d s sample_plan_route live_symbol)
  have key: "asset_key (plan_asset (plan deposited_record)) \<noteq> asset_key (base_currency paper_settings)"
    by (simp add: d s sample_plan_route asset_keys)
  have w: "dict_get (paper_wallets paper_mem) (plan_dest (plan deposited_record)) = Some [(''SOL'', 10)]"
    by (simp add: d sample_plan_route paper_mem_def)
  have st: "state ?u = COMPLETED" by (simp add: completed_record_def)
  have "free [(''SOL'', 10)] ''SOL'' = 10" by (simp add: free_def asset_keys)
  then show ?thesis
    using paper_sell_settles_twice [OF s(2) symb key w e st] e st
    by (auto simp: d sample_plan_route)
qed

end
