(* ===== verification/Triangle_Scenarios.thy ===== *)
theory Triangle_Scenarios
  imports Triangle_Safety Transfer_Scenarios Triangle_Scanner
begin

text \<open>
  Concrete runs of the triangle executor: a LIVE cycle whose first leg is confirmed without an
  average price, and a PAPER cycle. They show that the hypotheses of the executor's theorems
  are met by real runs.
\<close>

subsection \<open>A venue with a profitable ring\<close>

definition cross :: Symbol where
  "cross = \<lparr>base = ''ETH'', quote = ''SOL'', settle = None\<rparr>"

definition eth :: Symbol where
  "eth = \<lparr>base = ''ETH'', quote = ''USDT'', settle = None\<rparr>"

definition sol_book :: OrderBook where
  "sol_book = mk_order_book ''okx'' sol 0 [] [\<lparr>price = 100, amount = 5\<rparr>]"

definition cross_book :: OrderBook where
  "cross_book = mk_order_book ''okx'' cross 0 [] [\<lparr>price = 1 / 2, amount = 5\<rparr>]"

definition eth_book :: OrderBook where
  "eth_book = mk_order_book ''okx'' eth 0 [\<lparr>price = 60, amount = 5\<rparr>] []"

lemma ring_books: "asks sol_book = [\<lparr>price = 100, amount = 5\<rparr>]" "asks cross_book = [\<lparr>price = 1 / 2, amount = 5\<rparr>]"
  "bids eth_book = [\<lparr>price = 60, amount = 5\<rparr>]"
  "book_timestamp sol_book = 0" "book_timestamp cross_book = 0" "book_timestamp eth_book = 0"
  by (simp_all add: sol_book_def cross_book_def eth_book_def mk_order_book_def sort_asks_def sort_bids_def)

definition ring_store :: MarketDataStore where
  "ring_store = (new_store 2000)\<lparr>cached_books :=
     [(quote_key ''okx'' sol SPOT, sol_book), (quote_key ''okx'' cross SPOT, cross_book),
      (quote_key ''okx'' eth SPOT, eth_book)]\<rparr>"

lemma ring_keys:
  "quote_key ''okx'' sol SPOT \<noteq> quote_key ''okx'' cross SPOT"
  "quote_key ''okx'' sol SPOT \<noteq> quote_key ''okx'' eth SPOT"
  "quote_key ''okx'' cross SPOT \<noteq> quote_key ''okx'' eth SPOT"
  by (simp_all add: quote_key_def sol_def cross_def eth_def symbol_name_def)

lemma ring_order_books: "order_book ring_store ''okx'' sol = Some sol_book"
  "order_book ring_store ''okx'' cross = Some cross_book" "order_book ring_store ''okx'' eth = Some eth_book"
  using ring_keys by (auto simp: order_book_def ring_store_def)

lemma ring_fresh: "\<not> is_stale ring_store (age_ms 0 0)"
  by (simp add: is_stale_def is_fresh_age_iff ring_store_def new_store_def)

definition ring_mem :: "(string, wallet) dict \<Rightarrow> Mem" where
  "ring_mem ws = \<lparr>paper_wallets = ws, market_store = ring_store\<rparr>"

definition ring_settings :: "TradingMode \<Rightarrow> TriSettings" where
  "ring_settings md = OrchSettings.extend (paper_settings\<lparr>os_mode := md\<rparr>)
     \<lparr>min_net_at_execute_bps = 10, tri_precision = None\<rparr>"

lemma ring_settings_simps:
  "os_mode (ring_settings md) = md" "base_currency (ring_settings md) = ''USDT''"
  "os_sim (ring_settings md) = \<lparr>sim_taker_fee_bps = 0, sim_max_slippage_bps = 50\<rparr>"
  "min_net_at_execute_bps (ring_settings md) = 10" "tri_precision (ring_settings md) = None"
  "OrchSettings.truncate (ring_settings md) = paper_settings\<lparr>os_mode := md\<rparr>"
  by (simp_all add: ring_settings_def OrchSettings.extend_def OrchSettings.truncate_def paper_settings_def live_settings_def)

definition ring_adapter :: Adapter where
  "ring_adapter = live_adapter\<lparr>
     create_order := (\<lambda>req. Inr
        ((leg_order (req_exchange_id req) (req_symbol req) (req_side req) FILLED (req_amount req) 0)
           \<lparr>filled_amount := req_amount req\<rparr>)),
     fetch_balances := Inr \<lparr>snap_exchange_id = ''okx'',
        balances = [\<lparr>bal_exchange_id = ''okx'', bal_asset = ''USDT'', bal_free = 1000, bal_used = 0\<rparr>]\<rparr>\<rparr>"

definition ring_env :: Env where
  "ring_env = (live_env 0)\<lparr>env_adapter := (\<lambda>v. Inr ring_adapter)\<rparr>"

lemma ring_env_simps: "env_now ring_env = 0" "env_client_id ring_env = ''cat-1''"
  "env_adapter ring_env v = Inr ring_adapter" "env_guard ring_env = new_guard (policy_for LIVE) True"
  by (simp_all add: ring_env_def live_env_def)

lemma ring_book:
  assumes "order_book ring_store ''okx'' symb = Some b" "book_timestamp b = 0"
  shows "tri_fresh_book (ring_settings md) ring_env (ring_mem ws) ''okx'' symb = (Inr b, ring_mem ws)"
  using assms ring_fresh
  by (simp add: tri_fresh_book_def fresh_book_def cached_fresh_def ring_mem_def ring_env_simps)

definition ring_legs :: "ArbitrageLeg list" where
  "ring_legs = map (\<lambda>(symb, sd). \<lparr>leg_exchange_id = ''okx'', leg_symbol = symb, leg_side = sd,
     leg_price = 1, leg_amount = 1, leg_fee_bps = 0, leg_estimate = None\<rparr>) [(sol, BUY), (cross, BUY), (eth, SELL)]"

lemma ring_legs_simps: "length ring_legs = 3" "leg_symbol (ring_legs ! 0) = sol" "leg_symbol (ring_legs ! 1) = cross"
  "leg_symbol (ring_legs ! 2) = eth" "leg_side (ring_legs ! 1) = BUY"
  by (simp_all add: ring_legs_def)

definition ring_opportunity :: ArbitrageOpportunity where
  "ring_opportunity =
     \<lparr>opp_strategy = TRIANGLE, opp_symbol = sol, buy_leg = hd ring_legs, sell_leg = last ring_legs,
      opp_profit = \<lparr>pb_notional_quote = 100, pb_gross_spread_bps = 2000, pb_trading_fees_bps = 0,
        pb_slippage_bps = 0, pb_transfer_bps = 0\<rparr>,
      opp_status = DETECTED, opp_max_notional_quote = 500, opp_data_age_ms = 0, detected_at = 0, expires_at = None,
      opp_notes = [], opp_risk_violations = [],
      size_notional_quote = 100, direction = None, legs_route = ring_legs\<rparr>"

subsection \<open>The preview\<close>

abbreviation ring_sim :: FillSimulator where
  "ring_sim \<equiv> \<lparr>sim_taker_fee_bps = 0, sim_max_slippage_bps = 50\<rparr>"

lemma ring_fill1: "\<exists>f. simulate ring_sim sol_book BUY None (Some 100) = Inr f \<and> \<not> sf_is_rejected f \<and>
    sf_filled_amount f = 1 \<and> sf_quote_amount f = 100"
proof -
  have a: "dmul 1 50 = (50 :: rat)" "ddiv 50 10000 = (1 / 200 :: rat)" "dadd 1 (1 / 200) = (201 / 200 :: rat)"
    "dmul 100 (201 / 200) = (201 / 2 :: rat)" "quantize 8 (201 / 2) = 201 / 2"
    "dmul 100 5 = (500 :: rat)" "ddiv 100 100 = (1 :: rat)" "quantize 8 1 = 1" "fix28 1 = 1" "fix28 100 = 100" "dsub 100 100 = (0 :: rat)"
    "ddiv 0 10000 = (0 :: rat)" "dmul 1 0 = (0 :: rat)" "quantize 8 0 = 0" "dsub 1 0 = (1 :: rat)" "quantize 8 100 = 100"
    by (simp_all add: dec_eval)
  have cap: "price_cap ring_sim BUY 100 = 201 / 2" unfolding price_cap_def Let_def by (simp add: a)
  have "simulate ring_sim sol_book BUY None (Some 100) = Inr (settle_fill ring_sim sol_book BUY False 100 100 1 100)"
    by (simp add: simulate_def book_side_def ring_books cap past_cap_def a)
  moreover have "\<not> sf_is_rejected (settle_fill ring_sim sol_book BUY False 100 100 1 100)"
    "sf_filled_amount (settle_fill ring_sim sol_book BUY False 100 100 1 100) = 1"
    "sf_quote_amount (settle_fill ring_sim sol_book BUY False 100 100 1 100) = 100"
    unfolding settle_fill_def Let_def sf_is_rejected_def by (simp_all add: a)
  ultimately show ?thesis by blast
qed

lemma ring_fill2: "\<exists>f. simulate ring_sim cross_book BUY None (Some 1) = Inr f \<and> \<not> sf_is_rejected f \<and>
    sf_filled_amount f = 2"
proof -
  have a: "dmul 1 50 = (50 :: rat)" "ddiv 50 10000 = (1 / 200 :: rat)" "dadd 1 (1 / 200) = (201 / 200 :: rat)"
    "dmul (1 / 2) (201 / 200) = (201 / 400 :: rat)" "quantize 8 (201 / 400) = 201 / 400"
    "dmul (1 / 2) 5 = (5 / 2 :: rat)" "ddiv 1 (1 / 2) = (2 :: rat)" "quantize 8 2 = 2" "fix28 2 = 2" "fix28 1 = 1"
    "dsub 1 1 = (0 :: rat)" "ddiv 0 10000 = (0 :: rat)" "dmul 2 0 = (0 :: rat)" "quantize 8 0 = 0" "dsub 2 0 = (2 :: rat)"
    by (simp_all add: dec_eval)
  have cap: "price_cap ring_sim BUY (1 / 2) = 201 / 400" unfolding price_cap_def Let_def by (simp add: a)
  have "simulate ring_sim cross_book BUY None (Some 1) = Inr (settle_fill ring_sim cross_book BUY False 1 (1 / 2) 2 1)"
    by (simp add: simulate_def book_side_def ring_books cap past_cap_def a)
  moreover have "\<not> sf_is_rejected (settle_fill ring_sim cross_book BUY False 1 (1 / 2) 2 1)"
    "sf_filled_amount (settle_fill ring_sim cross_book BUY False 1 (1 / 2) 2 1) = 2"
    unfolding settle_fill_def Let_def sf_is_rejected_def by (simp_all add: a)
  ultimately show ?thesis by blast
qed

lemma ring_fill3: "\<exists>f. simulate ring_sim eth_book SELL (Some 2) None = Inr f \<and> \<not> sf_is_rejected f \<and>
    sf_quote_amount f = 120"
proof -
  have a: "dmul (-1) 50 = (-50 :: rat)" "ddiv (-50) 10000 = (- (1 / 200) :: rat)" "dadd 1 (- (1 / 200)) = (199 / 200 :: rat)"
    "dmul 60 (199 / 200) = (597 / 10 :: rat)" "quantize 8 (597 / 10) = 597 / 10"
    "fix28 2 = 2" "dmul 2 60 = (120 :: rat)" "fix28 120 = 120" "dsub 2 2 = (0 :: rat)"
    "ddiv 0 10000 = (0 :: rat)" "dmul 120 0 = (0 :: rat)" "quantize 8 0 = 0" "dsub 120 0 = (120 :: rat)" "quantize 8 120 = 120"
    by (simp_all add: dec_eval)
  have cap: "price_cap ring_sim SELL 60 = 597 / 10" unfolding price_cap_def Let_def by (simp add: a)
  have "simulate ring_sim eth_book SELL (Some 2) None = Inr (settle_fill ring_sim eth_book SELL True 2 60 2 120)"
    by (simp add: simulate_def book_side_def ring_books cap past_cap_def a)
  moreover have "\<not> sf_is_rejected (settle_fill ring_sim eth_book SELL True 2 60 2 120)"
    "sf_quote_amount (settle_fill ring_sim eth_book SELL True 2 60 2 120) = 120"
    unfolding settle_fill_def Let_def sf_is_rejected_def by (simp_all add: a)
  ultimately show ?thesis by blast
qed

lemma ring_preview:
  "preview_cycle (ring_settings md) ring_env (ring_mem ws) ''okx'' ring_legs 100 = (Inr (Some 120), ring_mem ws)"
proof -
  obtain f1 where f1: "simulate ring_sim sol_book BUY None (Some 100) = Inr f1" "\<not> sf_is_rejected f1" "sf_filled_amount f1 = 1"
    using ring_fill1 by blast
  obtain f2 where f2: "simulate ring_sim cross_book BUY None (Some 1) = Inr f2" "\<not> sf_is_rejected f2" "sf_filled_amount f2 = 2"
    using ring_fill2 by blast
  obtain f3 where f3: "simulate ring_sim eth_book SELL (Some 2) None = Inr f3" "\<not> sf_is_rejected f3" "sf_quote_amount f3 = 120"
    using ring_fill3 by blast
  note fresh = ring_book [OF ring_order_books(1) ring_books(4)] ring_book [OF ring_order_books(2) ring_books(5)]
    ring_book [OF ring_order_books(3) ring_books(6)]
  have p: "preview_leg (ring_settings md) ring_env (ring_mem ws) ''okx'' sol BUY None (Some 100) = (Inr (Some f1), ring_mem ws)"
    "preview_leg (ring_settings md) ring_env (ring_mem ws) ''okx'' cross BUY None (Some 1) = (Inr (Some f2), ring_mem ws)"
    "preview_leg (ring_settings md) ring_env (ring_mem ws) ''okx'' eth SELL (Some 2) None = (Inr (Some f3), ring_mem ws)"
    by (simp_all add: preview_leg_def fresh mem_bind_def ring_settings_simps f1 f2 f3)
  have i: "py_index ring_legs 0 = Inr (ring_legs ! 0)" "py_index ring_legs 1 = Inr (ring_legs ! 1)"
    "py_index ring_legs 2 = Inr (ring_legs ! 2)" by (simp_all add: py_index_def ring_legs_simps)
  have "preview_walk (ring_settings md) ring_env (ring_mem ws) ''okx'' ring_legs 100 = (Inr (Some 120), ring_mem ws)"
    unfolding preview_walk_def i
    by (simp add: mem_bind_def ring_legs_simps(2-5) [simplified] p f1 f2 f3 held_after_cross_def)
  then show ?thesis by (simp add: preview_cycle_def)
qed

subsection \<open>A fill without a price\<close>

definition ring_trade :: TradeRecord where
  "ring_trade = opening_trade (ring_settings LIVE) ring_env ''trd-1'' ring_opportunity"

lemma ring_trade_simps: "trd_id ring_trade = ''trd-1''" "trd_exchange_id ring_trade = ''okx''" "trd_orders ring_trade = []"
  by (simp_all add: ring_trade_def opening_trade_def new_trade_def ring_opportunity_def ring_legs_def)

definition ring_request :: OrderRequest where
  "ring_request = \<lparr>req_exchange_id = ''okx'', req_symbol = sol, req_side = BUY, req_order_type = MARKET,
     req_amount = 1, req_price = None, req_client_order_id = ''cat-1''\<rparr>"

definition ring_order :: Order where
  "ring_order = placed_order ring_env ring_adapter ring_request"

lemma ring_order_simps: "ord_status ring_order = FILLED" "filled_amount ring_order = 1" "average_price ring_order = None"
  by (simp_all add: ring_order_def placed_order_def ring_adapter_def leg_order_def new_order_def Let_def ring_request_def)

lemma ring_leg:
  "tri_fill_leg (ring_settings LIVE) ring_env (ring_mem ws) t ''okx'' sol BUY None (Some 100) =
     (Inr (None, ring_order), ring_mem ws, [TSave (noted_trade ring_env t ring_request), TOrder (trd_id t) ring_request])"
proof -
  have "quantize 8 (ddiv 100 100) = 1" by (simp add: dec_eval)
  then show ?thesis
    by (simp add: tri_fill_leg_def ring_env_simps live_can_trade ring_book [OF ring_order_books(1) ring_books(4)]
        ring_settings_simps venue_leg_def tri_venue_amount_def ring_books filtered_request_def
        ring_request_def [symmetric] ring_order_def)
qed

definition ring_failed :: TradeRecord where
  "ring_failed = fail_trade ring_env (absorb_order 0 ring_trade ring_order) ''leg 1 (buy) rejected or empty fill''"

definition ring_log :: "trade_effect list" where
  "ring_log = [TSave ring_trade, TAudit ''TRIANGLE_EXECUTE_STARTED'' (trd_route ring_trade),
     TSave (noted_trade ring_env ring_trade ring_request), TOrder ''trd-1'' ring_request,
     TSave (absorb_order 0 ring_trade ring_order), TSave ring_failed,
     TAudit ''TRIANGLE_EXECUTE_FINISHED'' (trd_route ring_trade)]"

lemma ring_order_filled: "is_confirmed_fill ring_order" "\<not> outcome_unconfirmed ring_order"
  using ring_order_simps by (simp_all add: outcome_defs)

lemma ring_capital: "check_capital (ring_settings LIVE) ring_env (ring_mem ws) ''okx'' 100 = Inr (ring_mem ws)"
proof -
  have "py_upper (py_strip ''USDT'') = ''USDT''" by code_simp
  then show ?thesis
    by (simp add: check_capital_def ring_settings_simps ring_env_simps ring_adapter_def free_of_def balance_get_def Let_def)
qed

lemma ring_execution:
  "execute (ring_settings LIVE) (\<lambda>i. ring_env) (ring_mem []) ''trd-1'' ring_opportunity =
     (ring_failed, ring_mem [], ring_log)"
proof -
  have "leg_view None ring_order = None" by (simp add: leg_view_def venue_fill_view_def ring_order_simps)
  then have "first_leg (ring_settings LIVE) (\<lambda>i. ring_env) (ring_mem []) ring_trade ring_legs 100 =
      (Inr ring_failed, ring_mem [], [TSave (noted_trade ring_env ring_trade ring_request),
         TOrder ''trd-1'' ring_request, TSave (absorb_order 0 ring_trade ring_order)])"
    by (simp add: first_leg_def ring_legs_simps(2) [simplified] ring_trade_simps cycle_leg_def ring_leg trun_bind_def Let_def
        ring_order_filled ring_env_simps ring_failed_def)
  moreover have "\<not> dmul (ddiv (dsub 120 100) 100) 10000 < 10" by (simp add: dec_eval)
  ultimately have "run_cycle (ring_settings LIVE) (\<lambda>i. ring_env) (ring_mem []) ring_trade ring_legs 100 =
      (Inr ring_failed, ring_mem [], [TSave (noted_trade ring_env ring_trade ring_request),
         TOrder ''trd-1'' ring_request, TSave (absorb_order 0 ring_trade ring_order)])"
    by (simp add: run_cycle_def ring_trade_simps ring_preview ring_settings_simps ring_capital)
  moreover have "legs_route ring_opportunity = ring_legs" "size_notional_quote ring_opportunity = 100"
    by (simp_all add: ring_opportunity_def)
  ultimately show ?thesis by (simp add: execute_def ring_trade_def [symmetric] Let_def ring_log_def)
qed

theorem triangle_intent_first_witness:
  "\<exists>u xs ys. ring_log = xs @ TOrder ''trd-1'' ring_request # ys \<and> last xs = TSave u \<and> records u ring_request"
proof -
  let ?xs = "take 3 ring_log" and ?ys = "drop 4 ring_log"
  have "ring_log = ?xs @ TOrder ''trd-1'' ring_request # ?ys" by (simp add: ring_log_def)
  from triangle_intent_first [OF ring_execution this] this show ?thesis by blast
qed

theorem triangle_always_settles_witness:
  "trade_is_terminal ring_failed \<and> last_saved ring_trade ring_log = ring_failed"
  using triangle_always_settles [OF ring_execution, of ring_trade] by blast

lemma ring_failed_simps: "trd_status ring_failed = T_FAILED" "JOrder ring_order \<in> set (trd_orders ring_failed)"
  using absorbed [of ring_order 0 ring_trade] by (simp_all add: ring_failed_def)

theorem failed_triangle_holds_nothing_witness:
  "average_price ring_order = None \<or> the (average_price ring_order) \<le> 0 \<or>
   (\<exists>f. venue_fill_view ring_order = Some f \<and> sf_filled_amount f \<le> 0)"
  by (rule failed_triangle_holds_nothing [OF ring_execution ring_failed_simps ring_order_filled(1)])

theorem unpriced_fill_is_abandoned_witness:
  "\<exists>u fs. first_leg (ring_settings LIVE) (\<lambda>i. ring_env) (ring_mem []) ring_trade ring_legs 100 =
      (Inr u, ring_mem [], [TSave (noted_trade ring_env ring_trade ring_request), TOrder ''trd-1'' ring_request] @ fs) \<and>
    trd_status u = T_FAILED \<and> ring_order \<in> set (held_inventory (trd_orders u))"
proof -
  have leg: "tri_fill_leg (ring_settings LIVE) ring_env (ring_mem []) ring_trade (trd_exchange_id ring_trade)
      (leg_symbol (ring_legs ! 0)) BUY None (Some 100) =
      (Inr (None, ring_order), ring_mem [], [TSave (noted_trade ring_env ring_trade ring_request), TOrder ''trd-1'' ring_request])"
    using ring_leg [of "[]" ring_trade] by (simp add: ring_trade_simps ring_legs_simps(2) [simplified])
  show ?thesis
    using unpriced_fill_is_abandoned [where envs = "\<lambda>i. ring_env", OF leg ring_order_filled(1) ring_order_simps(3)]
    by blast
qed

theorem crash_leaves_the_order_on_record_witness:
  "\<exists>t. get_trade (trades_after [] (take 4 ring_log)) ''trd-1'' = Some t \<and> trd_orders t \<noteq> []"
proof -
  have p: "prefix (take 4 ring_log)
      (snd (snd (execute (ring_settings LIVE) (\<lambda>i. ring_env) (ring_mem []) ''trd-1'' ring_opportunity)))"
    by (simp add: ring_execution take_is_prefix)
  have "0 < orders_in (take 4 ring_log)" by (simp add: ring_log_def)
  from crash_leaves_the_order_on_record [OF p this] show ?thesis .
qed

theorem resume_verdicts_are_sound_witness:
  "\<exists>u. resume_one ring_env (absorb_order 0 ring_trade ring_order) = Inr u \<and> trd_status u \<noteq> EXECUTING"
proof -
  have "trd_orders (absorb_order 0 ring_trade ring_order) = [JOrder ring_order]"
    by (simp add: absorb_order_def ring_trade_simps order_to_json_def Let_def)
  then obtain u where "resume_one ring_env (absorb_order 0 ring_trade ring_order) = Inr u"
    using ring_order_filled by (simp add: resume_one_def)
  then show ?thesis using resume_verdicts_are_sound by blast
qed

theorem resume_leaves_nothing_executing_witness:
  "list_executing (trades_after [(''trd-1'', ring_trade)]
     (snd (resume_open_trades (\<lambda>i. ring_env) [(''trd-1'', ring_trade)]))) = []"
proof -
  have "trades_ok [(''trd-1'', ring_trade)]" by (simp add: trades_ok_def dict_ok_def ring_trade_simps)
  from resume_leaves_nothing_executing [OF this] show ?thesis by blast
qed

subsection \<open>A PAPER cycle\<close>

theorem paper_triangle_pays_twice_witness:
  "\<exists>m1 m2 f order es w2.
     check_capital (ring_settings PAPER) ring_env (ring_mem [(''okx'', [(''USDT'', 1000)])]) ''okx'' 100 = Inr m1 \<and>
     tri_fill_leg (ring_settings PAPER) ring_env m1 ring_trade ''okx'' sol BUY None (Some 100) =
       (Inr (Some f, order), m2, es) \<and>
     dict_get (paper_wallets m2) ''okx'' = Some w2 \<and> free w2 ''USDT'' = 800"
proof -
  let ?w = "[(''USDT'', 1000)]" and ?w1 = "[(''USDT'', 900)]"
  have n: "dsub 1000 100 = (900 :: rat)" "dsub 900 100 = (800 :: rat)" "fix28 1 = 1" by (simp_all add: dec_eval)
  have cap: "check_capital (ring_settings PAPER) ring_env (ring_mem [(''okx'', ?w)]) ''okx'' 100 =
      Inr (ring_mem [(''okx'', ?w1)])"
    by (simp add: check_capital_def ring_settings_simps debit_wallet_def ring_mem_def debit_def asset_keys n Let_def)
  obtain f where f: "simulate ring_sim sol_book BUY None (Some 100) = Inr f" "\<not> sf_is_rejected f"
    "sf_filled_amount f = 1" "sf_quote_amount f = 100" using ring_fill1 by blast
  have q: "quote sol = ''USDT''" "base sol = ''SOL''" by (simp_all add: sol_def)
  have "apply_wallet (ring_mem [(''okx'', ?w1)]) ''okx'' BUY sol f = Inr (ring_mem [(''okx'', [(''USDT'', 800), (''SOL'', 1)])])"
    by (simp add: apply_wallet_def ring_mem_def q f debit_def credit_def asset_keys n Let_def)
  moreover have "os_sim (paper_settings\<lparr>os_mode := PAPER\<rparr>) = ring_sim" by (simp add: paper_settings_def)
  ultimately obtain order where leg: "tri_fill_leg (ring_settings PAPER) ring_env (ring_mem [(''okx'', ?w1)])
      ring_trade ''okx'' sol BUY None (Some 100) =
      (Inr (Some f, order), ring_mem [(''okx'', [(''USDT'', 800), (''SOL'', 1)])], [])"
    using f by (simp add: tri_fill_leg_def ring_env_simps live_can_trade
        ring_book [OF ring_order_books(1) ring_books(4)] ring_settings_simps tri_simulated_leg_def simulated_leg_def)
  have pre: "os_mode (ring_settings PAPER) = PAPER"
    "dict_get (paper_wallets (ring_mem [(''okx'', ?w)])) ''okx'' = Some ?w"
    "asset_key (base sol) \<noteq> asset_key ''USDT''" "(0::rat) < 100" "0 < sf_quote_amount f"
    by (simp_all add: ring_settings_simps ring_mem_def q asset_keys f)
  have "free ?w ''USDT'' = 1000" by (simp add: free_def asset_keys)
  then show ?thesis
    using paper_triangle_pays_twice [OF pre(1,2) q(1) pre(3,4) cap leg pre(5)] cap leg f(4) n by auto
qed

subsection \<open>A scan\<close>

definition ring_scan_settings :: ScanSettings where
  "ring_scan_settings =
     \<lparr>triangle_max_notional_quote = 5000, triangle_min_net_bps = 20, triangle_max_leg_slippage_bps = 50,
      scan_stale_after_ms = 2000,
      scan_fees = \<lparr>sfp_taker_bps = 0, sfp_maker_bps = 0, fee_overrides = []\<rparr>,
      scan_precision = \<lparr>by_venue = [], by_symbol = []\<rparr>\<rparr>"

definition ring_scan_request :: ScanRequest where
  "ring_scan_request = \<lparr>scan_symbols = [sol, eth], scan_notional_quote = 100, scan_min_net_bps = None,
     require_fresh_data = True, max_results = 20, ttl_ms = 1500\<rparr>"

definition ring_est1 :: ExecutionEstimate where
  "ring_est1 = \<lparr>est_side = BUY, requested_amount = 1, est_filled_amount = 1, est_quote_amount = 100,
     est_average_price = 100, est_reference_price = 100, est_slippage_bps = 0, levels_consumed = 1,
     est_is_complete = True, requested_quote = Some 100\<rparr>"

definition ring_est2 :: ExecutionEstimate where
  "ring_est2 = \<lparr>est_side = BUY, requested_amount = 2, est_filled_amount = 2, est_quote_amount = 1,
     est_average_price = 1 / 2, est_reference_price = 1 / 2, est_slippage_bps = 0, levels_consumed = 1,
     est_is_complete = True, requested_quote = Some 1\<rparr>"

definition ring_est3 :: ExecutionEstimate where
  "ring_est3 = \<lparr>est_side = SELL, requested_amount = 2, est_filled_amount = 2, est_quote_amount = 120,
     est_average_price = 60, est_reference_price = 60, est_slippage_bps = 0, levels_consumed = 1,
     est_is_complete = True, requested_quote = None\<rparr>"

lemma ring_estimates:
  "estimate_for_quote_amount sol_book BUY 100 = Inr ring_est1"
  "estimate_for_quote_amount cross_book BUY 1 = Inr ring_est2"
  "estimate_for_base_amount eth_book SELL 2 = Inr ring_est3"
proof -
  have a: "dmul 100 5 = (500 :: rat)" "ddiv 100 100 = (1 :: rat)" "fix28 1 = 1" "fix28 100 = 100" "dsub 100 100 = (0 :: rat)"
    "quantize 8 100 = 100" "floor_amount 1 = 1" "slippage_bps 100 100 BUY = 0" "ddiv 100 1 = (100 :: rat)"
    by (simp_all add: dec_eval floor_amount_def slippage_bps_def)
  show "estimate_for_quote_amount sol_book BUY 100 = Inr ring_est1"
    by (simp add: estimate_for_quote_amount_def book_side_def ring_books a check_estimate_def Let_def ring_est1_def)
  have b: "dmul (1 / 2) 5 = (5 / 2 :: rat)" "ddiv 1 (1 / 2) = (2 :: rat)" "fix28 2 = 2" "fix28 1 = 1" "dsub 1 1 = (0 :: rat)"
    "ddiv 1 2 = (1 / 2 :: rat)" "quantize 8 (1 / 2) = 1 / 2" "quantize 8 1 = 1" "floor_amount 2 = 2"
    "slippage_bps (1 / 2) (1 / 2) BUY = 0"
    by (simp_all add: dec_eval floor_amount_def slippage_bps_def)
  show "estimate_for_quote_amount cross_book BUY 1 = Inr ring_est2"
    by (simp add: estimate_for_quote_amount_def book_side_def ring_books b check_estimate_def Let_def ring_est2_def)
  have c: "dmul 2 60 = (120 :: rat)" "fix28 120 = 120" "dsub 2 2 = (0 :: rat)" "dsub 2 0 = (2 :: rat)" "fix28 2 = 2"
    "ddiv 120 2 = (60 :: rat)" "quantize 8 60 = 60" "quantize 8 120 = 120" "slippage_bps 60 60 SELL = 0"
    by (simp_all add: dec_eval slippage_bps_def)
  show "estimate_for_base_amount eth_book SELL 2 = Inr ring_est3"
    by (simp add: estimate_for_base_amount_def book_side_def ring_books c check_estimate_def Let_def ring_est3_def)
qed

definition ring_walk :: CycleWalk where
  "ring_walk = \<lparr>walk_est1 = ring_est1, walk_amt1 = 1, walk_est2 = ring_est2, walk_amt2 = 2,
     walk_est3 = ring_est3, walk_proceeds = 120\<rparr>"

lemma ring_walked:
  "walk_cycle BUY (sol_book, cross_book, eth_book) 100 (0, 0, 0) (None, None) = Inr (Walked ring_walk)"
proof -
  have r: "estimate_fill_ratio ring_est1 = 1" "estimate_fill_ratio ring_est2 = 1" "estimate_fill_ratio ring_est3 = 1"
    by (simp_all add: estimate_fill_ratio_def ring_est1_def ring_est2_def ring_est3_def dec_eval)
  have f: "after_fee 1 0 = 1" "after_fee 2 0 = 2" "after_fee 120 0 = 120" "quantize 8 120 = 120"
    by (simp_all add: after_fee_def dec_eval)
  have e: "est_filled_amount ring_est1 = 1" "est_filled_amount ring_est2 = 2" "est_quote_amount ring_est3 = 120"
    by (simp_all add: ring_est1_def ring_est2_def ring_est3_def)
  show ?thesis
    by (simp add: walk_cycle_def ring_estimates r e f round_step_down_def full_fill_def Let_def ring_walk_def)
qed

definition ring_route :: TriangleRoute where
  "ring_route = \<lparr>route_exchange_id = ''okx'', route_symbols = (sol, cross, eth), route_side2 = BUY, leg2_book = cross_book\<rparr>"

lemma ring_edge: "middle_edge ''SOL'' ''ETH'' [((''ETH'', ''SOL''), cross_book)] = Inr (Some ring_route)"
proof -
  have "normalise ''SOL'' = Some ''SOL''" "normalise ''ETH'' = Some ''ETH''" "normalise ''USDT'' = Some ''USDT''" by code_simp+
  then show ?thesis
    by (simp add: middle_edge_def mk_symbol_def ring_route_def sol_def eth_def cross_book_def mk_order_book_def)
qed

definition ring_reported :: ArbitrageOpportunity where
  "ring_reported = the (ring_opportunity_of ring_scan_settings 0 ''okx'' ring_route (sol_book, cross_book, eth_book) (0, 0, 0) 1500 ring_walk)"

lemma ring_evaluated:
  "evaluate_ring ring_scan_settings 0 ''okx'' ring_route sol_book eth_book 100 1500 True = Inr (Some ring_reported)"
proof -
  have "py_lower (py_strip ''okx'') = ''okx''" by code_simp
  then have t: "ddiv (taker_bps (fees_for (scan_fees ring_scan_settings) ''okx'')) 10000 = 0"
    by (simp add: fees_for_def ring_scan_settings_def ddiv_def)
  have f: "filters_for (scan_precision ring_scan_settings) ''okx'' nm = None" for nm
    by (simp add: filters_for_def ring_scan_settings_def)
  have o: "\<exists>x. ring_opportunity_of ring_scan_settings 0 ''okx'' ring_route (sol_book, cross_book, eth_book) (0, 0, 0) 1500 ring_walk = Some x"
    by (simp add: ring_opportunity_of_def ring_route_def ring_walk_def ring_est1_def ring_est2_def ring_est3_def
        ring_scan_settings_def Let_def)
  have age: "\<not> raw_age_ms 0 sol_book > 2000" "\<not> raw_age_ms 0 cross_book > 2000" "\<not> raw_age_ms 0 eth_book > 2000"
    by (simp_all add: raw_age_ms_def ring_books)
  have s: "route_symbols ring_route = (sol, cross, eth)" "route_side2 ring_route = BUY" "leg2_book ring_route = cross_book"
    "scan_stale_after_ms ring_scan_settings = 2000" by (simp_all add: ring_route_def ring_scan_settings_def)
  have l: "sizing_loop max_sizing_passes None
      (\<lambda>q0. walk_cycle BUY (sol_book, cross_book, eth_book) q0 (0, 0, 0) (None, None)) 100 = Inr (Some ring_walk)"
    by (simp add: max_sizing_passes_def numeral_eq_Suc ring_walked)
  show ?thesis
    using o age unfolding evaluate_ring_def Let_def t f s by (auto simp: l ring_reported_def)
qed

lemma ring_net: "20 \<le> pb_net_profit_bps (opp_profit ring_reported)"
proof -
  have "opp_profit ring_reported = ring_profit ring_walk (0, 0, 0)"
    by (simp add: ring_reported_def ring_opportunity_of_def ring_route_def ring_walk_def ring_est1_def ring_est2_def
        ring_est3_def ring_scan_settings_def Let_def)
  moreover have "ddiv 120 100 = (6 / 5 :: rat)" "dsub (6 / 5) 1 = (1 / 5 :: rat)" "dmul (1 / 5) 10000 = (2000 :: rat)"
    "quantize 4 2000 = 2000" "fix28 0 = 0" "quantize 4 0 = 0" "fix28 2000 = 2000" "dsub 2000 0 = (2000 :: rat)"
    by (simp_all add: dec_eval)
  ultimately show ?thesis
    by (simp add: ring_profit_def ring_walk_def ring_est1_def ring_est2_def ring_est3_def Let_def
        pb_net_profit_bps_def pb_total_costs_bps_def)
qed

lemma ring_spot_books: "venue_spot_books ring_store 0 ''okx'' True =
    [(''SOL/USDT'', sol_book), (''ETH/SOL'', cross_book), (''ETH/USDT'', eth_book)]"
proof -
  have k: "quote_key ''okx'' sol SPOT = \<lparr>key_exchange_id = ''okx'', key_symbol = ''SOL/USDT'', key_market_type = SPOT\<rparr>"
    "quote_key ''okx'' cross SPOT = \<lparr>key_exchange_id = ''okx'', key_symbol = ''ETH/SOL'', key_market_type = SPOT\<rparr>"
    "quote_key ''okx'' eth SPOT = \<lparr>key_exchange_id = ''okx'', key_symbol = ''ETH/USDT'', key_market_type = SPOT\<rparr>"
    "py_lower ''okx'' = ''okx''"
    unfolding sol_def cross_def eth_def by code_simp+
  have "books ring_store (Some ''okx'') =
      [(''SOL/USDT'', sol_book), (''ETH/SOL'', cross_book), (''ETH/USDT'', eth_book)]"
    by (simp add: books_def ring_store_def k)
  then show ?thesis using ring_fresh by (simp add: venue_spot_books_def ring_books)
qed

lemma ring_sorted: "sort_books [''SOL/USDT'', ''ETH/USDT'']
    [(''SOL/USDT'', sol_book), (''ETH/SOL'', cross_book), (''ETH/USDT'', eth_book)] =
  ([(''SOL'', sol_book), (''ETH'', eth_book)], [((''ETH'', ''SOL''), cross_book)])"
proof -
  have "book_symbol sol_book = sol" "book_symbol cross_book = cross" "book_symbol eth_book = eth"
    by (simp_all add: sol_book_def cross_book_def eth_book_def mk_order_book_def)
  then show ?thesis by (simp add: sort_books_def file_book_def Let_def sol_def cross_def eth_def)
qed

lemma ring_rings:
  "ring_found ring_scan_settings ring_scan_request 0 ''okx'' [((''ETH'', ''SOL''), cross_book)]
     ((''SOL'', sol_book), (''ETH'', eth_book)) = Inr [ring_reported]"
  "\<exists>ys. ring_found ring_scan_settings ring_scan_request 0 ''okx'' [((''ETH'', ''SOL''), cross_book)]
     ((''ETH'', eth_book), (''SOL'', sol_book)) = Inr ys"
proof -
  have "scan_min_net_bps ring_scan_request = None" "triangle_min_net_bps ring_scan_settings = 20"
    "min (scan_notional_quote ring_scan_request) (triangle_max_notional_quote ring_scan_settings) = 100"
    "ttl_ms ring_scan_request = 1500" "require_fresh_data ring_scan_request = True"
    by (simp_all add: ring_scan_request_def ring_scan_settings_def)
  then show "ring_found ring_scan_settings ring_scan_request 0 ''okx'' [((''ETH'', ''SOL''), cross_book)]
     ((''SOL'', sol_book), (''ETH'', eth_book)) = Inr [ring_reported]"
    by (simp add: ring_found_def ring_edge ring_evaluated ring_net Let_def)
  have "normalise ''SOL'' = Some ''SOL''" "normalise ''ETH'' = Some ''ETH''" "normalise ''USDT'' = Some ''USDT''" by code_simp+
  then have "\<exists>r. middle_edge ''ETH'' ''SOL'' [((''ETH'', ''SOL''), cross_book)] = Inr r"
    by (simp add: middle_edge_def mk_symbol_def)
  then show "\<exists>ys. ring_found ring_scan_settings ring_scan_request 0 ''okx'' [((''ETH'', ''SOL''), cross_book)]
     ((''ETH'', eth_book), (''SOL'', sol_book)) = Inr ys"
    by (auto simp: ring_found_def Let_def)
qed

lemma ring_found_length:
  assumes "ring_found s req now venue crosses ((a, b1), (c, b3)) = Inr ys"
  shows "length ys \<le> 1"
proof (cases "a = c")
  case True
  then show ?thesis using assms by (simp add: ring_found_def)
next
  case False
  let ?ev = "\<lambda>r. evaluate_ring s now venue r b1 b3 (min (scan_notional_quote req) (triangle_max_notional_quote s))
      (ttl_ms req) (require_fresh_data req)"
  let ?keep = "\<lambda>r. case ?ev r of
      Inr (Some x) \<Rightarrow> if pb_net_profit_bps (opp_profit x) \<ge>
          (case scan_min_net_bps req of Some m \<Rightarrow> m | None \<Rightarrow> triangle_min_net_bps s) then [x] else [] | _ \<Rightarrow> []"
  obtain route where "ys = (case route of None \<Rightarrow> [] | Some r \<Rightarrow> ?keep r)"
    using assms False by (auto simp: ring_found_def Let_def res_bind_Inr_iff)
  moreover have "length (?keep r) \<le> 1" for r by (simp split: sum.split option.split)
  ultimately show ?thesis by (cases route) simp_all
qed

lemma ring_scanned: "ring_reported \<in> set (scan ring_scan_settings ring_store [''OKX''] ring_scan_request 0)"
proof -
  have w: "map symbol_name (scan_symbols ring_scan_request) = [''SOL/USDT'', ''ETH/USDT'']"
    by (simp add: ring_scan_request_def symbol_name_def sol_def eth_def)
  obtain ys where ys: "ring_found ring_scan_settings ring_scan_request 0 ''okx'' [((''ETH'', ''SOL''), cross_book)]
     ((''ETH'', eth_book), (''SOL'', sol_book)) = Inr ys" using ring_rings(2) by blast
  have len: "length ys \<le> 1"
    using ys by (rule ring_found_length)
  have same: "ring_found ring_scan_settings ring_scan_request 0 ''okx'' cr ((a, b), (a, b)) = Inr []" for cr a b
    by (simp add: ring_found_def)
  have q: "require_fresh_data ring_scan_request = True" "max_results ring_scan_request = 20" by (simp_all add: ring_scan_request_def)
  have v: "scan_venue ring_scan_settings ring_store ring_scan_request 0 [''SOL/USDT'', ''ETH/USDT''] ''okx'' =
      Inr (best_first ([ring_reported] @ ys))"
    by (simp add: scan_venue_def q ring_spot_books ring_sorted same ring_rings(1) ys)
  have "py_lower ''OKX'' = ''okx''" by code_simp
  then have d: "dedup (map py_lower [''OKX'']) = [''okx'']" by (simp add: dedup_def)
  have "scan ring_scan_settings ring_store [''OKX''] ring_scan_request 0 =
      take 20 (best_first (best_first ([ring_reported] @ ys)))"
    unfolding scan_def Let_def w d by (simp add: v py_slice_to_def q)
  moreover have "length (best_first (best_first ([ring_reported] @ ys))) \<le> 20"
    using len by (simp add: best_first_def)
  ultimately show ?thesis by simp
qed

theorem scan_reports_sound_rings_witness:
  "ring_legs_ok ring_scan_settings ''okx'' (legs_route ring_reported) \<and>
   20 \<le> pb_net_profit_bps (opp_profit ring_reported) \<and> opp_data_age_ms ring_reported \<le> 2000"
proof -
  have "py_lower ''OKX'' = ''okx''" by code_simp
  then show ?thesis
    using scan_reports_sound_rings [OF ring_scanned] by (simp add: ring_scan_request_def ring_scan_settings_def)
qed

theorem scan_is_ranked_witness:
  "int (length (scan ring_scan_settings ring_store [''OKX''] ring_scan_request 0)) \<le> 20"
  using scan_is_ranked [of ring_scan_request ring_scan_settings ring_store "[''OKX'']" 0]
  by (simp add: ring_scan_request_def)

theorem reported_net_is_measured_witness:
  "pb_net_profit_bps (ring_profit ring_walk (0, 0, 0)) = 2000"
proof -
  have n: "ddiv 120 100 = (6 / 5 :: rat)" "dsub (6 / 5) 1 = (1 / 5 :: rat)" "dmul (1 / 5) 10000 = (2000 :: rat)"
    "quantize 4 2000 = 2000" by (simp_all add: dec_eval)
  have w: "walk_proceeds ring_walk = 120" "est_quote_amount (walk_est1 ring_walk) = 100"
    by (simp_all add: ring_walk_def ring_est1_def)
  have m: "quantize 4 (dmul (dsub (ddiv (walk_proceeds ring_walk) (est_quote_amount (walk_est1 ring_walk))) 1) 10000) = 2000"
    by (simp add: w n)
  have f: "pb_trading_fees_bps (ring_profit ring_walk (0, 0, 0)) = 0" "pb_slippage_bps (ring_profit ring_walk (0, 0, 0)) = 0"
    by (simp_all add: ring_profit_def Let_def ring_walk_def ring_est1_def ring_est2_def ring_est3_def)
  show ?thesis using reported_net_is_measured [of ring_walk "(0, 0, 0)"] by (simp add: m f)
qed

end
