(* ===== verification/App_Scenarios.thy ===== *)
theory App_Scenarios
  imports Auto_Controller Triangle_Scenarios
begin

text \<open>
  Concrete runs of the services and of the loop: a LIVE transfer and a LIVE triangle that pass
  the risk checks. They show that the hypotheses of the theorems on the services are met.
\<close>

definition live_services :: RiskServices where
  "live_services = sample_services\<lparr>cached_exchange_exposure := [], cached_asset_exposure := []\<rparr>"

definition live_app :: "Mem \<Rightarrow> App" where
  "live_app m = \<lparr>app_risk = live_services, app_trades = [], app_transfers = [], app_mem = m\<rparr>"

lemma live_app_refresh: "app_refresh (live_app m) = live_app m"
  by (simp add: live_app_def app_refresh_def refresh_risk_exposure_def list_open_def open_rows_def
      exposure_maps_for_transfers_def live_services_def sample_services_def new_tracker_def)

lemma live_app_transfers: "app_transfers (live_app m) = store_of []" "app_mem (live_app m) = m"
  "app_risk (live_app m) = live_services" "app_trades (live_app m) = []"
  by (simp_all add: live_app_def store_of_def)

subsection \<open>A transfer\<close>

lemma live_plan_approved: "approved (snd (validate_transfer live_services (env_guard (live_env 0)) 0 sample_plan))"
proof -
  have f: "plan_slippage_bps sample_plan = 5" "plan_data_age_ms sample_plan = Some 300"
    by (simp_all add: sample_plan_def)
  have z: "dneg 0 = 0" by (simp add: dec_eval)
  show ?thesis
    unfolding approved_within within_limits_def transfer_context_def risk_environment_def
      snapshot_def live_services_def sample_services_def live_env_simps
    by (simp add: sample_plan_numbers f z default_limits_def new_tracker_def roll_day_def
        exposure_within_def age_within_def)
qed

lemma start_approved: "approved (chk p) \<Longrightarrow> start s env (Some chk) tid m r p = start s env None tid m r p"
  by (simp add: start_def)

lemma live_start_transfer:
  "\<exists>a'. start_transfer live_settings (live_env 0) ''trf-1'' (live_app live_mem) sample_plan =
     (Inr live_withdrawn, a', map XTransfer live_log)"
  by (simp add: start_transfer_def Let_def live_app_refresh live_app_transfers live_env_simps(3)
      start_approved [of "\<lambda>q. snd (validate_transfer live_services (env_guard (live_env 0)) 0 q)", OF live_plan_approved] live_start)


subsection \<open>A triangle\<close>

lemma ring_approved: "approved (snd (validate_triangle live_services (env_guard ring_env) 0 ring_opportunity))"
proof -
  have z: "dneg 0 = 0" by (simp add: dec_eval)
  have n: "pb_net_profit_bps (opp_profit ring_opportunity) = 2000"
    by (simp add: ring_opportunity_def pb_net_profit_bps_def pb_total_costs_bps_def dec_eval)
  have f: "pb_slippage_bps (opp_profit ring_opportunity) = 0" "opp_data_age_ms ring_opportunity = 0"
    "size_notional_quote ring_opportunity = 100"
    by (simp_all add: ring_opportunity_def)
  show ?thesis
    unfolding triangle_approved_within within_limits_def triangle_context_def risk_environment_def
      snapshot_def live_services_def sample_services_def
    by (simp add: z n f default_limits_def new_tracker_def roll_day_def ring_env_simps
        exposure_within_def age_within_def)
qed

lemma ring_execute_triangle:
  "\<exists>res a'. execute_triangle (ring_settings LIVE) (\<lambda>i. ring_env) ''trd-1'' (live_app (ring_mem [])) ring_opportunity =
     (res, a', map XTrade ring_log)"
proof -
  obtain r ra where v: "validate_triangle live_services (env_guard ring_env) 0 ring_opportunity = (r, ra)" by fastforce
  then have "approved ra" using ring_approved by simp
  then show ?thesis
    using v by (simp add: execute_triangle_def Let_def live_app_transfers ring_env_simps live_can_trade ring_execution)
qed

theorem execute_triangle_respects_limits_witness:
  "XTrade (TOrder ''trd-1'' ring_request) \<in> set (map XTrade ring_log) \<and>
   size_notional_quote ring_opportunity \<le> max_trade_size (svc_limits live_services)"
proof -
  obtain res a' where ex: "execute_triangle (ring_settings LIVE) (\<lambda>i. ring_env) ''trd-1'' (live_app (ring_mem []))
      ring_opportunity = (res, a', map XTrade ring_log)" using ring_execute_triangle by blast
  have "XTrade (TOrder ''trd-1'' ring_request) \<in> set (map XTrade ring_log)" by (simp add: ring_log_def)
  then show ?thesis using execute_triangle_respects_limits [OF ex] by (simp add: live_app_transfers)
qed

subsection \<open>A turn of the loop\<close>

definition loop_settings :: TriSettings where
  "loop_settings = OrchSettings.extend live_settings \<lparr>min_net_at_execute_bps = 10, tri_precision = None\<rparr>"

lemma loop_settings_truncate: "OrchSettings.truncate loop_settings = live_settings"
  by (simp add: loop_settings_def OrchSettings.defs)

definition loop_ids :: "nat \<Rightarrow> string" where
  "loop_ids i = ''trf-1'' @ replicate i (CHR ''x'')"

definition loop_cycle :: CycleInputs where
  "loop_cycle = \<lparr>ci_guard = new_guard (policy_for LIVE) True, ci_strategy = Some ''transfer'',
     ci_opportunities = Inr [], ci_plans = Inr [sample_plan], ci_tri_envs = (\<lambda>i j. live_env 0),
     ci_plan_envs = (\<lambda>i. live_env 0), ci_tick_envs = (\<lambda>i. live_env 0), ci_ids = loop_ids,
     ci_book_ids = (\<lambda>i. ''trd-9''), ci_now = 0\<rparr>"

definition loop_turn :: LoopTurn where
  "loop_turn = \<lparr>lt_stop = False, lt_flag = True, lt_guard = new_guard (policy_for LIVE) True, lt_cycle = loop_cycle\<rparr>"

lemma loop_fresh: "fresh_ids (store_of []) loop_ids"
proof -
  have "inj loop_ids"
  proof (rule injI)
    fix i j assume "loop_ids i = loop_ids j"
    then have "length (loop_ids i) = length (loop_ids j)" by simp
    then show "i = j" by (simp add: loop_ids_def)
  qed
  then show ?thesis by (simp add: fresh_ids_def store_of_def get_record_def)
qed

lemma loop_cycle_run:
  "\<exists>a' fs. auto_cycle loop_settings 1 loop_cycle (live_app live_mem) = (Inr (), a', map XTransfer live_log @ fs)"
proof -
  obtain a1 where st: "start_transfer live_settings (live_env 0) (loop_ids 0) (live_app live_mem) sample_plan =
     (Inr live_withdrawn, a1, map XTransfer live_log)" using live_start_transfer by (auto simp: loop_ids_def)
  have "run_strategy loop_settings 1 loop_cycle (live_app live_mem) = (Inr (), a1, map XTransfer live_log)"
    by (simp add: run_strategy_def loop_cycle_def opt_or_def py_slice_to_def loop_settings_truncate st live_env_simps)
  moreover have "ensure_auto_trading (ci_guard loop_cycle) = Inr ()" by (simp add: loop_cycle_def ensure_auto_trading_def)
  moreover obtain adv a2 fs where "tick_transfers live_settings (ci_tick_envs loop_cycle) (ci_book_ids loop_cycle) (ci_now loop_cycle) a1
      = (adv, a2, fs)" by (metis prod.exhaust)
  ultimately show ?thesis by (simp add: auto_cycle_def loop_settings_truncate)
qed

theorem auto_cycle_is_bounded_witness:
  "\<exists>a' es. auto_cycle loop_settings 1 loop_cycle (live_app live_mem) = (Inr (), a', es) \<and>
     XTransfer live_withdrawal \<in> set es \<and> orders_in (trade_effects es) \<le> 4 \<and>
     (\<forall>tid. get_record (app_transfers a') tid \<noteq> None \<longrightarrow> tid = ''trf-1'')"
proof -
  obtain a' fs where c: "auto_cycle loop_settings 1 loop_cycle (live_app live_mem) = (Inr (), a', map XTransfer live_log @ fs)"
    using loop_cycle_run by blast
  have h: "fresh_ids (app_transfers (live_app live_mem)) (ci_ids loop_cycle)"
    using loop_fresh by (simp add: live_app_transfers loop_cycle_def)
  have b: "orders_in (trade_effects (map XTransfer live_log @ fs)) \<le> 4"
    "get_record (app_transfers a') tid \<noteq> None \<longrightarrow> tid = ''trf-1''" for tid
    using auto_cycle_is_bounded [of 1 loop_settings "[]", OF _ _ live_app_transfers(1) h c] reachable_init
    by (auto simp: live_app_transfers loop_cycle_def loop_ids_def get_record_def store_of_def)
  have "XTransfer live_withdrawal \<in> set (map XTransfer live_log @ fs)" by (simp add: live_log_def)
  with b c show ?thesis by blast
qed

theorem loop_books_each_transfer_once_witness:
  "\<exists>ended a' es. run_forever loop_settings 1 [loop_turn] (live_app live_mem) = (ended, a', es) \<and>
     XTransfer live_withdrawal \<in> set es \<and> app_transfers a' = store_of (transfer_effects es) \<and>
     booked ''trf-1'' es = (if completed (app_transfers a') ''trf-1'' then 1 else 0)"
proof -
  obtain a' fs where c: "auto_cycle loop_settings 1 loop_cycle (live_app live_mem) = (Inr (), a', map XTransfer live_log @ fs)"
    using loop_cycle_run by blast
  let ?es = "map XTransfer live_log @ fs"
  have r: "run_forever loop_settings 1 [loop_turn] (live_app live_mem) = (None, a', ?es)"
    by (simp add: loop_turn_def c)
  have "fresh_turns (store_of []) [loop_turn]" using loop_fresh by (simp add: loop_turn_def loop_cycle_def)
  then have "app_transfers a' = store_of (transfer_effects ?es)"
    "booked ''trf-1'' ?es = (if completed (app_transfers a') ''trf-1'' then 1 else 0)"
    using loop_books_each_transfer_once [of loop_settings "[]", OF _ live_app_transfers(1) _ r, of "''trf-1''"] reachable_init
    by (auto simp: live_app_transfers completed_def get_record_def store_of_def)
  moreover have "XTransfer live_withdrawal \<in> set ?es" by (simp add: live_log_def)
  ultimately show ?thesis using r by blast
qed

theorem disarmed_loop_is_quiet_witness:
  "snd (run_forever loop_settings 1 [loop_turn\<lparr>lt_cycle := loop_cycle\<lparr>ci_guard := new_guard (policy_for LIVE) False\<rparr>\<rparr>]
     (live_app live_mem)) = (live_app live_mem, [])"
  by (rule disarmed_loop_is_quiet) simp

theorem loop_ends_when_told_witness:
  "\<exists>g a' es. run_forever loop_settings 1 [loop_turn, loop_turn\<lparr>lt_flag := False\<rparr>, loop_turn] (live_app live_mem) = (Some g, a', es) \<and>
     \<not> trading_enabled g \<and> XTransfer live_withdrawal \<in> set es"
proof -
  obtain g a' es where r: "run_forever loop_settings 1 ([loop_turn] @ (loop_turn\<lparr>lt_flag := False\<rparr>) # [loop_turn]) (live_app live_mem) = (Some g, a', es)"
    "\<not> trading_enabled g"
    using loop_ends_when_told [of "loop_turn\<lparr>lt_flag := False\<rparr>" loop_settings 1 "[loop_turn]" "[loop_turn]" "live_app live_mem"] by auto
  obtain a1 fs where "auto_cycle loop_settings 1 loop_cycle (live_app live_mem) = (Inr (), a1, map XTransfer live_log @ fs)"
    using loop_cycle_run by blast
  then have "XTransfer live_withdrawal \<in> set es" using r(1) by (auto simp: loop_turn_def live_log_def)
  then show ?thesis using r by auto
qed

end
