(* ===== verification/Transfer_Search.thy ===== *)
theory Transfer_Search
  imports Transfer_Orchestrator
begin

text \<open>
  The search for transfer plans over all routes (\<^verbatim>\<open>TransferOrchestrator.plan\<close>): one
  batch of refreshes for books that are missing or stale, a snapshot of the books, per-cycle
  caches of balances, fees and networks, the verdict on every route, and the ranked plans with
  the counters of the summary line.
\<close>

subsection \<open>What is searched\<close>

definition search_assets :: "string list \<Rightarrow> string option \<Rightarrow> string list" where
  "search_assets configured asset =
     (if truthy_str asset then [py_upper (py_strip (the asset))] else configured)"

definition search_venues :: "string list \<Rightarrow> string option \<Rightarrow> string list" where
  "search_venues enabled venue =
     (if truthy_str venue then [py_lower (py_strip (the venue))] else enabled)"

fun asset_symbols :: "string \<Rightarrow> string list \<Rightarrow> (exn, (string, Symbol) dict) result" where
  "asset_symbols q [] = Inr []"
| "asset_symbols q (a # as) =
     res_bind (mk_symbol a q None) (\<lambda>y. res_bind (asset_symbols q as) (\<lambda>d.
       Inr (if dict_get d a = None then (a, y) # d else d)))"

definition routes :: "Symbol list \<Rightarrow> string list \<Rightarrow> string list \<Rightarrow> (Symbol \<times> string \<times> string) list" where
  "routes ys sources dests =
     concat (map (\<lambda>y. concat (map (\<lambda>src.
       map (\<lambda>dst. (y, src, dst)) (filter (\<lambda>dst. src \<noteq> dst) dests)) sources)) ys)"

subsection \<open>The batch of refreshes\<close>

text \<open>
  The market service, if there is one, refreshes the books of one venue; what it raises is
  swallowed. The venues are refreshed concurrently, each touching its own books.
\<close>

type_synonym book_refresh = "MarketDataStore \<Rightarrow> string \<Rightarrow> Symbol list \<Rightarrow> MarketDataStore"

definition needs_refresh :: "MarketDataStore \<Rightarrow> int \<Rightarrow> string \<Rightarrow> Symbol \<Rightarrow> bool" where
  "needs_refresh st now venue symb =
     (case order_book st venue symb of
        None \<Rightarrow> True
      | Some b \<Rightarrow> is_stale st (age_ms now (book_timestamp b)))"

definition stale_by_venue :: "MarketDataStore \<Rightarrow> int \<Rightarrow> Symbol list \<Rightarrow> string list \<Rightarrow> (string \<times> Symbol list) list" where
  "stale_by_venue st now ys venues = map (\<lambda>v. (v, dedup (filter (needs_refresh st now v) ys))) venues"

definition refreshed_keys :: "(string \<times> Symbol list) list \<Rightarrow> (string \<times> string) list" where
  "refreshed_keys stale = concat (map (\<lambda>(v, ys). map (\<lambda>y. (v, base y)) ys) stale)"

definition batch_refresh :: "book_refresh \<Rightarrow> (string \<times> Symbol list) list \<Rightarrow> MarketDataStore \<Rightarrow> MarketDataStore" where
  "batch_refresh rf stale st = fold (\<lambda>(v, ys) st'. if ys = [] then st' else rf st' v ys) stale st"

definition stale_batch ::
  "book_refresh option \<Rightarrow> MarketDataStore \<Rightarrow> int \<Rightarrow> Symbol list \<Rightarrow> string list \<Rightarrow> (string \<times> Symbol list) list" where
  "stale_batch rf st now ys venues = (case rf of None \<Rightarrow> [] | Some _ \<Rightarrow> stale_by_venue st now ys venues)"

definition after_batch :: "book_refresh option \<Rightarrow> (string \<times> Symbol list) list \<Rightarrow> Mem \<Rightarrow> Mem" where
  "after_batch rf stale m =
     (case rf of None \<Rightarrow> m | Some f \<Rightarrow> m\<lparr>market_store := batch_refresh f stale (market_store m)\<rparr>)"

subsection \<open>The snapshot and the caches\<close>

record SearchCaches =
  book_snapshot :: "(string \<times> string) \<Rightarrow> OrderBook option"
  balance_cache :: "(string, decimal) dict"
  fee_cache :: "(string, decimal) dict"
  network_cache :: "(string \<times> string, WithdrawalNetwork list) dict"
  just_refreshed :: "(string \<times> string) list"

definition cached_networks :: "Env \<Rightarrow> string \<Rightarrow> string \<Rightarrow> (exn, WithdrawalNetwork list) result" where
  "cached_networks env asset venue =
     res_bind (env_adapter env venue) (\<lambda>ad. fetch_withdrawal_networks ad asset)"

definition warm_networks :: "Env \<Rightarrow> string list \<Rightarrow> string list \<Rightarrow> (string \<times> string, WithdrawalNetwork list) dict" where
  "warm_networks env assets venues =
     concat (map (\<lambda>a. map (\<lambda>v. ((a, v), case cached_networks env a v of Inr ns \<Rightarrow> ns | Inl _ \<Rightarrow> [])) venues) assets)"

text \<open>The fee of the first asset stands for all fees of a venue.\<close>

definition fee_probe :: "string \<Rightarrow> (string, Symbol) dict \<Rightarrow> string list \<Rightarrow> Symbol" where
  "fee_probe q ys assets =
     (case assets of
        a # _ \<Rightarrow> the (dict_get ys a)
      | [] \<Rightarrow> \<lparr>base = ''BTC'', quote = q, settle = None\<rparr>)"

definition search_caches ::
  "OrchSettings \<Rightarrow> Env \<Rightarrow> Mem \<Rightarrow> bool \<Rightarrow> string list \<Rightarrow> (string, Symbol) dict \<Rightarrow> string list \<Rightarrow>
   string list \<Rightarrow> (string \<times> string) list \<Rightarrow> SearchCaches" where
  "search_caches s env m single assets ys venues warm refreshed =
     \<lparr>book_snapshot = (\<lambda>(v, a). if v \<in> set venues \<and> a \<in> set assets
         then order_book (market_store m) v (the (dict_get ys a)) else None),
      balance_cache = map (\<lambda>v. (v, available_quote s env m v)) warm,
      fee_cache = map (\<lambda>v. (v, taker_fees env v (fee_probe (base_currency s) ys assets))) warm,
      network_cache = (if single then [] else warm_networks env assets venues),
      just_refreshed = refreshed\<rparr>"

subsection \<open>The verdict on one route\<close>

datatype verdict =
    V_No_Book | V_Stale | V_Invalid_Book | V_Gross_Divergence | V_Network | V_Sizing | V_Pricing
  | V_Below_Threshold | V_Plan TransferPlan

definition snapshot_book :: "Mem \<Rightarrow> SearchCaches \<Rightarrow> Symbol \<Rightarrow> string \<Rightarrow> OrderBook option" where
  "snapshot_book m c symb venue =
     (case book_snapshot c (venue, base symb) of
        Some b \<Rightarrow> Some b
      | None \<Rightarrow> order_book (market_store m) venue symb)"

definition outdated :: "Mem \<Rightarrow> SearchCaches \<Rightarrow> int \<Rightarrow> Symbol \<Rightarrow> string \<Rightarrow> OrderBook \<Rightarrow> bool" where
  "outdated m c now symb venue b \<longleftrightarrow>
     is_stale (market_store m) (age_ms now (book_timestamp b)) \<and> (venue, base symb) \<notin> set (just_refreshed c)"

text \<open>A route looked up alone fetches the networks when it needs them.\<close>

definition route_networks ::
  "Env \<Rightarrow> SearchCaches \<Rightarrow> bool \<Rightarrow> string \<Rightarrow> string \<Rightarrow> (exn, WithdrawalNetwork list) result" where
  "route_networks env c single asset venue =
     (case dict_get (network_cache c) (asset, venue) of
        Some ns \<Rightarrow> Inr ns
      | None \<Rightarrow> if single then cached_networks env asset venue else Inr [])"

definition route_choice ::
  "Env \<Rightarrow> SearchCaches \<Rightarrow> bool \<Rightarrow> string \<Rightarrow> string \<Rightarrow> string \<Rightarrow> RouteNetwork option" where
  "route_choice env c single asset src dst =
     (case (route_networks env c single asset src, route_networks env c single asset dst) of
        (Inr ns, Inr ms) \<Rightarrow>
          if \<not> single \<and> (ns = [] \<or> ms = []) then None
          else (case select ns ms of Inr r \<Rightarrow> Some r | Inl _ \<Rightarrow> None)
      | _ \<Rightarrow> None)"

definition cached_or :: "(string, decimal) dict \<Rightarrow> string \<Rightarrow> decimal \<Rightarrow> decimal" where
  "cached_or d venue fallback = (case dict_get d venue of Some x \<Rightarrow> x | None \<Rightarrow> fallback)"

text \<open>Sizing and pricing; what they raise counts as a pricing failure.\<close>

definition size_route ::
  "OrchSettings \<Rightarrow> OrderBook \<Rightarrow> OrderBook \<Rightarrow> RouteNetwork \<Rightarrow> decimal \<Rightarrow> decimal option \<Rightarrow>
   (verdict, decimal \<times> PricePair) result" where
  "size_route s buy_book sell_book route available amt =
     (case amt of
        Some requested \<Rightarrow>
          (case size_explicit s buy_book sell_book route available requested of
             Inl _ \<Rightarrow> Inl V_Pricing | Inr None \<Rightarrow> Inl V_Sizing | Inr (Some x) \<Rightarrow> Inr x)
      | None \<Rightarrow>
          (case size_by_notional s buy_book sell_book route available of
             Inl _ \<Rightarrow> Inl V_Pricing
           | Inr (Some x) \<Rightarrow> Inr x
           | Inr None \<Rightarrow>
               if \<not> min (min (max_notional_quote s) (os_max_trade_size s)) available < min_notional_quote s \<and>
                  (case asks buy_book of [] \<Rightarrow> 0 | l # _ \<Rightarrow> price l) \<le> 0
               then Inl V_Pricing else Inl V_Sizing))"

definition priced_route ::
  "OrchSettings \<Rightarrow> Env \<Rightarrow> Mem \<Rightarrow> SearchCaches \<Rightarrow> Symbol \<Rightarrow> string \<Rightarrow> string \<Rightarrow> OrderBook \<Rightarrow> OrderBook \<Rightarrow>
   RouteNetwork \<Rightarrow> decimal option \<Rightarrow> verdict" where
  "priced_route s env m c symb src dst buy_book sell_book route amt =
     (let available = cached_or (balance_cache c) src (available_quote s env m src);
          buy_fees = cached_or (fee_cache c) src (taker_fees env src symb);
          sell_fees = cached_or (fee_cache c) dst (taker_fees env dst symb)
      in case size_route s buy_book sell_book route available amt of
           Inl v \<Rightarrow> v
         | Inr (executable, prices) \<Rightarrow>
             (let p = (build_plan src dst (base symb) (rn_network route) executable prices
                         buy_fees sell_fees (rn_withdrawal_fee route) 0)
                        \<lparr>plan_data_age_ms :=
                           older_age (age_ms (env_now env) (book_timestamp buy_book))
                             (age_ms (env_now env) (book_timestamp sell_book))\<rparr>
              in case evaluate_plan (os_min_net_profit_bps s) p of
                   None \<Rightarrow> V_Below_Threshold | Some p' \<Rightarrow> V_Plan p'))"

definition eval_route ::
  "OrchSettings \<Rightarrow> Env \<Rightarrow> Mem \<Rightarrow> SearchCaches \<Rightarrow> bool \<Rightarrow> decimal option \<Rightarrow> Symbol \<times> string \<times> string \<Rightarrow> verdict" where
  "eval_route s env m c single amt rt =
     (case rt of (symb, src, dst) \<Rightarrow>
      case (snapshot_book m c symb src, snapshot_book m c symb dst) of
        (Some buy_book, Some sell_book) \<Rightarrow>
          if outdated m c (env_now env) symb src buy_book \<or> outdated m c (env_now env) symb dst sell_book
          then V_Stale
          else (case route_choice env c single (base symb) src dst of
                  None \<Rightarrow> V_Network
                | Some route \<Rightarrow>
                    (case validate_transfer_books buy_book sell_book (max_transfer_gross_divergence_bps s) of
                       Some reason \<Rightarrow> if reason = ''gross_divergence'' then V_Gross_Divergence else V_Invalid_Book
                     | None \<Rightarrow> priced_route s env m c symb src dst buy_book sell_book route amt))
      | _ \<Rightarrow> V_No_Book)"

subsection \<open>The search\<close>

record SearchSummary =
  sum_total :: nat
  sum_rejected :: "verdict \<Rightarrow> nat"
  sum_plans :: nat
  sum_best_net_bps :: "decimal option"

fun is_plan :: "verdict \<Rightarrow> bool" where
  "is_plan (V_Plan _) = True"
| "is_plan _ = False"

fun planned :: "verdict list \<Rightarrow> TransferPlan list" where
  "planned [] = []"
| "planned (V_Plan p # vs) = p # planned vs"
| "planned (_ # vs) = planned vs"

definition ranked :: "TransferPlan list \<Rightarrow> TransferPlan list" where
  "ranked ps = sort_key (\<lambda>p. - net_profit_bps p) ps"

definition summary_of :: "verdict list \<Rightarrow> TransferPlan list \<Rightarrow> SearchSummary" where
  "summary_of vs ps =
     \<lparr>sum_total = length vs, sum_rejected = (\<lambda>v. if is_plan v then 0 else count_list vs v),
      sum_plans = length (filter is_plan vs),
      sum_best_net_bps = (case ps of [] \<Rightarrow> None | p # _ \<Rightarrow> Some (net_profit_bps p))\<rparr>"

text \<open>
  The clock gives the time at which a route is evaluated; the memory after a search has the
  refreshed books.
\<close>

definition plan_search ::
  "OrchSettings \<Rightarrow> Env \<Rightarrow> (Symbol \<times> string \<times> string \<Rightarrow> int) \<Rightarrow> book_refresh option \<Rightarrow> Mem \<Rightarrow> string list \<Rightarrow>
   string list \<Rightarrow> string option \<Rightarrow> decimal option \<Rightarrow> string option \<Rightarrow> string option \<Rightarrow>
   (exn, TransferPlan list \<times> SearchSummary) result \<times> Mem" where
  "plan_search s env clock rf m configured enabled asset amt source dest =
     (let assets = search_assets configured asset;
          sources = search_venues enabled source; dests = search_venues enabled dest;
          single = (asset \<noteq> None \<and> source \<noteq> None \<and> dest \<noteq> None)
      in case asset_symbols (base_currency s) assets of
           Inl e \<Rightarrow> (Inl e, m)
         | Inr ys \<Rightarrow>
             (let symbs = map (\<lambda>a. the (dict_get ys a)) assets;
                  stale = stale_batch rf (market_store m) (env_now env) symbs enabled;
                  m1 = after_batch rf stale m;
                  c = search_caches s env m1 single assets ys enabled (dedup (sources @ dests))
                        (refreshed_keys stale);
                  vs = map (\<lambda>rt. eval_route s (env\<lparr>env_now := clock rt\<rparr>) m1 c single amt rt)
                         (routes symbs sources dests);
                  ps = ranked (planned vs)
              in (Inr (ps, summary_of vs ps), m1)))"

subsection \<open>Symbols and snapshot\<close>

lemma asset_symbols_get:
  "asset_symbols q as = Inr d \<Longrightarrow>
   dict_get d a = (if a \<in> set as then (case mk_symbol a q None of Inr y \<Rightarrow> Some y | Inl _ \<Rightarrow> None) else None) \<and>
   (a \<in> set as \<longrightarrow> (\<exists>y. mk_symbol a q None = Inr y))"
  by (induction as arbitrary: d) (auto simp: res_bind_Inr_iff split: if_splits)

lemma normal_symbol: "mk_symbol a q None = Inr y \<Longrightarrow> normalise a = Some a \<Longrightarrow> base y = a"
  by (auto simp: mk_symbol_def split: option.splits)

lemma normalise_upper_strip: "normalise x = Some y \<Longrightarrow> normalise y = Some y"
  by (auto simp: normalise_def Let_def py_strip_upper split: if_splits)

definition normal_assets :: "string list \<Rightarrow> bool" where
  "normal_assets as \<longleftrightarrow> (\<forall>a \<in> set as. normalise a = Some a)"

lemma search_assets_normal:
  assumes "normal_assets configured" "asset_symbols q (search_assets configured asset) = Inr d"
  shows "normal_assets (search_assets configured asset)"
proof (cases "truthy_str asset")
  case True
  let ?a = "py_upper (py_strip (the asset))"
  have "?a \<noteq> []"
    using asset_symbols_get [OF assms(2), of ?a] True
    by (auto simp: search_assets_def mk_symbol_def normalise_def Let_def split: option.splits if_splits)
  then show ?thesis using True by (simp add: normal_assets_def search_assets_def normalise_def py_strip_upper Let_def)
qed (use assms in \<open>simp add: search_assets_def\<close>)

text \<open>The symbols of a search, each found under its own base.\<close>

lemma searched_symbol:
  assumes "asset_symbols q as = Inr d" "normal_assets as" "y \<in> set (map (\<lambda>a. the (dict_get d a)) as)"
  shows "base y \<in> set as \<and> dict_get d (base y) = Some y \<and> mk_symbol (base y) q None = Inr y"
proof -
  obtain a where a: "a \<in> set as" "y = the (dict_get d a)" using assms(3) by auto
  obtain z where z: "mk_symbol a q None = Inr z" "dict_get d a = Some z"
    using asset_symbols_get [OF assms(1), of a] a(1) by auto
  have "base z = a" using normal_symbol [OF z(1)] assms(2) a(1) by (simp add: normal_assets_def)
  then show ?thesis using a z by auto
qed

lemma snapshot_is_store:
  assumes "dict_get d (base y) = Some y"
  shows "snapshot_book m (search_caches s env m single as d venues warm fresh) y v = order_book (market_store m) v y"
  using assms by (auto simp: snapshot_book_def search_caches_def split: option.splits)

lemma routes_mem: "(y, src, dst) \<in> set (routes ys sources dests) \<longleftrightarrow> y \<in> set ys \<and> src \<in> set sources \<and> dst \<in> set dests \<and> src \<noteq> dst"
  by (auto simp: routes_def)

lemma set_planned: "p \<in> set (planned vs) \<longleftrightarrow> V_Plan p \<in> set vs"
  by (induction vs rule: planned.induct) auto

lemma set_ranked [simp]: "set (ranked ps) = set ps"
  by (simp add: ranked_def)

lemma sorted_ranked: "sorted_wrt (\<lambda>x y. net_profit_bps y \<le> net_profit_bps x) (ranked ps)"
proof -
  have "sorted (map (\<lambda>p. - net_profit_bps p) (ranked ps))" by (simp add: ranked_def)
  then show ?thesis by (simp add: sorted_map sorted_wrt_map)
qed

lemma warm_networks_get:
  "dict_get (warm_networks env as vs) (a, v) =
     (if a \<in> set as \<and> v \<in> set vs then Some (case cached_networks env a v of Inr ns \<Rightarrow> ns | Inl _ \<Rightarrow> []) else None)"
proof -
  have inner: "dict_get (map (\<lambda>v. ((b, v), f v)) vs @ d) (a, v) =
      (if a = b \<and> v \<in> set vs then Some (f v) else dict_get d (a, v))" for b and f :: "string \<Rightarrow> WithdrawalNetwork list" and d
    by (induction vs) auto
  show ?thesis unfolding warm_networks_def
    by (induction as) (simp_all add: inner)
qed

lemma dict_get_map_fun: "dict_get (map (\<lambda>v. (v, f v)) vs) v = (if v \<in> set vs then Some (f v) else None)"
  by (induction vs) auto

subsection \<open>What the plans promise\<close>

text \<open>A plan that survived everything between its route and the ranking.\<close>

lemma eval_route_plan:
  assumes "eval_route s env m c single amt (y, src, dst) = V_Plan p"
  obtains buy_book sell_book route where
    "snapshot_book m c y src = Some buy_book" "snapshot_book m c y dst = Some sell_book"
    "\<not> outdated m c (env_now env) y src buy_book" "\<not> outdated m c (env_now env) y dst sell_book"
    "route_choice env c single (base y) src dst = Some route"
    "validate_transfer_books buy_book sell_book (max_transfer_gross_divergence_bps s) = None"
    "priced_route s env m c y src dst buy_book sell_book route amt = V_Plan p"
  using assms by (auto simp: eval_route_def split: option.splits if_splits)

lemma size_route_plan [simp]: "size_route s buy_book sell_book route available amt \<noteq> Inl (V_Plan p)"
  by (auto simp: size_route_def split: option.splits sum.splits)

lemma priced_route_plan:
  assumes "priced_route s env m c y src dst buy_book sell_book route amt = V_Plan p"
  shows "plan_source p = src \<and> plan_dest p = dst \<and> plan_asset p = base y \<and> plan_network p = rn_network route \<and>
    0 < plan_amount p \<and> 0 < plan_buy_price p \<and> 0 < plan_sell_price p \<and>
    os_min_net_profit_bps s \<le> net_profit_bps p \<and> plan_withdrawal_fee p = rn_withdrawal_fee route \<and>
    plan_data_age_ms p = older_age (age_ms (env_now env) (book_timestamp buy_book))
                           (age_ms (env_now env) (book_timestamp sell_book))"
  using assms by (auto simp: priced_route_def Let_def build_plan_def evaluate_plan_def
      split: sum.splits option.splits if_splits prod.splits)

lemma route_choice_sound:
  assumes "route_choice env c single a src dst = Some r"
    "c = search_caches s env' m single as d venues warm fresh" "\<And>v. cached_networks env a v = cached_networks env' a v"
  obtains ns ms where "cached_networks env a src = Inr ns" "cached_networks env a dst = Inr ms" "select ns ms = Inr r"
proof -
  have net: "\<exists>ns. cached_networks env a v = Inr ns \<and> route_networks env c single a v = Inr ns"
    if "route_networks env c single a v = Inr xs" "xs \<noteq> [] \<or> single" for v xs
    using that assms(2,3) warm_networks_get [of env' as venues a v]
    by (cases single) (auto simp: route_networks_def search_caches_def split: option.splits if_splits sum.splits)
  obtain xs ys where x: "route_networks env c single a src = Inr xs" "route_networks env c single a dst = Inr ys"
    "single \<or> xs \<noteq> [] \<and> ys \<noteq> []" "select xs ys = Inr r"
    using assms(1) by (auto simp: route_choice_def split: sum.splits if_splits)
  then show thesis using net [OF x(1)] net [OF x(2)] that by auto
qed

text \<open>A search that returns: its symbols, its batch, its caches and its verdicts.\<close>

lemma plan_search_unfold:
  assumes "plan_search s env clock rf m configured enabled asset amt source dest = (Inr (ps, sm), m1)"
    "normal_assets configured" "single \<longleftrightarrow> asset \<noteq> None \<and> source \<noteq> None \<and> dest \<noteq> None"
  obtains d ys c where "asset_symbols (base_currency s) (search_assets configured asset) = Inr d"
    "\<And>y. y \<in> set ys \<Longrightarrow> base y \<in> set (search_assets configured asset) \<and> dict_get d (base y) = Some y \<and>
       mk_symbol (base y) (base_currency s) None = Inr y"
    "m1 = after_batch rf (stale_batch rf (market_store m) (env_now env) ys enabled) m"
    "c = search_caches s env m1 single (search_assets configured asset) d enabled
       (dedup (search_venues enabled source @ search_venues enabled dest))
       (refreshed_keys (stale_batch rf (market_store m) (env_now env) ys enabled))"
    "ps = ranked (planned (map (\<lambda>rt. eval_route s (env\<lparr>env_now := clock rt\<rparr>) m1 c single amt rt)
       (routes ys (search_venues enabled source) (search_venues enabled dest))))"
    "ys = map (\<lambda>a. projr (mk_symbol a (base_currency s) None)) (search_assets configured asset)"
proof -
  obtain d where d: "asset_symbols (base_currency s) (search_assets configured asset) = Inr d"
    using assms(1) by (auto simp: plan_search_def Let_def split: sum.splits)
  let ?ys = "map (\<lambda>a. the (dict_get d a)) (search_assets configured asset)"
  have "?ys = map (\<lambda>a. projr (mk_symbol a (base_currency s) None)) (search_assets configured asset)"
    using asset_symbols_get [OF d] by (fastforce split: sum.splits)
  then show thesis
    using assms(1,3) d
    by (intro that [OF d _ _ refl, of ?ys] searched_symbol [OF d search_assets_normal [OF assms(2) d]])
      (auto simp: plan_search_def Let_def)
qed

lemma was_stale:
  assumes "(v, base y) \<in> set (refreshed_keys (stale_batch rf st now ys venues))"
    "\<And>z. z \<in> set ys \<Longrightarrow> base z = base y \<Longrightarrow> z = y"
  shows "rf \<noteq> None \<and> v \<in> set venues \<and> needs_refresh st now v y"
proof (cases rf)
  case (Some f)
  then obtain z where z: "v \<in> set venues" "z \<in> set ys" "needs_refresh st now v z" "base z = base y"
    using assms(1) by (auto simp: refreshed_keys_def stale_batch_def stale_by_venue_def dedup_def)
  have "z = y" using assms(2) [OF z(2,4)] .
  then show ?thesis using z Some by simp
qed (use assms(1) in \<open>simp add: refreshed_keys_def stale_batch_def\<close>)

text \<open>
  The books a plan was priced from: cached, sane, and each either fresh when the route was
  evaluated or named in the batch of refreshes of this search.
\<close>

definition priced_from ::
  "OrchSettings \<Rightarrow> bool \<Rightarrow> MarketDataStore \<Rightarrow> MarketDataStore \<Rightarrow> int \<Rightarrow> int \<Rightarrow> string list \<Rightarrow> Symbol \<Rightarrow> TransferPlan \<Rightarrow> bool" where
  "priced_from s market st0 st t0 t enabled y p \<longleftrightarrow>
     (\<exists>b a. order_book st (plan_source p) y = Some b \<and> order_book st (plan_dest p) y = Some a \<and>
        validate_transfer_books b a (max_transfer_gross_divergence_bps s) = None \<and>
        plan_data_age_ms p = older_age (age_ms t (book_timestamp b)) (age_ms t (book_timestamp a)) \<and>
        (\<forall>(v, x) \<in> {(plan_source p, b), (plan_dest p, a)}.
           is_fresh st (age_ms t (book_timestamp x)) \<or> market \<and> v \<in> set enabled \<and> needs_refresh st0 t0 v y))"

lemma search_plan_origin:
  assumes "plan_search s env clock rf m configured enabled asset amt source dest = (Inr (ps, sm), m1)"
    "normal_assets configured" "p \<in> set ps"
  shows "\<exists>y r ns ms. mk_symbol (plan_asset p) (base_currency s) None = Inr y \<and>
    plan_asset p \<in> set (search_assets configured asset) \<and> plan_source p \<noteq> plan_dest p \<and>
    plan_source p \<in> set (search_venues enabled source) \<and> plan_dest p \<in> set (search_venues enabled dest) \<and>
    cached_networks env (plan_asset p) (plan_source p) = Inr ns \<and>
    cached_networks env (plan_asset p) (plan_dest p) = Inr ms \<and> select ns ms = Inr r \<and>
    plan_network p = rn_network r \<and> plan_withdrawal_fee p = rn_withdrawal_fee r \<and>
    priced_from s (rf \<noteq> None) (market_store m) (market_store m1) (env_now env)
      (clock (y, plan_source p, plan_dest p)) enabled y p \<and>
    0 < plan_amount p \<and> os_min_net_profit_bps s \<le> net_profit_bps p \<and>
    sorted_wrt (\<lambda>x y. net_profit_bps y \<le> net_profit_bps x) ps"
proof -
  define single where "single \<longleftrightarrow> asset \<noteq> None \<and> source \<noteq> None \<and> dest \<noteq> None"
  obtain d ys c where d: "asset_symbols (base_currency s) (search_assets configured asset) = Inr d"
    and ys: "\<And>y. y \<in> set ys \<Longrightarrow> base y \<in> set (search_assets configured asset) \<and> dict_get d (base y) = Some y \<and>
       mk_symbol (base y) (base_currency s) None = Inr y"
    and m1: "m1 = after_batch rf (stale_batch rf (market_store m) (env_now env) ys enabled) m"
    and c: "c = search_caches s env m1 single (search_assets configured asset) d enabled
       (dedup (search_venues enabled source @ search_venues enabled dest))
       (refreshed_keys (stale_batch rf (market_store m) (env_now env) ys enabled))"
    and ps: "ps = ranked (planned (map (\<lambda>rt. eval_route s (env\<lparr>env_now := clock rt\<rparr>) m1 c single amt rt)
       (routes ys (search_venues enabled source) (search_venues enabled dest))))"
    by (rule plan_search_unfold [OF assms(1,2) single_def]) blast
  obtain y src dst where y: "y \<in> set ys" "src \<in> set (search_venues enabled source)" "dst \<in> set (search_venues enabled dest)" "src \<noteq> dst"
    and plan: "eval_route s (env\<lparr>env_now := clock (y, src, dst)\<rparr>) m1 c single amt (y, src, dst) = V_Plan p"
    using assms(3) unfolding ps by (auto simp: set_planned routes_mem)
  obtain b a r where e: "snapshot_book m1 c y src = Some b" "snapshot_book m1 c y dst = Some a"
    "\<not> outdated m1 c (clock (y, src, dst)) y src b" "\<not> outdated m1 c (clock (y, src, dst)) y dst a"
    "route_choice (env\<lparr>env_now := clock (y, src, dst)\<rparr>) c single (base y) src dst = Some r"
    "validate_transfer_books b a (max_transfer_gross_divergence_bps s) = None"
    "priced_route s (env\<lparr>env_now := clock (y, src, dst)\<rparr>) m1 c y src dst b a r amt = V_Plan p"
    by (rule eval_route_plan [OF plan]) simp
  note pr = priced_route_plan [OF e(7)]
  have books: "order_book (market_store m1) src y = Some b" "order_book (market_store m1) dst y = Some a"
    using e(1,2) ys [OF y(1)] unfolding c by (simp_all add: snapshot_is_store)
  have same: "z = y" if "z \<in> set ys" "base z = base y" for z
    using ys [OF that(1)] ys [OF y(1)] that(2) by (metis option.inject)
  have fresh: "is_fresh (market_store m1) (age_ms (clock (y, src, dst)) (book_timestamp x)) \<or>
      rf \<noteq> None \<and> v \<in> set enabled \<and> needs_refresh (market_store m) (env_now env) v y"
    if "\<not> outdated m1 c (clock (y, src, dst)) y v x" for v x
  proof -
    have "just_refreshed c = refreshed_keys (stale_batch rf (market_store m) (env_now env) ys enabled)"
      unfolding c search_caches_def by simp
    then show ?thesis
      using that was_stale [where y = y and ys = ys and v = v and rf = rf and st = "market_store m" and now = "env_now env"
          and venues = enabled, OF _ same]
      unfolding outdated_def is_stale_def by metis
  qed
  obtain ns ms where nets: "cached_networks env (base y) src = Inr ns" "cached_networks env (base y) dst = Inr ms" "select ns ms = Inr r"
    using route_choice_sound [OF e(5) c] by (auto simp: cached_networks_def)
  have priced: "priced_from s (rf \<noteq> None) (market_store m) (market_store m1) (env_now env) (clock (y, src, dst)) enabled y p"
    unfolding priced_from_def using books e(6) pr fresh [OF e(3)] fresh [OF e(4)] by auto
  have "sorted_wrt (\<lambda>x y. net_profit_bps y \<le> net_profit_bps x) ps" unfolding ps by (rule sorted_ranked)
  then show ?thesis
    using ys [OF y(1)] y(2-4) pr nets priced
    by (intro exI [of _ y] exI [of _ r] exI [of _ ns] exI [of _ ms]) simp
qed

text \<open>C13 (search_plans_are_sound).
  Every plan the search reports is for a wanted asset, between two different wanted venues, over
  the network the selector picks among those the venues publish, priced from sane books that were
  fresh or named in this search's batch of refreshes, and with a net profit at or above the
  configured minimum; plans are ranked by net profit, best first.\<close>

theorem search_plans_are_sound:
  assumes "plan_search s env clock rf m configured enabled asset amt source dest = (Inr (ps, sm), m1)"
    "normal_assets configured" "p \<in> set ps"
  shows "\<exists>y r ns ms. mk_symbol (plan_asset p) (base_currency s) None = Inr y \<and>
    plan_asset p \<in> set (search_assets configured asset) \<and> plan_source p \<noteq> plan_dest p \<and>
    plan_source p \<in> set (search_venues enabled source) \<and> plan_dest p \<in> set (search_venues enabled dest) \<and>
    cached_networks env (plan_asset p) (plan_source p) = Inr ns \<and>
    cached_networks env (plan_asset p) (plan_dest p) = Inr ms \<and> select ns ms = Inr r \<and>
    plan_network p = rn_network r \<and> plan_withdrawal_fee p = rn_withdrawal_fee r \<and>
    priced_from s (rf \<noteq> None) (market_store m) (market_store m1) (env_now env)
      (clock (y, plan_source p, plan_dest p)) enabled y p \<and>
    0 < plan_amount p \<and> os_min_net_profit_bps s \<le> net_profit_bps p \<and>
    sorted_wrt (\<lambda>x y. net_profit_bps y \<le> net_profit_bps x) ps"
  by (rule search_plan_origin [OF assms])

text \<open>(failed_refresh_goes_unnoticed).
  A book that was stale when the search began is never found stale by a route of it, however old
  it is by then and whether its refresh succeeded or not.\<close>

theorem failed_refresh_goes_unnoticed:
  assumes "c = search_caches s env m single as d venues warm (refreshed_keys (stale_batch (Some f) st now ys venues))"
    "y \<in> set ys" "v \<in> set venues" "needs_refresh st now v y"
  shows "\<not> outdated m c t y v b"
  using assms(2-4) unfolding assms(1)
  by (auto simp: outdated_def search_caches_def refreshed_keys_def stale_batch_def stale_by_venue_def dedup_def)

subsection \<open>The search against one route at a time\<close>

definition networks_pair :: "Env \<Rightarrow> string \<Rightarrow> string \<Rightarrow> string \<Rightarrow> (exn, RouteNetwork) result" where
  "networks_pair env asset src dst =
     res_bind (env_adapter env src) (\<lambda>ad. res_bind (fetch_withdrawal_networks ad asset) (\<lambda>ns.
       res_bind (env_adapter env dst) (\<lambda>ad'. res_bind (fetch_withdrawal_networks ad' asset) (select ns))))"

lemma select_empty [simp]: "select [] ms \<noteq> Inr r" "select ns [] \<noteq> Inr r"
  by (simp_all add: select_def)

lemma route_choice_networks:
  assumes "c = search_caches s env m single as d venues warm fresh" "a \<in> set as" "src \<in> set venues" "dst \<in> set venues"
  shows "route_choice env c single a src dst = (case networks_pair env a src dst of Inr r \<Rightarrow> Some r | Inl _ \<Rightarrow> None)"
proof -
  have pair: "networks_pair env a src dst =
      res_bind (cached_networks env a src) (\<lambda>ns. res_bind (cached_networks env a dst) (select ns))"
    unfolding networks_pair_def cached_networks_def res_bind_def by (auto split: sum.splits)
  have nets: "route_networks env c single a v = (if single then cached_networks env a v
      else Inr (case cached_networks env a v of Inr ns \<Rightarrow> ns | Inl _ \<Rightarrow> []))" if "v \<in> set venues" for v
    using that assms(2) unfolding route_networks_def assms(1)
    by (simp add: search_caches_def warm_networks_get split: option.splits)
  show ?thesis
    unfolding route_choice_def pair nets [OF assms(3)] nets [OF assms(4)]
    by (auto simp: res_bind_def split: sum.splits)
qed

fun plan_of :: "(exn, TransferPlan option) result \<Rightarrow> TransferPlan list" where
  "plan_of (Inr (Some p)) = [p]"
| "plan_of _ = []"

lemma priced_route_pair:
  assumes "cached_or (balance_cache c) src (available_quote s env m src) = available_quote s env m src"
    "cached_or (fee_cache c) src (taker_fees env src y) = taker_fees env src y"
    "cached_or (fee_cache c) dst (taker_fees env dst y) = taker_fees env dst y"
  shows "planned [priced_route s env m c y src dst b a route amt] = plan_of (route_plan s env m y src dst b a route amt)"
  unfolding priced_route_def route_plan_def assms Let_def size_route_def
  by (auto simp: res_bind_def split: option.splits sum.splits)

lemma eval_route_pair:
  assumes "c = search_caches s env m single as d venues warm fresh"
    "dict_get d (base y) = Some y" "base y \<in> set as" "src \<in> set venues" "dst \<in> set venues" "src \<in> set warm" "dst \<in> set warm"
    "cached_fresh env m src y \<noteq> None" "cached_fresh env m dst y \<noteq> None"
    "\<And>v x z. taker_fees env v x = taker_fees env v z"
  shows "planned [eval_route s env m c single amt (y, src, dst)] = plan_of (fst (plan_pair s env m y src dst amt))"
proof -
  obtain b a where books: "order_book (market_store m) src y = Some b" "order_book (market_store m) dst y = Some a"
    and cf: "cached_fresh env m src y = Some b" "cached_fresh env m dst y = Some a"
    and ok: "\<not> outdated m c (env_now env) y src b" "\<not> outdated m c (env_now env) y dst a"
    using assms(8,9) by (auto simp: cached_fresh_def outdated_def split: option.splits if_splits)
  have snap: "snapshot_book m c y src = Some b" "snapshot_book m c y dst = Some a"
    unfolding assms(1) using books snapshot_is_store [OF assms(2)] by simp_all
  have choice: "route_choice env c single (base y) src dst =
      (case networks_pair env (base y) src dst of Inr r \<Rightarrow> Some r | Inl _ \<Rightarrow> None)"
    by (rule route_choice_networks [OF assms(1,3,4,5)])
  have fresh: "fresh_book s env m src y = (Inr b, m)" "fresh_book s env m dst y = (Inr a, m)"
    using cf by (simp_all add: fresh_book_def)
  have pr: "planned [priced_route s env m c y src dst b a route amt] = plan_of (route_plan s env m y src dst b a route amt)" for route
    by (rule priced_route_pair)
      (use assms(6,7,10) in \<open>simp_all add: assms(1) search_caches_def cached_or_def dict_get_map_fun\<close>)
  have pair: "plan_pair s env m y src dst amt =
      (case networks_pair env (base y) src dst of
         Inl _ \<Rightarrow> (Inr None, m)
       | Inr route \<Rightarrow>
           if validate_transfer_books b a (max_transfer_gross_divergence_bps s) \<noteq> None then (Inr None, m)
           else (route_plan s env m y src dst b a route amt, m))"
    by (simp add: plan_pair_def fresh networks_pair_def)
  show ?thesis
    unfolding eval_route_def pair using snap ok choice pr
    by (auto split: sum.splits option.splits)
qed

lemma planned_concat: "planned vs = concat (map (\<lambda>v. planned [v]) vs)"
  by (induction vs rule: planned.induct) auto

text \<open>C15 (search_agrees_with_single_routes).
  The batched search with its snapshot and caches finds exactly the plans that looking at each
  route on its own would find, in the order of their net profit, whenever the books are fresh
  after the batch, no time passes, and a venue charges every symbol the same fee.\<close>

theorem search_agrees_with_single_routes:
  assumes "plan_search s env (\<lambda>_. env_now env) rf m configured enabled asset amt source dest = (Inr (ps, sm), m1)"
    "normal_assets configured" "set (search_venues enabled source) \<union> set (search_venues enabled dest) \<subseteq> set enabled"
    "\<And>v x z. taker_fees env v x = taker_fees env v z"
    "\<And>a v y. a \<in> set (search_assets configured asset) \<Longrightarrow> v \<in> set enabled \<Longrightarrow> mk_symbol a (base_currency s) None = Inr y \<Longrightarrow>
       cached_fresh env m1 v y \<noteq> None"
  shows "ps = ranked (concat (map (\<lambda>(y, src, dst). plan_of (fst (plan_pair s env m1 y src dst amt)))
    (routes (map (\<lambda>a. projr (mk_symbol a (base_currency s) None)) (search_assets configured asset))
      (search_venues enabled source) (search_venues enabled dest))))"
proof -
  define single where "single \<longleftrightarrow> asset \<noteq> None \<and> source \<noteq> None \<and> dest \<noteq> None"
  obtain d ys c where d: "asset_symbols (base_currency s) (search_assets configured asset) = Inr d"
    and ys: "\<And>y. y \<in> set ys \<Longrightarrow> base y \<in> set (search_assets configured asset) \<and> dict_get d (base y) = Some y \<and>
       mk_symbol (base y) (base_currency s) None = Inr y"
    and c: "c = search_caches s env m1 single (search_assets configured asset) d enabled
       (dedup (search_venues enabled source @ search_venues enabled dest))
       (refreshed_keys (stale_batch rf (market_store m) (env_now env) ys enabled))"
    and ps: "ps = ranked (planned (map (\<lambda>rt. eval_route s (env\<lparr>env_now := env_now env\<rparr>) m1 c single amt rt)
       (routes ys (search_venues enabled source) (search_venues enabled dest))))"
    and y_def: "ys = map (\<lambda>a. projr (mk_symbol a (base_currency s) None)) (search_assets configured asset)"
    by (rule plan_search_unfold [OF assms(1,2) single_def]) blast
  have one: "planned [eval_route s env m1 c single amt rt] = (case rt of (y, src, dst) \<Rightarrow> plan_of (fst (plan_pair s env m1 y src dst amt)))"
    if "rt \<in> set (routes ys (search_venues enabled source) (search_venues enabled dest))" for rt
  proof -
    obtain y src dst where rt: "rt = (y, src, dst)" by (cases rt)
    have mem: "y \<in> set ys" "src \<in> set (search_venues enabled source)" "dst \<in> set (search_venues enabled dest)"
      using that by (simp_all add: rt routes_mem)
    then have en: "src \<in> set enabled" "dst \<in> set enabled" using assms(3) by auto
    have "planned [eval_route s env m1 c single amt (y, src, dst)] = plan_of (fst (plan_pair s env m1 y src dst amt))"
      using ys [OF mem(1)] mem en assms(4,5)
      by (intro eval_route_pair [OF c]) (auto simp: dedup_def)
    then show ?thesis by (simp add: rt)
  qed
  show ?thesis
    unfolding ps y_def [symmetric] planned_concat [of "map _ _"] map_map comp_def
    by (intro arg_cong [where f = ranked] arg_cong [where f = concat] map_cong refl) (simp add: one)
qed

end
