(* ===== verification/App_Planning.thy ===== *)
theory App_Planning
  imports App_Scenarios Transfer_Search
begin

text \<open>
  Planning and starting transfers through the services: the search over fresh market data, and
  what the risk check of a start makes of the age of the data a plan was priced from.
\<close>

text \<open>\<^verbatim>\<open>AppServices.plan_transfers\<close>: the market data are refreshed, then the routes searched.\<close>

definition plan_transfers ::
  "OrchSettings \<Rightarrow> Env \<Rightarrow> (Symbol \<times> string \<times> string \<Rightarrow> int) \<Rightarrow> book_refresh \<Rightarrow> Mem \<Rightarrow> MarketDataService \<Rightarrow>
   int \<Rightarrow> rat \<Rightarrow> Symbol list \<Rightarrow> Answer list \<Rightarrow> string list \<Rightarrow> string option \<Rightarrow> decimal option \<Rightarrow>
   string option \<Rightarrow> string option \<Rightarrow>
   (exn, TransferPlan list \<times> SearchSummary) result \<times> Mem \<times> MarketDataService" where
  "plan_transfers s env clock rf m mds now ms watch answers configured asset amt source dest =
     (let mds1 = ensure_market_data mds now ms watch answers in
      case plan_search s env clock (Some rf) (m\<lparr>market_store := mds_store mds1\<rparr>) configured
             (enabled_ids (mds_manager mds1)) asset amt source dest of
        (res, m1) \<Rightarrow> (res, m1, mds1\<lparr>mds_store := market_store m1\<rparr>))"

lemma older_age_within:
  "age_within (older_age x y) n \<Longrightarrow> age_within x n \<and> age_within y n"
  by (auto simp: older_age_def age_within_def split: option.splits)

text \<open>C14 (started_plans_were_current).
  Whatever the search let through, a plan it found is started only if both books it was priced
  from were, when its route was evaluated, no older than the risk policy allows, and its net
  profit clears both the planner's and the policy's minimum.\<close>

theorem started_plans_were_current:
  assumes "plan_search s env clock rf m configured enabled asset amt source dest = (Inr (ps, sm), m1)"
    "normal_assets configured" "p \<in> set ps"
    "start_transfer s' env' tid a p = (res, a', es)" "es \<noteq> []"
  shows "\<exists>y b c. mk_symbol (plan_asset p) (base_currency s) None = Inr y \<and>
    order_book (market_store m1) (plan_source p) y = Some b \<and> order_book (market_store m1) (plan_dest p) y = Some c \<and>
    (\<forall>x \<in> {b, c}. age_within (age_ms (clock (y, plan_source p, plan_dest p)) (book_timestamp x))
       (max_data_age_ms (svc_limits (app_risk a)))) \<and>
    validate_transfer_books b c (max_transfer_gross_divergence_bps s) = None \<and>
    max (os_min_net_profit_bps s) (min_net_profit_bps (svc_limits (app_risk a))) \<le> net_profit_bps p"
proof -
  obtain x z where "exposure_maps_for_transfers (list_open (app_transfers a)) = (x, z)" by fastforce
  note lim = started_within_limits [OF assms(4,5) this]
  obtain y where y: "mk_symbol (plan_asset p) (base_currency s) None = Inr y"
    "priced_from s (rf \<noteq> None) (market_store m) (market_store m1) (env_now env)
      (clock (y, plan_source p, plan_dest p)) enabled y p" "os_min_net_profit_bps s \<le> net_profit_bps p"
    using search_plan_origin [OF assms(1-3)] by blast
  obtain b c where bc: "order_book (market_store m1) (plan_source p) y = Some b"
    "order_book (market_store m1) (plan_dest p) y = Some c"
    "validate_transfer_books b c (max_transfer_gross_divergence_bps s) = None"
    "plan_data_age_ms p = older_age (age_ms (clock (y, plan_source p, plan_dest p)) (book_timestamp b))
       (age_ms (clock (y, plan_source p, plan_dest p)) (book_timestamp c))"
    using y(2) unfolding priced_from_def by (elim exE conjE) (rule that)
  have "age_within (plan_data_age_ms p) (max_data_age_ms (svc_limits (app_risk a)))" and net:
    "min_net_profit_bps (svc_limits (app_risk a)) \<le> net_profit_bps p"
    using lim by blast+
  note ages = older_age_within [OF this(1) [unfolded bc(4)]]
  show ?thesis
    by (intro exI [of _ y] exI [of _ b] exI [of _ c]) (simp add: y(1,3) bc(1-3) ages net)
qed

subsection \<open>A concrete search\<close>

definition far_book :: OrderBook where
  "far_book = mk_order_book ''bybit'' sol 0 [\<lparr>price = 102, amount = 5\<rparr>] [\<lparr>price = 103, amount = 5\<rparr>]"

definition two_mem :: Mem where
  "two_mem = \<lparr>paper_wallets = [], market_store = put_order_book (put_order_book (new_store 2000) live_book) far_book\<rparr>"

definition rich_env :: Env where
  "rich_env = (live_env 0)\<lparr>env_adapter := (\<lambda>v. Inr (live_adapter\<lparr>fetch_balances := Inr \<lparr>snap_exchange_id = v, balances =
     [\<lparr>bal_exchange_id = v, bal_asset = ''USDT'', bal_free = 1000, bal_used = 0\<rparr>]\<rparr>\<rparr>))\<rparr>"

definition found_plan :: TransferPlan where
  "found_plan = sample_plan\<lparr>plan_slippage_bps := 0, plan_data_age_ms := Some 0\<rparr>"

definition far_network :: RouteNetwork where
  "far_network = \<lparr>rn_network = ''SOL'', rn_code = ''SOL'', rn_withdrawal_fee = 1 / 100, rn_withdrawal_min = 1 / 10, rn_deposit_min = 0\<rparr>"

lemma two_books:
  "order_book (market_store two_mem) ''okx'' sol = Some live_book"
  "order_book (market_store two_mem) ''bybit'' sol = Some far_book"
  "book_timestamp live_book = 0" "book_timestamp far_book = 0"
proof -
  have "book_key live_book = quote_key ''okx'' sol SPOT" "book_key far_book = quote_key ''bybit'' sol SPOT"
    by (simp_all add: book_key_def live_book_def far_book_def mk_order_book_def)
  moreover have "quote_key ''okx'' sol SPOT \<noteq> quote_key ''bybit'' sol SPOT" by code_simp
  ultimately show "order_book (market_store two_mem) ''okx'' sol = Some live_book"
    "order_book (market_store two_mem) ''bybit'' sol = Some far_book"
    by (simp_all add: order_book_def two_mem_def put_order_book_def new_store_def Let_def)
  show "book_timestamp live_book = 0" "book_timestamp far_book = 0"
    by (simp_all add: live_book_def far_book_def mk_order_book_def)
qed

lemma far_sides: "asks live_book = [\<lparr>price = 100, amount = 5\<rparr>]" "bids far_book = [\<lparr>price = 102, amount = 5\<rparr>]"
  "bids live_book = [\<lparr>price = 99, amount = 5\<rparr>]" "asks far_book = [\<lparr>price = 103, amount = 5\<rparr>]"
  by (simp_all add: live_book_def far_book_def mk_order_book_def sort_asks_def sort_bids_def)

lemma far_prices: "price_pair live_book far_book 2 = Inr \<lparr>pp_buy_price = 100, pp_sell_price = 102, pp_from_books = True,
    pp_buy_slippage_bps = 0, pp_sell_slippage_bps = 0\<rparr>"
  by (simp add: price_pair_def estimate_for_base_amount_def book_side_def far_sides check_estimate_def slippage_bps_def
      Let_def dec_eval)

lemma far_validated: "validate_transfer_books live_book far_book 5000 = None"
proof -
  have q: "dsub 102 100 = 2" "ddiv 2 100 = 1 / 50" "dmul (1 / 50) 10000 = 200" "dabs 200 = 200"
    "dadd 99 100 = 199" "ddiv 199 2 = 199 / 2" "dadd 102 103 = 205" "ddiv 205 2 = 205 / 2"
    "dsub 100 99 = 1" "dsub 103 102 = 1"
    by (simp_all add: dec_eval)
  have "\<not> wide_spread live_book" "\<not> wide_spread far_book"
    using unit_spread [of "199 / 2"] unit_spread [of "205 / 2"]
    by (simp_all add: wide_spread_def book_mid_def best_ask_def best_bid_def far_sides q max_intra_spread_bps_def not_less)
  then show ?thesis
    by (simp add: validate_transfer_books_def best_ask_def best_bid_def far_sides is_crossed_def locked_def Let_def q)
qed

lemma rich_quotes:
  "available_quote live_settings rich_env two_mem v = 1000" "taker_fees rich_env v y = 10"
  "cached_networks rich_env a v = Inr [sol_network]" "env_now rich_env = 0"
proof -
  have "py_upper (py_strip ''USDT'') = ''USDT''" by code_simp
  then show "available_quote live_settings rich_env two_mem v = 1000"
    by (simp add: available_quote_def live_settings_simps rich_env_def free_of_def balance_get_def)
qed (simp_all add: taker_fees_def cached_networks_def rich_env_def live_env_def live_adapter_def)

lemma far_size: "size_explicit live_settings live_book far_book far_network 1000 2 =
    Inr (Some (2, \<lparr>pp_buy_price = 100, pp_sell_price = 102, pp_from_books = True, pp_buy_slippage_bps = 0, pp_sell_slippage_bps = 0\<rparr>))"
proof -
  have q: "quantize 8 (ddiv 500 100) = 5" "quantize 8 (ddiv 1000 100) = 10" "quantize 8 2 = 2"
    by (simp_all add: dec_eval)
  have m: "min (500 :: rat) 1000 = 500" "max 2 (1 / 10 :: rat) = 2" "min (2 :: rat) 10000 = 2" "min (2 :: rat) 5 = 2"
    "min (2 :: rat) 10 = 2" "min (2 :: rat) 2 = 2" by simp_all
  have "executable_amount 2 (1 / 10) 1000 100 (Some 10000) (Some 500) = 2"
    by (simp add: executable_amount_def cap_amount_def Let_def q m)
  then show ?thesis
    by (simp add: size_explicit_def far_network_def live_settings_def far_prices m Let_def)
qed

lemma found_plan_numbers: "net_profit_bps found_plan = 1288 / 10" "buy_cost_quote found_plan = 200"
proof -
  have "net_profit_bps found_plan = net_profit_bps sample_plan" "buy_cost_quote found_plan = buy_cost_quote sample_plan"
    by (simp_all add: plan_economics found_plan_def Let_def)
  then show "net_profit_bps found_plan = 1288 / 10" "buy_cost_quote found_plan = 200"
    by (simp_all add: sample_plan_numbers)
qed

lemma found_on_route:
  assumes "cached_or (balance_cache c) ''okx'' 1000 = 1000" "\<And>v. cached_or (fee_cache c) v 10 = 10"
  shows "priced_route live_settings rich_env two_mem c sol ''okx'' ''bybit'' live_book far_book far_network (Some 2) =
    V_Plan found_plan"
proof -
  have p: "(build_plan ''okx'' ''bybit'' ''SOL'' ''SOL'' 2
      \<lparr>pp_buy_price = 100, pp_sell_price = 102, pp_from_books = True, pp_buy_slippage_bps = 0, pp_sell_slippage_bps = 0\<rparr>
      10 10 (1 / 100) 0)\<lparr>plan_data_age_ms := Some 0\<rparr> = found_plan"
    by (simp add: build_plan_def found_plan_def sample_plan_def dec_eval)
  have age: "older_age (age_ms 0 0) (age_ms 0 0) = Some 0"
    by (simp add: older_age_def age_ms_def future_tolerance_ms_def)
  have f: "evaluate_plan 50 found_plan = Some found_plan"
    by (simp add: evaluate_plan_def found_plan_numbers) (simp add: found_plan_def sample_plan_def)
  have g: "base sol = ''SOL''" "os_min_net_profit_bps live_settings = 50" "rn_network far_network = ''SOL''"
    "rn_withdrawal_fee far_network = 1 / 100"
    by (simp_all add: sol_def live_settings_def far_network_def)
  show ?thesis
    by (simp add: priced_route_def Let_def rich_quotes assms size_route_def far_size two_books age p f g)
qed

lemma rich_now: "rich_env\<lparr>env_now := 0\<rparr> = rich_env"
  by (simp add: rich_env_def live_env_def)

lemma two_fresh: "is_fresh (market_store two_mem) (age_ms 0 0)"
  by (simp add: is_fresh_age_iff two_mem_def put_order_book_def new_store_def Let_def)

lemma far_choice: "select [sol_network] [sol_network] = Inr far_network"
  by (simp add: live_route far_network_def)

lemma found_by_search:
  "\<exists>ps sm. plan_search live_settings rich_env (\<lambda>_. 0) None two_mem [''SOL''] [''okx'', ''bybit''] None (Some 2) None None =
     (Inr (ps, sm), two_mem) \<and> found_plan \<in> set ps"
proof -
  have q: "base_currency live_settings = ''USDT''" "max_transfer_gross_divergence_bps live_settings = 5000"
    by (simp_all add: live_settings_def)
  define c where "c = search_caches live_settings rich_env two_mem False [''SOL''] [(''SOL'', sol)] [''okx'', ''bybit'']
      (dedup ([''okx'', ''bybit''] @ [''okx'', ''bybit''])) (refreshed_keys [])"
  have base: "base sol = ''SOL''" by (simp add: sol_def)
  have snap: "snapshot_book two_mem c sol ''okx'' = Some live_book" "snapshot_book two_mem c sol ''bybit'' = Some far_book"
    unfolding c_def by (simp_all add: snapshot_is_store base two_books)
  have fresh: "\<not> outdated two_mem c 0 sol v b" if "book_timestamp b = 0" for v b
    using that two_fresh by (simp add: outdated_def is_stale_def)
  have nets: "route_networks rich_env c False ''SOL'' v = Inr [sol_network]" if "v \<in> {''okx'', ''bybit''}" for v
    using that by (auto simp: route_networks_def c_def search_caches_def warm_networks_get rich_quotes)
  then have choice: "route_choice rich_env c False ''SOL'' ''okx'' ''bybit'' = Some far_network"
    by (simp add: route_choice_def far_choice)
  have caches: "cached_or (balance_cache c) ''okx'' 1000 = 1000" "cached_or (fee_cache c) v 10 = 10" for v
    by (simp_all add: c_def search_caches_def cached_or_def rich_quotes dict_get_map_fun)
  have ev: "eval_route live_settings (rich_env\<lparr>env_now := 0\<rparr>) two_mem c False (Some 2) (sol, ''okx'', ''bybit'') = V_Plan found_plan"
    using found_on_route [OF caches]
    by (simp add: eval_route_def snap fresh two_books choice far_validated base q rich_now rich_quotes(4))
  have mem: "(sol, ''okx'', ''bybit'') \<in> set (routes [sol] [''okx'', ''bybit''] [''okx'', ''bybit''])"
    by (simp add: routes_mem)
  have "found_plan \<in> set (ranked (planned (map (\<lambda>rt. eval_route live_settings (rich_env\<lparr>env_now := 0\<rparr>) two_mem c False
      (Some 2) rt) (routes [sol] [''okx'', ''bybit''] [''okx'', ''bybit'']))))"
    unfolding set_ranked set_planned set_map by (rule image_eqI [where x = "(sol, ''okx'', ''bybit'')", OF _ mem]) (rule ev [symmetric])
  then show ?thesis
    by (simp add: plan_search_def search_assets_def search_venues_def truthy_str_def q live_symbol Let_def stale_batch_def
        after_batch_def c_def)
qed

lemma sol_normal: "normal_assets [''SOL'']"
proof -
  have "normalise ''SOL'' = Some ''SOL''" by code_simp
  then show ?thesis by (simp add: normal_assets_def)
qed

theorem search_plans_are_sound_witness:
  "plan_source found_plan \<noteq> plan_dest found_plan \<and> 50 \<le> net_profit_bps found_plan \<and>
   (\<exists>ns ms r. select ns ms = Inr r \<and> plan_network found_plan = rn_network r)"
proof -
  obtain ps sm where ps: "plan_search live_settings rich_env (\<lambda>_. 0) None two_mem [''SOL''] [''okx'', ''bybit''] None (Some 2) None None =
     (Inr (ps, sm), two_mem)" "found_plan \<in> set ps" using found_by_search by blast
  have "os_min_net_profit_bps live_settings = 50" by (simp add: live_settings_def)
  then show ?thesis using search_plans_are_sound [OF ps(1) sol_normal ps(2)] by metis
qed

theorem search_agrees_with_single_routes_witness:
  "found_plan \<in> set (concat (map (\<lambda>(y, src, dst). plan_of (fst (plan_pair live_settings rich_env two_mem y src dst (Some 2))))
     (routes [sol] [''okx'', ''bybit''] [''okx'', ''bybit''])))"
proof -
  obtain ps sm where ps: "plan_search live_settings rich_env (\<lambda>_. 0) None two_mem [''SOL''] [''okx'', ''bybit''] None (Some 2) None None =
     (Inr (ps, sm), two_mem)" "found_plan \<in> set ps" using found_by_search by blast
  have v: "search_venues [''okx'', ''bybit''] None = [''okx'', ''bybit'']" "search_assets [''SOL''] None = [''SOL'']"
    "base_currency live_settings = ''USDT''"
    by (simp_all add: search_venues_def search_assets_def truthy_str_def live_settings_def)
  have fresh: "cached_fresh rich_env two_mem v sol \<noteq> None" if "v \<in> {''okx'', ''bybit''}" for v
    using that two_fresh two_books rich_quotes(4) by (auto simp: cached_fresh_def is_stale_def)
  have "ps = ranked (concat (map (\<lambda>(y, src, dst). plan_of (fst (plan_pair live_settings rich_env two_mem y src dst (Some 2))))
     (routes (map (\<lambda>a. projr (mk_symbol a ''USDT'' None)) [''SOL'']) [''okx'', ''bybit''] [''okx'', ''bybit''])))"
    using fresh by (intro search_agrees_with_single_routes [of live_settings rich_env None two_mem "[''SOL'']" "[''okx'', ''bybit'']"
        None "Some 2" None None ps sm two_mem, unfolded v, OF ps(1) [folded rich_quotes(4)] sol_normal])
      (auto simp: rich_quotes live_symbol)
  then show ?thesis using ps(2) by (simp add: live_symbol)
qed

lemma found_approved: "approved (snd (validate_transfer live_services (env_guard rich_env) 0 found_plan))"
proof -
  have f: "plan_slippage_bps found_plan = 0" "plan_data_age_ms found_plan = Some 0"
    by (simp_all add: found_plan_def)
  have z: "dneg 0 = 0" by (simp add: dec_eval)
  show ?thesis
    unfolding approved_within within_limits_def transfer_context_def risk_environment_def
      snapshot_def live_services_def sample_services_def rich_env_def live_env_def
    by (simp add: found_plan_numbers f z default_limits_def new_tracker_def roll_day_def
        exposure_within_def age_within_def)
qed

lemma found_started:
  "\<exists>res a' es. start_transfer live_settings rich_env ''trf-1'' (live_app two_mem) found_plan = (res, a', es) \<and> es \<noteq> []"
proof -
  obtain res m es where st: "start live_settings rich_env None ''trf-1'' two_mem (store_of []) found_plan = (res, m, es)"
    by (metis prod_cases3)
  have "ensure_can_trade (env_guard rich_env) = Inr ()" by (simp add: rich_env_def live_env_simps live_can_trade)
  moreover obtain x where "try_claim_new_open_slot (store_of []) (new_record ''trf-1'' found_plan LIVE (env_now rich_env)) 1 = Inr (True, x)"
    by (simp add: try_claim_new_open_slot_def store_of_def count_open_def open_rows_def get_record_def)
  ultimately have "es \<noteq> []"
    using st by (auto simp: start_def after_effects_def live_settings_simps Let_def split: sum.splits prod.splits bool.splits if_splits)
  then show ?thesis
    using st by (simp add: start_transfer_def Let_def live_app_refresh live_app_transfers rich_quotes(4)
      start_approved [of "\<lambda>q. snd (validate_transfer live_services (env_guard rich_env) 0 q)", OF found_approved])
qed

theorem started_plans_were_current_witness:
  "\<exists>b. order_book (market_store two_mem) ''okx'' sol = Some b \<and>
     age_within (age_ms 0 (book_timestamp b)) (max_data_age_ms (svc_limits live_services))"
proof -
  obtain ps sm where ps: "plan_search live_settings rich_env (\<lambda>_. 0) None two_mem [''SOL''] [''okx'', ''bybit''] None (Some 2) None None =
     (Inr (ps, sm), two_mem)" "found_plan \<in> set ps" using found_by_search by blast
  obtain res a' es where st: "start_transfer live_settings rich_env ''trf-1'' (live_app two_mem) found_plan = (res, a', es)" "es \<noteq> []"
    using found_started by blast
  have f: "plan_asset found_plan = ''SOL''" "plan_source found_plan = ''okx''" "base_currency live_settings = ''USDT''"
    by (simp_all add: found_plan_def sample_plan_def live_settings_def)
  show ?thesis
    using started_plans_were_current [OF ps(1) sol_normal ps(2) st] by (auto simp: f live_symbol live_app_transfers)
qed

theorem failed_refresh_goes_unnoticed_witness:
  "\<not> outdated two_mem (search_caches live_settings rich_env two_mem False [''SOL''] [(''SOL'', sol)] [''okx''] [''okx'']
      (refreshed_keys (stale_batch (Some (\<lambda>st v ys. st)) (market_store two_mem) 3600000000 [sol] [''okx''])))
      3600000000 sol ''okx'' live_book \<and>
   is_stale (market_store two_mem) (age_ms 3600000000 (book_timestamp live_book))"
proof -
  have st: "is_stale (market_store two_mem) (age_ms 3600000000 (book_timestamp live_book))"
    by (simp add: is_stale_def is_fresh_age_iff two_books two_mem_def put_order_book_def new_store_def Let_def)
  then have "needs_refresh (market_store two_mem) 3600000000 ''okx'' sol" by (simp add: needs_refresh_def two_books)
  then show ?thesis using failed_refresh_goes_unnoticed [OF refl, of sol "[sol]" "''okx''" "[''okx'']"] st by simp
qed

end
