(* ===== verification/Py_Numbers.thy ===== *)
theory Py_Numbers
  imports Py_Strings
begin

text \<open>
  Numbers as text: what \<^verbatim>\<open>int(s)\<close>, \<^verbatim>\<open>Decimal(s)\<close> and \<^verbatim>\<open>str(x)\<close> do for
  ASCII strings. A finite \<^verbatim>\<open>Decimal\<close> is kept as it is represented (sign, coefficient,
  exponent), because \<^verbatim>\<open>str\<close> shows the representation: \<^verbatim>\<open>5\<close>, \<^verbatim>\<open>5.0\<close> and
  \<^verbatim>\<open>5E+0\<close> are equal numbers with different texts.
\<close>

subsection \<open>Digits\<close>

definition is_digit :: "char \<Rightarrow> bool" where
  "is_digit c = (let n = of_char c :: nat in 48 \<le> n \<and> n \<le> 57)"

definition digit_val :: "char \<Rightarrow> nat" where
  "digit_val c = of_char c - 48"

definition digit_char :: "nat \<Rightarrow> char" where
  "digit_char n = char_of (48 + n)"

definition nat_of_digits :: "string \<Rightarrow> nat" where
  "nat_of_digits s = foldl (\<lambda>n c. 10 * n + digit_val c) 0 s"

fun show_nat :: "nat \<Rightarrow> string" where
  "show_nat n = (if n < 10 then [digit_char n] else show_nat (n div 10) @ [digit_char (n mod 10)])"

declare show_nat.simps [simp del]

lemma digit_char_simps [simp]:
  "n < 10 \<Longrightarrow> is_digit (digit_char n)" "n < 10 \<Longrightarrow> digit_val (digit_char n) = n"
  by (simp_all add: is_digit_def digit_val_def digit_char_def of_char_of)

lemma nat_of_digits_simps [simp]:
  "nat_of_digits [] = 0" "nat_of_digits (s @ [c]) = 10 * nat_of_digits s + digit_val c"
  by (simp_all add: nat_of_digits_def)

lemma show_nat_digits: "list_all is_digit (show_nat n)"
proof (induction n rule: show_nat.induct)
  case (1 n)
  then show ?case by (subst show_nat.simps) auto
qed

lemma nat_of_show_nat [simp]: "nat_of_digits (show_nat n) = n"
proof (induction n rule: show_nat.induct)
  case (1 n)
  then show ?case
    by (subst show_nat.simps) (auto simp: nat_of_digits_def)
qed

lemma show_nat_nonempty [simp]: "show_nat n \<noteq> []"
  by (subst show_nat.simps) simp

lemma nat_of_zeros: "nat_of_digits (replicate k (CHR ''0'') @ s) = nat_of_digits s"
proof -
  have "nat_of_digits (replicate k (CHR ''0'')) = 0"
    by (induction k) (simp_all add: nat_of_digits_def digit_val_def)
  then show ?thesis by (simp add: nat_of_digits_def)
qed

subsection \<open>Integers\<close>

text \<open>Digits with single underscores between them.\<close>

fun int_digits :: "string \<Rightarrow> string option" where
  "int_digits [] = None"
| "int_digits [c] = (if is_digit c then Some [c] else None)"
| "int_digits (c # d # s) =
     (if \<not> is_digit c then None
      else if d = CHR ''_'' then map_option (Cons c) (int_digits s)
      else map_option (Cons c) (int_digits (d # s)))"

definition split_sign :: "string \<Rightarrow> bool \<times> string" where
  "split_sign s = (case s of
     c # t \<Rightarrow> if c = CHR ''-'' then (True, t) else if c = CHR ''+'' then (False, t) else (False, s)
   | [] \<Rightarrow> (False, s))"

definition parse_int :: "string \<Rightarrow> int option" where
  "parse_int s =
     (case split_sign (py_strip s) of (neg, t) \<Rightarrow>
        map_option (\<lambda>ds. (if neg then - int (nat_of_digits ds) else int (nat_of_digits ds))) (int_digits t))"

definition show_int :: "int \<Rightarrow> string" where
  "show_int i = (if i < 0 then CHR ''-'' # show_nat (nat (- i)) else show_nat (nat i))"

subsection \<open>Decimals\<close>

record PyDecimal =
  dc_negative :: bool
  dc_coeff :: nat
  dc_exp :: int

datatype decimal_text = DFinite PyDecimal | DInfinity bool | DNaN

definition dec_value :: "PyDecimal \<Rightarrow> rat" where
  "dec_value d =
     (let m = (if 0 \<le> dc_exp d then of_nat (dc_coeff d) * 10 ^ nat (dc_exp d)
               else of_nat (dc_coeff d) / 10 ^ nat (- dc_exp d))
      in if dc_negative d then - m else m)"

text \<open>The limits of the exponent in the C implementation: beyond them the constructor raises.\<close>

definition exponent_ok :: "PyDecimal \<Rightarrow> bool" where
  "exponent_ok d \<longleftrightarrow>
     dc_exp d + int (length (show_nat (dc_coeff d))) - 1 \<le> 999999999999999999 \<and>
     - 1999999999999999997 \<le> dc_exp d"

definition parse_exponent :: "string \<Rightarrow> int option" where
  "parse_exponent s =
     (case split_sign s of (neg, t) \<Rightarrow>
        if t \<noteq> [] \<and> list_all is_digit t
        then Some (if neg then - int (nat_of_digits t) else int (nat_of_digits t)) else None)"

text \<open>\<^verbatim>\<open>digits[.digits]\<close> or \<^verbatim>\<open>.digits\<close>: the digits, and how many follow the point.\<close>

definition parse_mantissa :: "string \<Rightarrow> (string \<times> nat) option" where
  "parse_mantissa s =
     (case py_partition (CHR ''.'') s of (a, _, b) \<Rightarrow>
        if a @ b \<noteq> [] \<and> list_all is_digit (a @ b) then Some (a @ b, length b) else None)"

definition is_exp_mark :: "char \<Rightarrow> bool" where
  "is_exp_mark c \<longleftrightarrow> c = CHR ''e'' \<or> c = CHR ''E''"

definition parse_finite :: "bool \<Rightarrow> string \<Rightarrow> PyDecimal option" where
  "parse_finite neg s =
     (let a = takeWhile (\<lambda>c. \<not> is_exp_mark c) s; b = dropWhile (\<lambda>c. \<not> is_exp_mark c) s in
      case (parse_mantissa a, if b = [] then Some 0 else parse_exponent (tl b)) of
        (Some (ds, k), Some e) \<Rightarrow>
          (let d = \<lparr>dc_negative = neg, dc_coeff = nat_of_digits ds, dc_exp = e - int k\<rparr>
           in if exponent_ok d then Some d else None)
      | _ \<Rightarrow> None)"

definition parse_special :: "bool \<Rightarrow> string \<Rightarrow> decimal_text option" where
  "parse_special neg s =
     (let t = py_lower s in
      if t = ''inf'' \<or> t = ''infinity'' then Some (DInfinity neg)
      else if take 3 t = ''nan'' \<and> list_all is_digit (drop 3 t) then Some DNaN
      else if take 4 t = ''snan'' \<and> list_all is_digit (drop 4 t) then Some DNaN
      else None)"

definition parse_decimal :: "string \<Rightarrow> decimal_text option" where
  "parse_decimal s =
     (case split_sign (filter (\<lambda>c. c \<noteq> CHR ''_'') (py_strip s)) of (neg, t) \<Rightarrow>
        case parse_finite neg t of Some d \<Rightarrow> Some (DFinite d) | None \<Rightarrow> parse_special neg t)"

definition show_decimal :: "PyDecimal \<Rightarrow> string" where
  "show_decimal d =
     (let ds = show_nat (dc_coeff d); n = int (length ds); leftdigits = dc_exp d + n;
          dotplace = (if dc_exp d \<le> 0 \<and> leftdigits > -6 then leftdigits else 1);
          (intpart, fracpart) =
            (if dotplace \<le> 0 then (''0'', ''.'' @ replicate (nat (- dotplace)) (CHR ''0'') @ ds)
             else if dotplace \<ge> n then (ds @ replicate (nat (dotplace - n)) (CHR ''0''), [])
             else (take (nat dotplace) ds, ''.'' @ drop (nat dotplace) ds));
          e = leftdigits - dotplace;
          expstr = (if e = 0 then [] else ''E'' @ (if e < 0 then show_int e else ''+'' @ show_int e))
      in (if dc_negative d then ''-'' else []) @ intpart @ fracpart @ expstr)"

subsection \<open>Reading back what was printed\<close>

lemma digit_not:
  assumes "is_digit c"
  shows "c \<noteq> CHR ''.''" "c \<noteq> CHR ''-''" "c \<noteq> CHR ''+''" "c \<noteq> CHR ''_''" "\<not> is_exp_mark c" "\<not> is_space c"
proof -
  have no: "\<not> is_digit (CHR ''.'')" "\<not> is_digit (CHR ''-'')" "\<not> is_digit (CHR ''+'')" "\<not> is_digit (CHR ''_'')"
    "\<not> is_digit (CHR ''e'')" "\<not> is_digit (CHR ''E'')" by code_simp+
  show "c \<noteq> CHR ''.''" "c \<noteq> CHR ''-''" "c \<noteq> CHR ''+''" "c \<noteq> CHR ''_''" using assms no by blast+
  show "\<not> is_exp_mark c" using assms no unfolding is_exp_mark_def by blast
  have "48 \<le> (of_char c :: nat)" using assms by (simp add: is_digit_def Let_def)
  then show "\<not> is_space c" by (simp add: is_space_def Let_def)
qed

definition num_char :: "char \<Rightarrow> bool" where
  "num_char c \<longleftrightarrow> is_digit c \<or> c \<in> {CHR ''.'', CHR ''E'', CHR ''+'', CHR ''-''}"

lemma num_char_not: "num_char c \<Longrightarrow> \<not> is_space c \<and> c \<noteq> CHR ''_''"
proof -
  have "\<not> is_space (CHR ''.'')" "\<not> is_space (CHR ''E'')" "\<not> is_space (CHR ''+'')" "\<not> is_space (CHR ''-'')"
    by code_simp+
  then show "num_char c \<Longrightarrow> \<not> is_space c \<and> c \<noteq> CHR ''_''"
    using digit_not(4,6) unfolding num_char_def by fastforce
qed

lemma num_text:
  assumes "list_all num_char s"
  shows "py_strip s = s" "filter (\<lambda>c. c \<noteq> CHR ''_'') s = s"
proof -
  have "trimmed s" using assms num_char_not by (cases s) (auto simp: trimmed_def list_all_iff)
  then show "py_strip s = s" by (rule py_strip_trimmed)
  show "filter (\<lambda>c. c \<noteq> CHR ''_'') s = s" using assms num_char_not by (auto simp: list_all_iff)
qed

lemma digits_num: "list_all is_digit s \<Longrightarrow> list_all num_char s"
  by (auto simp: list_all_iff num_char_def)

lemma split_sign_digit: "is_digit c \<Longrightarrow> split_sign (c # s) = (False, c # s)"
  using digit_not(2,3) by (auto simp: split_sign_def)

lemma split_sign_show [simp]:
  "split_sign (show_nat n) = (False, show_nat n)" "split_sign (CHR ''-'' # s) = (True, s)"
  "split_sign (CHR ''+'' # s) = (False, s)"
proof -
  obtain c s where "show_nat n = c # s" by (cases "show_nat n") auto
  then show "split_sign (show_nat n) = (False, show_nat n)"
    using show_nat_digits [of n] by (auto intro: split_sign_digit)
qed (simp_all add: split_sign_def)

lemma int_digits_plain: "s \<noteq> [] \<Longrightarrow> list_all is_digit s \<Longrightarrow> int_digits s = Some s"
  using digit_not(4) by (induction s rule: int_digits.induct) auto

lemma show_int_num: "list_all num_char (show_int i)"
  using digits_num [OF show_nat_digits] by (simp add: show_int_def num_char_def)

lemma parse_show_int: "parse_int (show_int i) = Some i"
  by (simp add: parse_int_def num_text(1) [OF show_int_num])
    (auto simp: show_int_def int_digits_plain show_nat_digits)

lemma parse_exponent_show: "parse_exponent (if e < 0 then show_int e else ''+'' @ show_int e) = Some e"
  by (auto simp: parse_exponent_def show_int_def show_nat_digits)

lemma take_mantissa:
  assumes "\<forall>c \<in> set m. \<not> is_exp_mark c"
  shows "takeWhile (\<lambda>c. \<not> is_exp_mark c) (m @ ''E'' @ x) = m" "dropWhile (\<lambda>c. \<not> is_exp_mark c) (m @ ''E'' @ x) = ''E'' @ x"
    "takeWhile (\<lambda>c. \<not> is_exp_mark c) m = m" "dropWhile (\<lambda>c. \<not> is_exp_mark c) m = []"
  using assms by (auto simp: takeWhile_append dropWhile_append is_exp_mark_def takeWhile_eq_all_conv dropWhile_eq_Nil_conv)

lemma digits_no_point: "list_all is_digit a \<Longrightarrow> CHR ''.'' \<notin> set a"
  using digit_not(1) by (auto simp: list_all_iff)

lemma mantissa_point:
  "list_all is_digit a \<Longrightarrow> list_all is_digit b \<Longrightarrow> a @ b \<noteq> [] \<Longrightarrow> parse_mantissa (a @ ''.'' @ b) = Some (a @ b, length b)"
  using py_partition_split [OF digits_no_point, of a b] by (simp add: parse_mantissa_def)

lemma mantissa_plain: "list_all is_digit a \<Longrightarrow> a \<noteq> [] \<Longrightarrow> parse_mantissa a = Some (a, 0)"
  using py_partition_absent [OF digits_no_point, of a] by (simp add: parse_mantissa_def)

lemma parse_finite_parts:
  assumes "parse_mantissa m = Some (ds, k)" "\<forall>c \<in> set m. \<not> is_exp_mark c"
    "x = (if e = 0 then [] else ''E'' @ (if e < 0 then show_int e else ''+'' @ show_int e))"
    "d = \<lparr>dc_negative = neg, dc_coeff = nat_of_digits ds, dc_exp = e - int k\<rparr>" "exponent_ok d"
  shows "parse_finite neg (m @ x) = Some d"
proof (cases "e = 0")
  case True
  then have x: "x = []" using assms(3) by simp
  show ?thesis
    unfolding parse_finite_def Let_def x append_Nil2 take_mantissa(3,4) [OF assms(2)] using assms(1,4,5) True by simp
next
  case False
  then have x: "x = ''E'' @ (if e < 0 then show_int e else ''+'' @ show_int e)" using assms(3) by simp
  show ?thesis
    unfolding parse_finite_def Let_def x take_mantissa(1,2) [OF assms(2)]
    using assms(1,4,5) parse_exponent_show [of e] by simp
qed

definition mantissa_text :: "string \<Rightarrow> int \<Rightarrow> string" where
  "mantissa_text ds dotplace =
     (if dotplace \<le> 0 then ''0'' @ ''.'' @ replicate (nat (- dotplace)) (CHR ''0'') @ ds
      else if dotplace \<ge> int (length ds) then ds @ replicate (nat (dotplace - int (length ds))) (CHR ''0'')
      else take (nat dotplace) ds @ ''.'' @ drop (nat dotplace) ds)"

lemma mantissa_text_ok:
  assumes "ds = show_nat c" "dp \<le> int (length ds)"
  shows "\<exists>ms. parse_mantissa (mantissa_text ds dp) = Some (ms, nat (int (length ds) - dp)) \<and> nat_of_digits ms = c"
    "\<forall>x \<in> set (mantissa_text ds dp). is_digit x \<or> x = CHR ''.''"
    "\<exists>x t. mantissa_text ds dp = x # t \<and> is_digit x"
proof -
  have ds: "list_all is_digit ds" "ds \<noteq> []" "nat_of_digits ds = c" using assms(1) show_nat_digits by simp_all
  have z: "is_digit (CHR ''0'')" by code_simp
  have tk: "list_all is_digit (take k ds)" "list_all is_digit (drop k ds)" for k
    using ds(1) by (auto simp: list_all_iff dest: in_set_takeD in_set_dropD)
  have zs: "list_all is_digit (replicate k (CHR ''0''))" for k using z by (simp add: list_all_iff)
  consider "dp \<le> 0" | "0 < dp" "dp = int (length ds)" | "0 < dp" "dp < int (length ds)" using assms(2) by linarith
  then show "\<exists>ms. parse_mantissa (mantissa_text ds dp) = Some (ms, nat (int (length ds) - dp)) \<and> nat_of_digits ms = c"
  proof cases
    case 1
    let ?b = "replicate (nat (- dp)) (CHR ''0'') @ ds"
    have "parse_mantissa (''0'' @ ''.'' @ ?b) = Some (''0'' @ ?b, length ?b)"
      using z zs ds by (intro mantissa_point) simp_all
    moreover have "nat_of_digits (''0'' @ ?b) = c"
      using nat_of_zeros [of "Suc (nat (- dp))" ds] ds(3) by simp
    moreover have "length ?b = nat (int (length ds) - dp)" using 1 by simp
    ultimately show ?thesis using 1 by (simp only: mantissa_text_def if_True) blast
  next
    case 2
    then show ?thesis using mantissa_plain [OF ds(1,2)] ds(3) by (simp add: mantissa_text_def)
  next
    case 3
    let ?a = "take (nat dp) ds" and ?b = "drop (nat dp) ds"
    have "parse_mantissa (?a @ ''.'' @ ?b) = Some (?a @ ?b, length ?b)"
      using tk ds(2) by (intro mantissa_point) simp_all
    moreover have "length ?b = nat (int (length ds) - dp)" using 3 by simp
    ultimately show ?thesis using 3 ds(3) by (simp add: mantissa_text_def)
  qed
  show "\<forall>x \<in> set (mantissa_text ds dp). is_digit x \<or> x = CHR ''.''"
    using ds(1) z by (auto simp: mantissa_text_def list_all_iff dest: in_set_takeD in_set_dropD)
  show "\<exists>x t. mantissa_text ds dp = x # t \<and> is_digit x"
  proof (cases ds)
    case (Cons x t)
    then have "is_digit x" using ds(1) by simp
    then show ?thesis using z Cons by (cases "nat dp") (auto simp: mantissa_text_def)
  qed (use ds(2) in simp)
qed

lemma show_decimal_parts:
  assumes "ds = show_nat (dc_coeff d)" "left = dc_exp d + int (length ds)"
    "dp = (if dc_exp d \<le> 0 \<and> left > -6 then left else 1)"
  shows "show_decimal d = (if dc_negative d then ''-'' else []) @ mantissa_text ds dp @
      (if left - dp = 0 then [] else ''E'' @ (if left - dp < 0 then show_int (left - dp) else ''+'' @ show_int (left - dp)))"
    "dp \<le> int (length ds)"
proof -
  show "show_decimal d = (if dc_negative d then ''-'' else []) @ mantissa_text ds dp @
      (if left - dp = 0 then [] else ''E'' @ (if left - dp < 0 then show_int (left - dp) else ''+'' @ show_int (left - dp)))"
    unfolding show_decimal_def Let_def assms mantissa_text_def by (auto split: prod.splits)
  have "1 \<le> length ds" using assms(1) by (simp add: Suc_le_eq)
  then show "dp \<le> int (length ds)" using assms(2,3) by auto
qed

text \<open>
  Reading back the text of a finite decimal gives the decimal it was printed from, with its
  representation, so that printing again gives the same text.
\<close>

lemma parse_show_decimal:
  assumes "exponent_ok d"
  shows "parse_decimal (show_decimal d) = Some (DFinite d)"
proof -
  define ds left dp where "ds = show_nat (dc_coeff d)" and "left = dc_exp d + int (length ds)"
    and "dp = (if dc_exp d \<le> 0 \<and> left > -6 then left else 1)"
  note parts = show_decimal_parts [OF ds_def left_def dp_def]
  define e where "e = left - dp"
  define x where "x = (if e = 0 then [] else ''E'' @ (if e < 0 then show_int e else ''+'' @ show_int e))"
  let ?m = "mantissa_text ds dp"
  have sh: "show_decimal d = (if dc_negative d then ''-'' else []) @ ?m @ x" using parts(1) by (simp add: x_def e_def)
  note m = mantissa_text_ok [OF ds_def parts(2)]
  have me: "\<forall>c \<in> set ?m. \<not> is_exp_mark c" using m(2) digit_not(5) by (auto simp: is_exp_mark_def)
  have "list_all num_char x" using show_int_num [of e] by (auto simp: x_def num_char_def)
  moreover have "list_all num_char ?m" using m(2) by (auto simp: list_all_iff num_char_def)
  ultimately have num: "list_all num_char (show_decimal d)" by (simp add: sh num_char_def)
  obtain c t where ct: "?m = c # t" "is_digit c" using m(3) by blast
  have sg: "split_sign (show_decimal d) = (dc_negative d, ?m @ x)"
    using split_sign_digit [OF ct(2), of "t @ x"] ct(1) by (auto simp: sh)
  obtain ms where ms: "parse_mantissa ?m = Some (ms, nat (int (length ds) - dp))" "nat_of_digits ms = dc_coeff d" using m(1) by blast
  have "e - int (nat (int (length ds) - dp)) = dc_exp d" using parts(2) by (simp add: e_def left_def)
  then have "parse_finite (dc_negative d) (?m @ x) = Some d"
    using ms(2) assms by (intro parse_finite_parts [OF ms(1) me x_def]) simp_all
  then show ?thesis using num_text [OF num] sg by (simp add: parse_decimal_def)
qed

end
