(* ===== verification/Agent_Approval.thy ===== *)
theory Agent_Approval
  imports Execution_Guard Py_Numbers "HOL-Library.List_Lexorder" "HOL-Library.Char_ord"
begin

text \<open>
  The human-gated change of configuration (\<^verbatim>\<open>app/agent/approval.py\<close>): review, approval and
  rejection of the advisor's recommendations, the durable claim, the synchronisation of settings
  and risk engine, and the reconciliation at the next start.

  The database is the recommendation table and the bot-state table; a committed transaction is
  a new database. The runtime is the value of each allowlisted setting and the limits of the
  risk engine, which may be missing. A process crash keeps the database and loses the runtime.
\<close>

subsection \<open>Parameters and values\<close>

datatype approval_error = ApprovalError string | InvalidOperation

datatype cfg_type = TDecimal | TInt

datatype cfg_value = VDec decimal_text | VInt int

definition ALLOWLIST :: "(string, cfg_type \<times> rat \<times> rat) dict" where
  "ALLOWLIST =
     [(''risk.max_trade_size'', (TDecimal, 10, 5000)),
      (''risk.min_net_profit_bps'', (TDecimal, 0, 100)),
      (''risk.max_slippage_bps'', (TDecimal, 1, 100)),
      (''risk.max_data_age_ms'', (TInt, 500, 10000)),
      (''risk.max_open_transfers'', (TInt, 0, 10)),
      (''risk.max_daily_loss'', (TDecimal, 10, 10000)),
      (''arbitrage.triangle_min_net_bps'', (TDecimal, 0, 100)),
      (''arbitrage.triangle_max_leg_slippage_bps'', (TDecimal, 1, 50)),
      (''execution.leg_timeout_seconds'', (TInt, 1, 60))]"

definition allowlisted :: "string \<Rightarrow> bool" where
  "allowlisted param \<longleftrightarrow> dict_get ALLOWLIST param \<noteq> None"

definition RISK_PARAMS :: "string list" where
  "RISK_PARAMS = filter (\<lambda>k. take 5 k = ''risk.'') (dict_keys ALLOWLIST)"

definition config_key :: "string \<Rightarrow> string" where
  "config_key param = ''agent_config:'' @ param"

definition apply_key :: "string \<Rightarrow> string" where
  "apply_key rec = ''agent_apply:'' @ rec"

fun parse_value :: "string \<Rightarrow> cfg_type \<Rightarrow> (approval_error, cfg_value) result" where
  "parse_value raw TDecimal =
     (case parse_decimal (py_strip raw) of
        Some d \<Rightarrow> Inr (VDec d) | None \<Rightarrow> Inl (ApprovalError ''invalid Decimal value''))"
| "parse_value raw TInt =
     (if CHR ''.'' \<in> set (py_strip raw) then Inl (ApprovalError ''invalid int value'')
      else (case parse_int (py_strip raw) of
              Some i \<Rightarrow> Inr (VInt i) | None \<Rightarrow> Inl (ApprovalError ''invalid int value'')))"

text \<open>Comparing a NaN raises; an infinity is beyond every bound.\<close>

definition validate_bounds :: "string \<Rightarrow> cfg_value \<Rightarrow> (approval_error, unit) result" where
  "validate_bounds param v =
     (case dict_get ALLOWLIST param of
        None \<Rightarrow> Inl (ApprovalError ''parameter not allowlisted'')
      | Some (_, lo, hi) \<Rightarrow>
          (let out = Inl (ApprovalError ''out of bounds'') in
           case v of
             VInt i \<Rightarrow> if of_int i < lo \<or> of_int i > hi then out else Inr ()
           | VDec (DFinite d) \<Rightarrow> if dec_value d < lo \<or> dec_value d > hi then out else Inr ()
           | VDec (DInfinity _) \<Rightarrow> out
           | VDec DNaN \<Rightarrow> Inl InvalidOperation))"

fun show_value :: "cfg_value \<Rightarrow> string" where
  "show_value (VInt i) = show_int i"
| "show_value (VDec (DFinite d)) = show_decimal d"
| "show_value (VDec (DInfinity neg)) = (if neg then ''-Infinity'' else ''Infinity'')"
| "show_value (VDec DNaN) = ''NaN''"

definition checked_value :: "string \<Rightarrow> string \<Rightarrow> (approval_error, cfg_value) result" where
  "checked_value param raw =
     (case dict_get ALLOWLIST param of
        None \<Rightarrow> Inl (ApprovalError ''parameter not allowlisted'')
      | Some (ty, _) \<Rightarrow>
          res_bind (parse_value raw ty) (\<lambda>v. res_bind (validate_bounds param v) (\<lambda>_. Inr v)))"

subsection \<open>The runtime\<close>

record AgentRuntime =
  rt_settings :: "string \<Rightarrow> cfg_value"
  rt_limits :: "(string \<Rightarrow> cfg_value) option"
  rt_guard :: ExecutionGuard
  rt_mode :: TradingMode

definition get_current :: "AgentRuntime \<Rightarrow> string \<Rightarrow> string option" where
  "get_current rt param = (if allowlisted param then Some (show_value (rt_settings rt param)) else None)"

definition risk_field :: "string \<Rightarrow> string" where
  "risk_field param = snd (snd (py_partition (CHR ''.'') param))"

definition apply_value :: "AgentRuntime \<Rightarrow> string \<Rightarrow> cfg_value \<Rightarrow> (approval_error, AgentRuntime) result" where
  "apply_value rt param v =
     (let s' = (rt_settings rt)(param := v) in
      if param \<in> set RISK_PARAMS
      then (case rt_limits rt of
              None \<Rightarrow> Inl (ApprovalError ''risk engine unavailable'')
            | Some l \<Rightarrow> Inr (rt\<lparr>rt_settings := s', rt_limits := Some (l(risk_field param := v))\<rparr>))
      else if param \<in> set [''arbitrage.triangle_min_net_bps'', ''arbitrage.triangle_max_leg_slippage_bps'',
                           ''execution.leg_timeout_seconds'']
      then Inr (rt\<lparr>rt_settings := s'\<rparr>)
      else Inl (ApprovalError ''parameter not allowlisted for apply''))"

definition verify_converged :: "AgentRuntime \<Rightarrow> string \<Rightarrow> string \<Rightarrow> (approval_error, unit) result" where
  "verify_converged rt param raw =
     (case get_current rt param of
        None \<Rightarrow> Inl (ApprovalError ''cannot verify convergence'')
      | Some now \<Rightarrow>
          if py_strip now \<noteq> py_strip raw then Inl (ApprovalError ''settings diverged'')
          else if param \<in> set RISK_PARAMS
          then (case rt_limits rt of
                  None \<Rightarrow> Inl (ApprovalError ''RiskEngine unavailable'')
                | Some l \<Rightarrow>
                    if py_strip (show_value (l (risk_field param))) \<noteq> py_strip raw
                    then Inl (ApprovalError ''RiskEngine diverged'') else Inr ())
          else Inr ())"

definition check_safety_gates :: "AgentRuntime \<Rightarrow> string \<Rightarrow> (approval_error, unit) result" where
  "check_safety_gates rt reason =
     (if is_halted (rt_guard rt) then Inl (ApprovalError ''kill switch engaged'')
      else if rt_mode rt = LIVE \<and> py_strip reason = []
      then Inl (ApprovalError ''LIVE mode requires an explicit reason'')
      else Inr ())"

subsection \<open>The database\<close>

datatype RecommendationStatus =
    R_DRAFT | R_PENDING | R_REVIEWED | R_APPROVED | R_REJECTED | R_DISMISSED | R_EXPIRED | R_SUPERSEDED

record Recommendation =
  rec_parameter :: string
  rec_current :: "string option"
  rec_old :: "string option"
  rec_proposed :: string
  rec_status :: RecommendationStatus
  rec_operator_decision :: "string option"
  rec_decision_reason :: "string option"
  rec_result :: "string option"
  rec_version :: int

record AgentDb =
  db_recs :: "(string, Recommendation) dict"
  db_bot :: bot_state

definition ACTIONABLE_STATES :: "RecommendationStatus list" where
  "ACTIONABLE_STATES = [R_PENDING, R_REVIEWED]"

text \<open>\<^verbatim>\<open>UPDATE ... WHERE id = rec AND status IN states\<close>; nothing when no row matches.\<close>

definition update_where ::
  "AgentDb \<Rightarrow> string \<Rightarrow> RecommendationStatus list \<Rightarrow> (Recommendation \<Rightarrow> Recommendation) \<Rightarrow> AgentDb option" where
  "update_where db rec states f =
     (case dict_get (db_recs db) rec of
        Some row \<Rightarrow> if rec_status row \<in> set states
                    then Some (db\<lparr>db_recs := dict_set (db_recs db) rec (f row)\<rparr>) else None
      | None \<Rightarrow> None)"

definition decided ::
  "RecommendationStatus \<Rightarrow> string \<Rightarrow> string \<Rightarrow> int \<Rightarrow> Recommendation \<Rightarrow> Recommendation" where
  "decided st decision reason ver row =
     row\<lparr>rec_status := st, rec_operator_decision := Some decision,
         rec_decision_reason := (if reason = [] then None else Some (take 500 reason)), rec_version := ver\<rparr>"

definition apply_record ::
  "string \<Rightarrow> string \<Rightarrow> string \<Rightarrow> string \<Rightarrow> string \<Rightarrow> string \<Rightarrow> scalar \<Rightarrow> bot_value" where
  "apply_record rec param raw st approver stamp err =
     BDict [(''recommendation_id'', SStr rec), (''parameter'', SStr param), (''value'', SStr raw),
            (''status'', SStr st), (''approver'', SStr approver), (''approved_at'', SStr stamp), (''error'', err)]"

definition persist_in_session ::
  "AgentDb \<Rightarrow> int \<Rightarrow> string \<Rightarrow> string \<Rightarrow> string \<Rightarrow> string \<Rightarrow> string \<Rightarrow> AgentDb" where
  "persist_in_session db now stamp rec param raw approver =
     db\<lparr>db_bot := bot_set (bot_set (db_bot db) now (config_key param) (BStr raw))
          now (apply_key rec) (apply_record rec param raw ''applying'' approver stamp SNone)\<rparr>"

definition mark_apply_status ::
  "AgentDb \<Rightarrow> int \<Rightarrow> string \<Rightarrow> string \<Rightarrow> string \<Rightarrow> string \<Rightarrow> string \<Rightarrow> string \<Rightarrow> scalar \<Rightarrow> AgentDb" where
  "mark_apply_status db now stamp rec param raw st approver err =
     db\<lparr>db_bot := bot_set (db_bot db) now (apply_key rec) (apply_record rec param raw st approver stamp err)\<rparr>"

definition approved_key :: "string \<Rightarrow> string" where
  "approved_key rec = ''agent_rec_approved:'' @ rec"

definition measure_key :: "string \<Rightarrow> string" where
  "measure_key rec = ''agent_rec_measure:'' @ rec"

subsection \<open>Review and rejection\<close>

text \<open>
  The row is read and then updated; \<open>mid\<close> is what other sessions commit in between. The result
  is what the call returns, and the database after it.
\<close>

definition blank :: "string \<Rightarrow> bool" where
  "blank s \<longleftrightarrow> py_strip s = []"

definition review ::
  "(AgentDb \<Rightarrow> AgentDb) \<Rightarrow> AgentDb \<Rightarrow> string \<Rightarrow> string \<Rightarrow> string \<Rightarrow>
   (approval_error, Recommendation) result \<times> AgentDb" where
  "review mid db rec approver reason =
     (if blank approver then (Inl (ApprovalError ''approver must be a non-empty human identifier''), db)
      else if blank rec then (Inl (ApprovalError ''recommendation_id required''), db)
      else (case dict_get (db_recs db) rec of
              None \<Rightarrow> (Inl (ApprovalError ''recommendation not found''), db)
            | Some row \<Rightarrow>
                if rec_status row \<noteq> R_PENDING then (Inl (ApprovalError ''recommendation not PENDING''), db)
                else (let f = decided R_REVIEWED (''reviewed by '' @ approver) reason (rec_version row + 1) in
                      case update_where (mid db) rec [R_PENDING] f of
                        None \<Rightarrow> (Inl (ApprovalError ''recommendation not PENDING (concurrent modification)''), mid db)
                      | Some db' \<Rightarrow> (Inr (f row), db'))))"

definition reject ::
  "(AgentDb \<Rightarrow> AgentDb) \<Rightarrow> AgentDb \<Rightarrow> string \<Rightarrow> string \<Rightarrow> string \<Rightarrow>
   (approval_error, Recommendation) result \<times> AgentDb" where
  "reject mid db rec approver reason =
     (if blank approver then (Inl (ApprovalError ''approver required''), db)
      else (case dict_get (db_recs db) rec of
              None \<Rightarrow> (Inl (ApprovalError ''recommendation not found''), db)
            | Some row \<Rightarrow>
                if rec_status row \<notin> set ACTIONABLE_STATES then (Inl (ApprovalError ''not PENDING/REVIEWED''), db)
                else (let f = decided R_REJECTED (''rejected by '' @ approver) reason (rec_version row + 1) in
                      case update_where (mid db) rec ACTIONABLE_STATES f of
                        None \<Rightarrow> (Inl (ApprovalError ''concurrent modification''), mid db)
                      | Some db' \<Rightarrow> (Inr (f row), db'))))"

subsection \<open>Approval\<close>

text \<open>The first phase: what the recommendation asks for, if it may be granted.\<close>

definition approve_check ::
  "AgentRuntime \<Rightarrow> AgentDb \<Rightarrow> string \<Rightarrow> string \<Rightarrow>
   (approval_error, Recommendation \<times> string \<times> string \<times> cfg_value) result" where
  "approve_check rt db rec reason =
     (case dict_get (db_recs db) rec of
        None \<Rightarrow> Inl (ApprovalError ''recommendation not found'')
      | Some row \<Rightarrow>
          if rec_status row \<notin> set ACTIONABLE_STATES then Inl (ApprovalError ''recommendation not PENDING/REVIEWED'')
          else
            (let param = py_strip (rec_parameter row); raw = py_strip (rec_proposed row) in
             if param = [] \<or> raw = [] then Inl (ApprovalError ''recommendation integrity failed'')
             else res_bind (checked_value param raw) (\<lambda>v.
                  res_bind (check_safety_gates rt reason) (\<lambda>_.
                    let stored = (case rec_current row of Some x \<Rightarrow> Some x | None \<Rightarrow> rec_old row) in
                    case (stored, get_current rt param) of
                      (Some x, Some y) \<Rightarrow>
                        if py_strip x \<noteq> py_strip y then Inl (ApprovalError ''current config changed'')
                        else Inr (row, param, raw, v)
                    | _ \<Rightarrow> Inr (row, param, raw, v)))))"

text \<open>
  What surrounds an approval: the clock, what other sessions commit between the check and the
  claim, what they install in the runtime in the meantime, and which of the later writes succeed.
\<close>

record ApproveEnv =
  ae_now :: int
  ae_stamp :: string
  ae_mid :: "AgentDb \<Rightarrow> AgentDb"
  ae_rt_mid :: "AgentRuntime \<Rightarrow> AgentRuntime"
  ae_claim_error :: "string option"
  ae_mark_ok :: bool
  ae_audit_ok :: bool
  ae_note_ok :: bool
  ae_measure_ok :: bool

definition approved_row ::
  "string \<Rightarrow> string \<Rightarrow> string \<Rightarrow> string \<Rightarrow> int \<Rightarrow> Recommendation \<Rightarrow> Recommendation" where
  "approved_row approver reason param raw ver row =
     (decided R_APPROVED (''approved by '' @ approver) reason ver row)
       \<lparr>rec_result := Some (''applied '' @ param @ ''='' @ raw)\<rparr>"

definition approve_claim ::
  "ApproveEnv \<Rightarrow> AgentDb \<Rightarrow> string \<Rightarrow> string \<Rightarrow> string \<Rightarrow> Recommendation \<Rightarrow> string \<Rightarrow> string \<Rightarrow>
   (approval_error, AgentDb) result" where
  "approve_claim env db rec approver reason row param raw =
     (case update_where db rec ACTIONABLE_STATES
             (approved_row approver reason param raw (rec_version row + 1)) of
        None \<Rightarrow> Inl (ApprovalError ''recommendation not PENDING/REVIEWED (concurrent modification)'')
      | Some db' \<Rightarrow>
          (case ae_claim_error env of
             Some _ \<Rightarrow> Inl (ApprovalError ''durable approval claim failed'')
           | None \<Rightarrow> Inr (persist_in_session db' (ae_now env) (ae_stamp env) rec param raw approver)))"

definition compensate_runtime :: "AgentRuntime \<Rightarrow> AgentRuntime \<Rightarrow> AgentRuntime" where
  "compensate_runtime old rt =
     rt\<lparr>rt_settings := rt_settings old,
        rt_limits := (case rt_limits old of None \<Rightarrow> rt_limits rt | Some l \<Rightarrow> Some l)\<rparr>"

text \<open>The bookkeeping after a success: each write is attempted, none of them can fail the call.\<close>

definition approve_notes ::
  "ApproveEnv \<Rightarrow> AgentDb \<Rightarrow> string \<Rightarrow> string \<Rightarrow> Recommendation \<Rightarrow> string \<Rightarrow> string \<Rightarrow> AgentDb list" where
  "approve_notes env db rec approver row param raw =
     (if \<not> ae_audit_ok env then []
      else (let note = BDict [(''parameter'', SStr param), (''value'', SStr raw), (''approver'', SStr approver)];
                measure = BDict [(''recommendation_id'', SStr rec), (''parameter'', SStr param),
                  (''old_value'', SStr (opt_or (rec_current row) ''None'')), (''new_value'', SStr raw),
                  (''approver'', SStr approver), (''approved_at'', SStr (ae_stamp env)),
                  (''status'', SStr ''awaiting_measurement'')];
                db1 = (if ae_note_ok env
                       then db\<lparr>db_bot := bot_set (db_bot db) (ae_now env) (approved_key rec) note\<rparr> else db);
                db2 = (if ae_measure_ok env
                       then db1\<lparr>db_bot := bot_set (db_bot db1) (ae_now env) (measure_key rec) measure\<rparr> else db1)
            in [db1, db2]))"

fun approval_text :: "approval_error \<Rightarrow> string" where
  "approval_text (ApprovalError x) = x"
| "approval_text InvalidOperation = ''InvalidOperation''"

text \<open>
  An approval: its result, the runtime after it, and the databases it leaves behind, one for each
  commit in order. The database after the call is the last of them.
\<close>

definition approve ::
  "ApproveEnv \<Rightarrow> AgentRuntime \<Rightarrow> AgentDb \<Rightarrow> string \<Rightarrow> string \<Rightarrow> string \<Rightarrow>
   (approval_error, Recommendation) result \<times> AgentRuntime \<times> AgentDb list" where
  "approve env rt db rec approver reason =
     (if blank approver then (Inl (ApprovalError ''approver must be a non-empty human identifier''), rt, [])
      else if blank rec then (Inl (ApprovalError ''recommendation_id required''), rt, [])
      else
        (case approve_check rt db rec reason of
           Inl e \<Rightarrow> (Inl e, rt, [])
         | Inr (row, param, raw, v) \<Rightarrow>
             (let db1 = ae_mid env db; rt1 = ae_rt_mid env rt in
              case approve_claim env db1 rec approver reason row param raw of
                Inl e \<Rightarrow> (Inl e, rt1, [db1])
              | Inr db2 \<Rightarrow>
                  (case apply_value rt1 param v of
                     Inl e \<Rightarrow>
                       (Inl e, compensate_runtime rt rt1,
                        [db1, db2] @ (if ae_mark_ok env
                          then [mark_apply_status db2 (ae_now env) (ae_stamp env) rec param raw ''failed'' approver
                                  (SStr (take 300 (approval_text e)))] else []))
                   | Inr rt2 \<Rightarrow>
                       (case verify_converged rt2 param raw of
                          Inl e \<Rightarrow>
                            (Inl e, compensate_runtime rt rt2,
                             [db1, db2] @ (if ae_mark_ok env
                               then [mark_apply_status db2 (ae_now env) (ae_stamp env) rec param raw ''failed'' approver
                                       (SStr (take 300 (approval_text e)))] else []))
                        | Inr _ \<Rightarrow>
                            (let db3 = (if ae_mark_ok env
                                  then mark_apply_status db2 (ae_now env) (ae_stamp env) rec param raw ''applied'' approver SNone
                                  else db2)
                             in (Inr (approved_row approver reason param raw (rec_version row + 1) row),
                                 rt2, [db1, db2, db3] @ approve_notes env db3 rec approver row param raw)))))))"

subsection \<open>Reconciliation at the start\<close>

text \<open>What \<^verbatim>\<open>str\<close> gives of a stored value; that of a dictionary begins with a brace.\<close>

fun bot_text :: "bot_value \<Rightarrow> string" where
  "bot_text (BStr s) = s"
| "bot_text (BBool b) = (if b then ''True'' else ''False'')"
| "bot_text (BDict d) = ''{''"
| "bot_text BNull = ''None''"
| "bot_text (BOther t) = t"

fun load_overrides :: "bot_state \<Rightarrow> string list \<Rightarrow> (approval_error, (string, string) dict) result" where
  "load_overrides tbl [] = Inr []"
| "load_overrides tbl (param # ps) =
     (case bot_get tbl (config_key param) of
        None \<Rightarrow> load_overrides tbl ps
      | Some BNull \<Rightarrow> load_overrides tbl ps
      | Some v \<Rightarrow>
          (let raw = py_strip (bot_text v) in
           if raw = [] then Inl (ApprovalError ''persisted config is empty'')
           else (case checked_value param raw of
                   Inl (ApprovalError _) \<Rightarrow> Inl (ApprovalError ''persisted config is invalid'')
                 | Inl InvalidOperation \<Rightarrow> Inl InvalidOperation
                 | Inr _ \<Rightarrow> res_bind (load_overrides tbl ps) (\<lambda>os. Inr ((param, raw) # os)))))"

definition load_persisted_overrides :: "bot_state \<Rightarrow> (approval_error, (string, string) dict) result" where
  "load_persisted_overrides tbl = load_overrides tbl (dict_keys ALLOWLIST)"

fun truthy_text :: "scalar option \<Rightarrow> string" where
  "truthy_text (Some (SStr s)) = s"
| "truthy_text (Some (SBool True)) = ''True''"
| "truthy_text _ = []"

text \<open>The application records, each with the id its key gives it when it carries none.\<close>

fun load_apply_records :: "bot_state \<Rightarrow> (string, scalar) dict list" where
  "load_apply_records [] = []"
| "load_apply_records ((k, row) # tbl) =
     (if take (length ''agent_apply:'') k \<noteq> ''agent_apply:'' then load_apply_records tbl
      else (case row_value row of
              BDict d \<Rightarrow>
                (if dict_get d ''recommendation_id'' = None
                 then dict_set d ''recommendation_id'' (SStr (drop (length ''agent_apply:'') k)) else d)
                # load_apply_records tbl
            | _ \<Rightarrow> load_apply_records tbl))"

fun reapply :: "AgentRuntime \<Rightarrow> (string, string) dict \<Rightarrow> (approval_error, unit) result \<times> AgentRuntime" where
  "reapply rt [] = (Inr (), rt)"
| "reapply rt ((param, raw) # os) =
     (case checked_value param raw of
        Inl e \<Rightarrow> (Inl e, rt)
      | Inr v \<Rightarrow>
          (case apply_value rt param v of
             Inl _ \<Rightarrow> (Inl (ApprovalError ''startup reconciliation failed''), rt)
           | Inr rt1 \<Rightarrow>
               (case verify_converged rt1 param raw of
                  Inl e \<Rightarrow> (Inl e, rt1)
                | Inr _ \<Rightarrow> reapply rt1 os)))"

text \<open>\<open>ok\<close> says for which records the mark can be written.\<close>

fun finish_records ::
  "(string \<Rightarrow> bool) \<Rightarrow> int \<times> string \<Rightarrow> AgentRuntime \<Rightarrow> AgentDb \<Rightarrow> (string, scalar) dict list \<Rightarrow>
   (approval_error, unit) result \<times> AgentRuntime \<times> AgentDb" where
  "finish_records ok t rt db [] = (Inr (), rt, db)"
| "finish_records ok (now, stamp) rt db (d # ds) =
     (let st = truthy_text (dict_get d ''status''); rec = truthy_text (dict_get d ''recommendation_id'');
          param = truthy_text (dict_get d ''parameter''); raw = truthy_text (dict_get d ''value'')
      in if st = ''applied'' then finish_records ok (now, stamp) rt db ds
         else if st \<notin> set [''applying'', ''failed''] \<or> rec = [] \<or> param = [] \<or> raw = []
         then (Inl (ApprovalError ''unrecoverable application record''), rt, db)
         else (case checked_value param raw of
                 Inl e \<Rightarrow> (Inl e, rt, db)
               | Inr v \<Rightarrow>
                   (case apply_value rt param v of
                      Inl _ \<Rightarrow> (Inl (ApprovalError ''startup recovery failed''), rt, db)
                    | Inr rt1 \<Rightarrow>
                        (case verify_converged rt1 param raw of
                           Inl e \<Rightarrow> (Inl e, rt1, db)
                         | Inr _ \<Rightarrow>
                             if ok rec
                             then finish_records ok (now, stamp) rt1
                                    (mark_apply_status db now stamp rec param raw ''applied''
                                       (truthy_text (dict_get d ''approver'')) SNone) ds
                             else (Inl (ApprovalError ''could not durably mark''), rt1, db)))))"

definition reconcile_approved_config ::
  "(string \<Rightarrow> bool) \<Rightarrow> int \<times> string \<Rightarrow> AgentRuntime \<Rightarrow> AgentDb \<Rightarrow>
   (approval_error, unit) result \<times> AgentRuntime \<times> AgentDb" where
  "reconcile_approved_config ok t rt db =
     (case load_persisted_overrides (db_bot db) of
        Inl e \<Rightarrow> (Inl e, rt, db)
      | Inr os \<Rightarrow>
          (case reapply rt (sort_key fst os) of
             (Inl e, rt1) \<Rightarrow> (Inl e, rt1, db)
           | (Inr _, rt1) \<Rightarrow> finish_records ok t rt1 db (load_apply_records (db_bot db))))"

subsection \<open>Keys\<close>

lemma keys_differ [simp]:
  "config_key p \<noteq> apply_key r" "config_key p \<noteq> approved_key r" "config_key p \<noteq> measure_key r"
  "apply_key r \<noteq> config_key p" "apply_key r \<noteq> approved_key q" "apply_key r \<noteq> measure_key q"
  "approved_key r \<noteq> config_key p" "measure_key r \<noteq> config_key p" "approved_key r \<noteq> apply_key q" "measure_key r \<noteq> apply_key q"
  by (simp_all add: config_key_def apply_key_def approved_key_def measure_key_def)

lemma keys_inj [simp]: "config_key p = config_key q \<longleftrightarrow> p = q" "apply_key r = apply_key s \<longleftrightarrow> r = s"
  by (simp_all add: config_key_def apply_key_def)

lemma persist_simps [simp]:
  "db_recs (persist_in_session db now stamp rec param raw approver) = db_recs db"
  "db_recs (mark_apply_status db now stamp rec param raw st approver err) = db_recs db"
  "bot_get (db_bot (persist_in_session db now stamp rec param raw approver)) k =
     (if k = apply_key rec then Some (apply_record rec param raw ''applying'' approver stamp SNone)
      else if k = config_key param then Some (BStr raw) else bot_get (db_bot db) k)"
  "bot_get (db_bot (mark_apply_status db now stamp rec param raw st approver err)) k =
     (if k = apply_key rec then Some (apply_record rec param raw st approver stamp err) else bot_get (db_bot db) k)"
  by (simp_all add: persist_in_session_def mark_apply_status_def)

lemma decided_simps [simp]:
  "rec_status (decided st x reason ver r) = st" "rec_parameter (decided st x reason ver r) = rec_parameter r"
  "rec_proposed (decided st x reason ver r) = rec_proposed r"
  "rec_status (approved_row approver reason param raw ver r) = R_APPROVED"
  "rec_parameter (approved_row approver reason param raw ver r) = rec_parameter r"
  "rec_proposed (approved_row approver reason param raw ver r) = rec_proposed r"
  by (simp_all add: decided_def approved_row_def)

lemma approve_notes_mem:
  assumes "d \<in> set (approve_notes env db rec approver row param raw)"
  shows "db_recs d = db_recs db" "k \<noteq> approved_key rec \<Longrightarrow> k \<noteq> measure_key rec \<Longrightarrow> bot_get (db_bot d) k = bot_get (db_bot db) k"
  using assms by (auto simp: approve_notes_def Let_def split: if_splits)

subsection \<open>Installing a value\<close>

lemma allowlist_cases: "allowlisted p \<longleftrightarrow> p \<in> set RISK_PARAMS \<or>
    p \<in> set [''arbitrage.triangle_min_net_bps'', ''arbitrage.triangle_max_leg_slippage_bps'', ''execution.leg_timeout_seconds'']"
proof -
  have k: "dict_keys ALLOWLIST = RISK_PARAMS @ [''arbitrage.triangle_min_net_bps'',
      ''arbitrage.triangle_max_leg_slippage_bps'', ''execution.leg_timeout_seconds'']" by code_simp
  have "allowlisted p \<longleftrightarrow> p \<in> set (dict_keys ALLOWLIST)"
    unfolding allowlisted_def dict_keys_def using dict_get_None_iff [of ALLOWLIST p] by simp
  then show ?thesis unfolding k by (simp only: set_append Un_iff)
qed

lemma allowlisted_keys: "allowlisted p \<longleftrightarrow> p \<in> set (dict_keys ALLOWLIST)"
  unfolding allowlisted_def dict_keys_def using dict_get_None_iff [of ALLOWLIST p] by simp

lemma allowlist_distinct: "distinct (dict_keys ALLOWLIST)"
  by code_simp

lemma risk_fields_distinct: "distinct (map risk_field RISK_PARAMS)"
  by code_simp

lemma risk_field_inj: "p \<in> set RISK_PARAMS \<Longrightarrow> q \<in> set RISK_PARAMS \<Longrightarrow> risk_field p = risk_field q \<Longrightarrow> p = q"
  using risk_fields_distinct unfolding distinct_map inj_on_def by blast

lemma checked_value_Inr:
  "checked_value p raw = Inr v \<Longrightarrow> allowlisted p \<and> validate_bounds p v = Inr ()"
  by (auto simp: checked_value_def allowlisted_def res_bind_Inr_iff split: option.splits)

text \<open>The settings and the limits of the risk engine agree on every risk parameter.\<close>

definition synced :: "AgentRuntime \<Rightarrow> bool" where
  "synced rt \<longleftrightarrow> (\<forall>p \<in> set RISK_PARAMS. case rt_limits rt of None \<Rightarrow> True | Some l \<Rightarrow> l (risk_field p) = rt_settings rt p)"

lemma apply_value_Inr:
  assumes "apply_value rt p v = Inr rt'"
  shows "rt_settings rt' = (rt_settings rt)(p := v)" "allowlisted p" "rt_guard rt' = rt_guard rt" "rt_mode rt' = rt_mode rt"
    "p \<in> set RISK_PARAMS \<Longrightarrow> \<exists>l. rt_limits rt = Some l \<and> rt_limits rt' = Some (l(risk_field p := v))"
    "p \<notin> set RISK_PARAMS \<Longrightarrow> rt_limits rt' = rt_limits rt"
    "rt_limits rt' = None \<longleftrightarrow> rt_limits rt = None"
  using assms allowlist_cases by (auto simp: apply_value_def Let_def split: if_splits option.splits)

lemma apply_value_synced: "apply_value rt p v = Inr rt' \<Longrightarrow> synced rt \<Longrightarrow> synced rt'"
  unfolding synced_def
proof
  fix q assume a: "apply_value rt p v = Inr rt'" and q: "q \<in> set RISK_PARAMS"
    and ok: "\<forall>p\<in>set RISK_PARAMS. case rt_limits rt of None \<Rightarrow> True | Some l \<Rightarrow> l (risk_field p) = rt_settings rt p"
  show "case rt_limits rt' of None \<Rightarrow> True | Some l \<Rightarrow> l (risk_field q) = rt_settings rt' q"
  proof (cases "p \<in> set RISK_PARAMS")
    case True
    obtain l where l: "rt_limits rt = Some l" "rt_limits rt' = Some (l(risk_field p := v))"
      using apply_value_Inr(5) [OF a True] by blast
    have "l (risk_field q) = rt_settings rt q" using ok q l(1) by auto
    moreover have "risk_field q = risk_field p \<Longrightarrow> q = p" using risk_field_inj q True by blast
    ultimately show ?thesis using l(2) apply_value_Inr(1) [OF a] by auto
  next
    case False
    then have "q \<noteq> p" using q by blast
    then show ?thesis using ok q apply_value_Inr(1) [OF a] apply_value_Inr(6) [OF a False] by (auto split: option.splits)
  qed
qed

lemma apply_value_possible:
  "allowlisted p \<Longrightarrow> rt_limits rt \<noteq> None \<Longrightarrow> \<exists>rt'. apply_value rt p v = Inr rt'"
  using allowlist_cases [of p] by (auto simp: apply_value_def Let_def)

text \<open>A text is canonical when it is what \<^verbatim>\<open>str\<close> gives of the value it stands for.\<close>

definition canonical :: "string \<Rightarrow> string \<Rightarrow> bool" where
  "canonical p raw = (case checked_value p raw of Inr v \<Rightarrow> py_strip (show_value v) = py_strip raw | Inl _ \<Rightarrow> False)"

lemma verify_after_apply:
  assumes "apply_value rt p v = Inr rt'"
  shows "verify_converged rt' p raw =
    (if py_strip (show_value v) = py_strip raw then Inr () else Inl (ApprovalError ''settings diverged''))"
proof -
  have "get_current rt' p = Some (show_value v)" using apply_value_Inr(1,2) [OF assms] by (simp add: get_current_def)
  moreover have "p \<in> set RISK_PARAMS \<Longrightarrow> \<exists>l. rt_limits rt' = Some (l(risk_field p := v))"
    using apply_value_Inr(5) [OF assms] by blast
  ultimately show ?thesis by (auto simp: verify_converged_def)
qed

end
