(* ===== verification/Approval_Safety.thy ===== *)
theory Approval_Safety
  imports Agent_Approval
begin

text \<open>
  What the approval of configuration changes guarantees: who may change what, what a failed
  approval leaves behind, what a start makes of the database, and that a crash in the middle of
  an approval is repaired by the next start.
\<close>

subsection \<open>An approval\<close>

lemma update_where_Some:
  "update_where db rec states f = Some db' \<longleftrightarrow>
     (\<exists>row. dict_get (db_recs db) rec = Some row \<and> rec_status row \<in> set states \<and>
        db' = db\<lparr>db_recs := dict_set (db_recs db) rec (f row)\<rparr>)"
  by (auto simp: update_where_def split: option.splits)

lemma approve_check_Inr:
  assumes "approve_check rt db rec reason = Inr (row, param, raw, v)"
  shows "dict_get (db_recs db) rec = Some row" "rec_status row \<in> set ACTIONABLE_STATES"
    "param = py_strip (rec_parameter row)" "raw = py_strip (rec_proposed row)" "checked_value param raw = Inr v"
    "\<not> is_halted (rt_guard rt)" "rt_mode rt = LIVE \<Longrightarrow> \<not> blank reason" "param \<noteq> []" "raw \<noteq> []"
    "case rec_current row of Some x \<Rightarrow> py_strip x = py_strip (show_value (rt_settings rt param)) | None \<Rightarrow> True"
proof -
  obtain row' where row': "dict_get (db_recs db) rec = Some row'" "rec_status row' \<in> set ACTIONABLE_STATES"
    using assms by (auto simp: approve_check_def split: option.splits if_splits)
  let ?p = "py_strip (rec_parameter row')" and ?r = "py_strip (rec_proposed row')"
  obtain w where w: "checked_value ?p ?r = Inr w" "check_safety_gates rt reason = Inr ()" "?p \<noteq> []" "?r \<noteq> []"
    and fin: "(case (case rec_current row' of Some x \<Rightarrow> Some x | None \<Rightarrow> rec_old row', get_current rt ?p) of
        (Some x, Some y) \<Rightarrow>
          if py_strip x \<noteq> py_strip y then Inl (ApprovalError ''current config changed'')
          else Inr (row', ?p, ?r, w)
      | _ \<Rightarrow> Inr (row', ?p, ?r, w)) = Inr (row, param, raw, v)"
    using assms row' by (auto simp: approve_check_def Let_def res_bind_Inr_iff split: if_splits)
  have eq: "row = row'" "param = ?p" "raw = ?r" "v = w" using fin by (auto split: option.splits if_splits)
  show "dict_get (db_recs db) rec = Some row" "rec_status row \<in> set ACTIONABLE_STATES"
    "param = py_strip (rec_parameter row)" "raw = py_strip (rec_proposed row)" "checked_value param raw = Inr v"
    "param \<noteq> []" "raw \<noteq> []"
    using row' eq w by simp_all
  show "\<not> is_halted (rt_guard rt)" "rt_mode rt = LIVE \<Longrightarrow> \<not> blank reason"
    using w(2) by (auto simp: check_safety_gates_def blank_def split: if_splits)
  have "get_current rt ?p = Some (show_value (rt_settings rt ?p))"
    using checked_value_Inr [OF w(1)] by (simp add: get_current_def)
  then show "case rec_current row of Some x \<Rightarrow> py_strip x = py_strip (show_value (rt_settings rt param)) | None \<Rightarrow> True"
    using fin eq by (auto split: option.splits if_splits)
qed

lemma approve_claim_Inr:
  assumes "approve_claim env db rec approver reason row param raw = Inr db'"
  shows "\<exists>now. dict_get (db_recs db) rec = Some now \<and> rec_status now \<in> set ACTIONABLE_STATES \<and>
    db' = persist_in_session (db\<lparr>db_recs := dict_set (db_recs db) rec
      (approved_row approver reason param raw (rec_version row + 1) now)\<rparr>) (ae_now env) (ae_stamp env) rec param raw approver"
  using assms by (auto simp: approve_claim_def update_where_Some split: option.splits)

text \<open>How an approval can go, once the caller has given a name and an id.\<close>

lemma approve_cases:
  assumes "approve env rt db rec approver reason = (res, rt', dbs)"
  obtains (refused) e where "res = Inl e" "rt' = rt" "dbs = []"
  | (lost) e where "res = Inl e" "rt' = ae_rt_mid env rt" "dbs = [ae_mid env db]"
  | (failed) e row param raw v db2 where "res = Inl e" "\<not> blank approver" "\<not> blank rec"
      "approve_check rt db rec reason = Inr (row, param, raw, v)"
      "approve_claim env (ae_mid env db) rec approver reason row param raw = Inr db2"
      "rt' = compensate_runtime rt (ae_rt_mid env rt) \<or>
       (\<exists>rt2. apply_value (ae_rt_mid env rt) param v = Inr rt2 \<and> rt' = compensate_runtime rt rt2)"
      "dbs = [ae_mid env db, db2] @ (if ae_mark_ok env
         then [mark_apply_status db2 (ae_now env) (ae_stamp env) rec param raw ''failed'' approver
                 (SStr (take 300 (approval_text e)))] else [])"
  | (granted) row param raw v db2 db3 where "\<not> blank approver" "\<not> blank rec"
      "res = Inr (approved_row approver reason param raw (rec_version row + 1) row)"
      "approve_check rt db rec reason = Inr (row, param, raw, v)"
      "approve_claim env (ae_mid env db) rec approver reason row param raw = Inr db2"
      "apply_value (ae_rt_mid env rt) param v = Inr rt'" "canonical param raw"
      "db3 = (if ae_mark_ok env then mark_apply_status db2 (ae_now env) (ae_stamp env) rec param raw ''applied'' approver SNone else db2)"
      "dbs = [ae_mid env db, db2, db3] @ approve_notes env db3 rec approver row param raw"
proof (cases "blank approver \<or> blank rec")
  case True
  then have "\<exists>e. approve env rt db rec approver reason = (Inl e, rt, [])" by (auto simp: approve_def)
  then show thesis using assms refused by auto
next
  case named: False
  show thesis
  proof (cases "approve_check rt db rec reason")
    case (Inl e)
    then show thesis using assms named by (intro refused [of e]) (simp_all add: approve_def)
  next
    case (Inr x)
    obtain row param raw v where x: "x = (row, param, raw, v)" by (cases x)
    note chk = Inr [unfolded x]
    show thesis
    proof (cases "approve_claim env (ae_mid env db) rec approver reason row param raw")
      case (Inl e)
      then show thesis using assms named chk by (intro lost [of e]) (simp_all add: approve_def)
    next
      case claim: (Inr db2)
      show thesis
      proof (cases "apply_value (ae_rt_mid env rt) param v")
        case (Inl e)
        then show thesis using assms named chk claim by (intro failed [where e = e and row = row and param = param and raw = raw and v = v and ?db2.0 = db2]) (simp_all add: approve_def)
      next
        case ap: (Inr rt2)
        show thesis
        proof (cases "py_strip (show_value v) = py_strip raw")
          case True
          then show thesis
            using assms named chk claim ap verify_after_apply [OF ap, of raw] approve_check_Inr(5) [OF chk]
            by (intro granted [where row = row and param = param and raw = raw and v = v and ?db2.0 = db2]) (auto simp: approve_def canonical_def Let_def)
        next
          case False
          then show thesis
            using assms named chk claim ap verify_after_apply [OF ap, of raw]
            by (intro failed [where e = "ApprovalError ''settings diverged''" and row = row and param = param and raw = raw and v = v and ?db2.0 = db2]) (auto simp: approve_def)
        qed
      qed
    qed
  qed
qed

lemma compensate_same: "compensate_runtime rt rt = rt"
  by (simp add: compensate_runtime_def split: option.splits)

lemma compensate_applied: "apply_value rt p v = Inr rt2 \<Longrightarrow> compensate_runtime rt rt2 = rt"
  using apply_value_Inr(3,4,7) [of rt p v rt2] by (auto simp: compensate_runtime_def split: option.splits)



text \<open>(settings_and_engine_agree).
  Approvals keep the settings and the limits of the risk engine in agreement, granted or not.\<close>

theorem settings_and_engine_agree:
  assumes "approve env rt db rec approver reason = (res, rt', dbs)" "synced rt" "synced (ae_rt_mid env rt)"
    "rt_limits rt = None \<longrightarrow> rt_limits (ae_rt_mid env rt) = None"
  shows "synced rt'"
  using assms(1)
proof (cases rule: approve_cases)
  case (failed e row param raw v db2)
  have "synced (compensate_runtime rt x)" if "rt_limits rt = None \<longrightarrow> rt_limits x = None" for x
    using assms(2) that by (auto simp: synced_def compensate_runtime_def split: option.splits)
  then show ?thesis using failed(6) assms(4) apply_value_Inr(7) by fastforce
next
  case (granted row param raw v db2 db3)
  then show ?thesis using apply_value_synced assms(3) by blast
qed (use assms in simp_all)

subsection \<open>What reconciliation does\<close>

fun settings_after :: "(string \<Rightarrow> cfg_value) \<Rightarrow> (string \<times> string) list \<Rightarrow> (string \<Rightarrow> cfg_value)" where
  "settings_after s [] = s"
| "settings_after s ((p, raw) # os) =
     settings_after (case checked_value p raw of Inr v \<Rightarrow> s(p := v) | Inl _ \<Rightarrow> s) os"

text \<open>The parameter and value of each application record that is not marked as applied.\<close>

fun unfinished :: "(string, scalar) dict list \<Rightarrow> (string \<times> string) list" where
  "unfinished [] = []"
| "unfinished (d # ds) =
     (if truthy_text (dict_get d ''status'') = ''applied'' then unfinished ds
      else (truthy_text (dict_get d ''parameter''), truthy_text (dict_get d ''value'')) # unfinished ds)"

lemma settings_after_append: "settings_after s (xs @ ys) = settings_after (settings_after s xs) ys"
  by (induction s xs rule: settings_after.induct) simp_all

lemma settings_after_other: "p \<notin> fst ` set os \<Longrightarrow> settings_after s os p = s p"
  by (induction s os rule: settings_after.induct) (auto split: sum.splits)

lemma settings_after_last:
  "p \<notin> fst ` set ys \<Longrightarrow> checked_value p raw = Inr v \<Longrightarrow> settings_after s (xs @ (p, raw) # ys) p = v"
  by (simp add: settings_after_append settings_after_other)

text \<open>What holds of a runtime after installing a list of values over another.\<close>

definition installed :: "AgentRuntime \<Rightarrow> (string \<times> string) list \<Rightarrow> AgentRuntime \<Rightarrow> bool" where
  "installed rt os rt' \<longleftrightarrow> rt_settings rt' = settings_after (rt_settings rt) os \<and> (synced rt \<longrightarrow> synced rt') \<and>
     (rt_limits rt' = None \<longleftrightarrow> rt_limits rt = None) \<and> rt_guard rt' = rt_guard rt \<and> rt_mode rt' = rt_mode rt \<and>
     (\<forall>(p, raw) \<in> set os. canonical p raw)"

lemma installed_Nil [simp]: "installed rt [] rt"
  by (simp add: installed_def)

lemma installed_step:
  assumes "checked_value p raw = Inr v" "apply_value rt p v = Inr rt1" "verify_converged rt1 p raw = Inr ()"
    "installed rt1 os rt'"
  shows "installed rt ((p, raw) # os) rt'"
proof -
  note ap = apply_value_Inr [OF assms(2)]
  have "canonical p raw" using assms(1,3) verify_after_apply [OF assms(2)] by (simp add: canonical_def split: if_splits)
  then show ?thesis
    using assms(1,4) ap apply_value_synced [OF assms(2)] by (auto simp: installed_def)
qed

lemma reapply_Inr: "reapply rt os = (Inr (), rt') \<Longrightarrow> installed rt os rt'"
proof (induction rt os rule: reapply.induct)
  case (2 rt p raw os)
  then show ?case
    by (auto split: sum.splits intro!: installed_step)
qed simp

lemma reapply_done:
  assumes "\<forall>(p, raw) \<in> set os. canonical p raw" "rt_limits rt \<noteq> None"
  shows "\<exists>rt'. reapply rt os = (Inr (), rt')"
  using assms
proof (induction rt os rule: reapply.induct)
  case (2 rt p raw os)
  obtain v where v: "checked_value p raw = Inr v" "py_strip (show_value v) = py_strip raw"
    using 2(2) by (auto simp: canonical_def split: sum.splits)
  obtain rt1 where rt1: "apply_value rt p v = Inr rt1"
    using apply_value_possible checked_value_Inr [OF v(1)] 2(3) by blast
  have ver: "verify_converged rt1 p raw = Inr ()" using verify_after_apply [OF rt1] v(2) by simp
  have "rt_limits rt1 \<noteq> None" using apply_value_Inr(7) [OF rt1] 2(3) by simp
  then have "\<exists>rt'. reapply rt1 os = (Inr (), rt')" using 2(1) [OF v(1) rt1 ver] 2(2) by simp
  then show ?case using v(1) rt1 ver by simp
qed simp

lemma finish_Inr:
  "finish_records ok t rt db ds = (Inr (), rt', db') \<Longrightarrow> installed rt (unfinished ds) rt' \<and> db_recs db' = db_recs db \<and>
     (\<forall>p. bot_get (db_bot db') (config_key p) = bot_get (db_bot db) (config_key p))"
proof (induction ok t rt db ds rule: finish_records.induct)
  case (2 ok now stamp rt db d ds)
  let ?st = "truthy_text (dict_get d ''status'')" and ?rec = "truthy_text (dict_get d ''recommendation_id'')"
  let ?p = "truthy_text (dict_get d ''parameter'')" and ?raw = "truthy_text (dict_get d ''value'')"
  show ?case
  proof (cases "?st = ''applied''")
    case True
    then show ?thesis using 2 by simp
  next
    case False
    have f: "\<not> (?st \<notin> set [''applying'', ''failed''] \<or> ?rec = [] \<or> ?p = [] \<or> ?raw = [])"
      using 2(3) False by (auto simp: Let_def split: if_splits)
    obtain v rt1 where s: "checked_value ?p ?raw = Inr v" "apply_value rt ?p v = Inr rt1"
      "verify_converged rt1 ?p ?raw = Inr ()" "ok ?rec"
      "finish_records ok (now, stamp) rt1 (mark_apply_status db now stamp ?rec ?p ?raw ''applied''
         (truthy_text (dict_get d ''approver'')) SNone) ds = (Inr (), rt', db')"
      using 2(3) False f by (auto simp: Let_def simp del: set_simps split: sum.splits if_splits)
    note IH = 2(2) [OF refl refl refl refl False f s(1,2,3) s(4,5)]
    then show ?thesis using installed_step [OF s(1-3)] False by simp
  qed
qed simp

text \<open>Records reconciliation can finish, and what it leaves of them.\<close>

definition record_ok :: "(string, scalar) dict \<Rightarrow> bool" where
  "record_ok d \<longleftrightarrow>
     truthy_text (dict_get d ''status'') = ''applied'' \<or>
     truthy_text (dict_get d ''status'') \<in> set [''applying'', ''failed''] \<and>
     truthy_text (dict_get d ''recommendation_id'') \<noteq> [] \<and> truthy_text (dict_get d ''parameter'') \<noteq> [] \<and>
     truthy_text (dict_get d ''value'') \<noteq> [] \<and>
     canonical (truthy_text (dict_get d ''parameter'')) (truthy_text (dict_get d ''value''))"

lemma finish_done:
  assumes "\<forall>d \<in> set ds. record_ok d" "rt_limits rt \<noteq> None" "\<forall>rec. ok rec"
  shows "\<exists>rt' db'. finish_records ok t rt db ds = (Inr (), rt', db')"
  using assms
proof (induction ok t rt db ds rule: finish_records.induct)
  case (2 ok now stamp rt db d ds)
  let ?st = "truthy_text (dict_get d ''status'')" and ?rec = "truthy_text (dict_get d ''recommendation_id'')"
  let ?p = "truthy_text (dict_get d ''parameter'')" and ?raw = "truthy_text (dict_get d ''value'')"
  show ?case
  proof (cases "?st = ''applied''")
    case True
    then show ?thesis using 2 by simp
  next
    case False
    have f: "\<not> (?st \<notin> set [''applying'', ''failed''] \<or> ?rec = [] \<or> ?p = [] \<or> ?raw = [])" and can: "canonical ?p ?raw"
      using 2(3) False unfolding record_ok_def by auto
    obtain v where v: "checked_value ?p ?raw = Inr v" "py_strip (show_value v) = py_strip ?raw"
      using can by (auto simp: canonical_def split: sum.splits)
    obtain rt1 where rt1: "apply_value rt ?p v = Inr rt1"
      using apply_value_possible checked_value_Inr [OF v(1)] 2(4) by blast
    have ver: "verify_converged rt1 ?p ?raw = Inr ()" using verify_after_apply [OF rt1] v(2) by simp
    have lim: "rt_limits rt1 \<noteq> None" using apply_value_Inr(7) [OF rt1] 2(4) by simp
    have okr: "ok ?rec" using 2(5) by blast
    have rest: "\<forall>d \<in> set ds. record_ok d" using 2(3) by simp
    obtain rt' db' where "finish_records ok (now, stamp) rt1 (mark_apply_status db now stamp ?rec ?p ?raw ''applied''
         (truthy_text (dict_get d ''approver'')) SNone) ds = (Inr (), rt', db')"
      using 2(2) [OF refl refl refl refl False f v(1) rt1 ver okr rest lim 2(5)] by blast
    then show ?thesis using False f v(1) rt1 ver okr by (simp del: set_simps)
  qed
qed simp

definition is_applied :: "bot_value \<Rightarrow> bool" where
  "is_applied v = (case v of BDict d \<Rightarrow> truthy_text (dict_get d ''status'') = ''applied'' | _ \<Rightarrow> False)"

lemma applied_record [simp]: "is_applied (apply_record rec p raw ''applied'' a st e)"
  by (simp add: is_applied_def apply_record_def)

text \<open>The value the database wants a parameter to have.\<close>

definition desired :: "bot_state \<Rightarrow> string \<Rightarrow> string option" where
  "desired tbl p =
     (case bot_get tbl (config_key p) of
        None \<Rightarrow> None | Some BNull \<Rightarrow> None | Some v \<Rightarrow> Some (py_strip (bot_text v)))"

lemma load_overrides_Inr:
  "load_overrides tbl ps = Inr os \<Longrightarrow>
   os = map (\<lambda>p. (p, the (desired tbl p))) (filter (\<lambda>p. desired tbl p \<noteq> None) ps)"
proof (induction ps arbitrary: os)
  case (Cons p ps)
  show ?case
  proof (cases "desired tbl p")
    case None
    then show ?thesis using Cons by (auto simp: desired_def split: option.splits bot_value.splits)
  next
    case (Some raw)
    obtain v where v: "bot_get tbl (config_key p) = Some v" "v \<noteq> BNull" "raw = py_strip (bot_text v)"
      using Some by (auto simp: desired_def split: option.splits bot_value.splits)
    obtain os' where "load_overrides tbl ps = Inr os'" "os = (p, raw) # os'"
      using Cons.prems v by (auto simp: Let_def res_bind_Inr_iff split: bot_value.splits if_splits sum.splits approval_error.splits)
    then show ?thesis using Cons.IH Some by simp
  qed
qed simp

lemma load_overrides_done:
  assumes "\<forall>p \<in> set ps. case desired tbl p of None \<Rightarrow> True | Some raw \<Rightarrow> raw \<noteq> [] \<and> canonical p raw"
  shows "\<exists>os. load_overrides tbl ps = Inr os"
  using assms
proof (induction ps)
  case (Cons p ps)
  then obtain os where os: "load_overrides tbl ps = Inr os" by auto
  show ?case
  proof (cases "desired tbl p")
    case None
    then show ?thesis using os by (auto simp: desired_def split: option.splits bot_value.splits)
  next
    case (Some raw)
    then obtain v where v: "bot_get tbl (config_key p) = Some v" "v \<noteq> BNull" "raw = py_strip (bot_text v)"
      by (auto simp: desired_def split: option.splits bot_value.splits)
    have "raw \<noteq> []" "canonical p raw" using Cons.prems Some by auto
    then show ?thesis using v os
      by (auto simp: Let_def canonical_def split: bot_value.splits sum.splits)
  qed
qed simp

lemma dict_get_pairs: "dict_get (map (\<lambda>p. (p, f p)) ps) q = (if q \<in> set ps then Some (f q) else None)"
  by (induction ps) auto

lemma sorted_overrides_get:
  assumes "load_persisted_overrides tbl = Inr os" "allowlisted p"
  shows "dict_get (rev (sort_key fst os)) p = desired tbl p"
proof -
  have os: "os = map (\<lambda>p. (p, the (desired tbl p))) (filter (\<lambda>p. desired tbl p \<noteq> None) (dict_keys ALLOWLIST))"
    using load_overrides_Inr assms(1) unfolding load_persisted_overrides_def by blast
  have "map fst os = filter (\<lambda>p. desired tbl p \<noteq> None) (dict_keys ALLOWLIST)" by (simp add: os comp_def)
  then have d: "dict_ok os" unfolding dict_ok_def using allowlist_distinct by simp
  have "distinct (map fst (sort_key fst os)) = distinct (map fst os)"
    by (simp add: distinct_map)
  then have "dict_ok (rev (sort_key fst os))" using d by (simp add: dict_ok_def rev_map [symmetric])
  then have "dict_get (rev (sort_key fst os)) p = Some raw \<longleftrightarrow> dict_get os p = Some raw" for raw
    using d by (simp add: dict_get_in_iff)
  then have "dict_get (rev (sort_key fst os)) p = dict_get os p" by (metis not_Some_eq)
  also have "\<dots> = desired tbl p"
    using assms(2) by (auto simp: os dict_get_pairs allowlisted_keys)
  finally show ?thesis .
qed

lemma settings_after_lookup:
  assumes "\<forall>(p, raw) \<in> set os. canonical p raw"
  shows "case dict_get (rev os) p of
      Some raw \<Rightarrow> checked_value p raw = Inr (settings_after s os p) | None \<Rightarrow> settings_after s os p = s p"
  using assms
proof (induction os rule: rev_induct)
  case (snoc x os)
  obtain q raw where x: "x = (q, raw)" by (cases x)
  obtain v where "checked_value q raw = Inr v" using snoc(2) by (auto simp: x canonical_def split: sum.splits)
  then show ?case using snoc by (cases "dict_get (rev os) p") (auto simp: x settings_after_append)
qed simp

lemma installed_lookup:
  "installed rt os rt' \<Longrightarrow> case dict_get (rev os) p of
      Some raw \<Rightarrow> checked_value p raw = Inr (rt_settings rt' p) | None \<Rightarrow> rt_settings rt' p = rt_settings rt p"
  using settings_after_lookup [where os = os and p = p and s = "rt_settings rt"]
  by (simp add: installed_def split: option.splits)

lemma reconcile_Inr:
  assumes "reconcile_approved_config ok t rt db = (Inr (), rt', db')"
  obtains os rt1 where "load_persisted_overrides (db_bot db) = Inr os" "installed rt (sort_key fst os) rt1"
    "installed rt1 (unfinished (load_apply_records (db_bot db))) rt'" "db_recs db' = db_recs db"
    "\<And>p. bot_get (db_bot db') (config_key p) = bot_get (db_bot db) (config_key p)"
proof -
  obtain os where os: "load_persisted_overrides (db_bot db) = Inr os"
    using assms by (auto simp: reconcile_approved_config_def split: sum.splits)
  obtain rt1 where rt1: "reapply rt (sort_key fst os) = (Inr (), rt1)"
    using assms os by (auto simp: reconcile_approved_config_def split: sum.splits prod.splits)
  have "finish_records ok t rt1 db (load_apply_records (db_bot db)) = (Inr (), rt', db')"
    using assms os rt1 by (simp add: reconcile_approved_config_def)
  then show thesis using that [OF os reapply_Inr [OF rt1]] finish_Inr by blast
qed

lemma reconcile_value:
  assumes "reconcile_approved_config ok t rt db = (Inr (), rt', db')" "allowlisted p"
  shows "(case dict_get (rev (unfinished (load_apply_records (db_bot db)))) p of
      Some raw \<Rightarrow> checked_value p raw = Inr (rt_settings rt' p)
    | None \<Rightarrow>
        (case desired (db_bot db) p of
           Some raw \<Rightarrow> checked_value p raw = Inr (rt_settings rt' p)
         | None \<Rightarrow> rt_settings rt' p = rt_settings rt p)) \<and> (synced rt \<longrightarrow> synced rt')"
proof -
  obtain os rt1 where r: "load_persisted_overrides (db_bot db) = Inr os" "installed rt (sort_key fst os) rt1"
    "installed rt1 (unfinished (load_apply_records (db_bot db))) rt'"
    using reconcile_Inr [OF assms(1)] by metis
  let ?us = "unfinished (load_apply_records (db_bot db))"
  have "case dict_get (rev (sort_key fst os)) p of
      Some raw \<Rightarrow> checked_value p raw = Inr (rt_settings rt1 p) | None \<Rightarrow> rt_settings rt1 p = rt_settings rt p"
    by (rule installed_lookup [OF r(2)])
  moreover have "case dict_get (rev ?us) p of
      Some raw \<Rightarrow> checked_value p raw = Inr (rt_settings rt' p) | None \<Rightarrow> rt_settings rt' p = rt_settings rt1 p"
    by (rule installed_lookup [OF r(3)])
  moreover have "synced rt \<longrightarrow> synced rt'" using r(2,3) by (simp add: installed_def)
  ultimately show ?thesis
    unfolding sorted_overrides_get [OF r(1) assms(2)] by (auto split: option.splits)
qed

text \<open>C27 (startup_value_of_a_setting).
  When reconciliation succeeds, each allowlisted setting has the value of the last application
  record of it that was not marked as applied; without one, the value the database wants; without
  that either, its value from the environment. The limits of the risk engine follow the settings.\<close>

theorem startup_value_of_a_setting:
  assumes "reconcile_approved_config ok t rt db = (Inr (), rt', db')" "allowlisted p"
  shows "(case dict_get (rev (unfinished (load_apply_records (db_bot db)))) p of
      Some raw \<Rightarrow> checked_value p raw = Inr (rt_settings rt' p)
    | None \<Rightarrow>
        (case desired (db_bot db) p of
           Some raw \<Rightarrow> checked_value p raw = Inr (rt_settings rt' p)
         | None \<Rightarrow> rt_settings rt' p = rt_settings rt p)) \<and> (synced rt \<longrightarrow> synced rt')"
  by (rule reconcile_value [OF assms])

text \<open>(odd_spelling_blocks_startup).
  A wanted value that is valid and within its bounds, but not spelled the way \<^verbatim>\<open>str\<close> spells
  it, makes every start fail: the check that runtime and database agree compares texts.\<close>

theorem odd_spelling_blocks_startup:
  assumes "desired (db_bot db) p = Some raw" "checked_value p raw = Inr v" "py_strip (show_value v) \<noteq> py_strip raw"
  shows "\<exists>e. fst (reconcile_approved_config ok t rt db) = Inl e"
proof (rule ccontr)
  assume "\<not> ?thesis"
  moreover obtain res rt' db' where res: "reconcile_approved_config ok t rt db = (res, rt', db')" by (metis prod.exhaust)
  ultimately have "reconcile_approved_config ok t rt db = (Inr (), rt', db')" by (cases res) simp_all
  then obtain os rt1 where r: "load_persisted_overrides (db_bot db) = Inr os" "installed rt (sort_key fst os) rt1"
    using reconcile_Inr by metis
  have "allowlisted p" using checked_value_Inr [OF assms(2)] by blast
  then have "dict_get (rev (sort_key fst os)) p = Some raw" using sorted_overrides_get [OF r(1)] assms(1) by simp
  then have "(p, raw) \<in> set os" by (auto dest: dict_get_Some_in)
  then have "canonical p raw" using r(2) by (auto simp: installed_def)
  then show False using assms(2,3) by (simp add: canonical_def)
qed

subsection \<open>Crashes\<close>

text \<open>A database whose unfinished application records, if any, ask for what is wanted anyway.\<close>

definition consistent_db :: "AgentDb \<Rightarrow> bool" where
  "consistent_db db \<longleftrightarrow>
     (\<forall>p. case desired (db_bot db) p of None \<Rightarrow> True | Some raw \<Rightarrow> raw \<noteq> [] \<and> (allowlisted p \<longrightarrow> canonical p raw)) \<and>
     (\<forall>d \<in> set (load_apply_records (db_bot db)). record_ok d) \<and>
     (\<forall>(p, raw) \<in> set (unfinished (load_apply_records (db_bot db))). desired (db_bot db) p = Some raw)"

definition settled_db :: "AgentDb \<Rightarrow> bool" where
  "settled_db db \<longleftrightarrow> consistent_db db \<and> unfinished (load_apply_records (db_bot db)) = []"

lemma dict_get_rev_in: "dict_get (rev os) p = Some raw \<Longrightarrow> (p, raw) \<in> set os"
  by (auto dest: dict_get_Some_in)

lemma consistent_start:
  assumes "consistent_db db" "rt_limits rt \<noteq> None" "\<forall>rec. ok rec"
  shows "\<exists>rt' db'. reconcile_approved_config ok t rt db = (Inr (), rt', db')"
proof -
  have "\<forall>p \<in> set (dict_keys ALLOWLIST). case desired (db_bot db) p of None \<Rightarrow> True | Some raw \<Rightarrow> raw \<noteq> [] \<and> canonical p raw"
    using assms(1) by (fastforce simp: consistent_db_def allowlisted_keys split: option.splits)
  then obtain os where os: "load_persisted_overrides (db_bot db) = Inr os"
    using load_overrides_done unfolding load_persisted_overrides_def by blast
  have "canonical p raw" if "(p, raw) \<in> set os" for p raw
  proof -
    have "os = map (\<lambda>p. (p, the (desired (db_bot db) p))) (filter (\<lambda>p. desired (db_bot db) p \<noteq> None) (dict_keys ALLOWLIST))"
      using load_overrides_Inr os unfolding load_persisted_overrides_def by blast
    then have "allowlisted p" "desired (db_bot db) p = Some raw" using that by (auto simp: allowlisted_keys)
    then show ?thesis using assms(1) unfolding consistent_db_def by (auto dest!: spec [of _ p])
  qed
  then obtain rt1 where rt1: "reapply rt (sort_key fst os) = (Inr (), rt1)"
    using reapply_done [of "sort_key fst os" rt] assms(2) by auto
  have "rt_limits rt1 \<noteq> None" using reapply_Inr [OF rt1] assms(2) by (simp add: installed_def)
  then obtain rt' db' where "finish_records ok t rt1 db (load_apply_records (db_bot db)) = (Inr (), rt', db')"
    using finish_done assms(1,3) unfolding consistent_db_def by blast
  then show ?thesis using os rt1 by (simp add: reconcile_approved_config_def)
qed

definition entry_record :: "string \<Rightarrow> BotStateRow \<Rightarrow> (string, scalar) dict list" where
  "entry_record k row =
     (if take (length ''agent_apply:'') k \<noteq> ''agent_apply:'' then []
      else (case row_value row of
              BDict d \<Rightarrow>
                [if dict_get d ''recommendation_id'' = None
                 then dict_set d ''recommendation_id'' (SStr (drop (length ''agent_apply:'') k)) else d]
            | _ \<Rightarrow> []))"

lemma load_apply_records_mem:
  "d \<in> set (load_apply_records tbl) \<longleftrightarrow> (\<exists>(k, row) \<in> set tbl. d \<in> set (entry_record k row))"
proof (induction tbl)
  case (Cons x tbl)
  obtain k row where x: "x = (k, row)" by (cases x)
  have "load_apply_records (x # tbl) = entry_record k row @ load_apply_records tbl"
    unfolding x load_apply_records.simps entry_record_def by (cases "row_value row") simp_all
  then show ?case using Cons.IH x by auto
qed simp

lemma apply_key_prefix: "take (length ''agent_apply:'') k = ''agent_apply:'' \<Longrightarrow> k = apply_key (drop (length ''agent_apply:'') k)"
  unfolding apply_key_def by (metis append_take_drop_id)

lemma entry_record_mem:
  assumes "d \<in> set (entry_record k row)"
  shows "\<exists>r d0. k = apply_key r \<and> row_value row = BDict d0 \<and>
     d = (if dict_get d0 ''recommendation_id'' = None then dict_set d0 ''recommendation_id'' (SStr r) else d0)"
proof -
  have pre: "take (length ''agent_apply:'') k = ''agent_apply:''"
    using assms unfolding entry_record_def by (rule contrapos_pp) simp
  obtain d0 where d0: "row_value row = BDict d0"
    using assms unfolding entry_record_def by (cases "row_value row") (auto split: if_splits)
  have "d = (if dict_get d0 ''recommendation_id'' = None
      then dict_set d0 ''recommendation_id'' (SStr (drop (length ''agent_apply:'') k)) else d0)"
    using assms unfolding entry_record_def pre d0 by simp
  then show ?thesis using apply_key_prefix [OF pre] d0 by blast
qed

lemma records_after_set:
  assumes "d \<in> set (load_apply_records (bot_set tbl now k v))"
  shows "d \<in> set (load_apply_records tbl) \<or> (\<exists>r d0. k = apply_key r \<and> v = BDict d0 \<and>
     d = (if dict_get d0 ''recommendation_id'' = None then dict_set d0 ''recommendation_id'' (SStr r) else d0))"
proof -
  obtain k' row where m: "(k', row) \<in> set (bot_set tbl now k v)" "d \<in> set (entry_record k' row)"
    using assms unfolding load_apply_records_mem by blast
  show ?thesis
  proof (cases "(k', row) \<in> set tbl")
    case True
    then show ?thesis using m(2) unfolding load_apply_records_mem by blast
  next
    case False
    then have "k' = k" "row_value row = v" using dict_set_mem [OF m(1) [unfolded bot_set_def]] by auto
    then show ?thesis using entry_record_mem [OF m(2)] by metis
  qed
qed

lemma unfinished_mem:
  "(p, raw) \<in> set (unfinished ds) \<longleftrightarrow> (\<exists>d \<in> set ds. truthy_text (dict_get d ''status'') \<noteq> ''applied'' \<and>
     p = truthy_text (dict_get d ''parameter'') \<and> raw = truthy_text (dict_get d ''value''))"
  by (induction ds) auto

lemma apply_record_texts:
  assumes "apply_record rec p raw st a stamp e = BDict d"
  shows "truthy_text (dict_get d ''status'') = st" "truthy_text (dict_get d ''parameter'') = p"
    "truthy_text (dict_get d ''value'') = raw" "truthy_text (dict_get d ''recommendation_id'') = rec"
    "dict_get d ''recommendation_id'' \<noteq> None"
  using assms by (auto simp: apply_record_def)

lemma records_other_key:
  assumes "\<And>r. k \<noteq> apply_key r" "d \<in> set (load_apply_records (bot_set tbl now k v))"
  shows "d \<in> set (load_apply_records tbl)"
  using records_after_set [OF assms(2)] assms(1) by blast

lemma records_after_mark:
  assumes "d \<in> set (load_apply_records (bot_set tbl now (apply_key rec) (apply_record rec p raw st a stamp e)))"
  shows "d \<in> set (load_apply_records tbl) \<or> apply_record rec p raw st a stamp e = BDict d"
  using records_after_set [OF assms] apply_record_texts(5) by fastforce

lemma desired_str: "desired (bot_set tbl now (config_key p) (BStr raw)) q = (if q = p then Some (py_strip raw) else desired tbl q)"
  by (auto simp: desired_def)

lemma desired_other [simp]:
  "desired (bot_set tbl now (apply_key r) v) p = desired tbl p"
  "desired (bot_set tbl now (approved_key r) v) p = desired tbl p"
  "desired (bot_set tbl now (measure_key r) v) p = desired tbl p"
  by (simp_all add: desired_def)

text \<open>The claim of an approval and the marks after it keep the database consistent.\<close>

lemma claim_consistent:
  assumes "settled_db db" "allowlisted param" "canonical param raw" "py_strip raw = raw" "raw \<noteq> []" "rec \<noteq> []" "db_bot db0 = db_bot db"
    "param \<noteq> []"
  shows "consistent_db (persist_in_session db0 now stamp rec param raw approver)"
    "desired (db_bot (persist_in_session db0 now stamp rec param raw approver)) param = Some raw"
proof -
  let ?d = "persist_in_session db0 now stamp rec param raw approver"
  have des: "desired (db_bot ?d) q = (if q = param then Some raw else desired (db_bot db) q)" for q
    using assms(4,7) by (simp add: persist_in_session_def desired_str)
  then show "desired (db_bot ?d) param = Some raw" by simp
  have mem: "d \<in> set (load_apply_records (db_bot db)) \<or> apply_record rec param raw ''applying'' approver stamp SNone = BDict d"
    if dm: "d \<in> set (load_apply_records (db_bot ?d))" for d
  proof -
    have "d \<in> set (load_apply_records (bot_set (bot_set (db_bot db) now (config_key param) (BStr raw)) now
        (apply_key rec) (apply_record rec param raw ''applying'' approver stamp SNone)))"
      using dm assms(7) by (simp add: persist_in_session_def)
    from records_after_mark [OF this] show ?thesis using records_other_key [of "config_key param"] by auto
  qed
  have old: "truthy_text (dict_get d ''status'') = ''applied'' \<and> record_ok d" if "d \<in> set (load_apply_records (db_bot db))" for d
  proof -
    have "unfinished (load_apply_records (db_bot db)) = []" "record_ok d"
      using assms(1) that by (auto simp: settled_db_def consistent_db_def)
    then show ?thesis using unfinished_mem [of _ _ "load_apply_records (db_bot db)"] that by (metis list.set(1) empty_iff)
  qed
  have new: "record_ok d \<and> truthy_text (dict_get d ''parameter'') = param \<and> truthy_text (dict_get d ''value'') = raw"
    if "apply_record rec param raw ''applying'' approver stamp SNone = BDict d" for d
    using apply_record_texts [OF that] assms(3,5,6,8) by (simp add: record_ok_def)
  have "desired (db_bot ?d) p = Some r" if pr: "(p, r) \<in> set (unfinished (load_apply_records (db_bot ?d)))" for p r
  proof -
    obtain d where "d \<in> set (load_apply_records (db_bot ?d))" "truthy_text (dict_get d ''status'') \<noteq> ''applied''"
      "p = truthy_text (dict_get d ''parameter'')" "r = truthy_text (dict_get d ''value'')"
      using pr unfolding unfinished_mem by blast
    then show ?thesis using mem old new des by metis
  qed
  moreover have "record_ok d" if "d \<in> set (load_apply_records (db_bot ?d))" for d
    using mem [OF that] old new by blast
  moreover have "case desired (db_bot ?d) p of None \<Rightarrow> True | Some r \<Rightarrow> r \<noteq> [] \<and> (allowlisted p \<longrightarrow> canonical p r)" for p
    using assms(1,3,5) des by (auto simp: settled_db_def consistent_db_def)
  ultimately show "consistent_db ?d" unfolding consistent_db_def by blast
qed

lemma mark_consistent:
  assumes "consistent_db db" "desired (db_bot db) param = Some raw" "canonical param raw" "raw \<noteq> []" "rec \<noteq> []" "param \<noteq> []"
    "st \<in> set [''applied'', ''failed'']"
  shows "consistent_db (mark_apply_status db now stamp rec param raw st approver err)"
proof -
  let ?d = "mark_apply_status db now stamp rec param raw st approver err"
  have des: "desired (db_bot ?d) q = desired (db_bot db) q" for q by (simp add: mark_apply_status_def)
  have mem: "d \<in> set (load_apply_records (db_bot db)) \<or> apply_record rec param raw st approver stamp err = BDict d"
    if "d \<in> set (load_apply_records (db_bot ?d))" for d
    using records_after_mark that by (simp add: mark_apply_status_def)
  have new: "record_ok d \<and> truthy_text (dict_get d ''parameter'') = param \<and> truthy_text (dict_get d ''value'') = raw"
    if "apply_record rec param raw st approver stamp err = BDict d" for d
    using apply_record_texts [OF that] assms(3-7) by (auto simp: record_ok_def)
  have "desired (db_bot ?d) p = Some r" if pr: "(p, r) \<in> set (unfinished (load_apply_records (db_bot ?d)))" for p r
  proof -
    obtain d where d: "d \<in> set (load_apply_records (db_bot ?d))" "truthy_text (dict_get d ''status'') \<noteq> ''applied''"
      "p = truthy_text (dict_get d ''parameter'')" "r = truthy_text (dict_get d ''value'')"
      using pr unfolding unfinished_mem by blast
    show ?thesis
    proof (cases "d \<in> set (load_apply_records (db_bot db))")
      case True
      then have "(p, r) \<in> set (unfinished (load_apply_records (db_bot db)))" using d unfolding unfinished_mem by blast
      then show ?thesis using assms(1) des by (auto simp: consistent_db_def)
    next
      case False
      then show ?thesis using mem [OF d(1)] new d(3,4) assms(2) des by metis
    qed
  qed
  moreover have "record_ok d" if "d \<in> set (load_apply_records (db_bot ?d))" for d
    using mem [OF that] new assms(1) by (auto simp: consistent_db_def)
  moreover have "case desired (db_bot ?d) p of None \<Rightarrow> True | Some r \<Rightarrow> r \<noteq> [] \<and> (allowlisted p \<longrightarrow> canonical p r)" for p
    using assms(1) des by (simp add: consistent_db_def)
  ultimately show ?thesis unfolding consistent_db_def by blast
qed

lemma consistent_unfinished:
  "consistent_db db \<Longrightarrow> (p, raw) \<in> set (unfinished (load_apply_records (db_bot db))) \<Longrightarrow> desired (db_bot db) p = Some raw"
  by (auto simp: consistent_db_def)

lemma note_consistent:
  assumes "consistent_db db" "k = approved_key r \<or> k = measure_key r" "db_bot db' = bot_set (db_bot db) now k v"
  shows "consistent_db db'"
proof -
  have k: "k \<noteq> apply_key q" "k \<noteq> config_key q" for q using assms(2) by auto
  have mem: "d \<in> set (load_apply_records (db_bot db))" if "d \<in> set (load_apply_records (bot_set (db_bot db) now k v))" for d
    using records_other_key [OF k(1) that] .
  have des: "desired (bot_set (db_bot db) now k v) p = desired (db_bot db) p" for p using assms(2) by auto
  have "(p, raw) \<in> set (unfinished (load_apply_records (db_bot db)))"
    if "(p, raw) \<in> set (unfinished (load_apply_records (bot_set (db_bot db) now k v)))" for p raw
    using that mem unfolding unfinished_mem by blast
  then show ?thesis using assms(1) mem unfolding consistent_db_def assms(3) by (simp add: des) blast
qed

lemma notes_consistent:
  "consistent_db db \<Longrightarrow> d \<in> set (approve_notes env db rec approver row param raw) \<Longrightarrow> consistent_db d"
proof -
  assume c: "consistent_db db" and d: "d \<in> set (approve_notes env db rec approver row param raw)"
  define nt where "nt = BDict [(''parameter'', SStr param), (''value'', SStr raw), (''approver'', SStr approver)]"
  define db1 where "db1 = (if ae_note_ok env
     then db\<lparr>db_bot := bot_set (db_bot db) (ae_now env) (approved_key rec) nt\<rparr> else db)"
  have c1: "consistent_db db1"
    using c note_consistent [OF c, of "approved_key rec" rec] by (simp add: db1_def)
  have "d = db1 \<or> (\<exists>v. d = db1\<lparr>db_bot := bot_set (db_bot db1) (ae_now env) (measure_key rec) v\<rparr>)"
    using d unfolding approve_notes_def Let_def nt_def [symmetric] db1_def [symmetric] by (auto split: if_splits)
  then show "consistent_db d" using c1 note_consistent [OF c1, of "measure_key rec" rec] by auto
qed

lemma approval_commits_consistent:
  assumes "settled_db db" "approve env rt db rec approver reason = (res, rt1, dbs)" "ae_mid env db = db"
    "\<And>row. dict_get (db_recs db) rec = Some row \<Longrightarrow> canonical (py_strip (rec_parameter row)) (py_strip (rec_proposed row))"
    "d \<in> set dbs"
  shows "consistent_db d"
proof -
  have start: "consistent_db db" using assms(1) by (simp add: settled_db_def)
  have claim: "consistent_db db2 \<and> desired (db_bot db2) param = Some raw \<and> canonical param raw \<and> param \<noteq> [] \<and> raw \<noteq> [] \<and> rec \<noteq> []"
    if chk: "approve_check rt db rec reason = Inr (row, param, raw, v)"
      and clm: "approve_claim env (ae_mid env db) rec approver reason row param raw = Inr db2" and nb: "\<not> blank rec" for row param raw v db2
  proof -
    note chk = approve_check_Inr [OF chk]
    have can: "canonical param raw" using assms(4) chk(1,3,4) by simp
    have r: "rec \<noteq> []" using nb by (auto simp: blank_def)
    obtain recs where db2: "db2 = persist_in_session (db\<lparr>db_recs := recs\<rparr>) (ae_now env) (ae_stamp env) rec param raw approver"
      using approve_claim_Inr [OF clm] assms(3) by auto
    have st: "py_strip raw = raw" using chk(4) by simp
    have al: "allowlisted param" using checked_value_Inr [OF chk(5)] by blast
    show ?thesis
      using claim_consistent [where ?db0.0 = "db\<lparr>db_recs := recs\<rparr>", OF assms(1) al can st chk(9) r _ chk(8)] can chk(8,9) r db2 by simp
  qed
  have mark: "consistent_db (mark_apply_status db2 (ae_now env) (ae_stamp env) rec param raw st approver err)"
    if "consistent_db db2 \<and> desired (db_bot db2) param = Some raw \<and> canonical param raw \<and> param \<noteq> [] \<and> raw \<noteq> [] \<and> rec \<noteq> []"
      "st \<in> set [''applied'', ''failed'']" for db2 param raw st err
    using mark_consistent [of db2 param raw rec st] that by blast
  from assms(2) show ?thesis
  proof (cases rule: approve_cases)
    case (failed e row param raw v db2)
    note c = claim [OF failed(4,5,3)]
    show ?thesis using assms(3,5) start c mark [OF c] failed(7) by (auto split: if_splits)
  next
    case (granted row param raw v db2 db3)
    note c = claim [OF granted(4,5,2)]
    have c3: "consistent_db db3" using c mark [OF c] granted(8) by auto
    show ?thesis using assms(3,5) start c c3 notes_consistent [OF c3] granted(9) by auto
  qed (use assms start in auto)
qed


subsection \<open>Histories of the database\<close>

text \<open>
  The transactions that change recommendations, wanted values and application records: those of
  this module, and the insertion of new recommendations by the advisor.
\<close>

inductive db_step :: "AgentDb \<Rightarrow> AgentDb \<Rightarrow> bool" where
  step_new: "dict_get (db_recs db) rec = None \<Longrightarrow> rec_status row \<noteq> R_APPROVED \<Longrightarrow>
    db_step db (db\<lparr>db_recs := dict_set (db_recs db) rec row\<rparr>)"
| step_review: "update_where db rec [R_PENDING] (decided R_REVIEWED x reason ver) = Some db' \<Longrightarrow> db_step db db'"
| step_reject: "update_where db rec ACTIONABLE_STATES (decided R_REJECTED x reason ver) = Some db' \<Longrightarrow> db_step db db'"
| step_claim: "update_where db rec ACTIONABLE_STATES (approved_row approver reason param raw ver) = Some db' \<Longrightarrow>
    checked_value param raw = Inr v \<Longrightarrow> db_step db (persist_in_session db' now stamp rec param raw approver)"
| step_mark: "dict_get (db_recs db) rec = Some row \<Longrightarrow> rec_status row = R_APPROVED \<Longrightarrow>
    db_step db (mark_apply_status db now stamp rec param raw st approver err)"
| step_note: "k = approved_key rec \<or> k = measure_key rec \<Longrightarrow> db_step db (db\<lparr>db_bot := bot_set (db_bot db) now k v\<rparr>)"

inductive db_steps :: "AgentDb \<Rightarrow> AgentDb \<Rightarrow> bool" where
  steps_refl: "db_steps db db"
| steps_step: "db_steps db db1 \<Longrightarrow> db_step db1 db2 \<Longrightarrow> db_steps db db2"

lemma db_steps_trans: "db_steps b c \<Longrightarrow> db_steps a b \<Longrightarrow> db_steps a c"
  by (induction rule: db_steps.induct) (auto intro: steps_step)

lemma db_step_final:
  assumes "db_step db db'" "dict_get (db_recs db) rec = Some row" "rec_status row \<notin> set ACTIONABLE_STATES"
  shows "dict_get (db_recs db') rec = Some row"
  using assms by (induction rule: db_step.induct) (auto simp: update_where_Some ACTIONABLE_STATES_def)

lemma db_steps_final:
  "db_steps db db' \<Longrightarrow> dict_get (db_recs db) rec = Some row \<Longrightarrow> rec_status row \<notin> set ACTIONABLE_STATES \<Longrightarrow>
   dict_get (db_recs db') rec = Some row"
  by (induction rule: db_steps.induct) (auto intro: db_step_final)

lemma review_steps:
  assumes "db_steps db (mid db)" "review mid db rec approver reason = (res, db')"
  shows "db_steps db db'"
proof -
  have "db' = db \<or> db' = mid db \<or> (\<exists>ver. update_where (mid db) rec [R_PENDING]
      (decided R_REVIEWED (''reviewed by '' @ approver) reason ver) = Some db')"
    using assms(2) by (auto simp: review_def Let_def split: if_splits option.splits)
  then show ?thesis
  proof (elim disjE exE)
    fix ver assume "update_where (mid db) rec [R_PENDING] (decided R_REVIEWED (''reviewed by '' @ approver) reason ver) = Some db'"
    from steps_step [OF assms(1) step_review [OF this]] show ?thesis .
  qed (simp_all add: assms(1) steps_refl)
qed

lemma reject_steps:
  assumes "db_steps db (mid db)" "reject mid db rec approver reason = (res, db')"
  shows "db_steps db db'"
proof -
  have "db' = db \<or> db' = mid db \<or> (\<exists>ver. update_where (mid db) rec ACTIONABLE_STATES
      (decided R_REJECTED (''rejected by '' @ approver) reason ver) = Some db')"
    using assms(2) by (auto simp: reject_def Let_def split: if_splits option.splits)
  then show ?thesis
  proof (elim disjE exE)
    fix ver assume "update_where (mid db) rec ACTIONABLE_STATES (decided R_REJECTED (''rejected by '' @ approver) reason ver) = Some db'"
    from steps_step [OF assms(1) step_reject [OF this]] show ?thesis .
  qed (simp_all add: assms(1) steps_refl)
qed

lemma claim_step:
  assumes "approve_check rt db0 rec reason = Inr (row, param, raw, v)"
    "approve_claim env db rec approver reason row param raw = Inr db2"
  shows "db_step db db2" "\<exists>u. dict_get (db_recs db2) rec = Some u \<and> rec_status u = R_APPROVED"
proof -
  obtain db' where u: "update_where db rec ACTIONABLE_STATES (approved_row approver reason param raw (rec_version row + 1)) = Some db'"
    and db2: "db2 = persist_in_session db' (ae_now env) (ae_stamp env) rec param raw approver"
    using assms(2) by (auto simp: approve_claim_def split: option.splits)
  show "db_step db db2" unfolding db2 by (rule step_claim [OF u approve_check_Inr(5) [OF assms(1)]])
  show "\<exists>u. dict_get (db_recs db2) rec = Some u \<and> rec_status u = R_APPROVED" using u by (auto simp: db2 update_where_Some)
qed

lemma notes_steps: "d \<in> set (approve_notes env db rec approver row param raw) \<Longrightarrow> db_steps db d"
proof -
  assume d: "d \<in> set (approve_notes env db rec approver row param raw)"
  define nt where "nt = BDict [(''parameter'', SStr param), (''value'', SStr raw), (''approver'', SStr approver)]"
  define db1 where "db1 = (if ae_note_ok env
     then db\<lparr>db_bot := bot_set (db_bot db) (ae_now env) (approved_key rec) nt\<rparr> else db)"
  have one: "db_steps db db1"
    using steps_refl [of db] steps_step [OF steps_refl step_note [of "approved_key rec" rec db]] by (simp add: db1_def)
  have "d = db1 \<or> (\<exists>v. d = db1\<lparr>db_bot := bot_set (db_bot db1) (ae_now env) (measure_key rec) v\<rparr>)"
    using d unfolding approve_notes_def Let_def nt_def [symmetric] db1_def [symmetric] by (auto split: if_splits)
  then show "db_steps db d" using one steps_step [OF one step_note [of "measure_key rec" rec db1]] by auto
qed

lemma approve_steps:
  assumes "db_steps db (ae_mid env db)" "approve env rt db rec approver reason = (res, rt', dbs)" "d \<in> set dbs"
  shows "db_steps db d"
  using assms(2)
proof (cases rule: approve_cases)
  case (failed e row param raw v db2)
  have two: "db_steps db db2" by (rule steps_step [OF assms(1) claim_step(1) [OF failed(4,5)]])
  obtain u where "dict_get (db_recs db2) rec = Some u" "rec_status u = R_APPROVED" using claim_step(2) [OF failed(4,5)] by blast
  from steps_step [OF two step_mark [OF this]] show ?thesis
    using assms(1,3) two failed(7) by (auto split: if_splits)
next
  case (granted row param raw v db2 db3)
  have two: "db_steps db db2" by (rule steps_step [OF assms(1) claim_step(1) [OF granted(4,5)]])
  obtain u where "dict_get (db_recs db2) rec = Some u" "rec_status u = R_APPROVED" using claim_step(2) [OF granted(4,5)] by blast
  from steps_step [OF two step_mark [OF this]] have three: "db_steps db db3" using two granted(8) by auto
  show ?thesis using assms(1,3) two three granted(9) db_steps_trans [OF notes_steps three] by auto
qed (use assms steps_refl in auto)

text \<open>C25 (decisions_are_final).
  Once a recommendation is approved, rejected or otherwise closed, no review, rejection or
  approval changes it, whatever other sessions commit in between; so it is decided, and its
  value claimed, at most once.\<close>

theorem decisions_are_final:
  assumes "dict_get (db_recs db) rec = Some row" "rec_status row \<notin> set ACTIONABLE_STATES"
    "db_steps db (mid db)" "ae_mid env = mid"
  shows "dict_get (db_recs (snd (review mid db other approver reason))) rec = Some row \<and>
    dict_get (db_recs (snd (reject mid db other approver reason))) rec = Some row \<and>
    (\<forall>d \<in> set (snd (snd (approve env rt db other approver reason))). dict_get (db_recs d) rec = Some row)"
proof (intro conjI ballI)
  show "dict_get (db_recs (snd (review mid db other approver reason))) rec = Some row"
    using db_steps_final [OF review_steps [where mid = mid, OF assms(3)] assms(1,2)] by (metis prod.collapse)
  show "dict_get (db_recs (snd (reject mid db other approver reason))) rec = Some row"
    using db_steps_final [OF reject_steps [where mid = mid, OF assms(3)] assms(1,2)] by (metis prod.collapse)
  fix d assume "d \<in> set (snd (snd (approve env rt db other approver reason)))"
  then show "dict_get (db_recs d) rec = Some row"
    using db_steps_final [OF approve_steps assms(1,2)] assms(3,4) by (metis prod.collapse)
qed

lemma apply_key_origin:
  assumes "db_step db db'" "bot_get (db_bot db') (apply_key r) = Some v"
  shows "bot_get (db_bot db) (apply_key r) = Some v \<or> (\<exists>u. dict_get (db_recs db') r = Some u \<and> rec_status u = R_APPROVED)"
  using assms by (induction rule: db_step.induct) (auto simp: update_where_Some split: if_splits)

lemma db_step_sound:
  assumes "db_step db db'"
    "\<forall>p v. bot_get (db_bot db) (config_key p) = Some v \<longrightarrow> (\<exists>raw w. v = BStr raw \<and> checked_value p raw = Inr w)"
    "\<forall>r v. bot_get (db_bot db) (apply_key r) = Some v \<longrightarrow> (\<exists>u. dict_get (db_recs db) r = Some u \<and> rec_status u = R_APPROVED)"
  shows "(\<forall>p v. bot_get (db_bot db') (config_key p) = Some v \<longrightarrow> (\<exists>raw w. v = BStr raw \<and> checked_value p raw = Inr w)) \<and>
    (\<forall>r v. bot_get (db_bot db') (apply_key r) = Some v \<longrightarrow> (\<exists>u. dict_get (db_recs db') r = Some u \<and> rec_status u = R_APPROVED))"
proof
  show "\<forall>p v. bot_get (db_bot db') (config_key p) = Some v \<longrightarrow> (\<exists>raw w. v = BStr raw \<and> checked_value p raw = Inr w)"
    using assms(1,2) by (induction rule: db_step.induct) (auto simp: update_where_Some)
  have keep: "\<exists>u. dict_get (db_recs db') r = Some u \<and> rec_status u = R_APPROVED"
    if "dict_get (db_recs db) r = Some u" "rec_status u = R_APPROVED" for r u
    using db_step_final [OF assms(1) that(1)] that(2) by (simp add: ACTIONABLE_STATES_def)
  show "\<forall>r v. bot_get (db_bot db') (apply_key r) = Some v \<longrightarrow> (\<exists>u. dict_get (db_recs db') r = Some u \<and> rec_status u = R_APPROVED)"
    using apply_key_origin [OF assms(1)] assms(3) keep by blast
qed

lemma history_sound:
  "db_steps db0 db \<Longrightarrow> db_bot db0 = [] \<Longrightarrow>
    (\<forall>p v. bot_get (db_bot db) (config_key p) = Some v \<longrightarrow> (\<exists>raw w. v = BStr raw \<and> checked_value p raw = Inr w)) \<and>
    (\<forall>r v. bot_get (db_bot db) (apply_key r) = Some v \<longrightarrow> (\<exists>u. dict_get (db_recs db) r = Some u \<and> rec_status u = R_APPROVED))"
proof (induction rule: db_steps.induct)
  case (steps_step db db1 db2)
  then show ?case using db_step_sound by blast
qed (simp add: bot_get_def)

text \<open>(approval_history_is_sound).
  From an empty bot-state table on, through any history of approvals, rejections, reviews and
  new recommendations in which any of them may interleave, every stored configuration value is of
  an allowlisted parameter and within its bounds, and every application record belongs to an
  approved recommendation.\<close>

theorem approval_history_is_sound:
  assumes "db_steps db0 db" "db_bot db0 = []" "db_steps db (ae_mid env db)"
    "d \<in> set (snd (snd (approve env rt db rec approver reason)))"
  shows "(\<forall>p v. bot_get (db_bot d) (config_key p) = Some v \<longrightarrow>
      (\<exists>raw w. v = BStr raw \<and> checked_value p raw = Inr w \<and> allowlisted p \<and> validate_bounds p w = Inr ())) \<and>
    (\<forall>r v. bot_get (db_bot d) (apply_key r) = Some v \<longrightarrow> (\<exists>u. dict_get (db_recs d) r = Some u \<and> rec_status u = R_APPROVED))"
proof -
  have "db_steps db d" using approve_steps [OF assms(3)] assms(4) by (metis prod.collapse)
  then have "db_steps db0 d" using db_steps_trans assms(1) by blast
  from history_sound [OF this assms(2)] show ?thesis using checked_value_Inr by blast
qed

end
