(* ===== verification/Approval_Scenarios.thy ===== *)
theory Approval_Scenarios
  imports Approval_Safety
begin

text \<open>
  Concrete approvals: two recommendations for the same risk limit, and one whose value is spelled
  unusually. They show that the hypotheses of the approval theorems are met, and what an old
  unfinished application does at the next start.
\<close>

definition limit_value :: "nat \<Rightarrow> cfg_value" where
  "limit_value n = VDec (DFinite \<lparr>dc_negative = False, dc_coeff = n, dc_exp = 0\<rparr>)"

definition desk_runtime :: AgentRuntime where
  "desk_runtime = \<lparr>rt_settings = (\<lambda>p. if p = ''risk.max_trade_size'' then limit_value 1000 else VInt 5),
     rt_limits = Some (\<lambda>f. if f = ''max_trade_size'' then limit_value 1000 else VInt 5),
     rt_guard = new_guard (policy_for LIVE) True, rt_mode = LIVE\<rparr>"

definition size_rec :: "string \<Rightarrow> string \<Rightarrow> Recommendation" where
  "size_rec now proposed = \<lparr>rec_parameter = ''risk.max_trade_size'', rec_current = Some now, rec_old = Some now,
     rec_proposed = proposed, rec_status = R_PENDING, rec_operator_decision = None, rec_decision_reason = None,
     rec_result = None, rec_version = 1\<rparr>"

definition desk_db :: AgentDb where
  "desk_db = \<lparr>db_recs = [(''rec-a'', size_rec ''1000'' ''600''), (''rec-b'', size_rec ''600'' ''700''),
      (''rec-c'', size_rec ''1000'' ''0900'')], db_bot = []\<rparr>"

definition quiet_env :: "bool \<Rightarrow> ApproveEnv" where
  "quiet_env marked = \<lparr>ae_now = 1, ae_stamp = ''t1'', ae_mid = (\<lambda>d. d), ae_rt_mid = (\<lambda>r. r), ae_claim_error = None,
     ae_mark_ok = marked, ae_audit_ok = False, ae_note_ok = False, ae_measure_ok = False\<rparr>"

lemma desk_texts:
  "py_strip ''rec-a'' = ''rec-a''" "py_strip ''rec-b'' = ''rec-b''" "py_strip ''ann'' = ''ann''"
  "py_strip ''smaller'' = ''smaller''" "py_strip ''larger'' = ''larger''" "py_strip ''600'' = ''600''" "py_strip ''700'' = ''700''"
  "py_strip ''1000'' = ''1000''" "py_strip ''0900'' = ''0900''" "py_strip ''900'' = ''900''" "py_strip ''risk.max_trade_size'' = ''risk.max_trade_size''"
  "risk_field ''risk.max_trade_size'' = ''max_trade_size''"
  by code_simp+

lemma desk_values:
  "checked_value ''risk.max_trade_size'' ''600'' = Inr (limit_value 600)"
  "checked_value ''risk.max_trade_size'' ''700'' = Inr (limit_value 700)"
  "checked_value ''risk.max_trade_size'' ''0900'' = Inr (limit_value 900)"
proof -
  have l: "dict_get ALLOWLIST ''risk.max_trade_size'' = Some (TDecimal, 10, 5000)" by (simp add: ALLOWLIST_def)
  have p: "parse_decimal ''600'' = Some (DFinite \<lparr>dc_negative = False, dc_coeff = 600, dc_exp = 0\<rparr>)"
    "parse_decimal ''700'' = Some (DFinite \<lparr>dc_negative = False, dc_coeff = 700, dc_exp = 0\<rparr>)"
    "parse_decimal ''0900'' = Some (DFinite \<lparr>dc_negative = False, dc_coeff = 900, dc_exp = 0\<rparr>)" by code_simp+
  show "checked_value ''risk.max_trade_size'' ''600'' = Inr (limit_value 600)"
    "checked_value ''risk.max_trade_size'' ''700'' = Inr (limit_value 700)"
    "checked_value ''risk.max_trade_size'' ''0900'' = Inr (limit_value 900)"
    by (simp_all add: checked_value_def l p desk_texts validate_bounds_def dec_value_def limit_value_def Let_def)
qed

lemma desk_shown: "show_value (limit_value 600) = ''600''" "show_value (limit_value 700) = ''700''"
  "show_value (limit_value 1000) = ''1000''" "show_value (limit_value 900) = ''900''"
  by code_simp+

lemma desk_param: "''risk.max_trade_size'' \<in> set RISK_PARAMS" "allowlisted ''risk.max_trade_size''"
  by code_simp+

lemma desk_guard: "\<not> is_halted (rt_guard desk_runtime)" "rt_mode desk_runtime = LIVE"
  by (simp_all add: desk_runtime_def)

definition set_size :: "AgentRuntime \<Rightarrow> cfg_value \<Rightarrow> AgentRuntime" where
  "set_size rt v = rt\<lparr>rt_settings := (rt_settings rt)(''risk.max_trade_size'' := v),
     rt_limits := map_option (\<lambda>l. l(''max_trade_size'' := v)) (rt_limits rt)\<rparr>"

lemma apply_size: "rt_limits rt \<noteq> None \<Longrightarrow> apply_value rt ''risk.max_trade_size'' v = Inr (set_size rt v)"
  unfolding apply_value_def Let_def if_P [OF desk_param(1)] desk_texts(12) set_size_def by auto

lemma approve_size:
  assumes "dict_get (db_recs db) rec = Some (size_rec old new)" "py_strip rec \<noteq> []" "py_strip reason \<noteq> []"
    "py_strip new = new" "new \<noteq> []" "checked_value ''risk.max_trade_size'' new = Inr v" "show_value v = new"
    "\<not> is_halted (rt_guard rt)" "show_value (rt_settings rt ''risk.max_trade_size'') = old" "rt_limits rt \<noteq> None"
  shows "\<exists>r. approve (quiet_env b) rt db rec ''ann'' reason = (Inr r, set_size rt v,
    let d = persist_in_session (db\<lparr>db_recs := dict_set (db_recs db) rec
          (approved_row ''ann'' reason ''risk.max_trade_size'' new 2 (size_rec old new))\<rparr>) 1 ''t1'' rec ''risk.max_trade_size'' new ''ann''
    in [db, d, if b then mark_apply_status d 1 ''t1'' rec ''risk.max_trade_size'' new ''applied'' ''ann'' SNone else d])"
proof -
  have nb: "\<not> blank ''ann''" "\<not> blank rec" using assms(2) by (simp_all add: blank_def desk_texts)
  have sr: "rec_status (size_rec old new) = R_PENDING" "rec_parameter (size_rec old new) = ''risk.max_trade_size''"
    "rec_proposed (size_rec old new) = new" "rec_current (size_rec old new) = Some old" "rec_version (size_rec old new) = 1"
    by (simp_all add: size_rec_def)
  have chk: "approve_check rt db rec reason = Inr (size_rec old new, ''risk.max_trade_size'', new, v)"
    using assms by (simp add: approve_check_def sr ACTIONABLE_STATES_def desk_texts Let_def check_safety_gates_def
        get_current_def desk_param)
  have clm: "approve_claim (quiet_env b) db rec ''ann'' reason (size_rec old new) ''risk.max_trade_size'' new =
      Inr (persist_in_session (db\<lparr>db_recs := dict_set (db_recs db) rec
          (approved_row ''ann'' reason ''risk.max_trade_size'' new 2 (size_rec old new))\<rparr>) 1 ''t1'' rec ''risk.max_trade_size'' new ''ann'')"
    using assms(1) by (simp add: approve_claim_def update_where_def sr ACTIONABLE_STATES_def quiet_env_def)
  have ap: "apply_value rt ''risk.max_trade_size'' v = Inr (set_size rt v)" by (rule apply_size [OF assms(10)])
  have ver: "verify_converged (set_size rt v) ''risk.max_trade_size'' new = Inr ()"
    using verify_after_apply [OF ap, of new] assms(7) by simp
  have nts: "approve_notes (quiet_env b) d rec ''ann'' row p raw = []" for d row p raw
    by (simp add: approve_notes_def quiet_env_def)
  have env: "ae_mid (quiet_env c) = (\<lambda>d. d)" "ae_rt_mid (quiet_env c) = (\<lambda>r. r)" "ae_mark_ok (quiet_env c) = c"
    "ae_now (quiet_env c) = 1" "ae_stamp (quiet_env c) = ''t1''" for c
    by (simp_all add: quiet_env_def)
  show ?thesis
    unfolding approve_def if_not_P [OF nb(1)] if_not_P [OF nb(2)] chk
    by (simp add: env clm ap ver nts Let_def del: One_nat_def)
qed

text \<open>The first approval, its mark lost; then the second, marked.\<close>

definition first_db :: AgentDb where
  "first_db = persist_in_session (desk_db\<lparr>db_recs := dict_set (db_recs desk_db) ''rec-a''
     (approved_row ''ann'' ''smaller'' ''risk.max_trade_size'' ''600'' 2 (size_rec ''1000'' ''600''))\<rparr>) 1 ''t1''
     ''rec-a'' ''risk.max_trade_size'' ''600'' ''ann''"

definition second_db :: AgentDb where
  "second_db = mark_apply_status (persist_in_session (first_db\<lparr>db_recs := dict_set (db_recs first_db) ''rec-b''
     (approved_row ''ann'' ''larger'' ''risk.max_trade_size'' ''700'' 2 (size_rec ''600'' ''700''))\<rparr>) 1 ''t1''
     ''rec-b'' ''risk.max_trade_size'' ''700'' ''ann'') 1 ''t1'' ''rec-b'' ''risk.max_trade_size'' ''700'' ''applied'' ''ann'' SNone"

lemma desk_size: "rt_settings desk_runtime ''risk.max_trade_size'' = limit_value 1000" "rt_limits desk_runtime \<noteq> None"
  by (simp_all add: desk_runtime_def)

lemma first_approval:
  "\<exists>r. approve (quiet_env False) desk_runtime desk_db ''rec-a'' ''ann'' ''smaller'' =
     (Inr r, set_size desk_runtime (limit_value 600), [desk_db, first_db, first_db])"
  using approve_size [of desk_db "''rec-a''" "''1000''" "''600''" "''smaller''" "limit_value 600" desk_runtime False]
  by (simp add: desk_texts desk_values desk_shown desk_guard desk_size first_db_def [symmetric]) (simp add: desk_db_def)

lemma second_approval:
  "\<exists>r d. approve (quiet_env True) (set_size desk_runtime (limit_value 600)) first_db ''rec-b'' ''ann'' ''larger'' =
     (Inr r, set_size (set_size desk_runtime (limit_value 600)) (limit_value 700), [first_db, d, second_db])"
proof -
  have "dict_get (db_recs first_db) ''rec-b'' = Some (size_rec ''600'' ''700'')" by (simp add: first_db_def desk_db_def)
  moreover have "rt_limits (set_size desk_runtime v) \<noteq> None" "rt_guard (set_size desk_runtime v) = rt_guard desk_runtime"
    "rt_settings (set_size desk_runtime v) ''risk.max_trade_size'' = v" for v
    using desk_size(2) by (simp_all add: set_size_def)
  ultimately show ?thesis
    using approve_size [of first_db "''rec-b''" "''600''" "''700''" "''larger''" "limit_value 700"
        "set_size desk_runtime (limit_value 600)" True]
    by (simp add: desk_texts desk_values desk_shown desk_guard second_db_def Let_def) blast
qed

lemma second_tables:
  "desired (db_bot second_db) p = (if p = ''risk.max_trade_size'' then Some ''700'' else None)"
  "unfinished (load_apply_records (db_bot second_db)) = [(''risk.max_trade_size'', ''600'')]"
  "\<forall>d \<in> set (load_apply_records (db_bot second_db)). record_ok d"
proof -
  have b: "db_bot second_db = [(config_key ''risk.max_trade_size'', \<lparr>row_value = BStr ''700'', row_updated_at = 1\<rparr>),
     (apply_key ''rec-a'', \<lparr>row_value = apply_record ''rec-a'' ''risk.max_trade_size'' ''600'' ''applying'' ''ann'' ''t1'' SNone, row_updated_at = 1\<rparr>),
     (apply_key ''rec-b'', \<lparr>row_value = apply_record ''rec-b'' ''risk.max_trade_size'' ''700'' ''applied'' ''ann'' ''t1'' SNone, row_updated_at = 1\<rparr>)]"
    by (simp add: second_db_def first_db_def desk_db_def persist_in_session_def mark_apply_status_def bot_set_def)
  show "desired (db_bot second_db) p = (if p = ''risk.max_trade_size'' then Some ''700'' else None)"
    using keys_differ(4) by (auto simp: b desired_def desk_texts bot_get_def)
  have can: "canonical ''risk.max_trade_size'' ''600''" by (simp add: canonical_def desk_values desk_shown)
  show "unfinished (load_apply_records (db_bot second_db)) = [(''risk.max_trade_size'', ''600'')]"
    by (simp add: b config_key_def apply_key_def apply_record_def)
  show "\<forall>d \<in> set (load_apply_records (db_bot second_db)). record_ok d"
    using can by (simp add: b config_key_def apply_key_def apply_record_def record_ok_def)
qed

theorem startup_value_of_a_setting_witness:
  "\<exists>rt' db'. reconcile_approved_config (\<lambda>_. True) (9, ''t9'') desk_runtime second_db = (Inr (), rt', db') \<and>
     desired (db_bot second_db) ''risk.max_trade_size'' = Some ''700'' \<and>
     rt_settings rt' ''risk.max_trade_size'' = limit_value 600"
proof -
  have can: "canonical ''risk.max_trade_size'' ''700''" by (simp add: canonical_def desk_values desk_shown)
  have "\<exists>os. load_persisted_overrides (db_bot second_db) = Inr os"
    unfolding load_persisted_overrides_def using can by (intro load_overrides_done) (simp add: second_tables(1))
  then obtain os where os: "load_persisted_overrides (db_bot second_db) = Inr os" ..
  have "os = map (\<lambda>p. (p, the (desired (db_bot second_db) p)))
      (filter (\<lambda>p. desired (db_bot second_db) p \<noteq> None) (dict_keys ALLOWLIST))"
    using load_overrides_Inr os unfolding load_persisted_overrides_def by blast
  then have "canonical p raw" if "(p, raw) \<in> set os" for p raw
    using that can by (auto simp: second_tables(1) split: if_splits)
  then obtain rt1 where rt1: "reapply desk_runtime (sort_key fst os) = (Inr (), rt1)"
    using reapply_done [of "sort_key fst os" desk_runtime] desk_size(2) by auto
  have lim: "rt_limits rt1 \<noteq> None" using reapply_Inr [OF rt1] desk_size(2) by (simp add: installed_def)
  have "\<exists>rt' db'. finish_records (\<lambda>_. True) (9, ''t9'') rt1 second_db (load_apply_records (db_bot second_db)) = (Inr (), rt', db')"
    by (rule finish_done [OF second_tables(3) lim]) simp
  then obtain rt' db' where "finish_records (\<lambda>_. True) (9, ''t9'') rt1 second_db (load_apply_records (db_bot second_db)) = (Inr (), rt', db')"
    by blast
  then have r: "reconcile_approved_config (\<lambda>_. True) (9, ''t9'') desk_runtime second_db = (Inr (), rt', db')"
    using os rt1 by (simp add: reconcile_approved_config_def)
  show ?thesis
    using startup_value_of_a_setting [OF r desk_param(2)] r by (simp add: second_tables desk_values)
qed

theorem odd_spelling_blocks_startup_witness:
  "checked_value ''risk.max_trade_size'' ''0900'' = Inr (limit_value 900) \<and>
   (\<exists>e. fst (reconcile_approved_config (\<lambda>_. True) (9, ''t9'') desk_runtime
      \<lparr>db_recs = [], db_bot = bot_set [] 1 (config_key ''risk.max_trade_size'') (BStr ''0900'')\<rparr>) = Inl e)"
proof -
  have "desired (bot_set [] 1 (config_key ''risk.max_trade_size'') (BStr ''0900'')) ''risk.max_trade_size'' = Some ''0900''"
    by (simp add: desired_def desk_texts)
  then show ?thesis
    using odd_spelling_blocks_startup [of "\<lparr>db_recs = [], db_bot = bot_set [] 1 (config_key ''risk.max_trade_size'') (BStr ''0900'')\<rparr>"
        "''risk.max_trade_size''" "''0900''" "limit_value 900"]
    by (simp add: desk_values desk_shown desk_texts)
qed



lemma desk_synced: "synced desk_runtime"
  by code_simp

theorem settings_and_engine_agree_witness: "synced (set_size desk_runtime (limit_value 600))"
proof -
  obtain r where a: "approve (quiet_env False) desk_runtime desk_db ''rec-a'' ''ann'' ''smaller'' =
     (Inr r, set_size desk_runtime (limit_value 600), [desk_db, first_db, first_db])" using first_approval by blast
  have "ae_rt_mid (quiet_env False) desk_runtime = desk_runtime" by (simp add: quiet_env_def)
  then show ?thesis using settings_and_engine_agree [OF a desk_synced] desk_synced by simp
qed

lemma desk_settled: "settled_db desk_db"
  by (simp add: settled_db_def consistent_db_def desk_db_def desired_def bot_get_def)


theorem decisions_are_final_witness:
  "\<exists>row. dict_get (db_recs first_db) ''rec-a'' = Some row \<and> rec_status row = R_APPROVED \<and>
     dict_get (db_recs (snd (reject (\<lambda>d. d) first_db ''rec-a'' ''bob'' ''no''))) ''rec-a'' = Some row"
proof -
  obtain row where row: "dict_get (db_recs first_db) ''rec-a'' = Some row" "rec_status row = R_APPROVED"
    by (simp add: first_db_def)
  have "rec_status row \<notin> set ACTIONABLE_STATES" using row(2) by (simp add: ACTIONABLE_STATES_def)
  moreover have "ae_mid (quiet_env True) = (\<lambda>d. d)" by (simp add: quiet_env_def)
  ultimately show ?thesis
    using decisions_are_final [of first_db "''rec-a''" row "\<lambda>d. d" "quiet_env True", OF row(1) _ steps_refl] row by blast
qed

theorem approval_history_is_sound_witness:
  "bot_get (db_bot first_db) (config_key ''risk.max_trade_size'') = Some (BStr ''600'') \<and>
   (\<exists>w. checked_value ''risk.max_trade_size'' ''600'' = Inr w \<and> validate_bounds ''risk.max_trade_size'' w = Inr ())"
proof -
  obtain r where a: "approve (quiet_env False) desk_runtime desk_db ''rec-a'' ''ann'' ''smaller'' =
     (Inr r, set_size desk_runtime (limit_value 600), [desk_db, first_db, first_db])" using first_approval by blast
  have m: "db_steps desk_db (ae_mid (quiet_env False) desk_db)" using steps_refl by (simp add: quiet_env_def)
  have e: "db_bot desk_db = []" by (simp add: desk_db_def)
  have mem: "first_db \<in> set (snd (snd (approve (quiet_env False) desk_runtime desk_db ''rec-a'' ''ann'' ''smaller'')))"
    by (simp add: a)
  have c: "bot_get (db_bot first_db) (config_key ''risk.max_trade_size'') = Some (BStr ''600'')" by (simp add: first_db_def)
  show ?thesis using approval_history_is_sound [OF steps_refl e m mem] c by blast
qed

end
