(* ===== verification/Settings_Model.thy ===== *)
theory Settings_Model
  imports Exchange_Manager Risk Market_Store
begin

text \<open>
  The configuration of the process (\<^verbatim>\<open>app/config/settings.py\<close>): the sections the trading
  core reads, their field bounds, their validators, and the two cross-field checks. The values
  arrive already converted to their types; the parsing of environment variables is left to the
  settings library. The sections of logging and of the assistant are left out.
\<close>

subsection \<open>Lists in one variable\<close>

text \<open>\<^verbatim>\<open>value.split(',')\<close>, each part stripped, empty parts dropped.\<close>

fun py_split :: "char \<Rightarrow> string \<Rightarrow> string list" where
  "py_split sep [] = [[]]"
| "py_split sep (c # s) =
     (if c = sep then [] # py_split sep s
      else case py_split sep s of p # ps \<Rightarrow> (c # p) # ps | [] \<Rightarrow> [[c]])"

datatype raw_list = RText string | RList "string list"

definition split_comma_separated :: "raw_list \<Rightarrow> string list" where
  "split_comma_separated v =
     (case v of RText t \<Rightarrow> filter (\<lambda>p. p \<noteq> []) (map py_strip (py_split (CHR '','') t)) | RList xs \<Rightarrow> xs)"

definition normalise_ids :: "string list \<Rightarrow> string list" where
  "normalise_ids vs = dedup (map (\<lambda>v. py_lower (py_strip v)) (filter (\<lambda>v. py_strip v \<noteq> []) vs))"

definition normalise_codes :: "string list \<Rightarrow> string list" where
  "normalise_codes vs = dedup (map (\<lambda>v. py_upper (py_strip v)) (filter (\<lambda>v. py_strip v \<noteq> []) vs))"

subsection \<open>Sections\<close>

definition live_confirmation_phrase :: string where
  "live_confirmation_phrase = ''I UNDERSTAND THE RISK''"

record TradingSettings =
  tr_mode :: TradingMode
  tr_allow_live :: bool
  tr_live_confirmation :: string
  tr_allow_live_withdrawals :: bool
  tr_base_currency :: string

definition default_trading :: TradingSettings where
  "default_trading = \<lparr>tr_mode = PAPER, tr_allow_live = False, tr_live_confirmation = [],
     tr_allow_live_withdrawals = False, tr_base_currency = ''USDT''\<rparr>"

definition phrase_given :: "TradingSettings \<Rightarrow> bool" where
  "phrase_given t \<longleftrightarrow> py_upper (py_strip (tr_live_confirmation t)) = live_confirmation_phrase"

definition validate_trading :: "TradingSettings \<Rightarrow> (exn, TradingSettings) result" where
  "validate_trading t =
     (let t1 = t\<lparr>tr_base_currency := py_upper (py_strip (tr_base_currency t))\<rparr> in
      if tr_mode t1 \<noteq> LIVE
      then (if tr_allow_live t1 then Inl (ValueError ''CAT_TRADING__ALLOW_LIVE=true is only meaningful with MODE=LIVE'')
            else Inr t1)
      else if \<not> tr_allow_live t1 then Inl (ValueError ''LIVE mode requires CAT_TRADING__ALLOW_LIVE=true'')
      else if \<not> phrase_given t1 then Inl (ValueError ''LIVE mode requires CAT_TRADING__LIVE_CONFIRMATION'')
      else Inr t1)"

text \<open>A section whose fields are bounded: the first bound that is broken is reported.\<close>

fun bounded :: "(string \<times> bool) list \<Rightarrow> 'a \<Rightarrow> (exn, 'a) result" where
  "bounded [] x = Inr x"
| "bounded ((field, ok) # rest) x = (if ok then bounded rest x else Inl (ValueError field))"

record DatabaseSettings =
  db_url :: string
  db_pool_size :: int
  db_max_overflow :: int
  db_connect_timeout_seconds :: rat
  db_trade_retention_days :: int
  db_audit_retention_days :: int

definition is_sqlite :: "DatabaseSettings \<Rightarrow> bool" where
  "is_sqlite d \<longleftrightarrow> take 6 (db_url d) = ''sqlite''"

definition is_postgres :: "DatabaseSettings \<Rightarrow> bool" where
  "is_postgres d \<longleftrightarrow> take 10 (db_url d) = ''postgresql''"

definition validate_database :: "DatabaseSettings \<Rightarrow> (exn, DatabaseSettings) result" where
  "validate_database d =
     bounded [(''pool_size'', db_pool_size d \<ge> 1), (''max_overflow'', db_max_overflow d \<ge> 0),
              (''connect_timeout_seconds'', db_connect_timeout_seconds d > 0),
              (''trade_retention_days'', db_trade_retention_days d \<ge> 0),
              (''audit_retention_days'', db_audit_retention_days d \<ge> 0)] d"

record ExchangeSettings =
  xs_enabled :: raw_list
  xs_quote_currencies :: raw_list
  xs_simulate_in_paper :: bool
  xs_request_timeout_seconds :: rat
  xs_order_book_depth :: int
  xs_breaker_failure_threshold :: int
  xs_breaker_cooldown_seconds :: rat

fun listed :: "raw_list \<Rightarrow> string list" where
  "listed (RList xs) = xs"
| "listed (RText _) = []"

definition validate_exchanges :: "ExchangeSettings \<Rightarrow> (exn, ExchangeSettings) result" where
  "validate_exchanges x =
     bounded [(''request_timeout_seconds'', xs_request_timeout_seconds x > 0),
              (''order_book_depth'', 1 \<le> xs_order_book_depth x \<and> xs_order_book_depth x \<le> 1000),
              (''breaker_failure_threshold'', xs_breaker_failure_threshold x \<ge> 1),
              (''breaker_cooldown_seconds'', xs_breaker_cooldown_seconds x \<ge> 0)]
       (x\<lparr>xs_enabled := RList (normalise_ids (split_comma_separated (xs_enabled x))),
          xs_quote_currencies := RList (normalise_codes (split_comma_separated (xs_quote_currencies x)))\<rparr>)"

definition validate_risk :: "RiskLimits \<Rightarrow> (exn, RiskLimits) result" where
  "validate_risk r =
     bounded [(''max_open_transfers'', max_open_transfers r \<ge> 0), (''max_data_age_ms'', max_data_age_ms r \<ge> 100)] r"

record MarketDataSection =
  mk_stale_after_ms :: int
  mk_max_requests_per_exchange :: int
  mk_max_parallel_requests :: int
  mk_streams_enabled :: bool
  mk_max_streams_per_exchange :: int
  mk_max_parallel_streams :: int
  mk_stream_backoff_base_seconds :: rat
  mk_stream_backoff_max_seconds :: rat
  mk_stream_backoff_jitter :: rat
  mk_stream_quarantine_restarts :: int

definition validate_market_data :: "MarketDataSection \<Rightarrow> (exn, MarketDataSection) result" where
  "validate_market_data m =
     bounded [(''stale_after_ms'', mk_stale_after_ms m \<ge> 100),
              (''max_requests_per_exchange'', 1 \<le> mk_max_requests_per_exchange m \<and> mk_max_requests_per_exchange m \<le> 64),
              (''max_parallel_requests'', 1 \<le> mk_max_parallel_requests m \<and> mk_max_parallel_requests m \<le> 256),
              (''max_streams_per_exchange'', 1 \<le> mk_max_streams_per_exchange m \<and> mk_max_streams_per_exchange m \<le> 128),
              (''max_parallel_streams'', 1 \<le> mk_max_parallel_streams m \<and> mk_max_parallel_streams m \<le> 1024),
              (''stream_backoff_base_seconds'', mk_stream_backoff_base_seconds m > 0),
              (''stream_backoff_max_seconds'', mk_stream_backoff_max_seconds m > 0),
              (''stream_backoff_jitter'', 0 \<le> mk_stream_backoff_jitter m \<and> mk_stream_backoff_jitter m \<le> 1),
              (''stream_quarantine_restarts'', mk_stream_quarantine_restarts m \<ge> 0)] m"

record ArbitrageSection =
  ar_triangle_assets :: raw_list
  ar_default_notional_quote :: decimal
  ar_triangle_min_net_bps :: decimal
  ar_triangle_max_leg_slippage_bps :: decimal
  ar_triangle_max_notional_quote :: decimal
  ar_max_results :: int
  ar_scan_ttl_ms :: int

definition validate_arbitrage :: "ArbitrageSection \<Rightarrow> (exn, ArbitrageSection) result" where
  "validate_arbitrage a =
     bounded [(''default_notional_quote'', ar_default_notional_quote a > 0),
              (''triangle_min_net_bps'', ar_triangle_min_net_bps a \<ge> 0),
              (''triangle_max_leg_slippage_bps'', ar_triangle_max_leg_slippage_bps a \<ge> 0),
              (''triangle_max_notional_quote'', ar_triangle_max_notional_quote a > 0),
              (''max_results'', 1 \<le> ar_max_results a \<and> ar_max_results a \<le> 200),
              (''scan_ttl_ms'', ar_scan_ttl_ms a \<ge> 100)]
       (a\<lparr>ar_triangle_assets := RList (normalise_codes (split_comma_separated (ar_triangle_assets a)))\<rparr>)"

record TransferSection =
  tf_assets :: raw_list
  tf_min_net_profit_bps :: decimal
  tf_default_amount :: decimal
  tf_max_amount :: decimal
  tf_min_notional_quote :: decimal
  tf_max_notional_quote :: decimal
  tf_max_gross_divergence_bps :: decimal
  tf_deposit_timeout_seconds :: int
  tf_poll_interval_seconds :: rat
  tf_simulated_transfer_seconds :: rat

definition validate_transfer_section :: "TransferSection \<Rightarrow> (exn, TransferSection) result" where
  "validate_transfer_section t =
     bounded [(''min_net_profit_bps'', tf_min_net_profit_bps t \<ge> 0), (''default_amount'', tf_default_amount t > 0),
              (''max_amount'', tf_max_amount t > 0), (''min_notional_quote'', tf_min_notional_quote t > 0),
              (''max_notional_quote'', tf_max_notional_quote t > 0),
              (''max_transfer_gross_divergence_bps'', tf_max_gross_divergence_bps t \<ge> 0),
              (''deposit_timeout_seconds'', tf_deposit_timeout_seconds t \<ge> 60),
              (''poll_interval_seconds'', tf_poll_interval_seconds t \<ge> 1),
              (''simulated_transfer_seconds'', tf_simulated_transfer_seconds t \<ge> 0)]
       (t\<lparr>tf_assets := RList (normalise_codes (split_comma_separated (tf_assets t)))\<rparr>)"

record ExecutionSection =
  ec_leg_timeout_seconds :: int
  ec_paper_max_slippage_bps :: int
  ec_min_net_at_execute_bps :: int
  ec_auto_max_per_cycle :: int
  ec_auto_interval_seconds :: rat
  ec_auto_notional_quote :: decimal

definition validate_execution :: "ExecutionSection \<Rightarrow> (exn, ExecutionSection) result" where
  "validate_execution e =
     bounded [(''leg_timeout_seconds'', 1 \<le> ec_leg_timeout_seconds e \<and> ec_leg_timeout_seconds e \<le> 60),
              (''paper_max_slippage_bps'', 0 \<le> ec_paper_max_slippage_bps e \<and> ec_paper_max_slippage_bps e \<le> 500),
              (''min_net_at_execute_bps'', 0 \<le> ec_min_net_at_execute_bps e \<and> ec_min_net_at_execute_bps e \<le> 1000),
              (''auto_max_per_cycle'', 1 \<le> ec_auto_max_per_cycle e \<and> ec_auto_max_per_cycle e \<le> 10),
              (''auto_interval_seconds'', ec_auto_interval_seconds e \<ge> 1 / 2),
              (''auto_notional_quote'', ec_auto_notional_quote e > 0)] e"

subsection \<open>The whole\<close>

datatype Environment = Development | Production

record Settings =
  st_environment :: Environment
  st_trading :: TradingSettings
  st_database :: DatabaseSettings
  st_exchanges :: ExchangeSettings
  st_risk :: RiskLimits
  st_market_data :: MarketDataSection
  st_arbitrage :: ArbitrageSection
  st_transfer :: TransferSection
  st_execution :: ExecutionSection

definition validate_settings :: "Settings \<Rightarrow> (exn, Settings) result" where
  "validate_settings s =
     res_bind (validate_trading (st_trading s)) (\<lambda>tr.
     res_bind (validate_database (st_database s)) (\<lambda>d.
     res_bind (validate_exchanges (st_exchanges s)) (\<lambda>x.
     res_bind (validate_risk (st_risk s)) (\<lambda>r.
     res_bind (validate_market_data (st_market_data s)) (\<lambda>m.
     res_bind (validate_arbitrage (st_arbitrage s)) (\<lambda>a.
     res_bind (validate_transfer_section (st_transfer s)) (\<lambda>t.
     res_bind (validate_execution (st_execution s)) (\<lambda>e.
       if st_environment s = Production \<and> is_sqlite d
       then Inl (ValueError ''production requires PostgreSQL, not SQLite'')
       else Inr \<lparr>st_environment = st_environment s, st_trading = tr, st_database = d, st_exchanges = x, st_risk = r,
                 st_market_data = m, st_arbitrage = a, st_transfer = t, st_execution = e\<rparr>))))))))"

definition get_settings :: "Settings \<Rightarrow> (exn, Settings) result" where
  "get_settings raw =
     (case validate_settings raw of
        Inl _ \<Rightarrow> Inl (ConfigurationError ''invalid configuration'')
      | Inr s \<Rightarrow> Inr s)"

text \<open>What the exchange manager reads of it.\<close>

definition manager_settings :: "Settings \<Rightarrow> ManagerSettings" where
  "manager_settings s =
     \<lparr>ms_mode = tr_mode (st_trading s), ms_enabled = listed (xs_enabled (st_exchanges s)),
      simulate_in_paper = xs_simulate_in_paper (st_exchanges s),
      breaker_failure_threshold = xs_breaker_failure_threshold (st_exchanges s),
      breaker_cooldown_seconds = xs_breaker_cooldown_seconds (st_exchanges s),
      allow_live_withdrawals = tr_allow_live_withdrawals (st_trading s)\<rparr>"

subsection \<open>Loaded settings are in normal form\<close>

declare bounded.simps [simp del]

lemma bounded_Inr: "bounded bs x = Inr y \<longleftrightarrow> x = y \<and> (\<forall>(f, ok) \<in> set bs. ok)"
  by (induction bs x rule: bounded.induct) (auto simp: bounded.simps)

lemma is_space_lower [simp]: "is_space (lower_char c) = is_space c"
  by (auto simp: is_space_def lower_char_def Let_def)

lemma py_strip_lower: "py_strip (py_lower s) = py_lower (py_strip s)"
  by (simp add: py_strip_def py_lower_def dropWhile_map rev_map comp_def flip: map_map)

lemma dedup_distinct: "distinct (dedup xs)" "set (dedup xs) = set xs"
  by (simp_all add: dedup_def)

lemma dedup_id: "distinct xs \<Longrightarrow> dedup xs = xs"
  by (simp add: dedup_def distinct_remdups_id)

text \<open>A list in normal form: no repetitions, every entry normalised and not empty.\<close>

lemma normalised:
  assumes "\<And>v. f (f v) = f v" "\<And>v. py_strip (f v) = f v" "\<And>v. f v = [] \<longleftrightarrow> py_strip v = []"
    "ys = dedup (map f (filter (\<lambda>v. py_strip v \<noteq> []) vs))"
  shows "dedup (map f (filter (\<lambda>v. py_strip v \<noteq> []) ys)) = ys"
proof -
  have y: "f y = y \<and> py_strip y \<noteq> []" if "y \<in> set ys" for y
    using that assms(1-3) by (auto simp: assms(4) dedup_distinct)
  then have "filter (\<lambda>v. py_strip v \<noteq> []) ys = ys" "map f ys = ys"
    by (simp_all add: filter_id_conv map_idI)
  moreover have "distinct ys" by (simp add: assms(4) dedup_distinct)
  ultimately show ?thesis by (simp add: dedup_id)
qed

lemma normalise_ids_idem: "normalise_ids (normalise_ids vs) = normalise_ids vs"
  unfolding normalise_ids_def [of "normalise_ids vs"]
  by (rule normalised [OF _ _ _ normalise_ids_def]) (simp_all add: py_strip_lower, simp add: py_lower_def)

lemma normalise_codes_idem: "normalise_codes (normalise_codes vs) = normalise_codes vs"
  unfolding normalise_codes_def [of "normalise_codes vs"]
  by (rule normalised [OF _ _ _ normalise_codes_def]) (simp_all add: py_strip_upper)

lemma split_listed [simp]: "split_comma_separated (RList xs) = xs"
  by (simp add: split_comma_separated_def)

lemma validate_trading_again: "validate_trading t = Inr u \<Longrightarrow> validate_trading u = Inr u"
  by (auto simp: validate_trading_def Let_def phrase_given_def py_strip_upper split: if_splits)

lemma validate_exchanges_again: "validate_exchanges x = Inr y \<Longrightarrow> validate_exchanges y = Inr y"
  by (auto simp: validate_exchanges_def bounded_Inr normalise_ids_idem normalise_codes_idem)

lemma validate_arbitrage_again: "validate_arbitrage a = Inr b \<Longrightarrow> validate_arbitrage b = Inr b"
  by (auto simp: validate_arbitrage_def bounded_Inr normalise_codes_idem)

lemma validate_transfer_section_again: "validate_transfer_section a = Inr b \<Longrightarrow> validate_transfer_section b = Inr b"
  by (auto simp: validate_transfer_section_def bounded_Inr normalise_codes_idem)

lemma validate_plain_again:
  "validate_database d = Inr d' \<Longrightarrow> d' = d" "validate_risk r = Inr r' \<Longrightarrow> r' = r"
  "validate_market_data m = Inr m' \<Longrightarrow> m' = m" "validate_execution e = Inr e' \<Longrightarrow> e' = e"
  by (auto simp: validate_database_def validate_risk_def validate_market_data_def validate_execution_def bounded_Inr)

lemma get_settings_parts:
  assumes "get_settings raw = Inr s"
  shows "validate_trading (st_trading raw) = Inr (st_trading s)" "validate_database (st_database raw) = Inr (st_database s)"
    "validate_exchanges (st_exchanges raw) = Inr (st_exchanges s)" "validate_risk (st_risk raw) = Inr (st_risk s)"
    "validate_market_data (st_market_data raw) = Inr (st_market_data s)"
    "validate_arbitrage (st_arbitrage raw) = Inr (st_arbitrage s)" "validate_transfer_section (st_transfer raw) = Inr (st_transfer s)"
    "validate_execution (st_execution raw) = Inr (st_execution s)" "st_environment s = st_environment raw"
    "st_environment s = Production \<Longrightarrow> \<not> is_sqlite (st_database s)"
  using assms by (auto simp: get_settings_def validate_settings_def res_bind_Inr_iff split: sum.splits if_splits)

lemma enabled_normal: "validate_exchanges x = Inr y \<Longrightarrow> \<exists>vs. listed (xs_enabled y) = normalise_ids vs"
  by (auto simp: validate_exchanges_def bounded_Inr)

text \<open>(loaded_settings_are_normal).
  Loading is idempotent: settings that were loaded load again to themselves, their lists are
  without repetitions and their venues in lower case, and a production process never runs on SQLite.\<close>

theorem loaded_settings_are_normal:
  assumes "get_settings raw = Inr s"
  shows "get_settings s = Inr s \<and> distinct (ms_enabled (manager_settings s)) \<and>
    (\<forall>v \<in> set (ms_enabled (manager_settings s)). py_lower (py_strip v) = v \<and> v \<noteq> []) \<and>
    (st_environment s = Production \<longrightarrow> \<not> is_sqlite (st_database s))"
proof -
  note p = get_settings_parts [OF assms]
  note plain = validate_plain_again(1) [OF p(2)] validate_plain_again(2) [OF p(4)]
    validate_plain_again(3) [OF p(5)] validate_plain_again(4) [OF p(8)]
  have "get_settings s = Inr s"
    using p(2,4,5,8) p(10)
    by (simp add: get_settings_def validate_settings_def validate_trading_again [OF p(1)] validate_exchanges_again [OF p(3)]
        validate_arbitrage_again [OF p(6)] validate_transfer_section_again [OF p(7)] flip: plain)
  moreover obtain vs where "ms_enabled (manager_settings s) = normalise_ids vs"
    using enabled_normal [OF p(3)] by (auto simp: manager_settings_def)
  moreover have "distinct (normalise_ids vs)" "\<forall>v \<in> set (normalise_ids vs). py_lower (py_strip v) = v \<and> v \<noteq> []" for vs
    by (auto simp: normalise_ids_def dedup_distinct py_strip_lower) (simp add: py_lower_def)
  ultimately show ?thesis using p(10) by auto
qed

lemma validate_trading_facts:
  "validate_trading t = Inr u \<Longrightarrow> tr_mode u = tr_mode t \<and> tr_allow_live_withdrawals u = tr_allow_live_withdrawals t \<and>
     (tr_mode t = LIVE \<longrightarrow> tr_allow_live t \<and> phrase_given t) \<and> (tr_mode t \<noteq> LIVE \<longrightarrow> \<not> tr_allow_live t)"
  by (auto simp: validate_trading_def Let_def phrase_given_def split: if_splits)

lemma loaded_mode:
  assumes "get_settings raw = Inr s"
  shows "tr_mode (st_trading s) = tr_mode (st_trading raw)"
    "tr_allow_live_withdrawals (st_trading s) = tr_allow_live_withdrawals (st_trading raw)"
    "tr_mode (st_trading raw) = LIVE \<Longrightarrow> tr_allow_live (st_trading raw) \<and> phrase_given (st_trading raw)"
    "tr_mode (st_trading raw) \<noteq> LIVE \<Longrightarrow> \<not> tr_allow_live (st_trading raw)"
  using validate_trading_facts [OF get_settings_parts(1) [OF assms]] by blast+

end
