(* ===== verification/Ccxt_Values.thy ===== *)
theory Ccxt_Values
  imports Py_Numbers Transfer_Models Market_Store "HOL-Library.List_Lexorder" "HOL-Library.Char_ord"
begin

text \<open>
  What a venue client answers, as the Python values the adapter reads, and the translation of
  such answers into the bot's models (\<^verbatim>\<open>app/exchanges/ccxt_adapter.py\<close>, the functions
  \<^verbatim>\<open>_dec\<close>, \<^verbatim>\<open>_ts\<close>, \<^verbatim>\<open>_int\<close>, \<^verbatim>\<open>_levels\<close> and
  \<^verbatim>\<open>_to_*\<close>). A number carries the text \<^verbatim>\<open>str\<close> gives for it, which is how
  the code reads it. The models refuse a \<^verbatim>\<open>Decimal\<close> that is not finite.
\<close>

subsection \<open>Python values\<close>

datatype pyv =
    PNone | PBool bool | PNum string | PStr string | PList "pyv list" | PDict "(string \<times> pyv) list"

type_synonym fields = "(string \<times> pyv) list"

definition num_value :: "string \<Rightarrow> rat option" where
  "num_value t = (case parse_decimal t of Some (DFinite d) \<Rightarrow> Some (dec_value d) | _ \<Rightarrow> None)"

fun truthy :: "pyv \<Rightarrow> bool" where
  "truthy PNone = False"
| "truthy (PBool b) = b"
| "truthy (PNum t) \<longleftrightarrow> num_value t \<noteq> Some 0"
| "truthy (PStr s) \<longleftrightarrow> s \<noteq> []"
| "truthy (PList xs) \<longleftrightarrow> xs \<noteq> []"
| "truthy (PDict d) \<longleftrightarrow> d \<noteq> []"

text \<open>The text of a container only matters in that it is no number, and begins with its bracket.\<close>

fun py_str :: "pyv \<Rightarrow> string" where
  "py_str PNone = ''None''"
| "py_str (PBool b) = (if b then ''True'' else ''False'')"
| "py_str (PNum t) = t"
| "py_str (PStr s) = s"
| "py_str (PList xs) = ''[''"
| "py_str (PDict d) = ''{''"

definition py_or :: "pyv \<Rightarrow> pyv \<Rightarrow> pyv" where
  "py_or a b = (if truthy a then a else b)"

definition fget :: "fields \<Rightarrow> string \<Rightarrow> pyv" where
  "fget d k = opt_or (dict_get d k) PNone"

definition fget_or :: "fields \<Rightarrow> string \<Rightarrow> pyv \<Rightarrow> pyv" where
  "fget_or d k v = opt_or (dict_get d k) v"

text \<open>\<^verbatim>\<open>x.get(...)\<close> of something that is no dictionary raises; \<^verbatim>\<open>x or {}\<close> is empty if false.\<close>

definition mapping_of :: "pyv \<Rightarrow> (exn, fields) result" where
  "mapping_of v = (case v of PDict d \<Rightarrow> Inr d | _ \<Rightarrow> Inl (OtherError ''AttributeError''))"

definition or_mapping :: "pyv \<Rightarrow> (exn, fields) result" where
  "or_mapping v = (if truthy v then mapping_of v else Inr [])"

definition or_list :: "pyv \<Rightarrow> (exn, pyv list) result" where
  "or_list v =
     (if \<not> truthy v then Inr []
      else case v of PList xs \<Rightarrow> Inr xs | PDict d \<Rightarrow> Inr (map (\<lambda>(k, _). PStr k) d)
             | PStr s \<Rightarrow> Inr (map (\<lambda>c. PStr [c]) s) | _ \<Rightarrow> Inl (OtherError ''TypeError''))"

subsection \<open>Scalars\<close>

text \<open>\<^verbatim>\<open>_dec\<close>: the number a value denotes, or nothing.\<close>

definition dec_of :: "pyv \<Rightarrow> decimal_text option" where
  "dec_of v = (if v = PNone \<or> v = PStr [] then None else parse_decimal (py_str v))"

definition finite_num :: "decimal_text \<Rightarrow> (exn, decimal) result" where
  "finite_num d =
     (case d of DFinite x \<Rightarrow> Inr (dec_value x) | _ \<Rightarrow> Inl (ValidationError ''Input should be a finite number''))"

definition opt_num :: "pyv \<Rightarrow> (exn, decimal option) result" where
  "opt_num v = (case dec_of v of None \<Rightarrow> Inr None | Some d \<Rightarrow> res_bind (finite_num d) (\<lambda>x. Inr (Some x)))"

definition num_or_zero :: "pyv \<Rightarrow> (exn, decimal) result" where
  "num_or_zero v = (case dec_of v of None \<Rightarrow> Inr 0 | Some d \<Rightarrow> finite_num d)"

definition bps_of :: "pyv \<Rightarrow> (exn, decimal) result" where
  "bps_of v = res_bind (num_or_zero v) (\<lambda>x. Inr (dmul x 10000))"

text \<open>Ordering comparisons with a NaN raise; an infinity is beyond every number.\<close>

definition less_than :: "decimal_text \<Rightarrow> decimal_text \<Rightarrow> (exn, bool) result" where
  "less_than x y =
     (case (x, y) of
        (DNaN, _) \<Rightarrow> Inl (OtherError ''InvalidOperation'')
      | (_, DNaN) \<Rightarrow> Inl (OtherError ''InvalidOperation'')
      | (DFinite a, DFinite b) \<Rightarrow> Inr (dec_value a < dec_value b)
      | (DFinite _, DInfinity neg) \<Rightarrow> Inr (\<not> neg)
      | (DInfinity neg, DFinite _) \<Rightarrow> Inr neg
      | (DInfinity m, DInfinity n) \<Rightarrow> Inr (m \<and> \<not> n))"

definition zero_text :: decimal_text where
  "zero_text = DFinite \<lparr>dc_negative = False, dc_coeff = 0, dc_exp = 0\<rparr>"

text \<open>\<^verbatim>\<open>_ts\<close>: milliseconds since the epoch, or the present.\<close>

definition ts_of :: "int \<Rightarrow> pyv \<Rightarrow> (exn, int) result" where
  "ts_of now v =
     (case v of
        PBool b \<Rightarrow> Inr (if b then 1000 else now)
      | PNum t \<Rightarrow>
          (case parse_decimal t of
             Some (DFinite d) \<Rightarrow>
               if dec_value d \<le> 0 then Inr now
               else if dec_value d \<ge> 253402300800000 then Inl (ValueError ''year is out of range'')
               else Inr (round_half_even (dec_value d * 1000))
           | Some (DInfinity False) \<Rightarrow> Inl (OtherError ''OverflowError'')
           | _ \<Rightarrow> Inr now)
      | _ \<Rightarrow> Inr now)"

text \<open>\<^verbatim>\<open>_int\<close> of a number read by \<^verbatim>\<open>_dec\<close>: its integral part.\<close>

definition int_of_dec :: "decimal_text \<Rightarrow> (exn, int option) result" where
  "int_of_dec d =
     (case d of
        DFinite x \<Rightarrow> Inr (Some (if 0 \<le> dec_value x then \<lfloor>dec_value x\<rfloor> else \<lceil>dec_value x\<rceil>))
      | DInfinity _ \<Rightarrow> Inl (OtherError ''OverflowError'')
      | DNaN \<Rightarrow> Inr None)"

text \<open>A model's optional text field, stripped.\<close>

definition opt_text :: "pyv \<Rightarrow> (exn, string option) result" where
  "opt_text v =
     (case v of PNone \<Rightarrow> Inr None | PStr s \<Rightarrow> Inr (Some (py_strip s)) | _ \<Rightarrow> Inl (ValidationError ''Input should be a valid string''))"

definition id_text :: "pyv \<Rightarrow> string option" where
  "id_text v = (if v = PNone then None else Some (py_strip (py_str v)))"

fun traverse :: "('a \<Rightarrow> ('e, 'b) result) \<Rightarrow> 'a list \<Rightarrow> ('e, 'b list) result" where
  "traverse f [] = Inr []"
| "traverse f (x # xs) = res_bind (f x) (\<lambda>y. res_bind (traverse f xs) (\<lambda>ys. Inr (y # ys)))"

subsection \<open>Order books\<close>

text \<open>\<^verbatim>\<open>_levels\<close>: items that are no pairs, or without a price or a positive amount, are skipped.\<close>

definition level_of :: "pyv \<Rightarrow> (exn, OrderBookLevel option) result" where
  "level_of item =
     (case item of
        PList (p # a # _) \<Rightarrow>
          (case (dec_of p, dec_of a) of
             (Some x, Some y) \<Rightarrow>
               res_bind (less_than zero_text y) (\<lambda>pos.
                 if \<not> pos then Inr None
                 else res_bind (finite_num x) (\<lambda>x'. res_bind (finite_num y) (\<lambda>y'.
                        Inr (Some \<lparr>price = x', amount = y'\<rparr>))))
           | _ \<Rightarrow> Inr None)
      | _ \<Rightarrow> Inr None)"

definition levels_of :: "pyv \<Rightarrow> (exn, OrderBookLevel list) result" where
  "levels_of raw =
     res_bind (or_list raw) (\<lambda>items. res_bind (traverse level_of items) (\<lambda>ls.
       Inr (List.map_filter id ls)))"

definition to_order_book :: "string \<Rightarrow> int \<Rightarrow> fields \<Rightarrow> Symbol \<Rightarrow> (exn, OrderBook) result" where
  "to_order_book venue now raw symb =
     res_bind (levels_of (fget raw ''bids'')) (\<lambda>bs.
     res_bind (levels_of (fget raw ''asks'')) (\<lambda>as.
     res_bind (ts_of now (fget raw ''timestamp'')) (\<lambda>t.
       Inr (mk_order_book venue symb t bs as))))"

subsection \<open>Tickers, balances, transactions\<close>

definition to_ticker :: "string \<Rightarrow> int \<Rightarrow> fields \<Rightarrow> Symbol \<Rightarrow> (exn, Ticker) result" where
  "to_ticker venue now raw symb =
     res_bind (opt_num (fget raw ''bid'')) (\<lambda>b.
     res_bind (opt_num (fget raw ''ask'')) (\<lambda>a.
     res_bind (opt_num (py_or (fget raw ''last'') (fget raw ''close''))) (\<lambda>_.
     res_bind (opt_num (fget raw ''bidVolume'')) (\<lambda>_.
     res_bind (opt_num (fget raw ''askVolume'')) (\<lambda>_.
     res_bind (opt_num (py_or (fget raw ''quoteVolume'') (fget raw ''baseVolume''))) (\<lambda>_.
     res_bind (ts_of now (fget raw ''timestamp'')) (\<lambda>t.
       Inr \<lparr>tick_exchange_id = venue, tick_symbol = symb, tick_timestamp = t, tick_bid = b, tick_ask = a\<rparr>)))))))"

text \<open>The assets of the two tables, sorted and without repetition.\<close>

definition balance_assets :: "fields \<Rightarrow> fields \<Rightarrow> string list" where
  "balance_assets av used = remdups (sort (map fst av @ map fst used))"

definition to_balances :: "string \<Rightarrow> fields \<Rightarrow> (exn, BalanceSnapshot) result" where
  "to_balances venue raw =
     res_bind (or_mapping (fget raw ''free'')) (\<lambda>av.
     res_bind (or_mapping (fget raw ''used'')) (\<lambda>used.
     res_bind (traverse (\<lambda>a.
         res_bind (num_or_zero (fget av a)) (\<lambda>x. res_bind (num_or_zero (fget used a)) (\<lambda>y.
           Inr \<lparr>bal_exchange_id = venue, bal_asset = py_upper (py_strip a), bal_free = x, bal_used = y\<rparr>)))
       (balance_assets av used)) (\<lambda>bs.
       Inr \<lparr>snap_exchange_id = venue, balances = bs\<rparr>)))"

definition to_tx :: "int \<Rightarrow> pyv \<Rightarrow> tx_direction \<Rightarrow> (exn, TransferTx) result" where
  "to_tx now raw dir =
     (let item = (case raw of PDict d \<Rightarrow> d | _ \<Rightarrow> []) in
      res_bind (opt_text (fget item ''network'')) (\<lambda>_.
      res_bind (num_or_zero (fget item ''amount'')) (\<lambda>amt.
      res_bind (num_or_zero (fget item ''fee'')) (\<lambda>_.
      res_bind (opt_text (py_or (fget item ''txid'') (fget item ''txId''))) (\<lambda>txid.
      res_bind (opt_text (fget item ''address'')) (\<lambda>addr.
      res_bind (if truthy (fget item ''timestamp'') then ts_of now (fget item ''timestamp'') else Inr now) (\<lambda>_.
        Inr \<lparr>tx_direction = dir,
             tx_asset = py_upper (py_strip (py_str (py_or (py_or (fget item ''currency'') (fget item ''asset'')) (PStr [])))),
             tx_amount = amt, tx_status = py_strip (py_lower (py_str (py_or (fget item ''status'') (PStr ''pending'')))),
             tx_txid = txid, tx_address = addr\<rparr>)))))))"

subsection \<open>Markets\<close>

text \<open>A step strictly between zero and one is a tick; any other number is read as decimal places.\<close>

definition step_or_places :: "pyv \<Rightarrow> (exn, decimal option \<times> int option) result" where
  "step_or_places v =
     (case dec_of v of
        None \<Rightarrow> Inr (None, None)
      | Some d \<Rightarrow>
          res_bind (less_than zero_text d) (\<lambda>pos.
          res_bind (if pos then less_than d (DFinite \<lparr>dc_negative = False, dc_coeff = 1, dc_exp = 0\<rparr>) else Inr False) (\<lambda>tick.
            if tick then res_bind (finite_num d) (\<lambda>x. Inr (Some x, None))
            else res_bind (int_of_dec d) (\<lambda>n. Inr (None, n)))))"

definition to_market :: "string \<Rightarrow> fields \<Rightarrow> (exn, Market option) result" where
  "to_market venue payload =
     (let symbol_text = fget payload ''symbol''; b = fget payload ''base''; q = fget payload ''quote'' in
      if \<not> truthy symbol_text \<or> \<not> truthy b \<or> \<not> truthy q then Inr None
      else if py_lower (py_str (py_or (fget payload ''type'') (PStr ''spot''))) \<noteq> ''spot'' then Inr None
      else
        res_bind (or_mapping (fget payload ''limits'')) (\<lambda>limits.
        res_bind (or_mapping (fget limits ''amount'')) (\<lambda>amount_limits.
        res_bind (or_mapping (fget limits ''cost'')) (\<lambda>cost_limits.
        res_bind (or_mapping (fget limits ''price'')) (\<lambda>price_limits.
        res_bind (or_mapping (fget payload ''precision'')) (\<lambda>precision.
        res_bind (step_or_places (fget precision ''price'')) (\<lambda>(price_tick, price_decimals).
        res_bind (step_or_places (fget precision ''amount'')) (\<lambda>(amount_step, amount_decimals).
        res_bind (mk_symbol (py_str b) (py_str q) None) (\<lambda>y.
        res_bind (bps_of (fget payload ''maker'')) (\<lambda>maker.
        res_bind (bps_of (fget payload ''taker'')) (\<lambda>taker.
        res_bind (opt_num (fget amount_limits ''min'')) (\<lambda>min_amount.
        res_bind (opt_num (fget amount_limits ''max'')) (\<lambda>_.
        res_bind (opt_num (fget cost_limits ''min'')) (\<lambda>min_cost.
        res_bind (opt_num (fget price_limits ''min'')) (\<lambda>_.
        res_bind (opt_num (fget price_limits ''max'')) (\<lambda>_.
          Inr (Some \<lparr>mkt_exchange_id = venue, mkt_symbol = y,
            mkt_native_symbol = py_strip (py_str (py_or (fget payload ''id'') symbol_text)),
            mkt_active = truthy (fget_or payload ''active'' (PBool True)),
            mkt_fees = \<lparr>maker_bps = maker, taker_bps = taker\<rparr>,
            mkt_limits = \<lparr>lim_min_amount = min_amount, lim_min_cost = min_cost\<rparr>,
            mkt_precision = \<lparr>prec_price = price_decimals, prec_amount = amount_decimals,
              prec_price_tick = price_tick, prec_amount_step = amount_step\<rparr>\<rparr>)))))))))))))))))"

subsection \<open>Orders\<close>

definition order_statuses :: "(string, OrderStatus) dict" where
  "order_statuses =
     [(''open'', OPEN), (''closed'', FILLED), (''canceled'', CANCELED), (''cancelled'', CANCELED),
      (''expired'', EXPIRED), (''rejected'', REJECTED), (''new'', OPEN), (''created'', OPEN),
      (''pending'', PENDING), (''partiallyfilled'', PARTIALLY_FILLED), (''partially_filled'', PARTIALLY_FILLED),
      (''filled'', FILLED)]"

definition side_of :: "string \<Rightarrow> (exn, OrderSide) result" where
  "side_of t = (if t = ''buy'' then Inr BUY else if t = ''sell'' then Inr SELL
     else Inl (ValueError ''is not a valid OrderSide''))"

definition order_type_of :: "string \<Rightarrow> (exn, OrderType) result" where
  "order_type_of t = (if t = ''market'' then Inr MARKET else if t = ''limit'' then Inr LIMIT
     else Inl (ValueError ''is not a valid OrderType''))"

definition order_num :: "pyv \<Rightarrow> decimal_text" where
  "order_num v = opt_or (dec_of v) zero_text"

definition venue_status :: "fields \<Rightarrow> (exn, OrderStatus) result" where
  "venue_status raw =
     (let st = opt_or (dict_get order_statuses (py_lower (py_str (py_or (fget raw ''status'') (PStr []))))) PENDING;
          amt = order_num (fget raw ''amount''); filled = order_num (fget raw ''filled'')
      in if st \<noteq> OPEN then Inr st
         else res_bind (less_than zero_text filled) (\<lambda>some. res_bind (if some then less_than filled amt else Inr False) (\<lambda>part.
                Inr (if part then PARTIALLY_FILLED else OPEN))))"

definition to_fill :: "int \<Rightarrow> pyv \<Rightarrow> (exn, Fill option) result" where
  "to_fill now t =
     (case t of
        PDict d \<Rightarrow>
          res_bind (num_or_zero (fget d ''price'')) (\<lambda>p.
          res_bind (num_or_zero (fget d ''amount'')) (\<lambda>a.
          res_bind (or_mapping (fget d ''fee'')) (\<lambda>f.
          res_bind (num_or_zero (fget f ''cost'')) (\<lambda>c.
          res_bind (opt_text (fget f ''currency'')) (\<lambda>_.
          res_bind (ts_of now (fget d ''timestamp'')) (\<lambda>_.
            Inr (Some \<lparr>fill_price = p, fill_amount = a, fill_fee = c\<rparr>)))))))
      | _ \<Rightarrow> Inr None)"

definition to_order :: "string \<Rightarrow> int \<Rightarrow> fields \<Rightarrow> Symbol \<Rightarrow> (exn, Order) result" where
  "to_order venue now raw symb =
     res_bind (venue_status raw) (\<lambda>st.
     res_bind (or_mapping (fget raw ''fee'')) (\<lambda>fee.
     res_bind (side_of (py_str (py_or (fget raw ''side'') (PStr ''buy'')))) (\<lambda>sd.
     res_bind (order_type_of (py_str (py_or (fget raw ''type'') (PStr ''limit'')))) (\<lambda>ty.
     res_bind (or_list (fget raw ''trades'')) (\<lambda>trades.
     res_bind (traverse (to_fill now) trades) (\<lambda>fs.
     res_bind (ts_of now (fget raw ''timestamp'')) (\<lambda>_.
     res_bind (opt_text (fget raw ''clientOrderId'')) (\<lambda>cid.
     res_bind (num_or_zero (fget raw ''amount'')) (\<lambda>amt.
     res_bind (num_or_zero (fget raw ''filled'')) (\<lambda>filled.
     res_bind (opt_num (fget raw ''price'')) (\<lambda>p.
     res_bind (opt_num (fget raw ''average'')) (\<lambda>av.
     res_bind (num_or_zero (fget fee ''cost'')) (\<lambda>paid.
     res_bind (opt_text (fget fee ''currency'')) (\<lambda>fcur.
       Inr \<lparr>ord_exchange_id = venue, exchange_order_id = id_text (fget raw ''id''), client_order_id = cid,
            ord_symbol = symb, ord_side = sd, ord_order_type = ty, ord_status = st, ord_amount = amt,
            filled_amount = filled, ord_price = p, average_price = av, fee_paid = paid, fee_currency = fcur,
            fills = List.map_filter id fs, ord_error = None, ord_updated_at = now\<rparr>))))))))))))))"

subsection \<open>Networks\<close>

definition mk_network ::
  "string \<Rightarrow> string option \<Rightarrow> bool \<Rightarrow> bool \<Rightarrow> decimal \<Rightarrow> decimal \<Rightarrow> decimal \<Rightarrow> (exn, WithdrawalNetwork) result" where
  "mk_network n code w d fee wmin dmin =
     (if n = [] then Inl (ValidationError ''Input should be a valid string'')
      else Inr \<lparr>network = py_upper (py_strip n), network_code = (if truthy_str code then Some (py_upper (py_strip (the code))) else None),
                withdraw_enabled = w, deposit_enabled = d, withdrawal_fee = fee, withdrawal_min = wmin, deposit_min = dmin\<rparr>)"

definition flag_or_active :: "fields \<Rightarrow> string \<Rightarrow> bool" where
  "flag_or_active d k = truthy (fget_or d k (fget_or d ''active'' (PBool True)))"

definition to_network :: "string \<times> pyv \<Rightarrow> (exn, WithdrawalNetwork option) result" where
  "to_network kv =
     (case kv of
        (key, PDict entry) \<Rightarrow>
          res_bind (or_mapping (fget entry ''limits'')) (\<lambda>limits.
          res_bind (or_mapping (fget limits ''withdraw'')) (\<lambda>wl.
          res_bind (or_mapping (fget limits ''deposit'')) (\<lambda>dl.
          res_bind (num_or_zero (fget entry ''fee'')) (\<lambda>fee.
          res_bind (num_or_zero (fget wl ''min'')) (\<lambda>wmin.
          res_bind (num_or_zero (fget dl ''min'')) (\<lambda>dmin.
          res_bind (mk_network (py_str (py_or (fget entry ''network'') (PStr key)))
              (if truthy (fget entry ''code'') then Some (py_str (fget entry ''code'')) else None)
              (flag_or_active entry ''withdraw'') (flag_or_active entry ''deposit'') fee wmin dmin) (\<lambda>n. Inr (Some n))))))))
      | _ \<Rightarrow> Inr None)"

text \<open>A currency without a table of networks is its own network.\<close>

definition to_networks :: "string \<Rightarrow> fields \<Rightarrow> (exn, WithdrawalNetwork list) result" where
  "to_networks code currency =
     res_bind (or_mapping (fget currency ''networks'')) (\<lambda>raw.
     res_bind (traverse to_network raw) (\<lambda>ns.
       case List.map_filter id ns of
         [] \<Rightarrow> res_bind (num_or_zero (fget currency ''fee'')) (\<lambda>fee.
                 res_bind (mk_network code (Some code) (flag_or_active currency ''withdraw'')
                   (flag_or_active currency ''deposit'') fee 0 0) (\<lambda>n. Inr [n]))
       | n # ns' \<Rightarrow> Inr (n # ns')))"

subsection \<open>What parsing keeps\<close>

lemma traverse_mem: "traverse f xs = Inr ys \<Longrightarrow> y \<in> set ys \<Longrightarrow> \<exists>x \<in> set xs. f x = Inr y"
  by (induction f xs arbitrary: ys rule: traverse.induct) (fastforce simp: res_bind_Inr_iff)+

text \<open>Where a parsed level comes from.\<close>

definition quoted_level :: "pyv list \<Rightarrow> OrderBookLevel \<Rightarrow> bool" where
  "quoted_level items l \<longleftrightarrow>
     (\<exists>p a rest x y. PList (p # a # rest) \<in> set items \<and> dec_of p = Some (DFinite x) \<and> dec_of a = Some (DFinite y) \<and>
        price l = dec_value x \<and> amount l = dec_value y)"

lemma level_of_Some:
  assumes "level_of item = Inr (Some l)" "item \<in> set items"
  shows "quoted_level items l \<and> 0 < amount l"
proof -
  obtain p a rest where item: "item = PList (p # a # rest)"
    using assms(1) by (auto simp: level_of_def split: pyv.splits list.splits)
  then obtain x y where d: "dec_of p = Some x" "dec_of a = Some y"
    using assms(1) by (auto simp: level_of_def split: option.splits)
  then obtain x' y' where f: "x = DFinite x'" "y = DFinite y'" "l = \<lparr>price = dec_value x', amount = dec_value y'\<rparr>"
    "less_than zero_text y = Inr True"
    using assms(1) by (auto simp: level_of_def item res_bind_Inr_iff finite_num_def split: if_splits decimal_text.splits)
  have "dec_value \<lparr>dc_negative = False, dc_coeff = 0, dc_exp = 0\<rparr> = 0" by (simp add: dec_value_def)
  then have "0 < amount l" using f by (simp add: less_than_def zero_text_def)
  then show ?thesis using assms(2) d f(1-3) unfolding quoted_level_def item by fastforce
qed

lemma levels_of_sound:
  assumes "levels_of raw = Inr ls" "l \<in> set ls"
  shows "\<exists>items. or_list raw = Inr items \<and> quoted_level items l \<and> 0 < amount l"
proof -
  obtain items os where i: "or_list raw = Inr items" "traverse level_of items = Inr os" "ls = List.map_filter id os"
    using assms(1) by (auto simp: levels_of_def res_bind_Inr_iff)
  then have "Some l \<in> set os" using assms(2) by (auto simp: List.map_filter_def)
  then obtain item where "item \<in> set items" "level_of item = Inr (Some l)" using traverse_mem [OF i(2)] by blast
  then show ?thesis using i(1) level_of_Some by blast
qed

text \<open>C33 (parsed_books_are_sound).
  A book read from a venue's answer is sorted, best prices first, and each of its levels is a
  pair of finite numbers the venue quoted on that side, with a positive amount.\<close>

theorem parsed_books_are_sound:
  assumes "to_order_book venue now raw y = Inr b"
  shows "sorted_wrt (\<lambda>l m. price m \<le> price l) (bids b) \<and> sorted_wrt (\<lambda>l m. price l \<le> price m) (asks b) \<and>
    (\<forall>l \<in> set (bids b). \<exists>items. or_list (fget raw ''bids'') = Inr items \<and> quoted_level items l \<and> 0 < amount l) \<and>
    (\<forall>l \<in> set (asks b). \<exists>items. or_list (fget raw ''asks'') = Inr items \<and> quoted_level items l \<and> 0 < amount l)"
proof -
  obtain bs as t where p: "levels_of (fget raw ''bids'') = Inr bs" "levels_of (fget raw ''asks'') = Inr as"
    and b: "b = mk_order_book venue y t bs as"
    using assms by (auto simp: to_order_book_def res_bind_Inr_iff)
  have "set (bids b) = set bs" "set (asks b) = set as" by (simp_all add: b mk_order_book_def sort_bids_def sort_asks_def)
  then show ?thesis
    using levels_of_sound [OF p(1)] levels_of_sound [OF p(2)]
    by (simp add: b mk_order_book_def sorted_sort_bids sorted_sort_asks)
qed

text \<open>The venue's word for the status of an order.\<close>

definition venue_word :: "fields \<Rightarrow> string" where
  "venue_word raw = py_lower (py_str (py_or (fget raw ''status'') (PStr [])))"

lemma to_order_fields:
  assumes "to_order venue now raw y = Inr x"
  shows "venue_status raw = Inr (ord_status x)" "num_or_zero (fget raw ''filled'') = Inr (filled_amount x)"
    "ord_symbol x = y" "ord_exchange_id x = venue"
  using assms by (auto simp: to_order_def res_bind_Inr_iff)

lemma venue_status_word:
  assumes "venue_status raw = Inr st"
  shows "st = opt_or (dict_get order_statuses (venue_word raw)) PENDING \<or>
    opt_or (dict_get order_statuses (venue_word raw)) PENDING = OPEN \<and> (st = OPEN \<or> st = PARTIALLY_FILLED)"
  using assms by (auto simp: venue_status_def venue_word_def Let_def res_bind_Inr_iff split: if_splits)

text \<open>C32 (unknown_orders_stay_unconfirmed).
  An order read from a venue's answer is in a terminal status only when the venue's own word is
  one for that status; a missing or unknown word gives a pending order, which counts as
  unconfirmed; and a confirmed fill has a positive filled amount the venue reported.\<close>

theorem unknown_orders_stay_unconfirmed:
  assumes "to_order venue now raw y = Inr x"
  shows "(status_is_terminal (ord_status x) \<longrightarrow> dict_get order_statuses (venue_word raw) = Some (ord_status x)) \<and>
    (dict_get order_statuses (venue_word raw) = None \<longrightarrow> ord_status x = PENDING \<and> outcome_unconfirmed x) \<and>
    (is_confirmed_fill x \<longrightarrow> 0 < filled_amount x \<and> num_or_zero (fget raw ''filled'') = Inr (filled_amount x) \<and>
       dict_get order_statuses (venue_word raw) = Some (ord_status x))"
proof -
  note w = venue_status_word [OF to_order_fields(1) [OF assms]]
  have t: "status_is_terminal (ord_status x) \<Longrightarrow> dict_get order_statuses (venue_word raw) = Some (ord_status x)"
    using w by (cases "dict_get order_statuses (venue_word raw)")
      (auto simp: status_is_terminal_def terminal_order_statuses_def)
  have f: "is_confirmed_fill x \<Longrightarrow> status_is_terminal (ord_status x) \<and> 0 < filled_amount x"
    by (auto simp: is_confirmed_fill_def confirmed_fill_statuses_def status_is_terminal_def terminal_order_statuses_def)
  have p: "dict_get order_statuses (venue_word raw) = None \<Longrightarrow> ord_status x = PENDING" using w by simp
  have "ord_status x = PENDING \<Longrightarrow> outcome_unconfirmed x"
    by (simp add: outcome_unconfirmed_def unconfirmed_outcome_statuses_def)
  then show ?thesis using to_order_fields(2) [OF assms] t f p by blast
qed

text \<open>(whole_steps_become_decimal_places).
  The step a market trades in, as read from the venue's precision: a step below one is taken as
  it is; a step of one or more is taken for a number of decimal places, so that a market that
  trades whole units is believed to trade tenths, and one that trades tens of units \<open>10 powi -10\<close>.\<close>

theorem whole_steps_become_decimal_places:
  assumes "dec_of v = Some (DFinite d)" "step_or_places v = Inr (step, places)"
    "prec = \<lparr>prec_price = None, prec_amount = places, prec_price_tick = None, prec_amount_step = step\<rparr>"
  shows "resolved_amount_step prec =
    (if 0 < dec_value d \<and> dec_value d < 1 then Some (dec_value d)
     else Some (10 powi (- (if 0 \<le> dec_value d then \<lfloor>dec_value d\<rfloor> else \<lceil>dec_value d\<rceil>))))"
proof -
  have "dec_value \<lparr>dc_negative = False, dc_coeff = 0, dc_exp = 0\<rparr> = 0" "dec_value \<lparr>dc_negative = False, dc_coeff = 1, dc_exp = 0\<rparr> = 1"
    by (simp_all add: dec_value_def)
  then show ?thesis
    using assms by (auto simp: step_or_places_def less_than_def zero_text_def finite_num_def int_of_dec_def
        resolved_amount_step_def split: if_splits)
qed

end
