(* ===== verification/Adapter_Base.thy ===== *)
theory Adapter_Base
  imports Exchange_Manager
begin

text \<open>
  What every venue adapter is built from (\<^verbatim>\<open>app/exchanges/base.py\<close>,
  \<^verbatim>\<open>credentials.py\<close>, \<^verbatim>\<open>registry.py\<close>): transport options, credentials
  and where they are looked up, the registry of factories, and the errors an adapter raises
  (\<^verbatim>\<open>app/errors.py\<close>).
\<close>

subsection \<open>Options and credentials\<close>

record AdapterOptions =
  opt_timeout_seconds :: rat
  opt_order_book_depth :: int
  opt_sandbox :: bool
  opt_enable_rate_limit :: bool

record ExchangeCredentials =
  cred_api_key :: string
  cred_secret :: string
  cred_password :: string
  cred_uid :: string

definition credentials_empty :: "ExchangeCredentials \<Rightarrow> bool" where
  "credentials_empty c \<longleftrightarrow> \<not> (cred_api_key c \<noteq> [] \<and> cred_secret c \<noteq> [])"

text \<open>
  \<^verbatim>\<open>EnvCredentialsProvider\<close>: the process environment first, then the parsed
  \<^verbatim>\<open>.env\<close> file; an empty value counts as missing.
\<close>

type_synonym env_vars = "string \<Rightarrow> string option"

definition env_name :: "string \<Rightarrow> string \<Rightarrow> string" where
  "env_name venue field = ''CAT_KEY_'' @ py_upper (py_strip venue) @ ''_'' @ field"

definition env_value :: "env_vars \<Rightarrow> env_vars \<Rightarrow> string \<Rightarrow> string \<Rightarrow> string" where
  "env_value environ dotenv venue field =
     (let name = env_name venue field;
          v = (if truthy_str (environ name) then environ name else Some (opt_or (dotenv name) []))
      in py_strip (opt_or v []))"

definition env_credentials :: "env_vars \<Rightarrow> env_vars \<Rightarrow> string \<Rightarrow> ExchangeCredentials option" where
  "env_credentials environ dotenv venue =
     (let value = env_value environ dotenv venue; k = value ''APIKEY''; sec = value ''SECRET'' in
      if k = [] \<or> sec = [] then None
      else Some \<lparr>cred_api_key = k, cred_secret = sec,
                 cred_password = (if value ''PASSWORD'' \<noteq> [] then value ''PASSWORD'' else value ''PASSPHRASE''),
                 cred_uid = value ''UID''\<rparr>)"

definition memory_credentials :: "(string, ExchangeCredentials) dict \<Rightarrow> string \<Rightarrow> ExchangeCredentials option" where
  "memory_credentials d venue = dict_get d (venue_key venue)"

text \<open>What the provider hands out is usable, and depends on the spelling of the venue only up to case and margins.\<close>

lemma env_credentials_usable:
  "env_credentials environ dotenv venue = Some c \<Longrightarrow> \<not> credentials_empty c"
  by (auto simp: env_credentials_def credentials_empty_def Let_def split: if_splits)

lemma env_credentials_spelling:
  assumes "py_upper (py_strip v) = py_upper (py_strip w)"
  shows "env_credentials environ dotenv v = env_credentials environ dotenv w"
proof -
  have "env_value environ dotenv v = env_value environ dotenv w"
    by (rule ext) (simp only: env_value_def env_name_def assms)
  then show ?thesis by (simp only: env_credentials_def)
qed

subsection \<open>The registry\<close>

text \<open>A factory is a value of type \<open>'f\<close>, applied to the request by the caller.\<close>

type_synonym 'f registry = "(string, 'f) dict"

definition reg_register :: "'f registry \<Rightarrow> string \<Rightarrow> 'f \<Rightarrow> bool \<Rightarrow> (exn, 'f registry) result" where
  "reg_register r name factory override =
     (let key = venue_key name in
      if key = [] then Inl (ConfigurationError ''adapter name must not be empty'')
      else if dict_get r key \<noteq> None \<and> \<not> override then Inl (ConfigurationError ''adapter is already registered'')
      else Inr (dict_set r key factory))"

definition reg_unregister :: "'f registry \<Rightarrow> string \<Rightarrow> 'f registry" where
  "reg_unregister r name = dict_pop r (venue_key name)"

definition reg_factory :: "'f registry \<Rightarrow> string \<Rightarrow> (exn, 'f) result" where
  "reg_factory r name =
     (case dict_get r (venue_key name) of
        Some f \<Rightarrow> Inr f
      | None \<Rightarrow> Inl (ConfigurationError ''unknown adapter''))"

definition reg_create :: "(Exchange \<Rightarrow> 'a) registry \<Rightarrow> Exchange \<Rightarrow> (exn, 'a) result" where
  "reg_create r x = res_bind (reg_factory r (ex_adapter x)) (\<lambda>f. Inr (f x))"

definition reg_contains :: "'f registry \<Rightarrow> string \<Rightarrow> bool" where
  "reg_contains r name \<longleftrightarrow> dict_get r (venue_key name) \<noteq> None"

lemma registry_lookup:
  assumes "reg_register r name f override = Inr r'"
  shows "reg_factory r' other = (if venue_key other = venue_key name then Inr f else reg_factory r other)"
  using assms by (auto simp: reg_register_def reg_factory_def Let_def split: if_splits)

subsection \<open>Errors\<close>

text \<open>
  The subclasses of \<^verbatim>\<open>ExchangeError\<close>. A venue error keeps the text of the exception it
  was raised from (\<^verbatim>\<open>__cause__\<close>) and, for a rate limit, the venue's wish to wait.
\<close>

datatype error_class =
  EC_Exchange | EC_Unavailable | EC_RateLimit | EC_Auth | EC_Timeout | EC_Capability

fun class_name :: "error_class \<Rightarrow> string" where
  "class_name EC_Exchange = ''ExchangeError''"
| "class_name EC_Unavailable = ''ExchangeUnavailableError''"
| "class_name EC_RateLimit = ''RateLimitError''"
| "class_name EC_Auth = ''VenueAuthError''"
| "class_name EC_Timeout = ''TimeoutError''"
| "class_name EC_Capability = ''CapabilityNotSupportedError''"

record VenueError =
  ve_class :: error_class
  ve_message :: string
  ve_cause :: "string option"
  ve_retry_after :: "rat option"

definition venue_error :: "error_class \<Rightarrow> string \<Rightarrow> VenueError" where
  "venue_error c msg = \<lparr>ve_class = c, ve_message = msg, ve_cause = None, ve_retry_after = None\<rparr>"

text \<open>An exception of the client library: the names of its classes, innermost first, and its text.\<close>

record Foreign =
  fx_mro :: "string list"
  fx_text :: string
  fx_retry_after :: "rat option"

datatype adapter_error = Venue VenueError | Plain exn | Raw Foreign

definition lift_exn :: "(exn, 'a) result \<Rightarrow> (adapter_error, 'a) result" where
  "lift_exn r = (case r of Inl e \<Rightarrow> Inl (Plain e) | Inr v \<Rightarrow> Inr v)"

lemma lift_exn_simps [simp]: "lift_exn (Inl e) = Inl (Plain e)" "lift_exn (Inr v) = Inr v"
  by (simp_all add: lift_exn_def)

text \<open>How the rest of the program sees an adapter's error.\<close>

fun as_exn :: "adapter_error \<Rightarrow> exn" where
  "as_exn (Plain e) = e"
| "as_exn (Raw x) = OtherError (fx_text x)"
| "as_exn (Venue v) =
     (case ve_class v of
        EC_Auth \<Rightarrow> VenueAuthError (ve_message v)
      | EC_RateLimit \<Rightarrow> RateLimitError (ve_message v) (ve_retry_after v)
      | EC_Capability \<Rightarrow> CapabilityNotSupportedError (ve_message v)
      | _ \<Rightarrow> OtherError (ve_message v))"

definition unsupported :: "string \<Rightarrow> string \<Rightarrow> adapter_error" where
  "unsupported venue capability =
     Venue (venue_error EC_Capability (venue @ '' does not support '' @ capability))"

end
