(* ===== verification/Py_Float.thy ===== *)
theory Py_Float
  imports Py_Decimal "HOL-Library.Log_Nat"
begin

text \<open>
  Python's \<^verbatim>\<open>float\<close> as far as the bot passes numbers through it: a number rounded to 53
  significant bits, half to even. Overflow and the gradual underflow below \<open>2 powi -1022\<close> are
  outside the model.
\<close>

subsection \<open>Binary exponent of a number\<close>

definition exponent2 :: "rat \<Rightarrow> int" where
  "exponent2 x =
     (let p = quotient_of \<bar>x\<bar>;
          d = int (floorlog 2 (nat (fst p))) - int (floorlog 2 (nat (snd p)))
      in if \<bar>x\<bar> < 2 powi d then d - 1 else d)"

lemma powi2_pos [simp]: "0 < (2::rat) powi n"
  by (rule zero_less_power_int) simp

lemma floorlog_frame:
  assumes "0 < (p::int)"
  shows "2 ^ floorlog 2 (nat p) \<le> 2 * (of_int p :: rat)" "(of_int p :: rat) < 2 ^ floorlog 2 (nat p)"
proof -
  let ?k = "floorlog 2 (nat p)"
  have "?k \<noteq> 0" using assms by (simp add: floorlog_eq_zero_iff)
  then have k: "?k > 0" by simp
  have "2 ^ (?k - 1) \<le> nat p" "nat p < 2 ^ ?k"
    using floorlog_bounds [of "nat p" 2] assms by auto
  then have "int (2 ^ (?k - 1)) \<le> p" "p < int (2 ^ ?k)" using assms by (auto simp: le_nat_iff nat_less_iff)
  then have "(2::rat) ^ (?k - 1) \<le> of_int p" and lt: "of_int p < (2::rat) ^ ?k"
    by (metis of_int_le_iff of_int_less_iff of_int_of_nat_eq of_nat_numeral of_nat_power)+
  then show "2 ^ ?k \<le> 2 * (of_int p :: rat)" using k by (metis Suc_pred' mult_left_mono power_Suc zero_le_numeral)
  show "(of_int p :: rat) < 2 ^ ?k" by (rule lt)
qed

lemma exponent2_bounds:
  assumes "x \<noteq> 0"
  shows "2 powi exponent2 x \<le> \<bar>x\<bar>" "\<bar>x\<bar> < 2 powi (exponent2 x + 1)"
proof -
  obtain p q where pq: "quotient_of \<bar>x\<bar> = (p, q)" by (cases "quotient_of \<bar>x\<bar>")
  have q: "0 < q" using pq by (rule quotient_of_denom_pos)
  have x: "\<bar>x\<bar> = of_int p / of_int q" using pq by (rule quotient_of_div)
  then have p: "0 < p" using assms q
    by (metis zero_less_abs_iff zero_less_divide_iff of_int_0_less_iff not_less_iff_gr_or_eq)
  define a b where "a = floorlog 2 (nat p)" and "b = floorlog 2 (nat q)"
  define d where "d = int a - int b"
  note fa = floorlog_frame [OF p, folded a_def] and fb = floorlog_frame [OF q, folded b_def]
  have pw: "(2::rat) powi (d + 1) = 2 ^ a / (2 ^ b / 2)" "(2::rat) powi (d - 1) = (2 ^ a / 2) / 2 ^ b"
    by (simp_all add: d_def power_int_add power_int_diff)
  have up: "\<bar>x\<bar> < 2 powi (d + 1)"
    unfolding x pw using fa fb p by (intro frac_less) auto
  have lo: "2 powi (d - 1) \<le> \<bar>x\<bar>"
    unfolding x pw using fa fb q p by (intro frac_le) auto
  have adj: "exponent2 x = (if \<bar>x\<bar> < 2 powi d then d - 1 else d)"
    by (simp add: exponent2_def Let_def pq a_def b_def d_def)
  show "2 powi exponent2 x \<le> \<bar>x\<bar>" using lo by (auto simp: adj)
  show "\<bar>x\<bar> < 2 powi (exponent2 x + 1)" using up by (auto simp: adj)
qed

subsection \<open>Rounding to a float\<close>

definition binary64 :: "rat \<Rightarrow> rat" where
  "binary64 x =
     (if x = 0 then 0
      else let s = 2 powi (52 - exponent2 x) in of_int (round_half_even (x * s)) / s)"

lemma binary64_0 [simp]: "binary64 0 = 0"
  by (simp add: binary64_def)

text \<open>The relative error of a conversion, and powers of two as bounds.\<close>

lemma binary64_error: "\<bar>binary64 x - x\<bar> \<le> \<bar>x\<bar> / 2 ^ 53"
proof (cases "x = 0")
  case False
  let ?s = "2 powi (52 - exponent2 x) :: rat"
  have s: "0 < ?s" by simp
  have e: "binary64 x - x = (of_int (round_half_even (x * ?s)) - x * ?s) / ?s"
    using False s by (simp add: binary64_def Let_def diff_divide_distrib)
  have "\<bar>of_int (round_half_even (x * ?s)) - x * ?s\<bar> \<le> 1 / 2"
    using round_half_even_bounds [of "x * ?s"] by linarith
  then have "\<bar>binary64 x - x\<bar> \<le> (1 / 2) / ?s"
    unfolding e abs_divide using s by (simp only: abs_of_pos) (intro divide_right_mono, auto)
  also have "(1 / 2) / ?s = 2 powi exponent2 x / 2 ^ 53"
    by (simp add: power_int_diff)
  also have "\<dots> \<le> \<bar>x\<bar> / 2 ^ 53"
    using exponent2_bounds(1) [OF False] by (intro divide_right_mono) auto
  finally show ?thesis .
qed simp

lemma binary64_nonneg: "0 \<le> x \<Longrightarrow> 0 \<le> binary64 x"
  using round_half_even_nonneg [of "x * 2 powi (52 - exponent2 x)"]
  by (auto simp: binary64_def Let_def)

lemma binary64_le_power:
  assumes "0 \<le> x" "x \<le> 2 powi k"
  shows "binary64 x \<le> 2 powi k"
proof (cases "x = 0")
  case False
  let ?e = "exponent2 x"
  let ?s = "2 powi (52 - ?e) :: rat"
  have "2 powi ?e \<le> x" using exponent2_bounds(1) [OF False] assms(1) by simp
  then have "?e \<le> k" using assms(2)
    by (metis order_trans linorder_not_le power_int_strict_increasing one_less_numeral_iff semiring_norm(76))
  then have "(2::rat) powi (k - ?e + 52) = of_int (2 ^ nat (k - ?e + 52))" by (simp add: power_int_def)
  moreover have "(2::rat) powi (k - ?e + 52) = 2 powi k * ?s" by (simp add: algebra_simps flip: power_int_add)
  ultimately have i: "2 powi k * ?s = of_int (2 ^ nat (k - ?e + 52))" by simp
  have "x * ?s \<le> of_int (2 ^ nat (k - ?e + 52))"
    unfolding i [symmetric] using assms(2) by (intro mult_right_mono) auto
  then have "(of_int (round_half_even (x * ?s)) :: rat) \<le> of_int (2 ^ nat (k - ?e + 52))"
    by (simp only: of_int_le_iff) (rule round_half_even_le)
  then have "of_int (round_half_even (x * ?s)) \<le> 2 powi k * ?s" unfolding i .
  then show ?thesis using False by (simp add: binary64_def Let_def divide_le_eq)
qed simp

lemma binary64_minus: "binary64 (- x) = - binary64 x"
  by (simp add: binary64_def exponent2_def Let_def round_half_even_minus)

lemma binary64_abs_le:
  assumes "\<bar>x\<bar> \<le> 2 powi k"
  shows "\<bar>binary64 x\<bar> \<le> 2 powi k"
proof (cases "0 \<le> x")
  case True
  then show ?thesis using binary64_le_power [of x k] binary64_nonneg [of x] assms by simp
next
  case False
  then show ?thesis
    using binary64_le_power [of "- x" k] binary64_nonneg [of "- x"] assms by (simp add: binary64_minus)
qed

end
