(* ===== verification/Simulated_Venue.thy ===== *)
theory Simulated_Venue
  imports Adapter_Base Py_Float Market_Store Transfer_Models Py_Numbers "HOL-Library.List_Lexorder" "HOL-Library.Char_ord"
begin

text \<open>
  The venue the bot trades against in PAPER mode (\<^verbatim>\<open>app/exchanges/simulated.py\<close>): prices,
  books, balances, networks and addresses derived from a hash of names, and a ledger of simulated
  withdrawals. The hash (\<^verbatim>\<open>hashlib.blake2b\<close>, 8 bytes read as a number, or its
  hexadecimal form) is an argument of the definitions.
\<close>

subsection \<open>Tables\<close>

definition default_seed_prices :: "(string, decimal) dict" where
  "default_seed_prices = [
     (''BTC/USDT'', 116420), (''ETH/USDT'', 4180), (''SOL/USDT'', 214.5), (''XRP/USDT'', 2.94), (''BNB/USDT'', 1035),
     (''ADA/USDT'', 0.92), (''DOGE/USDT'', 0.24), (''LINK/USDT'', 22.4), (''AVAX/USDT'', 38.6), (''TRX/USDT'', 0.31),
     (''LTC/USDT'', 105), (''DOT/USDT'', 5.2), (''BCH/USDT'', 510), (''UNI/USDT'', 7.8), (''ATOM/USDT'', 5.5),
     (''ETC/USDT'', 18.5), (''XLM/USDT'', 0.30), (''FIL/USDT'', 3.2), (''HBAR/USDT'', 0.16), (''APT/USDT'', 5.1),
     (''NEAR/USDT'', 3.1), (''ARB/USDT'', 0.55), (''OP/USDT'', 1.55), (''SUI/USDT'', 2.6), (''TAO/USDT'', 350),
     (''RNDR/USDT'', 7.2), (''MATIC/USDT'', 0.52), (''TON/USDT'', 3.1), (''SHIB/USDT'', 0.000022),
     (''PEPE/USDT'', 0.0000075), (''AAVE/USDT'', 150), (''ENA/USDT'', 0.55), (''WIF/USDT'', 1.55),
     (''FLOKI/USDT'', 0.00012), (''BONK/USDT'', 0.000021), (''TIA/USDT'', 4.2), (''INJ/USDT'', 15.5),
     (''IMX/USDT'', 1.25), (''MKR/USDT'', 1500), (''GRT/USDT'', 0.13), (''STX/USDT'', 1.05), (''FET/USDT'', 1.55),
     (''AR/USDT'', 15.2), (''SEI/USDT'', 0.31), (''JUP/USDT'', 0.52), (''ONDO/USDT'', 0.71), (''STRK/USDT'', 1.25),
     (''WLD/USDT'', 1.55), (''PYTH/USDT'', 0.36), (''JTO/USDT'', 2.05)]"

definition sim_networks :: "(string, (string \<times> string \<times> decimal) list) dict" where
  "sim_networks = [
     (''USDT'', [(''TRC20'', ''TRX'', 1.20), (''ERC20'', ''ETH'', 5.80), (''BEP20'', ''BSC'', 0.65)]),
     (''BTC'', [(''BTC'', ''BTC'', 0.00021)]), (''ETH'', [(''ERC20'', ''ETH'', 0.0035)]),
     (''SOL'', [(''SOL'', ''SOL'', 0.010)]), (''XRP'', [(''XRP'', ''XRP'', 0.25)]),
     (''BNB'', [(''BEP20'', ''BSC'', 0.0008)]), (''ADA'', [(''ADA'', ''ADA'', 1.0)]),
     (''DOGE'', [(''DOGE'', ''DOGE'', 4.0)]), (''LINK'', [(''ERC20'', ''ETH'', 0.85)]),
     (''AVAX'', [(''AVAX'', ''AVAX'', 0.01)]), (''TRX'', [(''TRC20'', ''TRX'', 1.0)]),
     (''LTC'', [(''LTC'', ''LTC'', 0.001)]), (''DOT'', [(''DOT'', ''DOT'', 0.2)]),
     (''BCH'', [(''BCH'', ''BCH'', 0.0008)]), (''UNI'', [(''ERC20'', ''ETH'', 2.0)]),
     (''ATOM'', [(''ATOM'', ''ATOM'', 0.05)]), (''ETC'', [(''ETC'', ''ETC'', 0.02)]),
     (''XLM'', [(''XLM'', ''XLM'', 0.5)]), (''FIL'', [(''FIL'', ''FIL'', 0.05)]),
     (''HBAR'', [(''HBAR'', ''HBAR'', 1.0)]), (''APT'', [(''APT'', ''APT'', 0.02)]),
     (''NEAR'', [(''NEAR'', ''NEAR'', 0.05)]), (''ARB'', [(''ARB'', ''ARBITRUM'', 0.2)]),
     (''OP'', [(''OP'', ''OPTIMISM'', 0.1)]), (''SUI'', [(''SUI'', ''SUI'', 0.05)]),
     (''TAO'', [(''TAO'', ''TAO'', 0.002)]), (''RNDR'', [(''RNDR'', ''ETH'', 2.0)]),
     (''MATIC'', [(''MATIC'', ''MATIC'', 1.0)]), (''TON'', [(''TON'', ''TON'', 0.05)]),
     (''SHIB'', [(''SHIB'', ''ETH'', 1000000)]), (''PEPE'', [(''PEPE'', ''ETH'', 5000000)]),
     (''AAVE'', [(''AAVE'', ''ETH'', 0.02)]), (''ENA'', [(''ENA'', ''ETH'', 10)]),
     (''WIF'', [(''WIF'', ''SOL'', 0.5)]), (''FLOKI'', [(''FLOKI'', ''ETH'', 200000)]),
     (''BONK'', [(''BONK'', ''SOL'', 500000)]), (''TIA'', [(''TIA'', ''TIA'', 0.2)]),
     (''INJ'', [(''INJ'', ''INJ'', 0.05)]), (''IMX'', [(''IMX'', ''ETH'', 1.0)]),
     (''MKR'', [(''MKR'', ''ETH'', 0.001)]), (''GRT'', [(''GRT'', ''ETH'', 5)]),
     (''STX'', [(''STX'', ''STX'', 0.2)]), (''FET'', [(''FET'', ''ETH'', 1.0)]), (''AR'', [(''AR'', ''AR'', 0.02)]),
     (''SEI'', [(''SEI'', ''SEI'', 0.5)]), (''JUP'', [(''JUP'', ''SOL'', 0.5)]),
     (''ONDO'', [(''ONDO'', ''ETH'', 5)]), (''STRK'', [(''STRK'', ''STRK'', 1.0)]),
     (''WLD'', [(''WLD'', ''OPTIMISM'', 1.0)]), (''PYTH'', [(''PYTH'', ''SOL'', 1.0)]),
     (''JTO'', [(''JTO'', ''SOL'', 0.2)])]"

definition seed_inventory :: "(string, decimal \<times> decimal) dict" where
  "seed_inventory = [
     (''USDT'', 5000, 2000), (''BTC'', 0.05, 0.02), (''ETH'', 2, 1), (''SOL'', 50, 20), (''BNB'', 2, 1),
     (''XRP'', 600, 300), (''ADA'', 2000, 1000), (''DOGE'', 8000, 4000), (''LINK'', 80, 40), (''AVAX'', 45, 20),
     (''TRX'', 6000, 3000), (''LTC'', 10, 5), (''DOT'', 300, 150), (''BCH'', 5, 2), (''UNI'', 200, 100),
     (''ATOM'', 300, 150), (''ETC'', 80, 40), (''XLM'', 5000, 2000), (''FIL'', 400, 200), (''HBAR'', 8000, 3000),
     (''APT'', 400, 200), (''NEAR'', 500, 200), (''ARB'', 2000, 1000), (''OP'', 600, 300), (''SUI'', 600, 300),
     (''TAO'', 5, 2), (''RNDR'', 200, 100), (''MATIC'', 2000, 1000), (''TON'', 500, 200),
     (''SHIB'', 50000000, 20000000), (''PEPE'', 80000000, 30000000), (''AAVE'', 10, 5), (''ENA'', 2000, 1000),
     (''WIF'', 600, 300), (''FLOKI'', 5000000, 2000000), (''BONK'', 50000000, 20000000), (''TIA'', 300, 150),
     (''INJ'', 80, 40), (''IMX'', 800, 400), (''MKR'', 1, 0.5), (''GRT'', 8000, 4000), (''STX'', 800, 400),
     (''FET'', 600, 300), (''AR'', 80, 40), (''SEI'', 3000, 1500), (''JUP'', 1800, 900), (''ONDO'', 1500, 750),
     (''STRK'', 600, 300), (''WLD'', 600, 300), (''PYTH'', 3000, 1500), (''JTO'', 400, 200)]"

text \<open>The quantum of a balance as its number of decimal places.\<close>

definition balance_places :: "(string, nat) dict" where
  "balance_places = [
     (''USDT'', 2), (''BTC'', 8), (''ETH'', 6), (''SOL'', 3), (''BNB'', 4), (''XRP'', 2), (''ADA'', 1),
     (''DOGE'', 0), (''LINK'', 4), (''AVAX'', 3), (''TRX'', 0), (''LTC'', 3), (''DOT'', 2), (''BCH'', 3),
     (''UNI'', 2), (''ATOM'', 2), (''ETC'', 2), (''XLM'', 1), (''FIL'', 2), (''HBAR'', 1), (''APT'', 2),
     (''NEAR'', 2), (''ARB'', 1), (''OP'', 2), (''SUI'', 2), (''TAO'', 4), (''RNDR'', 2), (''MATIC'', 1),
     (''TON'', 2), (''SHIB'', 0), (''PEPE'', 0), (''AAVE'', 3), (''ENA'', 1), (''WIF'', 2), (''FLOKI'', 0),
     (''BONK'', 0), (''TIA'', 2), (''INJ'', 2), (''IMX'', 2), (''MKR'', 4), (''GRT'', 1), (''STX'', 2), (''FET'', 2),
     (''AR'', 2), (''SEI'', 1), (''JUP'', 2), (''ONDO'', 1), (''STRK'', 2), (''WLD'', 2), (''PYTH'', 1), (''JTO'', 2)]"


definition divergence_bps :: decimal where "divergence_bps = 120"
definition sim_spread_bps :: decimal where "sim_spread_bps = 4"
definition triangle_skew_bps :: decimal where "triangle_skew_bps = 80"

definition simulated_capabilities :: ExchangeCapabilities where
  "simulated_capabilities = no_capabilities
     \<lparr>cap_spot := True, cap_fetch_markets := True, cap_fetch_ticker := True, cap_fetch_order_book := True,
      cap_fetch_trading_fees := True, cap_fetch_balance := True, cap_withdraw := True,
      cap_deposit_address := True, cap_fetch_deposits := True, cap_fetch_withdrawals := True,
      cap_fetch_withdrawal_networks := True, cap_watch_ticker := True, cap_watch_order_book := True\<rparr>"

subsection \<open>Prices\<close>

type_synonym hash = "string \<Rightarrow> nat"

fun py_join :: "string \<Rightarrow> string list \<Rightarrow> string" where
  "py_join sep [] = []"
| "py_join sep [x] = x"
| "py_join sep (x # y # xs) = x @ sep @ py_join sep (y # xs)"

text \<open>\<^verbatim>\<open>_unit_offset\<close>: the hash as a fraction of \<open>2 ^ 64\<close>, spread over \<open>-1 .. 1\<close>, in floats.\<close>

definition unit_offset :: "hash \<Rightarrow> string list \<Rightarrow> decimal" where
  "unit_offset h parts =
     (let value = binary64 (of_nat (h (py_join ''|'' parts))) / 2 ^ 64 in
      quantize 6 (binary64 (value * 2 - 1)))"

definition triangular_skew_bps :: "hash \<Rightarrow> string \<Rightarrow> string \<Rightarrow> string \<Rightarrow> decimal" where
  "triangular_skew_bps h venue b q =
     (let offset = unit_offset h [venue, ''tri'', min b q, max b q];
          magnitude = dmul offset triangle_skew_bps
      in if b \<le> q then magnitude else dneg magnitude)"

definition diverged_mid :: "hash \<Rightarrow> string \<Rightarrow> string \<Rightarrow> decimal \<Rightarrow> decimal" where
  "diverged_mid h venue name seed =
     (let offset_bps = dmul (unit_offset h [venue, name]) divergence_bps in
      quantize 8 (dmul seed (dadd 1 (ddiv offset_bps 10000))))"

definition synthetic_seed :: "hash \<Rightarrow> string \<Rightarrow> decimal" where
  "synthetic_seed h name = quantize 2 (dadd 10 (dmul (dabs (unit_offset h [''seed'', name])) 990))"

text \<open>The mid of a pair quoted in USDT, and of any pair.\<close>

definition usdt_mid :: "hash \<Rightarrow> string \<Rightarrow> string \<Rightarrow> decimal" where
  "usdt_mid h venue asset =
     (let name = asset @ ''/USDT'' in
      diverged_mid h venue name (opt_or (dict_get default_seed_prices name) (synthetic_seed h name)))"

definition mid_price :: "hash \<Rightarrow> string \<Rightarrow> Symbol \<Rightarrow> decimal" where
  "mid_price h venue symb =
     (case dict_get default_seed_prices (symbol_name symb) of
        Some seed \<Rightarrow> diverged_mid h venue (symbol_name symb) seed
      | None \<Rightarrow>
          if quote symb \<noteq> ''USDT''
          then (let skew = ddiv (triangular_skew_bps h venue (base symb) (quote symb)) 10000 in
                quantize 8 (dmul (ddiv (usdt_mid h venue (base symb)) (usdt_mid h venue (quote symb))) (dadd 1 skew)))
          else diverged_mid h venue (symbol_name symb) (synthetic_seed h (symbol_name symb)))"

subsection \<open>Books\<close>

definition sim_level :: "decimal \<Rightarrow> decimal \<Rightarrow> nat \<Rightarrow> OrderBookLevel" where
  "sim_level p base_amount lvl =
     \<lparr>price = quantize 8 p, amount = quantize 8 (dmul base_amount (dadd 1 (ddiv (of_nat lvl) 4)))\<rparr>"

definition half_spread :: "decimal \<Rightarrow> decimal" where
  "half_spread mid = ddiv (dmul mid sim_spread_bps) 20000"

definition sim_bid :: "decimal \<Rightarrow> nat \<Rightarrow> decimal" where
  "sim_bid mid lvl = dsub (dsub mid (half_spread mid)) (dmul (dmul mid 0.0001) (of_nat lvl))"

definition sim_ask :: "decimal \<Rightarrow> nat \<Rightarrow> decimal" where
  "sim_ask mid lvl = dadd (dadd mid (half_spread mid)) (dmul (dmul mid 0.0001) (of_nat lvl))"

definition book_sides :: "decimal \<Rightarrow> nat \<Rightarrow> (exn, OrderBookLevel list \<times> OrderBookLevel list) result" where
  "book_sides mid depth =
     (if mid = 0 then Inl (OtherError ''DivisionByZero'')
      else (let base_amount = quantize 8 (ddiv 5000 mid) in
            Inr (map (\<lambda>lvl. sim_level (sim_bid mid lvl) base_amount lvl) [0..<depth],
                 map (\<lambda>lvl. sim_level (sim_ask mid lvl) base_amount lvl) [0..<depth])))"

text \<open>A depth of zero counts as none.\<close>

definition levels_wanted :: "AdapterOptions \<Rightarrow> int option \<Rightarrow> nat" where
  "levels_wanted opts depth =
     nat (max 1 (if depth = None \<or> depth = Some 0 then opt_order_book_depth opts else the depth))"

definition sim_order_book ::
  "hash \<Rightarrow> string \<Rightarrow> AdapterOptions \<Rightarrow> int \<Rightarrow> Symbol \<Rightarrow> int option \<Rightarrow> (exn, OrderBook) result" where
  "sim_order_book h venue opts now symb depth =
     res_bind (book_sides (mid_price h venue symb) (levels_wanted opts depth)) (\<lambda>(bs, as).
       Inr (mk_order_book venue symb now bs as))"

definition sim_ticker :: "hash \<Rightarrow> string \<Rightarrow> int \<Rightarrow> Symbol \<Rightarrow> (exn, Ticker) result" where
  "sim_ticker h venue now symb =
     res_bind (book_sides (mid_price h venue symb) 1) (\<lambda>(bs, as).
       Inr \<lparr>tick_exchange_id = venue, tick_symbol = symb, tick_timestamp = now,
            tick_bid = Some (price (hd bs)), tick_ask = Some (price (hd as))\<rparr>)"

subsection \<open>Markets\<close>

definition precision_for :: "Symbol \<Rightarrow> MarketPrecision" where
  "precision_for symb =
     (let seed = (case dict_get default_seed_prices (symbol_name symb) of
            Some s \<Rightarrow> Some s
          | None \<Rightarrow>
              if quote symb \<noteq> ''USDT''
              then (case (dict_get default_seed_prices (base symb @ ''/USDT''),
                          dict_get default_seed_prices (quote symb @ ''/USDT'')) of
                      (Some x, Some y) \<Rightarrow> Some (ddiv x y) | _ \<Rightarrow> None)
              else None);
          reference = (case seed of Some s \<Rightarrow> dabs s | None \<Rightarrow> 100);
          (p, a) = (if reference \<ge> 1000 then (2, 5) else if reference \<ge> 10 then (2, 4)
                    else if reference \<ge> 1 then (4, 3) else if reference \<ge> 0.01 then (6, 1) else (8, 0))
      in \<lparr>prec_price = Some p, prec_amount = Some a, prec_price_tick = Some (10 powi (- p)),
          prec_amount_step = Some (10 powi (- a))\<rparr>)"

definition sim_market :: "string \<Rightarrow> string \<Rightarrow> (exn, Market) result" where
  "sim_market venue name =
     res_bind (symbol_parse name) (\<lambda>symb.
       Inr \<lparr>mkt_exchange_id = venue, mkt_symbol = symb, mkt_native_symbol = filter (\<lambda>c. c \<noteq> CHR ''/'') (symbol_name symb),
            mkt_active = True, mkt_fees = \<lparr>maker_bps = 8, taker_bps = 10\<rparr>,
            mkt_limits = \<lparr>lim_min_amount = Some 0.0001, lim_min_cost = Some 5\<rparr>,
            mkt_precision = precision_for symb\<rparr>)"

text \<open>The USDT pairs, then for each asset the pairs of the later assets quoted in it.\<close>

fun cross_names :: "string list \<Rightarrow> string list" where
  "cross_names [] = []"
| "cross_names (q # bs) = map (\<lambda>b. b @ ''/'' @ q) bs @ cross_names bs"

definition usdt_assets :: "string list \<Rightarrow> string list" where
  "usdt_assets symbols =
     map (\<lambda>n. fst (py_partition (CHR ''/'') n)) (filter (\<lambda>n. drop (length n - 5) n = ''/USDT'') symbols)"

definition sim_market_names :: "string list \<Rightarrow> string list" where
  "sim_market_names symbols = symbols @ cross_names (usdt_assets symbols)"

fun results_of :: "('e, 'a) result list \<Rightarrow> ('e, 'a list) result" where
  "results_of [] = Inr []"
| "results_of (r # rs) = res_bind r (\<lambda>x. res_bind (results_of rs) (\<lambda>xs. Inr (x # xs)))"

definition sim_load_markets :: "string \<Rightarrow> (exn, Market list) result" where
  "sim_load_markets venue =
     results_of (map (sim_market venue) (sim_market_names (map fst default_seed_prices)))"

definition sim_trading_fees :: MarketFees where
  "sim_trading_fees = \<lparr>maker_bps = 8, taker_bps = 10\<rparr>"

subsection \<open>Account and transfers\<close>

definition sim_balances :: "hash \<Rightarrow> string \<Rightarrow> BalanceSnapshot" where
  "sim_balances h venue =
     \<lparr>snap_exchange_id = venue,
      balances = map (\<lambda>(asset, b, spread).
        \<lparr>bal_exchange_id = venue, bal_asset = asset,
         bal_free = max 0 (quantize (opt_or (dict_get balance_places asset) 4) (dadd b (dmul (unit_offset h [venue, asset]) spread))),
         bal_used = 0\<rparr>) seed_inventory\<rparr>"

definition sim_network_rows :: "string \<Rightarrow> WithdrawalNetwork list" where
  "sim_network_rows code =
     map (\<lambda>(name, unified, fee).
       \<lparr>network = name, network_code = Some unified, withdraw_enabled = True, deposit_enabled = True,
        withdrawal_fee = fee, withdrawal_min = dmul fee 10, deposit_min = 0\<rparr>) (opt_or (dict_get sim_networks code) [])"

definition sim_withdrawal_networks :: "string \<Rightarrow> WithdrawalNetwork list" where
  "sim_withdrawal_networks asset = sim_network_rows (py_upper (py_strip asset))"

text \<open>Where no network is named, the first of the asset's, or \<open>MAIN\<close>.\<close>

definition default_network :: "string \<Rightarrow> string option \<Rightarrow> string" where
  "default_network code net =
     (if truthy_str net then the net
      else case opt_or (dict_get sim_networks code) [(''MAIN'', code, 0)] of
             (name, _, _) # _ \<Rightarrow> name | [] \<Rightarrow> [])"

definition address_text :: "(string \<Rightarrow> string) \<Rightarrow> string \<Rightarrow> string \<Rightarrow> string \<Rightarrow> string" where
  "address_text digest venue asset net =
     ''sim-'' @ py_lower asset @ ''-'' @ py_lower net @ ''-'' @
     take 20 (digest (venue @ '':'' @ asset @ '':'' @ net @ '':addr''))"

definition simulated_address :: "(string \<Rightarrow> string) \<Rightarrow> string \<Rightarrow> string \<Rightarrow> string option \<Rightarrow> string" where
  "simulated_address digest venue asset net =
     address_text digest venue asset (default_network (py_upper asset) net)"

definition sim_deposit_address :: "(string \<Rightarrow> string) \<Rightarrow> string \<Rightarrow> string \<Rightarrow> string option \<Rightarrow> DepositAddress" where
  "sim_deposit_address digest venue asset net =
     \<lparr>address = py_strip (simulated_address digest venue asset net), memo = None, addr_network = map_option py_strip net\<rparr>"

record SimVenue =
  sv_id :: string
  sv_opened :: bool
  sv_withdrawals :: "TransferTx list"
  sv_deposits :: "TransferTx list"

definition sim_open :: "SimVenue \<Rightarrow> SimVenue" where "sim_open v = v\<lparr>sv_opened := True\<rparr>"
definition sim_close :: "SimVenue \<Rightarrow> SimVenue" where "sim_close v = v\<lparr>sv_opened := False\<rparr>"

text \<open>A withdrawal and its deposit, booked on the same venue. The amount arrives as text.\<close>

definition sim_withdraw :: "SimVenue \<Rightarrow> string \<Rightarrow> string \<Rightarrow> string \<Rightarrow> (exn, TransferTx) result \<times> SimVenue" where
  "sim_withdraw v asset amt addr =
     (case parse_decimal amt of
        None \<Rightarrow> (Inl (OtherError ''InvalidOperation''), v)
      | Some (DFinite d) \<Rightarrow>
          (let tx = \<lparr>tx_direction = Withdrawal, tx_asset = py_upper (py_strip asset), tx_amount = dec_value d,
                     tx_status = ''pending'', tx_txid = Some (''sim-wd-'' @ show_nat (length (sv_withdrawals v))),
                     tx_address = Some (py_strip addr)\<rparr>
           in (Inr tx, v\<lparr>sv_withdrawals := sv_withdrawals v @ [tx],
                         sv_deposits := sv_deposits v @ [tx\<lparr>tx_direction := Deposit, tx_status := ''confirmed''\<rparr>]\<rparr>))
      | Some _ \<Rightarrow> (Inl (ValidationError ''Input should be a finite number''), v))"

definition confirm_withdrawal :: "SimVenue \<Rightarrow> string \<Rightarrow> SimVenue" where
  "confirm_withdrawal v txid =
     v\<lparr>sv_withdrawals := map (\<lambda>tx. if tx_txid tx = Some txid then tx\<lparr>tx_status := ''confirmed''\<rparr> else tx) (sv_withdrawals v)\<rparr>"

text \<open>\<^verbatim>\<open>[:limit]\<close> with a negative limit drops from the end.\<close>

definition py_take :: "int \<Rightarrow> 'a list \<Rightarrow> 'a list" where
  "py_take n xs = (if n \<ge> 0 then take (nat n) xs else take (length xs - nat (- n)) xs)"

definition sim_fetch_deposits :: "SimVenue \<Rightarrow> string \<Rightarrow> int \<Rightarrow> TransferTx list" where
  "sim_fetch_deposits v asset limit = py_take limit (filter (\<lambda>tx. tx_asset tx = py_upper (py_strip asset)) (sv_deposits v))"

definition sim_fetch_withdrawals :: "SimVenue \<Rightarrow> string \<Rightarrow> int \<Rightarrow> TransferTx list" where
  "sim_fetch_withdrawals v asset limit = py_take limit (filter (\<lambda>tx. tx_asset tx = py_upper (py_strip asset)) (sv_withdrawals v))"

definition sim_ping :: "hash \<Rightarrow> string \<Rightarrow> rat" where
  "sim_ping h venue = binary64 (dadd (dmul (dabs (unit_offset h [venue, ''ping''])) 20) 5)"

definition sim_health :: "SimVenue \<Rightarrow> ExchangeHealth" where
  "sim_health v =
     \<lparr>eh_exchange_id = sv_id v, eh_status = (if sv_opened v then ONLINE else EX_UNKNOWN),
      eh_consecutive_failures = 0, eh_last_error = None\<rparr>"

end
