(* ===== verification/Ccxt_Adapter.thy ===== *)
theory Ccxt_Adapter
  imports Ccxt_Values Simulated_Venue Market_Data_Service
begin

text \<open>
  The adapter that speaks to a real venue through a client library
  (\<^verbatim>\<open>app/exchanges/ccxt_adapter.py\<close>): building and opening a client, routing it to the
  demo environment, the calls with the translation of their errors, orders behind the gate,
  transfers, health.

  The library is a parameter: which client classes it has, what its own sandbox switches do to a
  client, and what a call answers (\<open>CcxtLib\<close>). A client is what the adapter reads and writes of
  it; a missing attribute is \<open>None\<close>. Every operation returns the calls that reached the client.
\<close>

subsection \<open>The library\<close>

record Client =
  cl_urls :: "pyv option"
  cl_has :: "pyv option"
  cl_headers :: "pyv option"
  cl_options :: "pyv option"

datatype venue_arg = ArgStr string | ArgFloat rat | ArgInt int | ArgNone | ArgParams fields

type_synonym venue_call = "string \<times> venue_arg list"

record CcxtLib =
  lib_ids :: "string list"
  lib_classes :: "(string \<Rightarrow> (fields \<Rightarrow> (Foreign, Client) result) option) option"
  lib_set_sandbox :: "(Client \<Rightarrow> (Foreign, Client) result) option"
  lib_enable_demo :: "(Client \<Rightarrow> (Foreign, Client) result) option"
  lib_method :: "Client \<Rightarrow> string \<Rightarrow> bool"
  lib_call :: "Client \<Rightarrow> string \<Rightarrow> venue_arg list \<Rightarrow> (Foreign, pyv) result"

definition resolve_ccxt_id :: "CcxtLib \<Rightarrow> VenueProfile \<Rightarrow> (exn, string) result" where
  "resolve_ccxt_id lib p =
     (if lib_ids lib = [] then Inr (ccxt_id p)
      else case filter (\<lambda>c. c \<in> set (lib_ids lib)) (ccxt_candidate_ids p) of
             c # _ \<Rightarrow> Inr c
           | [] \<Rightarrow> Inl (ConfigurationError ''installed ccxt has none of''))"

definition classify_ccxt_exception :: "string list \<Rightarrow> error_class" where
  "classify_ccxt_exception names =
     (if ''AuthenticationError'' \<in> set names \<or> ''PermissionDenied'' \<in> set names then EC_Auth
      else if ''InvalidNonce'' \<in> set names then EC_Auth
      else if ''RateLimitExceeded'' \<in> set names \<or> ''DDoSProtection'' \<in> set names then EC_RateLimit
      else if ''RequestTimeout'' \<in> set names then EC_Timeout
      else if ''BadSymbol'' \<in> set names then EC_Capability
      else if ''NotSupported'' \<in> set names then EC_Capability
      else if ''ExchangeNotAvailable'' \<in> set names \<or> ''OnMaintenance'' \<in> set names then EC_Unavailable
      else if ''NetworkError'' \<in> set names then EC_Unavailable
      else if ''ExchangeError'' \<in> set names then EC_Exchange
      else if ''BaseError'' \<in> set names then EC_Exchange
      else EC_Exchange)"

subsection \<open>The adapter\<close>

record CcxtAdapter =
  ad_id :: string
  ad_credentials :: "ExchangeCredentials option"
  ad_options :: AdapterOptions
  ad_gate :: "OrderGate option"
  ad_allow_withdrawals :: bool
  ad_client :: "Client option"
  ad_capabilities :: ExchangeCapabilities
  ad_markets :: "Market list"
  ad_supports_ws :: bool
  ad_currencies :: "fields option"

definition build_ccxt_adapter ::
  "Exchange \<Rightarrow> ExchangeCredentials option \<Rightarrow> AdapterOptions \<Rightarrow> OrderGate option \<Rightarrow> bool \<Rightarrow> CcxtAdapter" where
  "build_ccxt_adapter x creds opts gate allow =
     \<lparr>ad_id = ex_id x, ad_credentials = creds, ad_options = opts, ad_gate = gate, ad_allow_withdrawals = allow,
      ad_client = None, ad_capabilities = ex_capabilities x, ad_markets = [], ad_supports_ws = False, ad_currencies = None\<rparr>"

definition ad_profile :: "CcxtAdapter \<Rightarrow> (exn, VenueProfile) result" where
  "ad_profile ad = resolve_profile (ad_id ad)"

definition unavailable :: "string \<Rightarrow> adapter_error" where
  "unavailable msg = Venue (venue_error EC_Unavailable msg)"

text \<open>The configuration a client is built with, and its redacted text form.\<close>

definition secret_config_keys :: "string list" where
  "secret_config_keys = [''apiKey'', ''secret'', ''password'', ''uid'']"

definition base_config :: "CcxtAdapter \<Rightarrow> fields" where
  "base_config ad =
     [(''enableRateLimit'', PBool (opt_enable_rate_limit (ad_options ad))),
      (''timeout'', PNum (show_int \<lfloor>opt_timeout_seconds (ad_options ad) * 1000\<rfloor>)),
      (''options'', PDict [(''recvWindow'', PNum ''10000'')])] @
     (case ad_credentials ad of
        None \<Rightarrow> []
      | Some c \<Rightarrow>
          if credentials_empty c then []
          else [(''apiKey'', PStr (cred_api_key c)), (''secret'', PStr (cred_secret c))] @
               (if cred_password c \<noteq> [] then [(''password'', PStr (cred_password c))] else []) @
               (if cred_uid c \<noteq> [] then [(''uid'', PStr (cred_uid c))] else []))"

definition redacted_items :: "fields \<Rightarrow> fields" where
  "redacted_items config =
     map (\<lambda>(k, v). (k, if k \<in> set secret_config_keys then PStr ''<redacted>'' else v)) config"

definition instantiate :: "CcxtLib \<Rightarrow> CcxtAdapter \<Rightarrow> (adapter_error, Client) result" where
  "instantiate lib ad =
     res_bind (lift_exn (ad_profile ad)) (\<lambda>p.
       case lib_classes lib of
         None \<Rightarrow> Inl (unavailable ''ccxt is not installed'')
       | Some classes \<Rightarrow>
           res_bind (lift_exn (resolve_ccxt_id lib p)) (\<lambda>c.
             case classes c of
               None \<Rightarrow> Inl (unavailable ''ccxt has no exchange'')
             | Some factory \<Rightarrow>
                 (case factory (base_config ad @ [(''defaultType'', PStr ''spot'')]) of
                    Inl x \<Rightarrow> Inl (Raw x) | Inr cl \<Rightarrow> Inr cl)))"

subsection \<open>Routing to the demo environment\<close>

text \<open>Every non-public section with a host is pointed at the demo host; a table without hosts is refused.\<close>

definition is_host :: "pyv \<Rightarrow> bool" where
  "is_host v = (case v of PStr t \<Rightarrow> t \<noteq> [] | _ \<Rightarrow> False)"

definition override_private_demo_hosts :: "string \<Rightarrow> Client \<Rightarrow> (adapter_error, Client) result" where
  "override_private_demo_hosts host cl =
     (case cl_urls cl of
        Some (PDict urls) \<Rightarrow>
          (case dict_get urls ''api'' of
             Some (PDict api) \<Rightarrow>
               if \<not> list_ex (\<lambda>(_, v). is_host v) api
               then Inl (unavailable ''cannot route DEMO private calls'')
               else if \<not> list_ex (\<lambda>(k, v). is_host v \<and> k \<noteq> ''public'') api
               then Inl (unavailable ''no private URL sections found'')
               else Inr (cl\<lparr>cl_urls := Some (PDict (dict_set urls ''api''
                      (PDict (map (\<lambda>(k, v). (k, if is_host v \<and> k \<noteq> ''public'' then PStr host else v)) api))))\<rparr>)
           | _ \<Rightarrow> Inl (unavailable ''cannot route DEMO private calls''))
      | _ \<Rightarrow> Inl (unavailable ''cannot route DEMO private calls''))"

definition without_currencies :: "Client \<Rightarrow> Client" where
  "without_currencies cl =
     (case cl_has cl of
        Some (PDict has) \<Rightarrow> cl\<lparr>cl_has := Some (PDict (dict_set has ''fetchCurrencies'' (PBool False)))\<rparr>
      | _ \<Rightarrow> cl)"

definition copy_demo_urls :: "Client \<Rightarrow> (adapter_error, Client) result" where
  "copy_demo_urls cl =
     (case cl_urls cl of
        Some (PDict urls) \<Rightarrow>
          (case dict_get urls ''demo'' of
             Some (PDict demo) \<Rightarrow>
               if demo = [] then Inl (unavailable ''declares demo_has_url_section but no demo urls found'')
               else (let cl1 = cl\<lparr>cl_urls := Some (PDict (dict_set urls ''api'' (PDict demo)))\<rparr> in
                     Inr (case cl_options cl1 of
                            Some (PDict opts) \<Rightarrow> cl1\<lparr>cl_options := Some (PDict (dict_set opts ''enableDemoTrading'' (PBool True)))\<rparr>
                          | _ \<Rightarrow> cl1))
           | _ \<Rightarrow> Inl (unavailable ''declares demo_has_url_section but no demo urls found''))
      | None \<Rightarrow> Inl (unavailable ''declares demo_has_url_section but no demo urls found'')
      | Some _ \<Rightarrow> Inl (Plain (OtherError ''AttributeError'')))"

definition with_headers :: "(string \<times> string) list \<Rightarrow> Client \<Rightarrow> Client" where
  "with_headers hs cl =
     (let old = (case cl_headers cl of Some (PDict d) \<Rightarrow> d | _ \<Rightarrow> []) in
      cl\<lparr>cl_headers := Some (PDict (fold (\<lambda>(k, v) d. dict_set d k (PStr v)) hs old))\<rparr>)"

definition demo_endpoints :: "CcxtLib \<Rightarrow> VenueProfile \<Rightarrow> Client \<Rightarrow> (adapter_error, Client) result" where
  "demo_endpoints lib p cl =
     (if demo_private_only p
      then (if \<not> truthy_str (demo_base_url p)
            then Inl (unavailable ''declares split demo routing without a demo base URL'')
            else res_bind (override_private_demo_hosts (the (demo_base_url p)) cl) (\<lambda>cl1. Inr (without_currencies cl1)))
      else if demo_replaces_sandbox p \<or> demo_has_url_section p
      then (let cl1 = without_currencies cl in
            case lib_enable_demo lib of
              Some enable_demo \<Rightarrow> (case enable_demo cl1 of Inl x \<Rightarrow> Inl (Raw x) | Inr cl2 \<Rightarrow> Inr cl2)
            | None \<Rightarrow> copy_demo_urls cl1)
      else Inr cl)"

definition apply_demo_routing :: "CcxtLib \<Rightarrow> CcxtAdapter \<Rightarrow> VenueProfile \<Rightarrow> Client \<Rightarrow> (adapter_error, Client) result" where
  "apply_demo_routing lib ad p cl =
     (if \<not> opt_sandbox (ad_options ad) then Inr cl
      else res_bind (demo_endpoints lib p cl) (\<lambda>cl1.
        Inr (if demo_headers p \<noteq> [] then with_headers (demo_headers p) (without_currencies cl1) else cl1)))"

definition enable_sandbox :: "CcxtLib \<Rightarrow> Client \<Rightarrow> (adapter_error, Client) result" where
  "enable_sandbox lib cl =
     (case lib_set_sandbox lib of
        None \<Rightarrow> Inl (unavailable ''does not support sandbox/testnet mode'')
      | Some setter \<Rightarrow>
          (case setter cl of
             Inl x \<Rightarrow> Inl (Venue (venue_error EC_Unavailable ''sandbox mode unavailable'' \<lparr>ve_cause := Some (fx_text x)\<rparr>))
           | Inr cl1 \<Rightarrow> Inr cl1))"

definition apply_sandbox_routing :: "CcxtLib \<Rightarrow> CcxtAdapter \<Rightarrow> Client \<Rightarrow> (adapter_error, Client) result" where
  "apply_sandbox_routing lib ad cl =
     res_bind (lift_exn (ad_profile ad)) (\<lambda>p.
       if demo_private_only p \<or> demo_replaces_sandbox p then apply_demo_routing lib ad p cl
       else if demo_headers p \<noteq> [] then apply_demo_routing lib ad p cl
       else res_bind (enable_sandbox lib cl) (apply_demo_routing lib ad p))"

subsection \<open>Opening and closing\<close>

text \<open>What a failed routing did to a client that was handed in from outside is not followed.\<close>

text \<open>\<^verbatim>\<open>getattr(client, 'has', {})\<close>, which must have a \<^verbatim>\<open>get\<close>.\<close>

definition has_table :: "Client \<Rightarrow> (exn, fields) result" where
  "has_table cl = (case cl_has cl of None \<Rightarrow> Inr [] | Some v \<Rightarrow> mapping_of v)"

definition detect_capabilities :: "fields \<Rightarrow> ExchangeCapabilities" where
  "detect_capabilities has =
     (let flag = (\<lambda>n. truthy (fget has n)) in
      \<lparr>cap_spot = True, cap_fetch_markets = True, cap_fetch_ticker = flag ''fetchTicker'',
       cap_fetch_order_book = flag ''fetchOrderBook'',
       cap_fetch_trading_fees = (flag ''fetchTradingFee'' \<or> flag ''fetchTradingFees''),
       cap_fetch_balance = flag ''fetchBalance'', cap_create_order = flag ''createOrder'',
       cap_cancel_order = flag ''cancelOrder'', cap_withdraw = flag ''withdraw'',
       cap_deposit_address = flag ''fetchDepositAddress'', cap_fetch_deposits = flag ''fetchDeposits'',
       cap_fetch_withdrawals = flag ''fetchWithdrawals'',
       cap_fetch_withdrawal_networks = flag ''fetchCurrencies'', cap_watch_ticker = flag ''watchTicker'',
       cap_watch_order_book = flag ''watchOrderBook''\<rparr>)"

definition detected :: "Client \<Rightarrow> (exn, ExchangeCapabilities) result" where
  "detected cl =
     (case cl_has cl of
        None \<Rightarrow> Inr (detect_capabilities [])
      | Some v \<Rightarrow> res_bind (or_mapping v) (\<lambda>has. Inr (detect_capabilities has)))"

definition ccxt_open :: "CcxtLib \<Rightarrow> CcxtAdapter \<Rightarrow> (adapter_error, unit) result \<times> CcxtAdapter" where
  "ccxt_open lib ad =
     (case res_bind (case ad_client ad of Some cl \<Rightarrow> Inr cl | None \<Rightarrow> instantiate lib ad)
             (\<lambda>cl. if opt_sandbox (ad_options ad) then apply_sandbox_routing lib ad cl else Inr cl) of
        Inl e \<Rightarrow> (Inl e, ad)
      | Inr cl \<Rightarrow>
          (let ad1 = ad\<lparr>ad_client := Some cl\<rparr> in
           case detected cl of
             Inl e \<Rightarrow> (Inl (Plain e), ad1)
           | Inr caps \<Rightarrow>
               (let ad2 = ad1\<lparr>ad_capabilities := caps\<rparr> in
                case has_table cl of
                  Inl e \<Rightarrow> (Inl (Plain e), ad2)
                | Inr has \<Rightarrow> (Inr (), ad2\<lparr>ad_supports_ws := truthy (fget has ''watchOrderBook'')\<rparr>))))"

definition ccxt_close :: "CcxtAdapter \<Rightarrow> CcxtAdapter" where
  "ccxt_close ad = ad\<lparr>ad_client := None\<rparr>"

subsection \<open>Calls\<close>

text \<open>
  A foreign exception becomes a venue error. Its text goes to the log, redacted, and is kept as
  the cause; the message names the venue, the method and the class only.
\<close>

definition wrapped :: "string \<Rightarrow> string \<Rightarrow> Foreign \<Rightarrow> VenueError" where
  "wrapped venue method x =
     (let c = classify_ccxt_exception (fx_mro x) in
      \<lparr>ve_class = c, ve_message = venue @ ''.'' @ method @ '' failed ('' @ hd (fx_mro x) @ '')'',
       ve_cause = Some (fx_text x), ve_retry_after = (if c = EC_RateLimit then fx_retry_after x else None)\<rparr>)"

type_synonym 'a venue_run = "(adapter_error, 'a) result \<times> venue_call list"

definition call_on :: "CcxtLib \<Rightarrow> CcxtAdapter \<Rightarrow> Client \<Rightarrow> string \<Rightarrow> venue_arg list \<Rightarrow> pyv venue_run" where
  "call_on lib ad cl method args =
     (if \<not> lib_method lib cl method then (Inl (unsupported (ad_id ad) method), [])
      else case lib_call lib cl method args of
             Inr v \<Rightarrow> (Inr v, [(method, args)])
           | Inl x \<Rightarrow> (Inl (Venue (wrapped (ad_id ad) method x)), [(method, args)]))"

definition require_client :: "CcxtAdapter \<Rightarrow> (adapter_error, Client) result" where
  "require_client ad =
     (case ad_client ad of None \<Rightarrow> Inl (unavailable ''adapter is not opened'') | Some cl \<Rightarrow> Inr cl)"

definition venue_do :: "CcxtLib \<Rightarrow> CcxtAdapter \<Rightarrow> string \<Rightarrow> venue_arg list \<Rightarrow> pyv venue_run" where
  "venue_do lib ad method args =
     (case require_client ad of Inl e \<Rightarrow> (Inl e, []) | Inr cl \<Rightarrow> call_on lib ad cl method args)"

text \<open>What a call answered, read by \<open>f\<close>.\<close>

definition reading :: "pyv venue_run \<Rightarrow> (pyv \<Rightarrow> (exn, 'a) result) \<Rightarrow> 'a venue_run" where
  "reading r f = (case r of (res, calls) \<Rightarrow> (res_bind res (\<lambda>v. lift_exn (f v)), calls))"

definition as_fields :: "(fields \<Rightarrow> (exn, 'a) result) \<Rightarrow> pyv \<Rightarrow> (exn, 'a) result" where
  "as_fields f v = res_bind (mapping_of v) f"

subsection \<open>Market data\<close>

definition market_list :: "string \<Rightarrow> pyv \<Rightarrow> (exn, Market list) result" where
  "market_list venue raw =
     res_bind (or_mapping raw) (\<lambda>d.
     res_bind (traverse (as_fields (to_market venue)) (map snd d)) (\<lambda>ms. Inr (List.map_filter id ms)))"

definition ccxt_load_markets :: "CcxtLib \<Rightarrow> CcxtAdapter \<Rightarrow> Market list venue_run \<times> CcxtAdapter" where
  "ccxt_load_markets lib ad =
     (let r = reading (venue_do lib ad ''load_markets'' []) (market_list (ad_id ad)) in
      (r, case fst r of Inr ms \<Rightarrow> ad\<lparr>ad_markets := ms\<rparr> | Inl _ \<Rightarrow> ad))"

definition ccxt_fetch_ticker :: "CcxtLib \<Rightarrow> CcxtAdapter \<Rightarrow> int \<Rightarrow> Symbol \<Rightarrow> Ticker venue_run" where
  "ccxt_fetch_ticker lib ad now symb =
     reading (venue_do lib ad ''fetch_ticker'' [ArgStr (symbol_name symb)])
       (as_fields (\<lambda>raw. to_ticker (ad_id ad) now raw symb))"

definition ccxt_fetch_order_book ::
  "CcxtLib \<Rightarrow> CcxtAdapter \<Rightarrow> int \<Rightarrow> Symbol \<Rightarrow> int option \<Rightarrow> OrderBook venue_run" where
  "ccxt_fetch_order_book lib ad now symb depth =
     (let limit = (if depth = None \<or> depth = Some 0 then opt_order_book_depth (ad_options ad) else the depth) in
      reading (venue_do lib ad ''fetch_order_book'' [ArgStr (symbol_name symb), ArgInt limit])
        (as_fields (\<lambda>raw. to_order_book (ad_id ad) now raw symb)))"

definition to_fees :: "fields \<Rightarrow> (exn, MarketFees) result" where
  "to_fees raw =
     res_bind (bps_of (fget raw ''maker'')) (\<lambda>m. res_bind (bps_of (fget raw ''taker'')) (\<lambda>t.
       Inr \<lparr>maker_bps = m, taker_bps = t\<rparr>))"

text \<open>Fees of the account, or on a venue error those of the loaded market.\<close>

definition market_fees :: "CcxtAdapter \<Rightarrow> Symbol \<Rightarrow> (adapter_error, MarketFees) result" where
  "market_fees ad symb =
     (case find (\<lambda>m. mkt_symbol m = symb) (ad_markets ad) of
        Some m \<Rightarrow> Inr (mkt_fees m)
      | None \<Rightarrow> Inl (unsupported (ad_id ad) ''fetch_trading_fees''))"

definition ccxt_fetch_trading_fees :: "CcxtLib \<Rightarrow> CcxtAdapter \<Rightarrow> Symbol \<Rightarrow> MarketFees venue_run" where
  "ccxt_fetch_trading_fees lib ad symb =
     (if cap_fetch_trading_fees (ad_capabilities ad)
      then (case reading (venue_do lib ad ''fetch_trading_fee'' [ArgStr (symbol_name symb)]) (as_fields to_fees) of
              (Inl (Venue _), calls) \<Rightarrow> (market_fees ad symb, calls)
            | r \<Rightarrow> r)
      else (market_fees ad symb, []))"

definition ccxt_fetch_balances :: "CcxtLib \<Rightarrow> CcxtAdapter \<Rightarrow> BalanceSnapshot venue_run" where
  "ccxt_fetch_balances lib ad = reading (venue_do lib ad ''fetch_balance'' []) (as_fields (to_balances (ad_id ad)))"

subsection \<open>Orders\<close>

definition ad_can_place_orders :: "CcxtAdapter \<Rightarrow> ExecutionGuard \<Rightarrow> bool" where
  "ad_can_place_orders ad g =
     can_place_orders (ad_gate ad) g \<lparr>options_sandbox = Some (Some (opt_sandbox (ad_options ad)))\<rparr>"

fun tif_text :: "TimeInForce \<Rightarrow> string" where
  "tif_text GTC = ''GTC''" | "tif_text IOC = ''IOC''" | "tif_text FOK = ''FOK''"

fun side_text :: "OrderSide \<Rightarrow> string" where
  "side_text BUY = ''buy''" | "side_text SELL = ''sell''"

fun type_text :: "OrderType \<Rightarrow> string" where
  "type_text MARKET = ''market''" | "type_text LIMIT = ''limit''"

definition order_payload :: "OrderRequest \<Rightarrow> TimeInForce \<Rightarrow> (string \<times> string) list \<Rightarrow> fields" where
  "order_payload req tif metadata =
     (let params = [(''clientOrderId'', PStr (req_client_order_id req))] @
            (if req_order_type req = LIMIT \<and> tif \<noteq> GTC then [(''timeInForce'', PStr (tif_text tif))] else [])
      in fold (\<lambda>(k, v) d. dict_set d k (PStr v)) metadata params)"

text \<open>The time in force and the metadata of a request are arguments beside the request.\<close>

definition ccxt_create_order ::
  "CcxtLib \<Rightarrow> CcxtAdapter \<Rightarrow> ExecutionGuard \<Rightarrow> int \<Rightarrow> OrderRequest \<Rightarrow> TimeInForce \<Rightarrow> (string \<times> string) list \<Rightarrow>
   Order venue_run" where
  "ccxt_create_order lib ad g now req tif metadata =
     (if \<not> ad_can_place_orders ad g
      then (Inl (Plain (ExecutionDisabledError ''order placement refused by the dynamic order gate'')), [])
      else reading (venue_do lib ad ''create_order''
               [ArgStr (symbol_name (req_symbol req)), ArgStr (type_text (req_order_type req)),
                ArgStr (side_text (req_side req)), ArgFloat (binary64 (req_amount req)),
                (case req_price req of None \<Rightarrow> ArgNone | Some p \<Rightarrow> ArgFloat (binary64 p)),
                ArgParams (order_payload req tif metadata)])
             (as_fields (\<lambda>raw. to_order (ad_id ad) now raw (req_symbol req))))"

definition ccxt_cancel_order :: "CcxtLib \<Rightarrow> CcxtAdapter \<Rightarrow> int \<Rightarrow> string \<Rightarrow> Symbol \<Rightarrow> Order venue_run" where
  "ccxt_cancel_order lib ad now oid symb =
     reading (venue_do lib ad ''cancel_order'' [ArgStr oid, ArgStr (symbol_name symb)])
       (as_fields (\<lambda>raw. to_order (ad_id ad) now raw symb))"

text \<open>Bybit wants a flag for orders it has archived: the call is repeated with it once.\<close>

definition wants_acknowledgement :: "CcxtAdapter \<Rightarrow> VenueError \<Rightarrow> bool" where
  "wants_acknowledgement ad e \<longleftrightarrow>
     (let combined = py_lower (ve_message e) @ '' '' @ py_lower (opt_or (ve_cause e) []) in
      ad_id ad = ''bybit'' \<and>
      (py_contains ''acknowledged'' combined \<or> py_contains ''fetchorder'' combined \<or> py_contains ''last 500'' combined))"

definition fetch_order_raw :: "CcxtLib \<Rightarrow> CcxtAdapter \<Rightarrow> string \<Rightarrow> Symbol \<Rightarrow> pyv venue_run" where
  "fetch_order_raw lib ad oid symb =
     (let args = [ArgStr oid, ArgStr (symbol_name symb)] in
      case venue_do lib ad ''fetch_order'' args of
        (Inl (Venue e), calls) \<Rightarrow>
          if wants_acknowledgement ad e
          then (case venue_do lib ad ''fetch_order'' (args @ [ArgParams [(''acknowledged'', PBool True)]]) of
                  (Inr v, calls') \<Rightarrow> (Inr v, calls @ calls')
                | (Inl _, calls') \<Rightarrow> (Inl (Venue (e\<lparr>ve_cause := None\<rparr>)), calls @ calls'))
          else (Inl (Venue e), calls)
      | r \<Rightarrow> r)"

definition ccxt_fetch_order :: "CcxtLib \<Rightarrow> CcxtAdapter \<Rightarrow> int \<Rightarrow> string \<Rightarrow> Symbol \<Rightarrow> Order venue_run" where
  "ccxt_fetch_order lib ad now oid symb =
     reading (fetch_order_raw lib ad oid symb) (as_fields (\<lambda>raw. to_order (ad_id ad) now raw symb))"

text \<open>An item whose symbol does not parse falls back to the symbol asked for; without one it is skipped.\<close>

definition open_order :: "string \<Rightarrow> int \<Rightarrow> Symbol option \<Rightarrow> fields \<Rightarrow> (exn, Order option) result" where
  "open_order venue now symb item =
     (let named = fget item ''symbol'';
          parsed = (if truthy named
                    then (case symbol_parse (py_str named) of Inr y \<Rightarrow> Some y | Inl _ \<Rightarrow> symb)
                    else symb)
      in case parsed of
           None \<Rightarrow> Inr None
         | Some y \<Rightarrow> res_bind (to_order venue now item y) (\<lambda>x. Inr (Some x)))"

definition ccxt_fetch_open_orders :: "CcxtLib \<Rightarrow> CcxtAdapter \<Rightarrow> int \<Rightarrow> Symbol option \<Rightarrow> Order list venue_run" where
  "ccxt_fetch_open_orders lib ad now symb =
     reading (venue_do lib ad ''fetch_open_orders'' [case symb of None \<Rightarrow> ArgNone | Some y \<Rightarrow> ArgStr (symbol_name y)])
       (\<lambda>raw. res_bind (or_list raw) (\<lambda>items.
          res_bind (traverse (as_fields (open_order (ad_id ad) now symb)) items) (\<lambda>os. Inr (List.map_filter id os))))"

subsection \<open>Transfers\<close>

definition load_currencies :: "CcxtLib \<Rightarrow> CcxtAdapter \<Rightarrow> fields venue_run \<times> CcxtAdapter" where
  "load_currencies lib ad =
     (case ad_currencies ad of
        Some c \<Rightarrow> ((Inr c, []), ad)
      | None \<Rightarrow>
          (let r = reading (venue_do lib ad ''fetch_currencies'' []) or_mapping in
           (r, case fst r of Inr c \<Rightarrow> ad\<lparr>ad_currencies := Some c\<rparr> | Inl _ \<Rightarrow> ad)))"

text \<open>In the sandbox the networks are those of the simulated venue, or the asset itself.\<close>

definition sandbox_networks :: "string \<Rightarrow> (exn, WithdrawalNetwork list) result" where
  "sandbox_networks code =
     (if sim_network_rows code \<noteq> [] then Inr (sim_network_rows code)
      else res_bind (mk_network code (Some code) True True 0 0 0) (\<lambda>n. Inr [n]))"

definition venue_networks :: "CcxtLib \<Rightarrow> CcxtAdapter \<Rightarrow> string \<Rightarrow> WithdrawalNetwork list venue_run \<times> CcxtAdapter" where
  "venue_networks lib ad code =
     (case load_currencies lib ad of
        ((Inl e, calls), ad1) \<Rightarrow> ((Inl e, calls), ad1)
      | ((Inr currencies, calls), ad1) \<Rightarrow>
          ((case dict_get currencies code of
              None \<Rightarrow> Inl (Venue (venue_error EC_Capability ''has no currency data''))
            | Some PNone \<Rightarrow> Inl (Venue (venue_error EC_Capability ''has no currency data''))
            | Some v \<Rightarrow> lift_exn (as_fields (to_networks code) v), calls), ad1))"

definition ccxt_fetch_networks :: "CcxtLib \<Rightarrow> CcxtAdapter \<Rightarrow> string \<Rightarrow> WithdrawalNetwork list venue_run \<times> CcxtAdapter" where
  "ccxt_fetch_networks lib ad asset =
     (let code = py_upper (py_strip asset) in
      if opt_sandbox (ad_options ad)
      then (case sandbox_networks code of
              Inr ns \<Rightarrow> ((Inr ns, []), ad)
            | Inl _ \<Rightarrow> venue_networks lib ad code)
      else venue_networks lib ad code)"

definition network_params :: "string option \<Rightarrow> fields" where
  "network_params net = (if truthy_str net then [(''network'', PStr (the net))] else [])"

definition to_deposit_address :: "string option \<Rightarrow> pyv \<Rightarrow> (adapter_error, DepositAddress) result" where
  "to_deposit_address net raw =
     (case raw of
        PDict d \<Rightarrow>
          if \<not> truthy (fget d ''address'') then Inl (Venue (venue_error EC_Exchange ''returned no deposit address''))
          else Inr \<lparr>address = py_strip (py_str (fget d ''address'')),
                    memo = (if truthy (fget d ''tag'') then Some (py_strip (py_str (fget d ''tag''))) else None),
                    addr_network = map_option py_strip net\<rparr>
      | _ \<Rightarrow> Inl (Venue (venue_error EC_Exchange ''returned no deposit address'')))"

definition sandbox_address ::
  "(string \<Rightarrow> string) \<Rightarrow> string list \<Rightarrow> string \<Rightarrow> string \<Rightarrow> string option \<Rightarrow> DepositAddress" where
  "sandbox_address digest memo_assets venue asset net =
     (let code = py_upper (py_strip asset); n = (if truthy_str net then the net else code) in
      \<lparr>address = py_strip (address_text digest venue code n),
       memo = (if code \<in> set memo_assets then Some ''123456'' else None), addr_network = map_option py_strip net\<rparr>)"

definition ccxt_fetch_deposit_address ::
  "CcxtLib \<Rightarrow> CcxtAdapter \<Rightarrow> (string \<Rightarrow> string) \<Rightarrow> string list \<Rightarrow> string \<Rightarrow> string option \<Rightarrow> DepositAddress venue_run" where
  "ccxt_fetch_deposit_address lib ad digest memo_assets asset net =
     (if opt_sandbox (ad_options ad) then (Inr (sandbox_address digest memo_assets (ad_id ad) asset net), [])
      else case venue_do lib ad ''fetch_deposit_address''
                  [ArgStr (py_upper (py_strip asset)), ArgParams (network_params net)] of
             (Inl e, calls) \<Rightarrow> (Inl e, calls)
           | (Inr raw, calls) \<Rightarrow> (to_deposit_address net raw, calls))"

definition tx_list :: "int \<Rightarrow> tx_direction \<Rightarrow> pyv \<Rightarrow> (exn, TransferTx list) result" where
  "tx_list now dir raw = res_bind (or_list raw) (\<lambda>items. traverse (\<lambda>x. to_tx now x dir) items)"

definition ccxt_fetch_deposits :: "CcxtLib \<Rightarrow> CcxtAdapter \<Rightarrow> int \<Rightarrow> string \<Rightarrow> int \<Rightarrow> TransferTx list venue_run" where
  "ccxt_fetch_deposits lib ad now asset limit =
     reading (venue_do lib ad ''fetch_deposits'' [ArgStr (py_upper (py_strip asset)), ArgNone, ArgInt limit]) (tx_list now Deposit)"

definition ccxt_fetch_withdrawals :: "CcxtLib \<Rightarrow> CcxtAdapter \<Rightarrow> int \<Rightarrow> string \<Rightarrow> int \<Rightarrow> TransferTx list venue_run" where
  "ccxt_fetch_withdrawals lib ad now asset limit =
     reading (venue_do lib ad ''fetch_withdrawals'' [ArgStr (py_upper (py_strip asset)), ArgNone, ArgInt limit]) (tx_list now Withdrawal)"

text \<open>A withdrawal needs the opt-in the adapter was built with and the gate of the moment.\<close>

definition ccxt_withdraw ::
  "CcxtLib \<Rightarrow> CcxtAdapter \<Rightarrow> ExecutionGuard \<Rightarrow> int \<Rightarrow> string \<Rightarrow> string \<Rightarrow> string \<Rightarrow> string option \<Rightarrow> string option \<Rightarrow>
   TransferTx venue_run" where
  "ccxt_withdraw lib ad g now asset amt addr tag net =
     (if \<not> ad_allow_withdrawals ad
      then (Inl (Plain (ExecutionDisabledError ''withdrawals are disabled'')), [])
      else if \<not> ad_can_place_orders ad g
      then (Inl (Plain (ExecutionDisabledError ''withdrawal refused by the dynamic order gate'')), [])
      else reading (venue_do lib ad ''withdraw''
               [ArgStr (py_upper (py_strip asset)), ArgStr amt, ArgStr addr,
                (case tag of None \<Rightarrow> ArgNone | Some m \<Rightarrow> ArgStr m), ArgParams (network_params net)])
             (\<lambda>raw. to_tx now raw Withdrawal))"

subsection \<open>Streams and health\<close>

text \<open>
  One turn of a stream: the library's own stream where there is one, whose exceptions reach the
  supervisor as they are, or else a poll.
\<close>

definition raw_call :: "CcxtLib \<Rightarrow> Client \<Rightarrow> string \<Rightarrow> venue_arg list \<Rightarrow> pyv venue_run" where
  "raw_call lib cl method args =
     ((case lib_call lib cl method args of Inl x \<Rightarrow> Inl (Raw x) | Inr v \<Rightarrow> Inr v), [(method, args)])"

definition watch_ticker_turn :: "CcxtLib \<Rightarrow> CcxtAdapter \<Rightarrow> int \<Rightarrow> Symbol \<Rightarrow> Ticker venue_run" where
  "watch_ticker_turn lib ad now symb =
     (case require_client ad of
        Inl e \<Rightarrow> (Inl e, [])
      | Inr cl \<Rightarrow>
          if cap_watch_ticker (ad_capabilities ad) \<and> lib_method lib cl ''watch_ticker''
          then reading (raw_call lib cl ''watch_ticker'' [ArgStr (symbol_name symb)])
                 (as_fields (\<lambda>raw. to_ticker (ad_id ad) now raw symb))
          else ccxt_fetch_ticker lib ad now symb)"

definition ws_depth :: "CcxtAdapter \<Rightarrow> int" where
  "ws_depth ad = (if ad_id ad = ''bybit'' then 50 else opt_order_book_depth (ad_options ad))"

definition watch_order_book_turn :: "CcxtLib \<Rightarrow> CcxtAdapter \<Rightarrow> int \<Rightarrow> Symbol \<Rightarrow> OrderBook venue_run" where
  "watch_order_book_turn lib ad now symb =
     (case require_client ad of
        Inl e \<Rightarrow> (Inl e, [])
      | Inr cl \<Rightarrow>
          if cap_watch_order_book (ad_capabilities ad) \<and> lib_method lib cl ''watch_order_book''
          then reading (raw_call lib cl ''watch_order_book'' [ArgStr (symbol_name symb), ArgInt (ws_depth ad)])
                 (as_fields (\<lambda>raw. to_order_book (ad_id ad) now raw symb))
          else ccxt_fetch_order_book lib ad now symb None)"

text \<open>The latency between two readings of the loop's clock, in seconds.\<close>

definition ccxt_ping :: "CcxtLib \<Rightarrow> CcxtAdapter \<Rightarrow> rat \<Rightarrow> rat \<Rightarrow> rat venue_run" where
  "ccxt_ping lib ad started ended =
     (case require_client ad of
        Inl e \<Rightarrow> (Inl e, [])
      | Inr cl \<Rightarrow>
          (let method = (if lib_method lib cl ''fetch_time'' then ''fetch_time'' else ''fetch_status'') in
           case call_on lib ad cl method [] of (r, calls) \<Rightarrow> (res_bind r (\<lambda>_. Inr ((ended - started) * 1000)), calls)))"

fun error_text :: "adapter_error \<Rightarrow> string" where
  "error_text (Venue e) = class_name (ve_class e) @ '': '' @ ve_message e"
| "error_text (Plain e) = exn_message e"
| "error_text (Raw x) = hd (fx_mro x) @ '': '' @ fx_text x"

definition ccxt_health :: "CcxtLib \<Rightarrow> CcxtAdapter \<Rightarrow> (string \<Rightarrow> string) \<Rightarrow> rat \<Rightarrow> rat \<Rightarrow> ExchangeHealth" where
  "ccxt_health lib ad redact started ended =
     (case fst (ccxt_ping lib ad started ended) of
        Inl e \<Rightarrow> \<lparr>eh_exchange_id = ad_id ad, eh_status = OFFLINE, eh_consecutive_failures = 1,
                   eh_last_error = Some (take 300 (redact (error_text e)))\<rparr>
      | Inr _ \<Rightarrow> \<lparr>eh_exchange_id = ad_id ad, eh_status = ONLINE, eh_consecutive_failures = 0, eh_last_error = None\<rparr>)"

end
