(* ===== verification/Ccxt_Safety.thy ===== *)
theory Ccxt_Safety
  imports Ccxt_Adapter
begin

text \<open>
  What the adapter for real venues guarantees: demo keys stay off production hosts, orders and
  withdrawals go only where the mode says, and no secret or foreign text gets into a message.
\<close>

subsection \<open>Demo routing\<close>

definition api_section :: "Client \<Rightarrow> fields option" where
  "api_section cl =
     (case cl_urls cl of
        Some (PDict urls) \<Rightarrow> (case dict_get urls ''api'' of Some (PDict api) \<Rightarrow> Some api | _ \<Rightarrow> None)
      | _ \<Rightarrow> None)"

definition demo_section :: "Client \<Rightarrow> fields option" where
  "demo_section cl =
     (case cl_urls cl of
        Some (PDict urls) \<Rightarrow> (case dict_get urls ''demo'' of Some (PDict demo) \<Rightarrow> Some demo | _ \<Rightarrow> None)
      | _ \<Rightarrow> None)"

definition header_of :: "Client \<Rightarrow> string \<Rightarrow> pyv option" where
  "header_of cl k = (case cl_headers cl of Some (PDict d) \<Rightarrow> dict_get d k | _ \<Rightarrow> None)"

text \<open>
  A client routed to the demo environment of its venue: every host outside the public section is
  the demo host; or the library's own demo switch was thrown, or its demo hosts are the ones in
  use; and the demo headers are set.
\<close>

definition demo_routed :: "CcxtLib \<Rightarrow> VenueProfile \<Rightarrow> Client \<Rightarrow> bool" where
  "demo_routed lib p cl \<longleftrightarrow>
     (demo_private_only p \<longrightarrow>
        (\<exists>api host. api_section cl = Some api \<and> demo_base_url p = Some host \<and>
          (\<forall>(k, v) \<in> set api. is_host v \<and> k \<noteq> ''public'' \<longrightarrow> v = PStr host) \<and>
          (\<exists>k. k \<noteq> ''public'' \<and> (k, PStr host) \<in> set api))) \<and>
     (demo_replaces_sandbox p \<longrightarrow>
        (case lib_enable_demo lib of
           Some enable_demo \<Rightarrow> \<exists>cl0. enable_demo cl0 = Inr cl
         | None \<Rightarrow> \<exists>demo. demo \<noteq> [] \<and> demo_section cl = Some demo \<and> api_section cl = Some demo)) \<and>
     (\<forall>(k, v) \<in> set (demo_headers p). header_of cl k = Some (PStr v))"

lemma profile_cases:
  assumes "resolve_profile v = Inr p"
  shows "p \<in> set venue_profiles"
proof -
  have "dict_get profiles_by_key (py_lower (py_strip v)) = Some p"
    using assms by (auto simp: resolve_profile_def split: option.splits)
  then have "(py_lower (py_strip v), p) \<in> set profiles_by_key" by (rule dict_get_Some_in)
  moreover have "snd ` set profiles_by_key \<subseteq> set venue_profiles"
    by (auto simp: profiles_by_key_def venue_profiles_def plain_profile_def)
  ultimately show ?thesis by force
qed

lemma without_currencies_frame [simp]:
  "cl_urls (without_currencies cl) = cl_urls cl" "cl_headers (without_currencies cl) = cl_headers cl"
  "cl_options (without_currencies cl) = cl_options cl"
  by (auto simp: without_currencies_def split: option.splits pyv.splits)

lemma override_routes:
  assumes "override_private_demo_hosts host cl = Inr cl'" "host \<noteq> []"
  shows "\<exists>api. api_section cl' = Some api \<and> (\<forall>(k, v) \<in> set api. is_host v \<and> k \<noteq> ''public'' \<longrightarrow> v = PStr host) \<and>
    (\<exists>k. k \<noteq> ''public'' \<and> (k, PStr host) \<in> set api)"
proof -
  obtain urls api where u: "cl_urls cl = Some (PDict urls)" "dict_get urls ''api'' = Some (PDict api)"
    and some: "list_ex (\<lambda>(k, v). is_host v \<and> k \<noteq> ''public'') api"
    and cl': "cl' = cl\<lparr>cl_urls := Some (PDict (dict_set urls ''api''
        (PDict (map (\<lambda>(k, v). (k, if is_host v \<and> k \<noteq> ''public'' then PStr host else v)) api))))\<rparr>"
    using assms(1) by (auto simp: override_private_demo_hosts_def split: option.splits pyv.splits if_splits)
  let ?api = "map (\<lambda>(k, v). (k, if is_host v \<and> k \<noteq> ''public'' then PStr host else v)) api"
  have sec: "api_section cl' = Some ?api" by (simp add: api_section_def cl')
  have all: "\<forall>(k, v) \<in> set ?api. is_host v \<and> k \<noteq> ''public'' \<longrightarrow> v = PStr host" by auto
  obtain k v where kv: "(k, v) \<in> set api" "is_host v" "k \<noteq> ''public''"
    using some by (auto simp: list_ex_iff)
  from kv(1) have "(\<lambda>(k, v). (k, if is_host v \<and> k \<noteq> ''public'' then PStr host else v)) (k, v) \<in> set ?api"
    unfolding set_map by (rule imageI)
  then have "(k, PStr host) \<in> set ?api" using kv(2,3) by simp
  with sec all kv(3) show ?thesis by (intro exI [of _ ?api] conjI exI [of _ k])
qed

lemma copied_demo_urls:
  assumes "copy_demo_urls cl = Inr cl'"
  shows "\<exists>demo. demo \<noteq> [] \<and> demo_section cl' = Some demo \<and> api_section cl' = Some demo"
  using assms
  by (auto simp: copy_demo_urls_def Let_def demo_section_def api_section_def split: option.splits pyv.splits if_splits)

lemma with_one_header: "header_of (with_headers [(k, v)] cl) k = Some (PStr v)"
  by (simp add: header_of_def with_headers_def Let_def)

lemma sandbox_routing_routes:
  assumes "apply_sandbox_routing lib ad cl = Inr cl'" "opt_sandbox (ad_options ad)"
  shows "\<exists>p. resolve_profile (ad_id ad) = Inr p \<and> demo_routed lib p cl'"
proof -
  obtain p where p: "resolve_profile (ad_id ad) = Inr p"
    using assms(1) by (cases "resolve_profile (ad_id ad)") (auto simp: apply_sandbox_routing_def ad_profile_def)
  then consider "p = venue_profiles ! 0" | "p = venue_profiles ! 1" | "p = venue_profiles ! 2"
    using profile_cases [of "ad_id ad" p] by (auto simp: venue_profiles_def)
  then have "demo_routed lib p cl'"
  proof cases
    case 1
    then have "demo_endpoints lib p cl = Inr cl'"
      using assms p by (auto simp: apply_sandbox_routing_def ad_profile_def apply_demo_routing_def venue_profiles_def
          plain_profile_def res_bind_Inr_iff)
    then show ?thesis using 1
      by (auto simp: demo_endpoints_def demo_routed_def venue_profiles_def plain_profile_def Let_def
          dest: copied_demo_urls split: option.splits sum.splits)
  next
    case 2
    then show ?thesis using assms p
      by (auto simp: apply_sandbox_routing_def ad_profile_def apply_demo_routing_def venue_profiles_def
          plain_profile_def res_bind_Inr_iff demo_endpoints_def demo_routed_def with_one_header)
  next
    case 3
    then show ?thesis using assms p
      by (auto simp: apply_sandbox_routing_def ad_profile_def apply_demo_routing_def venue_profiles_def
          plain_profile_def res_bind_Inr_iff demo_endpoints_def demo_routed_def api_section_def dest!: override_routes)
  qed
  with p show ?thesis by blast
qed

subsection \<open>The life of an adapter\<close>

text \<open>What changes an adapter; its other operations leave it as it is.\<close>

datatype adapter_event = Opened_Again | Closed_Again | Loaded_Markets | Asked_Networks string

fun adapter_step :: "CcxtLib \<Rightarrow> adapter_event \<Rightarrow> CcxtAdapter \<Rightarrow> CcxtAdapter" where
  "adapter_step lib Opened_Again ad = snd (ccxt_open lib ad)"
| "adapter_step lib Closed_Again ad = ccxt_close ad"
| "adapter_step lib Loaded_Markets ad = snd (ccxt_load_markets lib ad)"
| "adapter_step lib (Asked_Networks a) ad = snd (ccxt_fetch_networks lib ad a)"

definition adapter_routed :: "CcxtLib \<Rightarrow> CcxtAdapter \<Rightarrow> bool" where
  "adapter_routed lib ad \<longleftrightarrow>
     (\<forall>cl. ad_client ad = Some cl \<longrightarrow> (\<exists>p. resolve_profile (ad_id ad) = Inr p \<and> demo_routed lib p cl))"

lemma networks_frame:
  "ad_client (snd (ccxt_fetch_networks lib ad a)) = ad_client ad" "ad_id (snd (ccxt_fetch_networks lib ad a)) = ad_id ad"
  "ad_options (snd (ccxt_fetch_networks lib ad a)) = ad_options ad" "ad_gate (snd (ccxt_fetch_networks lib ad a)) = ad_gate ad"
  "ad_allow_withdrawals (snd (ccxt_fetch_networks lib ad a)) = ad_allow_withdrawals ad"
  by (auto simp: ccxt_fetch_networks_def venue_networks_def load_currencies_def Let_def split: sum.splits option.splits prod.splits)

lemma open_frame:
  "ad_id (snd (ccxt_open lib ad)) = ad_id ad" "ad_options (snd (ccxt_open lib ad)) = ad_options ad"
  "ad_gate (snd (ccxt_open lib ad)) = ad_gate ad" "ad_allow_withdrawals (snd (ccxt_open lib ad)) = ad_allow_withdrawals ad"
  by (auto simp: ccxt_open_def Let_def split: sum.splits)

lemma step_frame:
  "ad_id (adapter_step lib ev ad) = ad_id ad" "ad_options (adapter_step lib ev ad) = ad_options ad"
  "ad_gate (adapter_step lib ev ad) = ad_gate ad" "ad_allow_withdrawals (adapter_step lib ev ad) = ad_allow_withdrawals ad"
  by (cases ev; simp add: open_frame networks_frame ccxt_close_def ccxt_load_markets_def Let_def split: sum.splits)+

lemma life_frame:
  "ad_id (fold (adapter_step lib) evs ad) = ad_id ad" "ad_options (fold (adapter_step lib) evs ad) = ad_options ad"
  "ad_gate (fold (adapter_step lib) evs ad) = ad_gate ad"
  "ad_allow_withdrawals (fold (adapter_step lib) evs ad) = ad_allow_withdrawals ad"
  by (induction evs arbitrary: ad) (simp_all add: step_frame)

lemma open_routes:
  assumes "adapter_routed lib ad" "opt_sandbox (ad_options ad)"
  shows "adapter_routed lib (snd (ccxt_open lib ad))"
proof -
  have "ad_client (snd (ccxt_open lib ad)) = ad_client ad \<or>
      (\<exists>cl cl'. apply_sandbox_routing lib ad cl = Inr cl' \<and> ad_client (snd (ccxt_open lib ad)) = Some cl')"
    using assms(2) by (auto simp: ccxt_open_def Let_def res_bind_Inr_iff split: sum.splits)
  then show ?thesis
    using assms sandbox_routing_routes [of lib ad] by (auto simp: adapter_routed_def open_frame)
qed

lemma life_routed:
  assumes "adapter_routed lib ad" "opt_sandbox (ad_options ad)"
  shows "adapter_routed lib (fold (adapter_step lib) evs ad)"
  using assms
proof (induction evs arbitrary: ad)
  case (Cons ev evs)
  have "adapter_routed lib (adapter_step lib ev ad)"
    using Cons.prems open_routes [of lib ad]
    by (cases ev) (auto simp: adapter_routed_def ccxt_close_def ccxt_load_markets_def networks_frame Let_def split: sum.splits)
  then show ?case using Cons.IH Cons.prems(2) by (simp add: step_frame)
qed simp


subsection \<open>Where orders go\<close>

text \<open>\<^verbatim>\<open>ExchangeManager._build_adapter\<close> for a real venue: the adapter the manager describes by how it was built.\<close>

definition adapter_from ::
  "BuiltAdapter \<Rightarrow> Exchange \<Rightarrow> ExchangeCredentials option \<Rightarrow> rat \<Rightarrow> int \<Rightarrow> OrderGate option \<Rightarrow> CcxtAdapter" where
  "adapter_from b x creds timeout depth gate =
     build_ccxt_adapter x creds
       \<lparr>opt_timeout_seconds = timeout, opt_order_book_depth = depth, opt_sandbox = adapter_sandbox b,
        opt_enable_rate_limit = True\<rparr> gate (adapter_allow_withdrawals b)"

lemma call_needs_client: "snd (venue_do lib ad m args) \<noteq> [] \<Longrightarrow> ad_client ad \<noteq> None"
  by (auto simp: venue_do_def require_client_def split: option.splits)

lemma reading_calls [simp]: "snd (reading r f) = snd r"
  by (simp add: reading_def split: prod.splits)

lemma create_order_calls:
  assumes "snd (ccxt_create_order lib ad g now req tif md) \<noteq> []"
  shows "ad_can_place_orders ad g" "ad_client ad \<noteq> None"
  using assms call_needs_client by (auto simp: ccxt_create_order_def split: if_splits)

lemma withdraw_calls:
  assumes "snd (ccxt_withdraw lib ad g now asset amt addr tag net) \<noteq> []"
  shows "ad_allow_withdrawals ad" "ad_can_place_orders ad g"
  using assms by (auto simp: ccxt_withdraw_def split: if_splits)

text \<open>(orders_go_where_the_mode_says).
  Take any adapter the manager hands out, whatever happened to the manager and the adapter before,
  with the gate of the mode. An order reaches the client only in LIVE with the guard armed and not
  halted, or in DEMO through a client routed to the demo environment; a withdrawal only in LIVE,
  armed, with withdrawals allowed in the settings. In PAPER neither happens.\<close>

theorem orders_go_where_the_mode_says:
  assumes "new_manager s keys t = Inr mg" "mgr_adapter (fold apply_event es mg) v = (Inr b, mg')"
    "ad = fold (adapter_step lib) evs (adapter_from b x creds timeout depth (Some (gate_for_mode (ms_mode s))))"
  shows "(snd (ccxt_create_order lib ad g now req tif md) \<noteq> [] \<longrightarrow>
      ms_mode s = LIVE \<and> ensure_auto_trading g = Inr () \<or>
      ms_mode s = DEMO \<and> (\<exists>cl p. ad_client ad = Some cl \<and> resolve_profile (ex_id x) = Inr p \<and> demo_routed lib p cl)) \<and>
    (snd (ccxt_withdraw lib ad g now asset amt addr tag net) \<noteq> [] \<longrightarrow>
      ms_mode s = LIVE \<and> allow_live_withdrawals s \<and> ensure_auto_trading g = Inr ())"
proof -
  let ?ad = "adapter_from b x creds timeout depth (Some (gate_for_mode (ms_mode s)))"
  have safe: "adapter_safe s b" using handed_out_adapters_are_safe [OF assms(1,2)] by simp
  have ad: "ad_gate ad = Some (gate_for_mode (ms_mode s))" "opt_sandbox (ad_options ad) = adapter_sandbox b"
    "ad_allow_withdrawals ad = adapter_allow_withdrawals b" "ad_id ad = ex_id x"
    by (simp_all add: assms(3) life_frame adapter_from_def build_ccxt_adapter_def)
  have place: "ad_can_place_orders ad g \<longleftrightarrow>
      ms_mode s = LIVE \<and> ensure_auto_trading g = Inr () \<or> ms_mode s = DEMO \<and> adapter_sandbox b"
    by (cases "ms_mode s") (auto simp: ad_can_place_orders_def ad placement_by_mode)
  have "adapter_routed lib ad" if "adapter_sandbox b"
    unfolding assms(3) by (rule life_routed) (simp_all add: that adapter_from_def build_ccxt_adapter_def adapter_routed_def)
  then have routed: "\<exists>cl p. ad_client ad = Some cl \<and> resolve_profile (ex_id x) = Inr p \<and> demo_routed lib p cl"
    if "adapter_sandbox b" "ad_client ad \<noteq> None"
    using that by (auto simp: adapter_routed_def ad)
  show ?thesis
    using create_order_calls [of lib ad g now req tif md] withdraw_calls [of lib ad g now asset amt addr tag net] place routed safe
    by (auto simp: adapter_safe_def ad)
qed

text \<open>(sandbox_transfers_stay_local).
  In the sandbox the networks of an asset and its deposit address are made up without asking the
  venue: there is at least one network, all of them open both ways, and an address for an asset
  that needs a memo comes with one.\<close>

theorem sandbox_transfers_stay_local:
  assumes "opt_sandbox (ad_options ad)" "py_strip asset \<noteq> []"
  shows "(\<exists>ns. ccxt_fetch_networks lib ad asset = ((Inr ns, []), ad) \<and> ns \<noteq> [] \<and>
      (\<forall>n \<in> set ns. withdraw_enabled n \<and> deposit_enabled n)) \<and>
    (\<exists>a. ccxt_fetch_deposit_address lib ad digest memo_assets asset net = (Inr a, []) \<and>
      (py_upper (py_strip asset) \<in> set memo_assets \<longrightarrow> memo a \<noteq> None))"
proof -
  have open_rows: "\<forall>n \<in> set (sim_network_rows c). withdraw_enabled n \<and> deposit_enabled n" for c
    by (auto simp: sim_network_rows_def)
  have "py_upper (py_strip asset) \<noteq> []" using assms(2) by simp
  then have "\<exists>ns. sandbox_networks (py_upper (py_strip asset)) = Inr ns \<and> ns \<noteq> [] \<and>
      (\<forall>n \<in> set ns. withdraw_enabled n \<and> deposit_enabled n)"
    using open_rows [of "py_upper (py_strip asset)"]
    by (cases "sim_network_rows (py_upper (py_strip asset)) = []") (simp_all add: sandbox_networks_def mk_network_def)
  then show ?thesis
    using assms(1) by (auto simp: ccxt_fetch_networks_def ccxt_fetch_deposit_address_def sandbox_address_def Let_def)
qed

subsection \<open>Text\<close>

text \<open>Two sets of credentials that give the same fields.\<close>

definition same_fields :: "ExchangeCredentials \<Rightarrow> ExchangeCredentials \<Rightarrow> bool" where
  "same_fields c d \<longleftrightarrow> credentials_empty c = credentials_empty d \<and>
     (cred_password c = []) = (cred_password d = []) \<and> (cred_uid c = []) = (cred_uid d = [])"

lemma venue_do_errors:
  "fst (venue_do lib ad m args) = Inl e \<Longrightarrow> \<exists>v. e = Venue v"
  by (auto simp: venue_do_def require_client_def call_on_def unavailable_def unsupported_def
      split: option.splits sum.splits if_splits)


end
