(* ===== verification/Ccxt_Scenarios.thy ===== *)
theory Ccxt_Scenarios
  imports Ccxt_Safety
begin

text \<open>
  Concrete answers and a concrete client library: a book and orders as venues report them, and
  an adapter for each kind of demo routing.
\<close>

subsection \<open>Answers\<close>

definition small_answer :: fields where
  "small_answer =
     [(''bids'', PList [PList [PNum ''99'', PNum ''1''], PList [PNum ''100'', PNum ''2''], PList [PNum ''98'', PNum ''0'']]),
      (''asks'', PList [PList [PNum ''101'', PNum ''1'']])]"

definition btc_usdt :: Symbol where
  "btc_usdt = \<lparr>base = ''BTC'', quote = ''USDT'', settle = None\<rparr>"

definition whole :: "nat \<Rightarrow> decimal_text" where
  "whole n = DFinite \<lparr>dc_negative = False, dc_coeff = n, dc_exp = 0\<rparr>"

lemma small_numbers:
  "parse_decimal ''99'' = Some (whole 99)" "parse_decimal ''100'' = Some (whole 100)"
  "parse_decimal ''98'' = Some (whole 98)" "parse_decimal ''101'' = Some (whole 101)"
  "parse_decimal ''0'' = Some (whole 0)" "parse_decimal ''1'' = Some (whole 1)" "parse_decimal ''2'' = Some (whole 2)"
  by code_simp+

lemma whole_values: "finite_num (whole n) = Inr (of_nat n)" "less_than zero_text (whole n) = Inr (0 < n)"
  "less_than (whole m) (whole n) = Inr (m < n)"
  by (simp_all add: finite_num_def whole_def less_than_def zero_text_def dec_value_def)

lemmas answer_defs = dec_of_def or_list_def or_mapping_def fget_def opt_or_def py_or_def num_or_zero_def opt_num_def
  small_numbers whole_values ts_of_def res_bind_def

lemma small_book:
  "to_order_book ''okx'' 7 small_answer btc_usdt =
     Inr (mk_order_book ''okx'' btc_usdt 7 [\<lparr>price = 99, amount = 1\<rparr>, \<lparr>price = 100, amount = 2\<rparr>] [\<lparr>price = 101, amount = 1\<rparr>])"
  by (simp add: to_order_book_def small_answer_def levels_of_def level_of_def answer_defs List.map_filter_def)

theorem parsed_books_are_sound_witness:
  "\<exists>b. to_order_book ''okx'' 7 small_answer btc_usdt = Inr b \<and> length (bids b) = 2 \<and>
     (\<forall>l \<in> set (bids b). 0 < amount l) \<and> sorted_wrt (\<lambda>l m. price m \<le> price l) (bids b)"
  using parsed_books_are_sound [OF small_book] small_book
  by (auto simp: mk_order_book_def sort_bids_def)

definition closed_order :: fields where
  "closed_order = [(''id'', PStr ''77''), (''status'', PStr ''Closed''), (''amount'', PNum ''2''), (''filled'', PNum ''2''),
     (''price'', PNum ''100''), (''side'', PStr ''sell'')]"

definition odd_order :: fields where
  "odd_order = [(''id'', PStr ''78''), (''status'', PStr ''untriggered''), (''amount'', PNum ''2'')]"

lemma words: "py_lower ''Closed'' = ''closed''" "py_lower ''untriggered'' = ''untriggered''" "py_strip ''77'' = ''77''" "py_strip ''78'' = ''78''"
  by code_simp+

lemma order_values:
  "\<exists>x. to_order ''okx'' 7 closed_order btc_usdt = Inr x \<and> ord_status x = FILLED \<and> filled_amount x = 2"
  "\<exists>x. to_order ''okx'' 7 odd_order btc_usdt = Inr x \<and> ord_status x = PENDING"
  by (simp_all add: to_order_def closed_order_def odd_order_def venue_status_def order_num_def order_statuses_def Let_def
      words side_of_def order_type_of_def opt_text_def id_text_def answer_defs)

theorem unknown_orders_stay_unconfirmed_witness:
  "(\<exists>x. to_order ''okx'' 7 closed_order btc_usdt = Inr x \<and> dict_get order_statuses (venue_word closed_order) = Some (ord_status x)) \<and>
   (\<exists>x. to_order ''okx'' 7 odd_order btc_usdt = Inr x \<and> outcome_unconfirmed x)"
proof -
  obtain x where x: "to_order ''okx'' 7 closed_order btc_usdt = Inr x" "ord_status x = FILLED" using order_values(1) by blast
  obtain z where z: "to_order ''okx'' 7 odd_order btc_usdt = Inr z" using order_values(2) by blast
  have "dict_get order_statuses (venue_word odd_order) = None"
    by (simp add: order_statuses_def venue_word_def odd_order_def py_or_def fget_def opt_or_def words)
  then have "outcome_unconfirmed z" using unknown_orders_stay_unconfirmed [OF z] by blast
  moreover have "dict_get order_statuses (venue_word closed_order) = Some (ord_status x)"
    using unknown_orders_stay_unconfirmed [OF x(1)] x(2) by (simp add: status_is_terminal_def terminal_order_statuses_def)
  ultimately show ?thesis using x(1) z by blast
qed

theorem whole_steps_become_decimal_places_witness:
  "resolved_amount_step \<lparr>prec_price = None, prec_amount = Some 1, prec_price_tick = None, prec_amount_step = None\<rparr> = Some (1 / 10)"
proof -
  have "dec_of (PNum ''1'') = Some (DFinite \<lparr>dc_negative = False, dc_coeff = 1, dc_exp = 0\<rparr>)"
    by (simp add: dec_of_def small_numbers whole_def)
  moreover from this have "step_or_places (PNum ''1'') = Inr (None, Some 1)"
    by (simp add: step_or_places_def less_than_def zero_text_def int_of_dec_def dec_value_def)
  ultimately show ?thesis
    using whole_steps_become_decimal_places [OF _ _ refl] by (simp add: dec_value_def power_int_minus)
qed

subsection \<open>Clients\<close>

text \<open>A library whose clients have a sectioned table of hosts and no switch of their own.\<close>

definition plain_client :: Client where
  "plain_client =
     \<lparr>cl_urls = Some (PDict
        [(''api'', PDict [(''public'', PStr ''https://api.venue''), (''private'', PStr ''https://api.venue'')]),
         (''demo'', PDict [(''private'', PStr ''https://demo.venue'')])]),
      cl_has = Some (PDict [(''createOrder'', PBool True)]), cl_headers = None, cl_options = None\<rparr>"

definition plain_lib :: CcxtLib where
  "plain_lib =
     \<lparr>lib_ids = [''binance'', ''bybit'', ''okx''], lib_classes = Some (\<lambda>_. Some (\<lambda>_. Inr plain_client)),
      lib_set_sandbox = None, lib_enable_demo = None, lib_method = (\<lambda>_ _. True),
      lib_call = (\<lambda>_ _ _. Inr (PDict []))\<rparr>"

definition venue_of :: "string \<Rightarrow> Exchange" where
  "venue_of v = \<lparr>ex_id = v, ex_name = v, ex_adapter = ''ccxt'', ex_enabled = True, ex_status = EX_UNKNOWN,
     ex_capabilities = no_capabilities, ex_has_credentials = True, ex_updated_at = 0\<rparr>"

definition demo_options :: AdapterOptions where
  "demo_options = \<lparr>opt_timeout_seconds = 10, opt_order_book_depth = 25, opt_sandbox = True, opt_enable_rate_limit = True\<rparr>"

lemma known_profiles:
  "resolve_profile ''bybit'' = Inr (venue_profiles ! 2)" "resolve_profile ''binance'' = Inr (venue_profiles ! 0)"
  by code_simp+

lemmas open_defs = ccxt_open_def instantiate_def ad_profile_def build_ccxt_adapter_def venue_of_def demo_options_def
  known_profiles plain_lib_def plain_client_def resolve_ccxt_id_def ccxt_candidate_ids_def venue_profiles_def
  plain_profile_def apply_sandbox_routing_def apply_demo_routing_def demo_endpoints_def override_private_demo_hosts_def
  copy_demo_urls_def is_host_def without_currencies_def detected_def has_table_def or_mapping_def mapping_of_def
  Let_def

lemma bybit_opens:
  "ad_client (snd (ccxt_open plain_lib (build_ccxt_adapter (venue_of ''bybit'') None demo_options None False))) \<noteq> None"
  by (simp add: open_defs)


definition demo_order :: OrderRequest where
  "demo_order = \<lparr>req_exchange_id = ''binance'', req_symbol = btc_usdt, req_side = BUY, req_order_type = MARKET,
     req_amount = 1, req_price = None, req_client_order_id = ''cat-1''\<rparr>"

theorem orders_go_where_the_mode_says_witness:
  "\<exists>b mg ad. mgr_adapter one_manager ''binance'' = (Inr b, mg) \<and>
     ad = snd (ccxt_open plain_lib (adapter_from b (venue_of ''binance'') None 10 25 (Some (gate_for_mode DEMO)))) \<and>
     snd (ccxt_create_order plain_lib ad g 0 demo_order IOC []) \<noteq> [] \<and>
     (\<exists>cl p. ad_client ad = Some cl \<and> resolve_profile ''binance'' = Inr p \<and> demo_routed plain_lib p cl) \<and>
     snd (ccxt_withdraw plain_lib ad g 0 ''BTC'' ''1'' ''addr'' None None) = []"
proof -
  obtain b mg where b: "mgr_adapter (fold apply_event [] one_manager) ''binance'' = (Inr b, mg)" "adapter_sandbox b"
    by (simp add: mgr_adapter_def build_adapter_def venue_keys one_manager_def one_venue_def use_simulated_def Let_def)
  let ?built = "adapter_from b (venue_of ''binance'') None 10 25 (Some (gate_for_mode (ms_mode one_venue)))"
  let ?ad = "snd (ccxt_open plain_lib ?built)"
  have mode: "ms_mode one_venue = DEMO" by (simp add: one_venue_simps)
  have ad: "?ad = fold (adapter_step plain_lib) [Opened_Again] ?built" by simp
  have client: "ad_client ?ad \<noteq> None"
    using b(2) by (simp add: adapter_from_def open_defs)
  then have calls: "snd (ccxt_create_order plain_lib ?ad g 0 demo_order IOC []) \<noteq> []"
    using b(2) by (auto simp: ccxt_create_order_def ad_can_place_orders_def open_frame adapter_from_def build_ccxt_adapter_def
        mode placement_by_mode venue_do_def require_client_def call_on_def plain_lib_def)
  note said = orders_go_where_the_mode_says [OF one_manager_built b(1) ad,
      of g 0 demo_order IOC "[]" "''BTC''" "''1''" "''addr''" None None]
  have "resolve_profile (ex_id (venue_of ''binance'')) = resolve_profile ''binance''" by (simp add: venue_of_def)
  then show ?thesis
    using said calls mode b(1) by (intro exI [of _ b] exI [of _ mg] exI [of _ ?ad] conjI) simp_all
qed


end
