(* ===== verification/Live_Safety.thy ===== *)
theory Live_Safety
  imports Settings_Model Ccxt_Scenarios
begin

text \<open>
  The way of an order from the configuration to a venue: the settings are loaded, the manager is
  built from them, it hands out an adapter, the adapter lives through any events, and an order or a
  withdrawal is asked of it.
\<close>

text \<open>The adapter a process with settings \<open>s\<close> uses for a venue.\<close>

definition session_adapter ::
  "CcxtLib \<Rightarrow> Settings \<Rightarrow> BuiltAdapter \<Rightarrow> Exchange \<Rightarrow> ExchangeCredentials option \<Rightarrow> adapter_event list \<Rightarrow> CcxtAdapter" where
  "session_adapter lib s b x creds evs =
     fold (adapter_step lib) evs
       (adapter_from b x creds (xs_request_timeout_seconds (st_exchanges s)) (xs_order_book_depth (st_exchanges s))
         (Some (gate_for_mode (tr_mode (st_trading s)))))"

text \<open>The opt-ins of the operator, as they stand in the environment.\<close>

definition live_opted_in :: "Settings \<Rightarrow> bool" where
  "live_opted_in raw \<longleftrightarrow>
     tr_mode (st_trading raw) = LIVE \<and> tr_allow_live (st_trading raw) \<and> phrase_given (st_trading raw)"

text \<open>C4 (live_orders_need_three_opt_ins).
  From the environment to the venue. Whatever happened to the manager and to the adapter it handed
  out, an order reaches the client library only if the environment asked for LIVE, allowed it and
  gave the confirmation phrase, and the guard is armed and not halted; or in DEMO through a client
  routed to the demo environment of its venue. A withdrawal needs all the opt-ins of LIVE, the
  armed guard and the separate permission for withdrawals. In PAPER neither happens.\<close>

theorem live_orders_need_three_opt_ins:
  assumes "get_settings raw = Inr s" "new_manager (manager_settings s) keys t = Inr mg"
    "mgr_adapter (fold apply_event es mg) v = (Inr b, mg')" "ad = session_adapter lib s b x creds evs"
  shows "(snd (ccxt_create_order lib ad g now req tif md) \<noteq> [] \<longrightarrow>
      live_opted_in raw \<and> ensure_auto_trading g = Inr () \<or>
      tr_mode (st_trading raw) = DEMO \<and>
        (\<exists>cl p. ad_client ad = Some cl \<and> resolve_profile (ex_id x) = Inr p \<and> demo_routed lib p cl)) \<and>
    (snd (ccxt_withdraw lib ad g now asset amt addr tag net) \<noteq> [] \<longrightarrow>
      live_opted_in raw \<and> tr_allow_live_withdrawals (st_trading raw) \<and> ensure_auto_trading g = Inr ())"
proof -
  have "ms_mode (manager_settings s) = tr_mode (st_trading s)"
    "allow_live_withdrawals (manager_settings s) = tr_allow_live_withdrawals (st_trading s)"
    by (simp_all add: manager_settings_def)
  then show ?thesis
    using orders_go_where_the_mode_says [OF assms(2,3), of ad lib evs x creds _ _ g now req tif md asset amt addr tag net]
      loaded_mode [OF assms(1)] assms(4)
    by (auto simp: live_opted_in_def session_adapter_def)
qed

subsection \<open>A process in LIVE\<close>

definition live_environment :: Settings where
  "live_environment =
     \<lparr>st_environment = Production,
      st_trading = default_trading\<lparr>tr_mode := LIVE, tr_allow_live := True, tr_live_confirmation := '' i understand the risk ''\<rparr>,
      st_database = \<lparr>db_url = ''postgresql://db'', db_pool_size = 5, db_max_overflow = 10, db_connect_timeout_seconds = 10,
        db_trade_retention_days = 90, db_audit_retention_days = 90\<rparr>,
      st_exchanges = \<lparr>xs_enabled = RText '' Bybit, bybit'', xs_quote_currencies = RText ''usdt'', xs_simulate_in_paper = True,
        xs_request_timeout_seconds = 10, xs_order_book_depth = 25, xs_breaker_failure_threshold = 5,
        xs_breaker_cooldown_seconds = 60\<rparr>,
      st_risk = default_limits,
      st_market_data = \<lparr>mk_stale_after_ms = 2000, mk_max_requests_per_exchange = 4, mk_max_parallel_requests = 16,
        mk_streams_enabled = True, mk_max_streams_per_exchange = 48, mk_max_parallel_streams = 256,
        mk_stream_backoff_base_seconds = 1 / 2, mk_stream_backoff_max_seconds = 30, mk_stream_backoff_jitter = 1 / 4,
        mk_stream_quarantine_restarts = 5\<rparr>,
      st_arbitrage = \<lparr>ar_triangle_assets = RList [''BTC'', ''ETH''], ar_default_notional_quote = 1000, ar_triangle_min_net_bps = 5,
        ar_triangle_max_leg_slippage_bps = 15, ar_triangle_max_notional_quote = 500, ar_max_results = 20, ar_scan_ttl_ms = 1500\<rparr>,
      st_transfer = \<lparr>tf_assets = RList [''BTC''], tf_min_net_profit_bps = 50, tf_default_amount = 1, tf_max_amount = 10000,
        tf_min_notional_quote = 100, tf_max_notional_quote = 500, tf_max_gross_divergence_bps = 5000,
        tf_deposit_timeout_seconds = 3600, tf_poll_interval_seconds = 30, tf_simulated_transfer_seconds = 30\<rparr>,
      st_execution = \<lparr>ec_leg_timeout_seconds = 10, ec_paper_max_slippage_bps = 50, ec_min_net_at_execute_bps = 0,
        ec_auto_max_per_cycle = 1, ec_auto_interval_seconds = 5, ec_auto_notional_quote = 1000\<rparr>\<rparr>"

definition live_session :: Settings where
  "live_session =
     live_environment\<lparr>st_exchanges := (st_exchanges live_environment)
       \<lparr>xs_enabled := RList [''bybit''], xs_quote_currencies := RList [''USDT'']\<rparr>\<rparr>"

lemma live_words:
  "split_comma_separated (RText '' Bybit, bybit'') = [''Bybit'', ''bybit'']" "split_comma_separated (RText ''usdt'') = [''usdt'']"
  "normalise_ids [''Bybit'', ''bybit''] = [''bybit'']" "normalise_codes [''usdt''] = [''USDT'']"
  "normalise_codes [''BTC'', ''ETH''] = [''BTC'', ''ETH'']" "normalise_codes [''BTC''] = [''BTC'']"
  "py_upper (py_strip '' i understand the risk '') = live_confirmation_phrase" "py_upper (py_strip ''USDT'') = ''USDT''"
  "take 6 ''postgresql://db'' = ''postgr''"
  by code_simp+

lemma live_loads: "get_settings live_environment = Inr live_session"
  by (simp add: get_settings_def validate_settings_def validate_trading_def validate_database_def validate_exchanges_def
      validate_risk_def validate_market_data_def validate_arbitrage_def validate_transfer_section_def validate_execution_def
      bounded.simps res_bind_def phrase_given_def live_words is_sqlite_def live_environment_def live_session_def
      default_trading_def default_limits_def)

definition live_manager :: ExchangeManager where
  "live_manager =
     \<lparr>mgr_settings = manager_settings live_session,
      mgr_exchanges = [(''bybit'', \<lparr>ex_id = ''bybit'', ex_name = ''Bybit'', ex_adapter = ''ccxt'', ex_enabled = True,
        ex_status = EX_UNKNOWN, ex_capabilities = no_capabilities, ex_has_credentials = True, ex_updated_at = 0\<rparr>)],
      mgr_adapters = [], mgr_health = [], breaker_failures = [], breaker_opened_at_ms = [], auth_blocked = []\<rparr>"

lemma live_manager_settings:
  "manager_settings live_session = \<lparr>ms_mode = LIVE, ms_enabled = [''bybit''], simulate_in_paper = True,
     breaker_failure_threshold = 5, breaker_cooldown_seconds = 60, allow_live_withdrawals = False\<rparr>"
  by (simp add: manager_settings_def live_session_def live_environment_def default_trading_def)

lemma bybit_key: "venue_key ''bybit'' = ''bybit''"
  by code_simp

lemma live_manager_built: "new_manager (manager_settings live_session) (\<lambda>_. True) 0 = Inr live_manager"
proof -
  have "py_lower (py_strip ''bybit'') = ''bybit''" by code_simp
  then show ?thesis
    by (simp add: new_manager_def live_manager_settings live_manager_def known_profiles venue_entry_def use_simulated_def
        venue_profiles_def plain_profile_def)
qed

definition armed_guard :: ExecutionGuard where
  "armed_guard = new_guard (policy_for LIVE) True"

theorem live_orders_need_three_opt_ins_witness:
  "\<exists>b mg. mgr_adapter live_manager ''bybit'' = (Inr b, mg) \<and>
     snd (ccxt_create_order plain_lib (session_adapter plain_lib live_session b (venue_of ''bybit'') None [Opened_Again])
       armed_guard 0 demo_order IOC []) \<noteq> [] \<and>
     live_opted_in live_environment \<and> ensure_auto_trading armed_guard = Inr () \<and>
     snd (ccxt_withdraw plain_lib (session_adapter plain_lib live_session b (venue_of ''bybit'') None [Opened_Again])
       armed_guard 0 ''BTC'' ''1'' ''addr'' None None) = []"
proof -
  obtain b mg where b: "mgr_adapter (fold apply_event [] live_manager) ''bybit'' = (Inr b, mg)"
    and plain: "\<not> adapter_sandbox b" "\<not> adapter_allow_withdrawals b"
    by (simp add: mgr_adapter_def build_adapter_def bybit_key live_manager_def live_manager_settings use_simulated_def Let_def)
  let ?ad = "session_adapter plain_lib live_session b (venue_of ''bybit'') None [Opened_Again]"
  have s: "tr_mode (st_trading live_session) = LIVE"
    by (simp add: live_session_def live_environment_def default_trading_def)
  have armed: "ensure_auto_trading armed_guard = Inr ()"
    by (simp add: armed_guard_def new_guard_def ensure_auto_trading_def is_halted_def)
  have client: "ad_client ?ad \<noteq> None"
    using plain by (simp add: session_adapter_def adapter_from_def open_defs)
  have "ad_can_place_orders ?ad armed_guard"
    using armed by (simp add: session_adapter_def s open_frame adapter_from_def build_ccxt_adapter_def ad_can_place_orders_def
        placement_by_mode)
  then have calls: "snd (ccxt_create_order plain_lib ?ad armed_guard 0 demo_order IOC []) \<noteq> []"
    using client by (auto simp: ccxt_create_order_def venue_do_def require_client_def call_on_def plain_lib_def)
  note said = live_orders_need_three_opt_ins [OF live_loads live_manager_built b refl,
      of plain_lib "venue_of ''bybit''" None "[Opened_Again]" armed_guard 0 demo_order IOC "[]" "''BTC''" "''1''" "''addr''" None None]
  have "tr_mode (st_trading live_environment) = LIVE" "\<not> tr_allow_live_withdrawals (st_trading live_environment)"
    by (simp_all add: live_environment_def default_trading_def)
  then show ?thesis
    using said calls b armed by (intro exI [of _ b] exI [of _ mg] conjI) auto
qed

end
