(* ===== verification/Simulated_Books.thy ===== *)
theory Simulated_Books
  imports Simulated_Venue
begin

text \<open>
  What the simulated venue offers: prices stay within the divergence band of their seed, a book
  is crossed exactly when its mid is too small for the spread to be seen at eight decimals, and
  the ledger of simulated withdrawals mirrors every withdrawal as one deposit.
\<close>

subsection \<open>The band of prices\<close>

text \<open>The documented range of the hash: eight bytes.\<close>

definition hash_ok :: "hash \<Rightarrow> bool" where
  "hash_ok h \<longleftrightarrow> (\<forall>s. h s < 2 ^ 64)"

lemma unit_offset_range:
  assumes "hash_ok h"
  shows "\<bar>unit_offset h parts\<bar> \<le> 1"
proof -
  let ?n = "of_nat (h (py_join ''|'' parts)) :: rat"
  have "h (py_join ''|'' parts) \<le> 2 ^ 64" using assms by (simp add: hash_ok_def less_imp_le)
  then have n: "?n \<le> 2 powi 64" by (metis of_nat_le_iff of_nat_numeral of_nat_power power_int_numeral)
  have "binary64 ?n \<le> 2 ^ 64" using binary64_le_power [OF _ n] by simp
  moreover have "0 \<le> binary64 ?n" by (rule binary64_nonneg) simp
  ultimately have "\<bar>binary64 ?n / 2 ^ 64 * 2 - 1\<bar> \<le> 2 powi 0" by (simp add: abs_le_iff divide_le_eq)
  then have "\<bar>binary64 (binary64 ?n / 2 ^ 64 * 2 - 1)\<bar> \<le> 1" using binary64_abs_le by fastforce
  moreover have "on_grid 6 1" "on_grid 6 (- 1)" by (simp_all add: on_grid_def)
  ultimately show ?thesis
    unfolding unit_offset_def Let_def
    using quantize_below_grid [of 6 1] quantize_above_grid [of 6 "- 1"] by (simp add: abs_le_iff)
qed

lemma bps_range:
  assumes "\<bar>x\<bar> \<le> 1" "on_grid 16 c" "on_grid 16 (- c)" "0 \<le> c" "c < 10 ^ 12"
  shows "\<bar>dmul x c\<bar> \<le> c"
proof -
  have "x * c \<le> c" "- c \<le> x * c" using assms(1,4) mult_right_mono [of x 1 c] mult_right_mono [of "- 1" x c] by auto
  then have "fix28 (x * c) \<le> fix28 c" "fix28 (- c) \<le> fix28 (x * c)" by (auto intro: fix28_mono)
  then show ?thesis using assms by (simp add: dmul_def fix28_grid16 abs_le_iff)
qed

lemma factor_range:
  assumes "\<bar>x\<bar> \<le> c" "on_grid 12 c" "0 \<le> c" "c < 10 ^ 6"
  shows "1 - c / 10000 \<le> dadd 1 (ddiv x 10000)" "dadd 1 (ddiv x 10000) \<le> 1 + c / 10000"
proof -
  have g: "on_grid 16 (c / 10000)"
    using on_grid_mult [OF assms(2), of 4 "1 / 10000"] by (simp add: on_grid_def)
  then have g': "on_grid 16 (- (c / 10000))" using on_grid_diff [of 16 0] by simp
  have g1: "on_grid 16 1" by (simp add: on_grid_def)
  have "fix28 (x / 10000) \<le> fix28 (c / 10000)" "fix28 (- (c / 10000)) \<le> fix28 (x / 10000)"
    using assms(1) by (auto intro!: fix28_mono simp: abs_le_iff)
  then have q: "ddiv x 10000 \<le> c / 10000" "- (c / 10000) \<le> ddiv x 10000"
    using fix28_grid16 [OF g] fix28_grid16 [OF g'] assms(3,4) by (auto simp: ddiv_def)
  have e: "fix28 (1 + c / 10000) = 1 + c / 10000" "fix28 (1 - c / 10000) = 1 - c / 10000"
    using assms(3,4) g g1 by (auto intro!: fix28_grid16)
  show "1 - c / 10000 \<le> dadd 1 (ddiv x 10000)" "dadd 1 (ddiv x 10000) \<le> 1 + c / 10000"
    unfolding dadd_def using fix28_mono [of "1 - c / 10000" "1 + ddiv x 10000"]
      fix28_mono [of "1 + ddiv x 10000" "1 + c / 10000"] q e by auto
qed

text \<open>A price stays within 120 basis points of its seed, up to the last of its eight decimals.\<close>

lemma diverged_mid_range:
  assumes "hash_ok h" "0 \<le> seed" "on_grid 8 seed" "seed < 10 ^ 10"
  shows "quantize 8 (seed * (988 / 1000)) \<le> diverged_mid h venue name seed"
    "diverged_mid h venue name seed \<le> quantize 8 (seed * (1012 / 1000))"
proof -
  let ?x = "dmul (unit_offset h [venue, name]) divergence_bps"
  have b: "\<bar>?x\<bar> \<le> 120"
    unfolding divergence_bps_def
    by (rule bps_range [OF unit_offset_range [OF assms(1)]]) (simp_all add: on_grid_def)
  have "on_grid 12 120" by (simp add: on_grid_def)
  from factor_range [OF b this]
  have f: "988 / 1000 \<le> dadd 1 (ddiv ?x 10000)" "dadd 1 (ddiv ?x 10000) \<le> 1012 / 1000" by simp_all
  have "on_grid 3 (988 / 1000)" "on_grid 3 (1012 / 1000)" by (simp_all add: on_grid_def)
  then have g: "on_grid (8 + 3) (seed * (988 / 1000))" "on_grid (8 + 3) (seed * (1012 / 1000))"
    by (simp_all only: on_grid_mult [OF assms(3)])
  have e: "fix28 (seed * (988 / 1000)) = seed * (988 / 1000)" "fix28 (seed * (1012 / 1000)) = seed * (1012 / 1000)"
    by (rule fix28_grid [OF g(1)], use assms(2,4) in simp, rule fix28_grid [OF g(2)], use assms(2,4) in simp)
  have "seed * (988 / 1000) \<le> dmul seed (dadd 1 (ddiv ?x 10000))" "dmul seed (dadd 1 (ddiv ?x 10000)) \<le> seed * (1012 / 1000)"
    unfolding dmul_def
    using fix28_mono [OF mult_left_mono [OF f(1) assms(2)]] fix28_mono [OF mult_left_mono [OF f(2) assms(2)]] e
    by (simp_all only: dmul_def)
  then show "quantize 8 (seed * (988 / 1000)) \<le> diverged_mid h venue name seed"
    "diverged_mid h venue name seed \<le> quantize 8 (seed * (1012 / 1000))"
    unfolding diverged_mid_def Let_def by (auto intro: quantize_mono)
qed

subsection \<open>Crossed books\<close>

lemma best_of_book:
  assumes "l \<in> set bs" "\<And>m. m \<in> set bs \<Longrightarrow> price m \<le> price l"
    "a \<in> set as" "\<And>m. m \<in> set as \<Longrightarrow> price a \<le> price m"
  shows "best_bid (mk_order_book v s t bs as) = Some (price l)" "best_ask (mk_order_book v s t bs as) = Some (price a)"
proof -
  have "set (sort_bids bs) = set bs" "set (sort_asks as) = set as" by (simp_all add: sort_bids_def sort_asks_def)
  moreover from this obtain x xs y ys where e: "sort_bids bs = x # xs" "sort_asks as = y # ys"
    using assms(1,3) by (metis list.exhaust list.set_cases list.simps(15) empty_iff empty_set)
  ultimately have "x \<in> set bs" "l \<in> set (x # xs)" "y \<in> set as" "a \<in> set (y # ys)"
    using assms(1,3) by (metis list.set_intros(1))+
  moreover have "price l \<le> price x" "price y \<le> price a"
    using sorted_sort_bids [of bs] sorted_sort_asks [of as] calculation(2,4) unfolding e by auto
  ultimately have "price x = price l" "price y = price a" using assms(2,4) by (meson antisym)+
  then show "best_bid (mk_order_book v s t bs as) = Some (price l)" "best_ask (mk_order_book v s t bs as) = Some (price a)"
    by (simp_all add: best_bid_def best_ask_def mk_order_book_def e)
qed

lemma sim_prices_ordered:
  assumes "0 \<le> mid"
  shows "sim_bid mid lvl \<le> sim_bid mid 0" "sim_ask mid 0 \<le> sim_ask mid lvl"
proof -
  have "dmul (dmul mid 0.0001) (of_nat 0) \<le> dmul (dmul mid 0.0001) (of_nat lvl)"
    using assms by (simp add: dec_signs)
  then show "sim_bid mid lvl \<le> sim_bid mid 0" "sim_ask mid 0 \<le> sim_ask mid lvl"
    unfolding sim_bid_def sim_ask_def by (simp_all only: dsub_mono dadd_mono order_refl)
qed

lemma top_prices:
  assumes "on_grid 8 mid" "0 < mid" "mid < 10 ^ 12"
  shows "sim_bid mid 0 = mid - mid / 5000" "sim_ask mid 0 = mid + mid / 5000"
proof -
  have "on_grid 8 (mid + mid + mid + mid)" using assms(1) by blast
  then have g4: "on_grid 8 (mid * 4)" by (simp add: mult.commute)
  have four: "dmul mid 4 = mid * 4" unfolding dmul_def by (rule fix28_grid8 [OF g4]) (use assms in simp)
  have "on_grid 4 (1 / 5000)" by (simp add: on_grid_def)
  then have g: "on_grid 12 (mid / 5000)" using on_grid_mult [OF assms(1), of 4 "1 / 5000"] by simp
  have half: "half_spread mid = mid / 5000"
    unfolding half_spread_def sim_spread_bps_def four ddiv_def using fix28_grid [OF g] assms by simp
  have gm: "on_grid 12 mid" by (rule on_grid_le [OF assms(1)]) simp
  have r: "fix28 (mid - mid / 5000) = mid - mid / 5000" "fix28 (mid + mid / 5000) = mid + mid / 5000"
    by (rule fix28_grid [of 12], use gm g in blast, use assms in simp)+
  show "sim_bid mid 0 = mid - mid / 5000" "sim_ask mid 0 = mid + mid / 5000"
    by (simp_all only: sim_bid_def sim_ask_def half dsub_def dadd_def r of_nat_0 dmul_zero diff_zero add_0_right)
qed

lemma quantize_near:
  assumes "on_grid 8 m" "\<bar>x - m\<bar> < 1 / (2 * 10 ^ 8)"
  shows "quantize 8 x = m"
proof -
  obtain c where c: "m = of_int c / 10 ^ 8" using assms(1) by (auto simp: on_grid_iff)
  have "x * 10 ^ 8 - of_int c = (x - m) * 10 ^ 8" by (simp add: c field_simps)
  then have "\<bar>x * 10 ^ 8 - of_int c\<bar> = \<bar>x - m\<bar> * 10 ^ 8" by (simp only: abs_mult) simp
  moreover have "\<bar>x - m\<bar> * 10 ^ 8 < 1 / (2 * 10 ^ 8) * 10 ^ 8" by (rule mult_strict_right_mono [OF assms(2)]) simp
  ultimately have "\<bar>x * 10 ^ 8 - of_int c\<bar> < 1 / 2" by simp
  then have "(of_int \<bar>round_half_even (x * 10 ^ 8) - c\<bar> :: rat) < of_int 1"
    using round_half_even_bounds [of "x * 10 ^ 8"] by (simp only: of_int_abs of_int_diff of_int_1)
  then have "\<bar>round_half_even (x * 10 ^ 8) - c\<bar> < 1" by (simp only: of_int_less_iff)
  then show ?thesis by (simp add: quantize_def c)
qed

lemma quantized_tops:
  assumes "on_grid 8 mid" "0 < mid"
  shows "mid \<le> 25 / 10 ^ 6 \<Longrightarrow> quantize 8 (mid - mid / 5000) = mid \<and> quantize 8 (mid + mid / 5000) = mid"
    "25 / 10 ^ 6 < mid \<Longrightarrow> quantize 8 (mid - mid / 5000) < mid \<and> mid < quantize 8 (mid + mid / 5000)"
proof -
  assume "mid \<le> 25 / 10 ^ 6"
  show "quantize 8 (mid - mid / 5000) = mid \<and> quantize 8 (mid + mid / 5000) = mid"
  proof (cases "mid = 25 / 10 ^ 6")
    case True
    have "round_half_even (4999 / 2) = 2500" "round_half_even (5001 / 2) = 2500"
      by (simp_all add: round_half_even_def Let_def)
    moreover have "(mid - mid / 5000) * 10 ^ 8 = 4999 / 2" "(mid + mid / 5000) * 10 ^ 8 = 5001 / 2"
      unfolding True by simp_all
    ultimately show ?thesis by (simp only: quantize_def) (simp add: True)
  next
    case False
    then have "\<bar>mid / 5000\<bar> < 1 / (2 * 10 ^ 8)" using \<open>mid \<le> _\<close> assms(2) by simp
    then show ?thesis using quantize_near [OF assms(1)] by simp
  qed
next
  assume "25 / 10 ^ 6 < mid"
  then have "1 / (2 * 10 ^ 8) < mid / 5000" by simp
  then show "quantize 8 (mid - mid / 5000) < mid \<and> mid < quantize 8 (mid + mid / 5000)"
    using quantize_error [of 8 "mid - mid / 5000"] quantize_error [of 8 "mid + mid / 5000"] by linarith
qed

lemma book_of_mid:
  assumes "mid_price h venue symb = mid" "on_grid 8 mid" "0 < mid" "mid < 10 ^ 12"
  shows "\<exists>b. sim_order_book h venue opts now symb depth = Inr b \<and>
    best_bid b = Some (quantize 8 (mid - mid / 5000)) \<and> best_ask b = Some (quantize 8 (mid + mid / 5000)) \<and>
    (is_crossed b \<longleftrightarrow> mid \<le> 25 / 10 ^ 6)"
proof -
  define n where "n = levels_wanted opts depth"
  define base_amount where "base_amount = quantize 8 (ddiv 5000 mid)"
  define bs as where "bs = map (\<lambda>l. sim_level (sim_bid mid l) base_amount l) [0..<n]"
    and "as = map (\<lambda>l. sim_level (sim_ask mid l) base_amount l) [0..<n]"
  have n: "0 < n" by (simp add: n_def levels_wanted_def)
  have b: "sim_order_book h venue opts now symb depth = Inr (mk_order_book venue symb now bs as)"
    using assms(3) by (simp add: sim_order_book_def book_sides_def assms(1) Let_def bs_def as_def n_def base_amount_def)
  have prices: "price (sim_level p a l) = quantize 8 p" for p a l by (simp add: sim_level_def)
  have top: "sim_level (sim_bid mid 0) base_amount 0 \<in> set bs" "sim_level (sim_ask mid 0) base_amount 0 \<in> set as"
    using n by (auto simp: bs_def as_def)
  have best: "price m \<le> price (sim_level (sim_bid mid 0) base_amount 0)" if "m \<in> set bs" for m
    using that sim_prices_ordered(1) [of mid] assms(3) by (auto simp: bs_def prices intro!: quantize_mono)
  have best': "price (sim_level (sim_ask mid 0) base_amount 0) \<le> price m" if "m \<in> set as" for m
    using that sim_prices_ordered(2) [of mid] assms(3) by (auto simp: as_def prices intro!: quantize_mono)
  note tops = best_of_book [OF top(1) best top(2) best', unfolded prices top_prices [OF assms(2-4)], where v = venue and s = symb and t = now]
  show ?thesis
    using quantized_tops [OF assms(2,3)]
    by (intro exI [of _ "mk_order_book venue symb now bs as"]) (cases "mid \<le> 25 / 10 ^ 6", auto simp: b tops is_crossed_def)
qed

text \<open>C35 (simulated_book_crossed_iff).
  A book of the simulated venue exists whenever its mid is not zero, its best prices are those of
  the first level, and it is crossed exactly when the mid is at most 0.000025: the four basis
  points between bid and ask then vanish in the rounding to eight decimals.\<close>

theorem simulated_book_crossed_iff:
  assumes "mid_price h venue symb = mid" "on_grid 8 mid" "0 < mid" "mid < 10 ^ 12"
  shows "\<exists>b. sim_order_book h venue opts now symb depth = Inr b \<and>
    best_bid b = Some (quantize 8 (mid - mid / 5000)) \<and> best_ask b = Some (quantize 8 (mid + mid / 5000)) \<and>
    (is_crossed b \<longleftrightarrow> mid \<le> 25 / 10 ^ 6)"
  by (rule book_of_mid [OF assms])

lemma pepe_seeds:
  "dict_get default_seed_prices ''PEPE/USDT'' = Some 0.0000075" "dict_get default_seed_prices ''BTC/USDT'' = Some 116420"
  "dict_get default_seed_prices ''PEPE/BTC'' = None"
  by (simp_all add: default_seed_prices_def)

lemma cross_listed: "b \<in> set (tl as) \<Longrightarrow> b @ ''/'' @ hd as \<in> set (cross_names as)"
  by (cases as) auto

lemma pepe_listed: "''PEPE/BTC'' \<in> set (sim_market_names (map fst default_seed_prices))"
proof -
  have "hd (usdt_assets (map fst default_seed_prices)) = ''BTC''" "''PEPE'' \<in> set (tl (usdt_assets (map fst default_seed_prices)))"
    by code_simp+
  from cross_listed [OF this(2)] this(1) show ?thesis by (simp add: sim_market_names_def)
qed

lemma pepe_mid:
  assumes "hash_ok h"
  shows "741 / 10 ^ 8 \<le> diverged_mid h venue n 0.0000075" "diverged_mid h venue n 0.0000075 \<le> 759 / 10 ^ 8"
    "115000 \<le> diverged_mid h venue n' 116420"
proof -
  have "quantize 8 (0.0000075 * (988 / 1000)) = 741 / 10 ^ 8" "quantize 8 (0.0000075 * (1012 / 1000)) = 759 / 10 ^ 8"
    "quantize 8 (116420 * (988 / 1000)) = 11502296 / 100"
    by (rule quantize_near, simp add: on_grid_def, simp)+
  moreover have "on_grid 8 0.0000075" "on_grid 8 116420" by (simp_all add: on_grid_def)
  ultimately show "741 / 10 ^ 8 \<le> diverged_mid h venue n 0.0000075" "diverged_mid h venue n 0.0000075 \<le> 759 / 10 ^ 8"
    "115000 \<le> diverged_mid h venue n' 116420"
    using diverged_mid_range [OF assms, of "0.0000075" venue n] diverged_mid_range(1) [OF assms, of 116420 venue n'] by simp_all
qed

text \<open>(paper_pepe_is_untradable).
  On every simulated venue, whatever the hash: the book of PEPE/USDT is crossed, and the book of
  PEPE/BTC, a pair the venue lists, raises a division by zero because its mid rounds to nothing.\<close>

theorem paper_pepe_is_untradable:
  assumes "hash_ok h"
  shows "(\<exists>b. sim_order_book h venue opts now \<lparr>base = ''PEPE'', quote = ''USDT'', settle = None\<rparr> depth = Inr b \<and> is_crossed b) \<and>
    sim_order_book h venue opts now \<lparr>base = ''PEPE'', quote = ''BTC'', settle = None\<rparr> depth = Inl (OtherError ''DivisionByZero'') \<and>
    ''PEPE/BTC'' \<in> set (sim_market_names (map fst default_seed_prices))"
proof -
  let ?p = "diverged_mid h venue ''PEPE/USDT'' 0.0000075" and ?b = "diverged_mid h venue ''BTC/USDT'' 116420"
  let ?y = "\<lparr>base = ''PEPE'', quote = ''USDT'', settle = None\<rparr>" and ?z = "\<lparr>base = ''PEPE'', quote = ''BTC'', settle = None\<rparr>"
  let ?s = "triangular_skew_bps h venue ''PEPE'' ''BTC''"
  note mids = pepe_mid [OF assms, of venue]
  have "mid_price h venue ?y = ?p" by (simp add: mid_price_def symbol_name_def pepe_seeds)
  moreover have "on_grid 8 ?p" by (simp add: diverged_mid_def Let_def)
  ultimately have crossed: "\<exists>b. sim_order_book h venue opts now ?y depth = Inr b \<and> is_crossed b"
    using book_of_mid [of h venue ?y ?p opts now depth] mids [of "''PEPE/USDT''"] by auto
  have "?p / ?b \<le> (759 / 10 ^ 8) / 115000"
    using mids by (intro frac_le) auto
  also have "\<dots> \<le> 1 / 10 ^ 10" by simp
  finally have "fix28 (?p / ?b) \<le> fix28 (1 / 10 ^ 10)" by (rule fix28_mono)
  moreover have "fix28 (1 / 10 ^ 10) = (1 / 10 ^ 10 :: rat)" by (rule fix28_grid [of 10]) (auto simp: on_grid_def)
  ultimately have hi: "ddiv ?p ?b \<le> 1 / 10 ^ 10" by (simp add: ddiv_def)
  have "0 \<le> ?p" "0 \<le> ?b" using mids(1) [of "''PEPE/USDT''"] mids(3) [of "''BTC/USDT''"] by simp_all
  then have lo: "0 \<le> ddiv ?p ?b" by (simp add: ddiv_def)
  have "\<bar>dmul (unit_offset h [venue, ''tri'', ''BTC'', ''PEPE'']) 80\<bar> \<le> 80"
    by (rule bps_range [OF unit_offset_range [OF assms]]) (simp_all add: on_grid_def)
  moreover have "\<bar>?s\<bar> = \<bar>dmul (unit_offset h [venue, ''tri'', ''BTC'', ''PEPE'']) 80\<bar>"
    by (simp add: triangular_skew_bps_def triangle_skew_bps_def Let_def dneg_def min_def fix28_minus)
  ultimately have "\<bar>?s\<bar> \<le> 80" by simp
  from factor_range [OF this]
  have f: "0 \<le> dadd 1 (ddiv ?s 10000)" "dadd 1 (ddiv ?s 10000) \<le> 2" by (simp_all add: on_grid_def)
  have "ddiv ?p ?b * dadd 1 (ddiv ?s 10000) \<le> 1 / 10 ^ 10 * 2" by (rule mult_mono [OF hi f(2) _ f(1)]) simp
  then have "fix28 (ddiv ?p ?b * dadd 1 (ddiv ?s 10000)) \<le> fix28 (2 / 10 ^ 10)" by (intro fix28_mono) simp
  also have "fix28 (2 / 10 ^ 10) = (2 / 10 ^ 10 :: rat)" by (rule fix28_grid [of 10]) (auto simp: on_grid_def)
  finally have "dmul (ddiv ?p ?b) (dadd 1 (ddiv ?s 10000)) \<le> 2 / 10 ^ 10" by (simp add: dmul_def)
  moreover have "0 \<le> dmul (ddiv ?p ?b) (dadd 1 (ddiv ?s 10000))" using lo f(1) by (simp add: dmul_def)
  ultimately have "quantize 8 (dmul (ddiv ?p ?b) (dadd 1 (ddiv ?s 10000))) = 0"
    by (intro quantize_near) auto
  then have "mid_price h venue ?z = 0"
    by (simp add: mid_price_def symbol_name_def pepe_seeds usdt_mid_def Let_def)
  then have "sim_order_book h venue opts now ?z depth = Inl (OtherError ''DivisionByZero'')"
    by (simp add: sim_order_book_def book_sides_def)
  then show ?thesis using crossed pepe_listed by simp
qed

definition some_hash :: hash where "some_hash s = length s * 1000 mod 2 ^ 64"

lemma some_hash_ok: "hash_ok some_hash"
  by (simp add: hash_ok_def some_hash_def)

theorem paper_pepe_is_untradable_witness:
  "\<exists>b. sim_order_book some_hash ''okx'' \<lparr>opt_timeout_seconds = 10, opt_order_book_depth = 25, opt_sandbox = False, opt_enable_rate_limit = True\<rparr>
     0 \<lparr>base = ''PEPE'', quote = ''USDT'', settle = None\<rparr> None = Inr b \<and> is_crossed b"
  using paper_pepe_is_untradable [OF some_hash_ok] by blast

definition paper_options :: AdapterOptions where
  "paper_options = \<lparr>opt_timeout_seconds = 10, opt_order_book_depth = 25, opt_sandbox = False, opt_enable_rate_limit = True\<rparr>"

definition usdt_pair :: "string \<Rightarrow> Symbol" where
  "usdt_pair a = \<lparr>base = a, quote = ''USDT'', settle = None\<rparr>"

theorem simulated_book_crossed_iff_witness:
  "(\<exists>b. sim_order_book some_hash ''okx'' paper_options 0 (usdt_pair ''PEPE'') None = Inr b \<and> is_crossed b) \<and>
   (\<exists>b. sim_order_book some_hash ''okx'' paper_options 0 (usdt_pair ''BTC'') None = Inr b \<and> \<not> is_crossed b)"
proof -
  let ?p = "diverged_mid some_hash ''okx'' ''PEPE/USDT'' 0.0000075" and ?b = "diverged_mid some_hash ''okx'' ''BTC/USDT'' 116420"
  have mids: "mid_price some_hash ''okx'' (usdt_pair ''PEPE'') = ?p" "mid_price some_hash ''okx'' (usdt_pair ''BTC'') = ?b"
    by (simp_all add: mid_price_def symbol_name_def pepe_seeds usdt_pair_def)
  have grid: "on_grid 8 ?p" "on_grid 8 ?b" by (simp_all add: diverged_mid_def Let_def)
  have "?b \<le> quantize 8 (116420 * (1012 / 1000))"
    by (rule diverged_mid_range(2) [OF some_hash_ok]) (simp_all add: on_grid_def)
  also have "\<dots> = 11781704 / 100" by (rule quantize_near, simp add: on_grid_def, simp)
  finally have hi: "?b < 10 ^ 12" by simp
  note range = pepe_mid(1,2) [OF some_hash_ok, of "''okx''" "''PEPE/USDT''"] pepe_mid(3) [OF some_hash_ok, of "''okx''" "''BTC/USDT''"]
  have "\<exists>b. sim_order_book some_hash ''okx'' paper_options 0 (usdt_pair ''PEPE'') None = Inr b \<and> is_crossed b"
    using simulated_book_crossed_iff [OF mids(1) grid(1), of paper_options 0 None] range(1,2) by auto
  moreover have "\<exists>b. sim_order_book some_hash ''okx'' paper_options 0 (usdt_pair ''BTC'') None = Inr b \<and> \<not> is_crossed b"
    using simulated_book_crossed_iff [OF mids(2) grid(2), of paper_options 0 None] range(3) hi by auto
  ultimately show ?thesis ..
qed

subsection \<open>The ledger\<close>

text \<open>Every withdrawal has an id of its own and exactly one deposit, which confirms its amount.\<close>

definition ledger_ok :: "SimVenue \<Rightarrow> bool" where
  "ledger_ok v \<longleftrightarrow>
     map tx_txid (sv_withdrawals v) = map (\<lambda>i. Some (''sim-wd-'' @ show_nat i)) [0..<length (sv_withdrawals v)] \<and>
     map (\<lambda>t. (tx_txid t, tx_asset t, tx_amount t)) (sv_deposits v) =
       map (\<lambda>t. (tx_txid t, tx_asset t, tx_amount t)) (sv_withdrawals v) \<and>
     list_all tx_is_confirmed (sv_deposits v)"

lemma ledger_withdraw: "ledger_ok v \<Longrightarrow> ledger_ok (snd (sim_withdraw v asset amt addr))"
proof -
  have "py_lower ''confirmed'' = ''confirmed''" by code_simp
  then show "ledger_ok v \<Longrightarrow> ledger_ok (snd (sim_withdraw v asset amt addr))"
    by (auto simp: ledger_ok_def sim_withdraw_def Let_def tx_is_confirmed_def split: option.splits decimal_text.splits)
qed

lemma ledger_confirm: "ledger_ok v \<Longrightarrow> ledger_ok (confirm_withdrawal v txid)"
proof -
  have same: "tx_txid (if p then t\<lparr>tx_status := s\<rparr> else t) = tx_txid t" "tx_asset (if p then t\<lparr>tx_status := s\<rparr> else t) = tx_asset t"
    "tx_amount (if p then t\<lparr>tx_status := s\<rparr> else t) = tx_amount t" for p t s
    by simp_all
  show "ledger_ok v \<Longrightarrow> ledger_ok (confirm_withdrawal v txid)"
    by (simp add: ledger_ok_def confirm_withdrawal_def comp_def same)
qed

lemma ledger_ids_distinct: "ledger_ok v \<Longrightarrow> distinct (map tx_txid (sv_withdrawals v))"
  unfolding ledger_ok_def by (simp add: distinct_map inj_on_def) (metis nat_of_show_nat)

end
