(* ===== verification/Spec2Isabelle.thy ===== *)
theory Spec2Isabelle
  imports App_Planning Approval_Scenarios Live_Safety Simulated_Books
begin

text \<open>
  A verification library for the crypto arbitrage bot: its trading core, from the arithmetic on
  order books to the loop that trades unattended and the approval of configuration changes.

  \<^bold>\<open>The program.\<close> The bot watches the order books of several venues
  (\<^verbatim>\<open>app/exchanges\<close>, \<^verbatim>\<open>app/market_data\<close>), looks for three-leg
  rings on one venue (\<^verbatim>\<open>app/strategies/triangular\<close>) and for price differences
  between venues worth a blockchain transfer (\<^verbatim>\<open>app/strategies/transfer\<close>), and
  executes what clears the risk policy (\<^verbatim>\<open>app/risk\<close>) behind the interlocks
  (\<^verbatim>\<open>app/execution/guard.py\<close>). Everything it does to the outside is preceded by a
  committed record (\<^verbatim>\<open>app/storage\<close>), so that a restart can resume or escalate it.
  The services (\<^verbatim>\<open>app/services.py\<close>) put the components together; an operator
  starts and stops the automatic loop (\<^verbatim>\<open>app/auto.py\<close>,
  \<^verbatim>\<open>app/auto_controller.py\<close>) and approves changes of the configuration
  (\<^verbatim>\<open>app/agent/approval.py\<close>).

  \<^bold>\<open>Ground.\<close> \<^verbatim>\<open>Prelude\<close>: results that return or raise, insertion-ordered
  dictionaries as association lists, the theorem collections. \<^verbatim>\<open>Py_Decimal\<close>: Python's
  \<^verbatim>\<open>Decimal\<close> at 28 digits, half-even: a rational and rounded operations with their
  error bounds. \<^verbatim>\<open>Py_Strings\<close>, \<^verbatim>\<open>Py_Numbers\<close>: the string
  methods and the text form of numbers the code relies on. \<^verbatim>\<open>Py_Float\<close>: rounding to a
  double, for the prices of the simulated venue.

  \<^bold>\<open>Configuration.\<close> \<^verbatim>\<open>Settings_Model\<close> (\<^verbatim>\<open>config/settings.py\<close>):
  the sections, their bounds, the opt-ins of LIVE; loading is idempotent.

  \<^bold>\<open>Models and pricing.\<close> \<^verbatim>\<open>Domain_Models\<close>, \<^verbatim>\<open>Order_Models\<close>,
  \<^verbatim>\<open>Transfer_Models\<close>, \<^verbatim>\<open>Trade_Models\<close>: the classes of
  \<^verbatim>\<open>app/models\<close> as records and datatypes, with their computed properties.
  \<^verbatim>\<open>Order_Book_Math\<close> (\<^verbatim>\<open>market_data/order_book.py\<close>): walks of a book;
  the estimates equal the exact cost of consuming the levels. \<^verbatim>\<open>Fill_Simulator\<close>,
  \<^verbatim>\<open>Precision_Filters\<close>, \<^verbatim>\<open>Paper_Wallet\<close>
  (\<^verbatim>\<open>app/execution\<close>): paper fills within the cap, orders on the venue's grid,
  balances that never go negative.

  \<^bold>\<open>Market data.\<close> \<^verbatim>\<open>Market_Store\<close> (\<^verbatim>\<open>store.py\<close>): the
  newest snapshot per key. \<^verbatim>\<open>Exchange_Manager\<close> (\<^verbatim>\<open>manager.py\<close>,
  \<^verbatim>\<open>profiles.py\<close>): adapters and the circuit breaker, which is a function of the
  venue's history. \<^verbatim>\<open>Stream_Supervisor\<close> (\<^verbatim>\<open>streams.py\<close>): each
  task as a state machine over the shared permits; permits never leak, quarantine is justified.
  \<^verbatim>\<open>Market_Data_Service\<close> (\<^verbatim>\<open>service.py\<close>): refresh rounds and
  admission of streams over the two.

  \<^bold>\<open>Venues.\<close> \<^verbatim>\<open>Adapter_Base\<close> (\<^verbatim>\<open>base.py\<close>,
  \<^verbatim>\<open>credentials.py\<close>, \<^verbatim>\<open>registry.py\<close>, \<^verbatim>\<open>errors.py\<close>): what
  the adapters share. \<^verbatim>\<open>Simulated_Venue\<close>, \<^verbatim>\<open>Simulated_Books\<close>
  (\<^verbatim>\<open>simulated.py\<close>): the offline venue, its price band and its crossed books.
  \<^verbatim>\<open>Ccxt_Values\<close>, \<^verbatim>\<open>Ccxt_Adapter\<close> (\<^verbatim>\<open>ccxt_adapter.py\<close>):
  the parsing of what a venue answers, and the adapter over a client library that is a parameter
  (record \<open>CcxtLib\<close>). \<^verbatim>\<open>Ccxt_Safety\<close>, \<^verbatim>\<open>Ccxt_Scenarios\<close>: demo keys
  stay off production. \<^verbatim>\<open>Live_Safety\<close>: from the environment to an order at the venue.

  \<^bold>\<open>Safety of execution.\<close> \<^verbatim>\<open>Execution_Guard\<close>
  (\<^verbatim>\<open>guard.py\<close>, \<^verbatim>\<open>order_gate.py\<close>, \<^verbatim>\<open>modes.py\<close>): the
  interlocks, their persistence, and the abstract machine of two flags they refine.
  \<^verbatim>\<open>Risk\<close> (\<^verbatim>\<open>app/risk\<close>): rules, engine, exposure, day's result.
  \<^verbatim>\<open>Recovery\<close> (\<^verbatim>\<open>recovery.py\<close>): orders of unknown outcome.

  \<^bold>\<open>Transfers.\<close> \<^verbatim>\<open>Transfer_Store\<close>: the table of committed records and the
  claim of a slot. \<^verbatim>\<open>Transfer_Networks\<close>, \<^verbatim>\<open>Transfer_Planner\<close>:
  route, prices and size of a plan. \<^verbatim>\<open>Transfer_Search\<close>
  (\<^verbatim>\<open>orchestrator.py\<close>, \<^verbatim>\<open>plan\<close>): the search over assets and venues.
  \<^verbatim>\<open>Transfer_Orchestrator\<close>: every handler of
  the lifecycle, with the effects it performs in order. \<^verbatim>\<open>Transfer_Lifecycle\<close>:
  runs as a step relation over the log of effects, with a crash possible between any two; the
  contract of an effect, and what holds of every run. \<^verbatim>\<open>Transfer_Scenarios\<close>:
  concrete runs.

  \<^bold>\<open>Triangles.\<close> \<^verbatim>\<open>Triangle_Scanner\<close> (\<^verbatim>\<open>scanner.py\<close>,
  \<^verbatim>\<open>fees.py\<close>), \<^verbatim>\<open>Triangle_Executor\<close>
  (\<^verbatim>\<open>executor.py\<close>), \<^verbatim>\<open>Triangle_Safety\<close>: the rings reported are
  sound; intent first, kill switch before every leg, a final status always.
  \<^verbatim>\<open>Triangle_Scenarios\<close>: concrete cycles.

  \<^bold>\<open>Composition.\<close> \<^verbatim>\<open>App_Services\<close> (\<^verbatim>\<open>services.py\<close>,
  \<^verbatim>\<open>auto.py\<close>): starts, ticks, executions and the automatic loop over all of the
  above. \<^verbatim>\<open>App_Safety\<close>: the loop refines the transfer lifecycle and books every
  completed transfer once. \<^verbatim>\<open>App_Planning\<close>: plans found by the search and started.
  \<^verbatim>\<open>Auto_Controller\<close>: the one loop an operator can stop.
  \<^verbatim>\<open>App_Scenarios\<close>: concrete runs. \<^verbatim>\<open>Agent_Approval\<close>,
  \<^verbatim>\<open>Approval_Safety\<close>, \<^verbatim>\<open>Approval_Scenarios\<close>
  (\<^verbatim>\<open>agent/approval.py\<close>): the gates of an approval, its commits, and the
  reconciliation at the next start, crashes included.

  \<^bold>\<open>Conventions.\<close> An exception is a value: \<open>Inl e\<close> of a result. What a venue, the
  clock, an id generator or another session contributes is an argument of the model, in the
  environment records \<open>Env\<close>, \<open>ApproveEnv\<close>, \<open>CycleInputs\<close>; nothing is assumed about
  it unless a theorem says so. Error texts keep their constant leading part. Times are integers
  of microseconds, monotonic clocks rationals of milliseconds. An interface a component relies
  on is a locale, interpreted on the code's model in the theory that provides it.

  \<^bold>\<open>Bounds.\<close> No fuel is needed: the loops run over lists, or over a bound of the source
  (eight sizing passes of a ring, three queries of a recovery attempt); the automatic loop is a
  function of the list of turns it meets.

  \<^bold>\<open>Not modelled.\<close> The client library of the venues: its answers are arguments. The
  prediction-market research tools and the language-model assistant beyond approvals: I/O around
  third-party services. Telegram and command line: presentation. Kronos: a neural network in
  floating point. The redaction of free text: regular expressions of the standard library. The
  database engine: its committed rows are the model's tables.
\<close>

end
